(* ===== verification/ColumnEnum.thy ===== *)
theory ColumnEnum
  imports Main
begin

text \<open>
  The enum \<open>ColumnType\<close> of src/src/native/columns.rs, with the source's constructors.  A string is the
  list of its bytes.
\<close>

datatype (plugins only: code size) ColumnType =
    UInt8 | UInt16 | UInt32 | UInt64
  | Int8 | Int16 | Int32 | Int64
  | Int128 | UInt128 | Int256 | UInt256
  | Float32 | Float64 | BFloat16
  | Decimal32 nat nat
  | Decimal64 nat nat
  | Decimal128 nat nat
  | Decimal256 nat nat
  | String
  | FixedString nat
  | Uuid | IPv4 | IPv6
  | Date | Date32 | DateTime
  | DateTime64 nat "string option"
  | Time | Time64
  | Nullable ColumnType
  | LowCardinality ColumnType
  | Enum8 | Enum16
  | SimpleAggregateFunction ColumnType
  | Array ColumnType
  | Tuple "ColumnType list"
  | Map ColumnType ColumnType
  | Json
  | Point
  | Variant "ColumnType list"
  | NewJson
  | DynamicType

end
