(* ===== verification/Prelude.thy ===== *)
theory Prelude
  imports ColumnEnum "HOL-Library.Word" "HOL-Library.Sublist"
begin

text \<open>
  Shared ground of the development: the byte and machine-integer types, the crate's error enum
  (src/src/error.rs), results and readers with their combinators, little-endian integers, and the
  generic facts on lists that the component theories use.

  A reader is a function from the bytes the peer still has to deliver to either an error or a
  value and the bytes left; the end of the list is the end of the stream.  The target is a 64-bit
  host, so \<open>usize\<close> and \<open>u64\<close> have the same range and the crate's \<open>usize::try_from\<close> calls succeed.
\<close>

unbundle bit_operations_syntax

named_theorems rd_simps \<open>how the reader combinators run on a delivered prefix\<close>
named_theorems wire_len \<open>lengths of encoded values\<close>

type_synonym byte = "8 word"
type_synonym u64 = "64 word"

section \<open>Errors\<close>

text \<open>The kinds of operating-system error the code tells apart; the others are \<open>OtherKind\<close>.\<close>

datatype io_kind =
    ConnectionRefused | ConnectionReset | ConnectionAborted | NotConnected | BrokenPipe | TimedOutKind
  | Interrupted | UnexpectedEof | AddrNotAvailable | HostUnreachable | NetworkUnreachable | NetworkDown
  | OtherKind

text \<open>
  One constructor per message the codecs and the connection build with \<open>Error::BadResponse(format!(..))\<close>; the
  interpolated values are the arguments, so two messages are equal exactly when the texts are.  \<open>ResponseBody\<close> is the
  body of a response the HTTP client hands on.
\<close>

datatype (plugins only: code size) reason =
    VarintPastTenBytes
  | StringTooLarge nat
  | InvalidUtf8
  | InsertUnsupportedColumn string string
  | InsertTrailingBytes nat nat
  | InsertUnsupportedType ColumnType
  | InsertDictionaryTooLarge
  | InsertRowTruncated
  | NestingTooDeep
  | NoFixedWidth ColumnType
  | GlobalDictionary
  | NoDictionaryFlag
  | IndexCountMismatch nat nat
  | UnknownIndexType nat
  | IndexOutOfRange nat nat
  | OffsetOutside string nat nat nat
  | TooManyVariantArms nat
  | VariantModeUnsupported nat
  | JsonVersionUnsupported nat
  | CountAboveCap string nat nat
  | JsonPathDynamicVersion nat string
  | JsonFlatDynamicVersion nat
  | UnsupportedNestedType string
  | DynamicVersionUnsupported nat
  | BadIndexWidth nat
  | BlockRefused string nat nat
  | NumericLengthOverflow
  | Wide256LengthOverflow
  | FixedStringLengthOverflow
  | SparseCountMismatch nat nat
  | SparsePositionPast nat nat
  | SparseFixedStringOverflow
  | CannotBeSparse string
  | BlockInfoFieldOne nat
  | BlockInfoFieldTwo nat
  | BlockInfoTerminator nat
  | CustomSerializationFlag string nat
  | UnknownSerializationKind string nat
  | UnsupportedSerialization string string
  | UnknownColumnType string string
  | DecodeNestingTooDeep
  | DecodeDynamicVersion nat
  | JsonCellOverrun
  | OffsetsNotMonotonic string
  | DynamicWithoutPrefix
  | DecodeGlobalDictionary
  | DecodeNoDictionaryFlag
  | DecodeIndexCount nat nat
  | DecodeIndexType nat
  | UnknownServerPacket nat
  | UnexpectedHandshakePacket nat
  | TooManyComplexityRules nat
  | HeaderTooManyColumns nat
  | SchemaSerializationFlag string nat
  | UnexpectedMidStream nat
  | PayloadBeforeSchema nat
  | EndBeforeSchema
  | HttpBlockInfoFieldOne nat
  | HttpBlockInfoFieldTwo nat
  | HttpBlockInfoTerminator nat
  | ResponseBody string

datatype error =
    InvalidParams string
  | Network string
  | Compression string
  | Decompression string
  | RowNotFound
  | SequenceMustHaveLength
  | DeserializeAnyNotSupported
  | NotEnoughData
  | InvalidUtf8Encoding
  | InvalidTagEncoding nat
  | VariantDiscriminatorIsOutOfBound nat
  | Custom string
  | WorkerExited
  | ServerException int "string option" string "string option"
  | BadResponse reason
  | Transient string
  | Connect string
  | TimedOut
  | InvalidColumnsHeader string
  | SchemaMismatch string
  | Unsupported string
  | Dynamic dynamic_error
  | OtherIo io_kind
  | OtherText string
and dynamic_error =
    UnsupportedType string string
  | EncodingError string string
  | DynSchemaMismatch string string
  | SchemaFetch string string
  | EmptySchema string
  | Transport string error

type_synonym 'a result = "error + 'a"

text \<open>The question-mark operator: stop at the first error.\<close>

definition tri :: "'e + 'a \<Rightarrow> ('a \<Rightarrow> 'e + 'b) \<Rightarrow> 'e + 'b" where
  "tri m f = (case m of Inl e \<Rightarrow> Inl e | Inr x \<Rightarrow> f x)"

lemma tri_simps [simp]: "tri (Inl e) f = Inl e" "tri (Inr x) f = f x"
  by (simp_all add: tri_def)

lemma tri_cong [fundef_cong]:
  assumes "m = m'" "\<And>x. m' = Inr x \<Longrightarrow> f x = f' x"
  shows "tri m f = tri m' f'"
  using assms by (auto simp: tri_def split: sum.splits)

lemma tri_eq_Inr: "tri m f = Inr y \<longleftrightarrow> (\<exists>x. m = Inr x \<and> f x = Inr y)"
  by (cases m) auto

text \<open>A loop over a slice whose body may fail.\<close>

primrec each_result :: "('a \<Rightarrow> 'e + 'b) \<Rightarrow> 'a list \<Rightarrow> 'e + 'b list" where
  "each_result f [] = Inr []"
| "each_result f (x # xs) = tri (f x) (\<lambda>y. tri (each_result f xs) (\<lambda>ys. Inr (y # ys)))"

lemma each_result_cong [fundef_cong]:
  "xs = ys \<Longrightarrow> (\<And>x. x \<in> set ys \<Longrightarrow> f x = g x) \<Longrightarrow> each_result f xs = each_result g ys"
  by (induction xs arbitrary: ys) auto

lemma each_result_Inr: "(\<And>x. x \<in> set xs \<Longrightarrow> f x = Inr (g x)) \<Longrightarrow> each_result f xs = Inr (map g xs)"
  by (induction xs) auto

text \<open>A loop that threads a state through the elements of a slice.\<close>

primrec fold_result :: "('a \<Rightarrow> 's \<Rightarrow> 's result) \<Rightarrow> 'a list \<Rightarrow> 's \<Rightarrow> 's result" where
  "fold_result f [] s = Inr s"
| "fold_result f (x # xs) s = tri (f x s) (fold_result f xs)"

lemma fold_result_cong [fundef_cong]:
  "xs = ys \<Longrightarrow> s = t \<Longrightarrow> (\<And>x u. x \<in> set ys \<Longrightarrow> f x u = g x u) \<Longrightarrow>
    fold_result f xs s = fold_result g ys t"
proof (induction xs arbitrary: ys s t)
  case (Cons x xs)
  then have "f x s = g x s" "\<And>u. fold_result f xs u = fold_result g xs u" by auto
  with Cons.prems show ?case by (auto simp: tri_def split: sum.splits)
qed simp

text \<open>\<open>for _ in 0..n\<close>, threading a state.\<close>

primrec repeat_result :: "nat \<Rightarrow> ('s \<Rightarrow> 's result) \<Rightarrow> 's \<Rightarrow> 's result" where
  "repeat_result 0 f s = Inr s"
| "repeat_result (Suc n) f s = tri (f s) (repeat_result n f)"

lemma repeat_result_cong [fundef_cong]:
  "n = m \<Longrightarrow> s = t \<Longrightarrow> (\<And>u. f u = g u) \<Longrightarrow> repeat_result n f s = repeat_result m g t"
  by (induction n arbitrary: m s t) (auto simp: tri_def split: sum.splits)

section \<open>Readers\<close>

type_synonym 'a rd = "byte list \<Rightarrow> error + ('a \<times> byte list)"

definition rret :: "'a \<Rightarrow> 'a rd" where
  "rret x s = Inr (x, s)"

definition rfail :: "error \<Rightarrow> 'a rd" where
  "rfail e s = Inl e"

definition rbind :: "'a rd \<Rightarrow> ('a \<Rightarrow> 'b rd) \<Rightarrow> 'b rd" where
  "rbind m f s = (case m s of Inl e \<Rightarrow> Inl e | Inr (x, s') \<Rightarrow> f x s')"

definition rlift :: "'a result \<Rightarrow> 'a rd" where
  "rlift m s = (case m of Inl e \<Rightarrow> Inl e | Inr x \<Rightarrow> Inr (x, s))"

text \<open>\<open>AsyncReadExt::read_exact\<close>: all \<open>n\<close> bytes, or an unexpected end of file.\<close>

definition read_exact :: "nat \<Rightarrow> byte list rd" where
  "read_exact n s = (if length s < n then Inl (OtherIo UnexpectedEof) else Inr (take n s, drop n s))"

text \<open>A \<open>for\<close> loop that runs a reader \<open>n\<close> times, and one that runs a reader on every element.\<close>

primrec read_times :: "nat \<Rightarrow> 'a rd \<Rightarrow> 'a list rd" where
  "read_times 0 m = rret []"
| "read_times (Suc n) m = rbind m (\<lambda>x. rbind (read_times n m) (\<lambda>xs. rret (x # xs)))"

primrec read_each :: "('b \<Rightarrow> 'a rd) \<Rightarrow> 'b list \<Rightarrow> 'a list rd" where
  "read_each f [] = rret []"
| "read_each f (y # ys) = rbind (f y) (\<lambda>x. rbind (read_each f ys) (\<lambda>xs. rret (x # xs)))"

lemma rret_app [simp, rd_simps]: "rret x s = Inr (x, s)"
  by (simp add: rret_def)

lemma rfail_app [simp, rd_simps]: "rfail e s = Inl e"
  by (simp add: rfail_def)

lemma rlift_app [simp, rd_simps]: "rlift (Inl e) s = Inl e" "rlift (Inr x) s = Inr (x, s)"
  by (simp_all add: rlift_def)

lemma rbind_Inl: "m s = Inl e \<Longrightarrow> rbind m f s = Inl e"
  by (simp add: rbind_def)

lemma rbind_Inr: "m s = Inr (x, s') \<Longrightarrow> rbind m f s = f x s'"
  by (simp add: rbind_def)

lemma rbind_pure [simp, rd_simps]:
  "rbind (rret x) f = f x" "rbind (rfail e) f = rfail e"
  "rbind (rlift (Inl e)) f = rfail e" "rbind (rlift (Inr x)) f = f x"
  by (rule ext, simp add: rbind_def)+

lemma rbind_assoc: "rbind (rbind m f) g = rbind m (\<lambda>x. rbind (f x) g)"
  by (rule ext) (simp add: rbind_def split: sum.splits prod.splits)

lemma rbind_eq_Inr:
  "rbind m f s = Inr r \<longleftrightarrow> (\<exists>x s'. m s = Inr (x, s') \<and> f x s' = Inr r)"
  by (auto simp: rbind_def split: sum.splits prod.splits)

lemma rbind_eq_Inl:
  "rbind m f s = Inl e \<longleftrightarrow> m s = Inl e \<or> (\<exists>x s'. m s = Inr (x, s') \<and> f x s' = Inl e)"
  by (auto simp: rbind_def split: sum.splits prod.splits)

lemma rlift_eq_Inr [simp]: "rlift m s = Inr (x, s') \<longleftrightarrow> m = Inr x \<and> s' = s"
  by (cases m) auto

lemma rlift_eq_Inl [simp]: "rlift m s = Inl e \<longleftrightarrow> m = Inl e"
  by (cases m) auto

lemma read_exact_append: "length p = n \<Longrightarrow> read_exact n (p @ s) = Inr (p, s)"
  by (simp add: read_exact_def)

lemma read_exact_eq_Inr:
  "read_exact n s = Inr (p, s') \<longleftrightarrow> s = p @ s' \<and> length p = n"
  by (auto simp: read_exact_def split: if_splits)

lemma read_exact_0 [simp]: "read_exact 0 s = Inr ([], s)"
  by (simp add: read_exact_def)

lemma rbind_read_exact_append:
  "length p = n \<Longrightarrow> rbind (read_exact n) f (p @ s) = f p s"
  by (simp add: rbind_def read_exact_append)

lemma read_times_length: "read_times n m s = Inr (xs, s') \<Longrightarrow> length xs = n"
  by (induction n arbitrary: s xs s') (auto simp: rbind_eq_Inr)

lemma read_each_length: "read_each f ys s = Inr (xs, s') \<Longrightarrow> length xs = length ys"
  by (induction ys arbitrary: s xs s') (auto simp: rbind_eq_Inr)

section \<open>Wire codecs\<close>

text \<open>
  What a pair of an encoder and a reader promises: the reader gives back every admissible value
  and stops where the encoding stops.  The clients' facts are proved once here; the codecs of the
  native protocol (varints, strings, little-endian integers, whole columns) interpret it.
\<close>

locale wire_codec =
  fixes enc :: "'a \<Rightarrow> byte list"
    and dec :: "'a rd"
    and ok :: "'a \<Rightarrow> bool"
  assumes dec_enc: "ok x \<Longrightarrow> dec (enc x @ rest) = Inr (x, rest)"
begin

lemma enc_prefix_free:
  assumes "ok x" "ok y" "enc x @ r = enc y @ t"
  shows "x = y \<and> r = t"
proof -
  have "Inr (x, r) = dec (enc y @ t)"
    using dec_enc [OF assms(1), of r] unfolding assms(3) by (rule sym)
  also have "\<dots> = Inr (y, t)" using assms(2) by (rule dec_enc)
  finally show ?thesis by simp
qed

lemma enc_inj: "inj_on enc {x. ok x}"
proof (rule inj_onI)
  fix x y assume "x \<in> {x. ok x}" "y \<in> {x. ok x}" "enc x = enc y"
  then show "x = y" using enc_prefix_free [of x y "[]" "[]"] by simp
qed

lemma dec_bind: "ok x \<Longrightarrow> rbind dec f (enc x @ rest) = f x rest"
  by (simp add: rbind_def dec_enc)

lemma read_times_enc:
  "(\<And>x. x \<in> set xs \<Longrightarrow> ok x) \<Longrightarrow>
    read_times (length xs) dec (concat (map enc xs) @ rest) = Inr (xs, rest)"
proof (induction xs)
  case (Cons x xs)
  then have "read_times (length xs) dec (concat (map enc xs) @ rest) = Inr (xs, rest)" by simp
  with Cons.prems [of x] show ?case by (simp add: dec_bind rbind_Inr)
qed simp

lemma encs_inj:
  assumes "\<And>x. x \<in> set xs \<Longrightarrow> ok x" "\<And>y. y \<in> set ys \<Longrightarrow> ok y" "length xs = length ys"
    and "concat (map enc xs) @ r = concat (map enc ys) @ t"
  shows "xs = ys \<and> r = t"
proof -
  have "Inr (xs, r) = read_times (length ys) dec (concat (map enc ys) @ t)"
    using read_times_enc [of xs r, OF assms(1)] unfolding assms(3,4) by (rule sym)
  also have "\<dots> = Inr (ys, t)" using assms(2) by (rule read_times_enc)
  finally show ?thesis by simp
qed

end

section \<open>Little-endian integers\<close>

text \<open>\<open>to_le_bytes\<close> and \<open>from_le_bytes\<close> at width \<open>w\<close> bytes.\<close>

primrec le_bytes :: "nat \<Rightarrow> nat \<Rightarrow> byte list" where
  "le_bytes 0 v = []"
| "le_bytes (Suc w) v = of_nat v # le_bytes w (v div 256)"

fun le_val :: "byte list \<Rightarrow> nat" where
  "le_val [] = 0"
| "le_val (b # bs) = unat b + 256 * le_val bs"

definition read_le :: "nat \<Rightarrow> nat rd" where
  "read_le w = rbind (read_exact w) (\<lambda>bs. rret (le_val bs))"

lemma unat_byte_less [simp]: "unat (b :: byte) < 256"
  using unsigned_less [of b, where 'a = nat] by simp

lemma le_bytes_length [simp, wire_len]: "length (le_bytes w v) = w"
  by (induction w arbitrary: v) auto

lemma unat_byte_of_nat [simp]: "unat (of_nat v :: byte) = v mod 256"
  by (simp add: unat_of_nat)

lemma le_val_le_bytes: "v < 256 ^ w \<Longrightarrow> le_val (le_bytes w v) = v"
proof (induction w arbitrary: v)
  case (Suc w)
  then have "v div 256 < 256 ^ w"
    by (simp add: less_mult_imp_div_less mult.commute)
  with Suc show ?case by simp
qed simp

lemma le_val_bound: "le_val bs < 256 ^ length bs"
proof (induction bs)
  case (Cons b bs)
  have "unat b < 256" by simp
  moreover have "256 * (le_val bs + 1) \<le> 256 * 256 ^ length bs"
    using Cons by (intro mult_le_mono2) simp
  moreover have "a < 256 \<Longrightarrow> 256 * (l + 1) \<le> m \<Longrightarrow> a + 256 * l < m" for a l m :: nat
    by simp
  ultimately show ?case unfolding le_val.simps length_Cons power_Suc by blast
qed simp

lemma le_bytes_le_val: "le_bytes (length bs) (le_val bs) = bs"
proof (induction bs)
  case (Cons b bs)
  have *: "unat b < 256" by simp
  then have "(unat b + 256 * le_val bs) div 256 = le_val bs" by simp
  moreover have "of_nat (unat b + 256 * le_val bs) = b"
  proof -
    have "(256 :: byte) = 0" by simp
    then show ?thesis unfolding of_nat_add of_nat_mult of_nat_numeral by (simp only:) simp
  qed
  ultimately show ?case using Cons by simp
qed simp

lemma read_le_length: "read_le w s = Inr (v, s') \<Longrightarrow> v < 256 ^ w"
  using le_val_bound by (auto simp: read_le_def rbind_eq_Inr read_exact_eq_Inr)

interpretation le: wire_codec "le_bytes w" "read_le w" "\<lambda>v. v < 256 ^ w" for w
  by unfold_locales (simp add: read_le_def rbind_read_exact_append le_val_le_bytes)

section \<open>Decimal text\<close>

text \<open>\<open>to_string\<close> of an unsigned integer.\<close>

definition digit_char :: "nat \<Rightarrow> char" where
  "digit_char d = char_of (48 + d)"

fun show_nat :: "nat \<Rightarrow> string" where
  "show_nat n = (if n < 10 then [digit_char n] else show_nat (n div 10) @ [digit_char (n mod 10)])"

declare show_nat.simps [simp del]

lemma of_char_digit_char: "d < 10 \<Longrightarrow> of_char (digit_char d) = 48 + d"
  by (simp add: digit_char_def)

lemma show_nat_nonempty [simp]: "show_nat n \<noteq> []"
  by (subst show_nat.simps) simp

lemma show_nat_digits: "c \<in> set (show_nat n) \<Longrightarrow> \<exists>d<10. c = digit_char d"
proof (induction n rule: show_nat.induct)
  case (1 n)
  have "\<exists>d<10. digit_char (n mod 10) = digit_char d" by (rule exI [of _ "n mod 10"]) simp
  with 1 show ?case by (subst (asm) show_nat.simps) (auto split: if_splits)
qed

text \<open>The bytes of a Rust string, and the string of some bytes.\<close>

definition as_bytes :: "string \<Rightarrow> byte list" where
  "as_bytes s = map (\<lambda>c. of_nat (of_char c)) s"

definition as_string :: "byte list \<Rightarrow> string" where
  "as_string bs = map (\<lambda>b. char_of (unat b)) bs"

lemma as_bytes_length [simp, wire_len]: "length (as_bytes s) = length s"
  by (simp add: as_bytes_def)

lemma as_string_as_bytes [simp]: "as_string (as_bytes s) = s"
proof -
  have "char_of (unat (of_nat (of_char c) :: byte)) = c" for c :: char
    by (simp only: unat_byte_of_nat) simp
  then show ?thesis by (simp add: as_string_def as_bytes_def map_idI)
qed

section \<open>Lists\<close>

lemma concat_map_length_const:
  "(\<And>x. x \<in> set xs \<Longrightarrow> length (f x) = n) \<Longrightarrow> length (concat (map f xs)) = length xs * n"
  by (induction xs) auto

end
