(* ===== verification/ColumnTypes.thy ===== *)
theory ColumnTypes
  imports Prelude
begin

text \<open>
  The parser of ClickHouse type names: \<open>ColumnType::parse\<close>, \<open>fixed_size\<close> and the string helpers of
  src/src/native/columns.rs.  A Rust string
  is the list of its bytes, one \<open>char\<close> per byte of its UTF-8 form.
\<close>

section \<open>String operations of the standard library\<close>

text \<open>The Unicode white space characters, as their UTF-8 byte sequences.\<close>

definition ws_seqs :: "string list" where
  "ws_seqs =
    [[CHR 0x09], [CHR 0x0A], [CHR 0x0B], [CHR 0x0C], [CHR 0x0D], [CHR 0x20],
     [CHR 0xC2, CHR 0x85], [CHR 0xC2, CHR 0xA0], [CHR 0xE1, CHR 0x9A, CHR 0x80],
     [CHR 0xE2, CHR 0x80, CHR 0x80], [CHR 0xE2, CHR 0x80, CHR 0x81],
     [CHR 0xE2, CHR 0x80, CHR 0x82], [CHR 0xE2, CHR 0x80, CHR 0x83],
     [CHR 0xE2, CHR 0x80, CHR 0x84], [CHR 0xE2, CHR 0x80, CHR 0x85],
     [CHR 0xE2, CHR 0x80, CHR 0x86], [CHR 0xE2, CHR 0x80, CHR 0x87],
     [CHR 0xE2, CHR 0x80, CHR 0x88], [CHR 0xE2, CHR 0x80, CHR 0x89],
     [CHR 0xE2, CHR 0x80, CHR 0x8A], [CHR 0xE2, CHR 0x80, CHR 0xA8],
     [CHR 0xE2, CHR 0x80, CHR 0xA9], [CHR 0xE2, CHR 0x80, CHR 0xAF],
     [CHR 0xE2, CHR 0x81, CHR 0x9F], [CHR 0xE3, CHR 0x80, CHR 0x80]]"

function strip_seqs :: "string list \<Rightarrow> string \<Rightarrow> string" where
  "strip_seqs seqs s =
    (case find (\<lambda>w. w \<noteq> [] \<and> prefix w s) seqs of
       None \<Rightarrow> s
     | Some w \<Rightarrow> strip_seqs seqs (drop (length w) s))"
  by auto
termination strip_seqs
  by (relation "measure (\<lambda>(seqs, s). length s)") (auto simp: find_Some_iff prefix_def)

declare strip_seqs.simps [simp del]

definition trim_start :: "string \<Rightarrow> string" where
  "trim_start s = strip_seqs ws_seqs s"

definition trim_end :: "string \<Rightarrow> string" where
  "trim_end s = rev (strip_seqs (map rev ws_seqs) (rev s))"

definition trim :: "string \<Rightarrow> string" where
  "trim s = trim_end (trim_start s)"

definition trim_matches :: "char \<Rightarrow> string \<Rightarrow> string" where
  "trim_matches c s = rev (dropWhile (\<lambda>x. x = c) (rev (dropWhile (\<lambda>x. x = c) s)))"

definition strip_prefix :: "string \<Rightarrow> string \<Rightarrow> string option" where
  "strip_prefix p s = (if prefix p s then Some (drop (length p) s) else None)"

definition strip_suffix :: "string \<Rightarrow> string \<Rightarrow> string option" where
  "strip_suffix p s = (if suffix p s then Some (take (length s - length p) s) else None)"

text \<open>\<open>str::parse\<close> for an unsigned integer of maximal value \<open>m\<close>: an optional plus sign, then digits.\<close>

definition digit_val :: "char \<Rightarrow> nat option" where
  "digit_val c = (if 48 \<le> (of_char c :: nat) \<and> (of_char c :: nat) \<le> 57 then Some (of_char c - 48) else None)"

fun digits_val :: "nat \<Rightarrow> string \<Rightarrow> nat option" where
  "digits_val acc [] = Some acc"
| "digits_val acc (c # cs) = Option.bind (digit_val c) (\<lambda>d. digits_val (10 * acc + d) cs)"

definition parse_unsigned :: "nat \<Rightarrow> string \<Rightarrow> nat option" where
  "parse_unsigned m s =
    (let ds = (case strip_prefix ''+'' s of Some r \<Rightarrow> r | None \<Rightarrow> s)
     in if ds = [] then None
        else Option.bind (digits_val 0 ds) (\<lambda>n. if n \<le> m then Some n else None))"

abbreviation parse_u8 :: "string \<Rightarrow> nat option" where
  "parse_u8 \<equiv> parse_unsigned 255"

abbreviation parse_usize :: "string \<Rightarrow> nat option" where
  "parse_usize \<equiv> parse_unsigned (2 ^ 64 - 1)"

section \<open>Wire widths\<close>

definition fixed_size :: "ColumnType \<Rightarrow> nat option" where
  "fixed_size t = (case t of
     UInt8 \<Rightarrow> Some 1 | Int8 \<Rightarrow> Some 1 | Enum8 \<Rightarrow> Some 1
   | BFloat16 \<Rightarrow> Some 2 | UInt16 \<Rightarrow> Some 2 | Int16 \<Rightarrow> Some 2 | Date \<Rightarrow> Some 2 | Enum16 \<Rightarrow> Some 2
   | UInt32 \<Rightarrow> Some 4 | Int32 \<Rightarrow> Some 4 | Float32 \<Rightarrow> Some 4 | DateTime \<Rightarrow> Some 4 | Date32 \<Rightarrow> Some 4
   | Decimal32 p s \<Rightarrow> Some 4 | IPv4 \<Rightarrow> Some 4 | Time \<Rightarrow> Some 4
   | UInt64 \<Rightarrow> Some 8 | Int64 \<Rightarrow> Some 8 | Float64 \<Rightarrow> Some 8 | DateTime64 p z \<Rightarrow> Some 8
   | Decimal64 p s \<Rightarrow> Some 8 | Time64 \<Rightarrow> Some 8
   | Int128 \<Rightarrow> Some 16 | UInt128 \<Rightarrow> Some 16 | Uuid \<Rightarrow> Some 16 | IPv6 \<Rightarrow> Some 16
   | Decimal128 p s \<Rightarrow> Some 16
   | Int256 \<Rightarrow> Some 32 | UInt256 \<Rightarrow> Some 32 | Decimal256 p s \<Rightarrow> Some 32
   | FixedString n \<Rightarrow> Some n
   | _ \<Rightarrow> None)"

section \<open>The parser\<close>

definition MAX_TYPE_PARSE_DEPTH :: nat where
  "MAX_TYPE_PARSE_DEPTH = 32"

definition strip_outer :: "string \<Rightarrow> string \<Rightarrow> string option" where
  "strip_outer s name =
    Option.bind (strip_prefix name s) (\<lambda>r.
    Option.bind (strip_prefix ''('' r) (\<lambda>r'. strip_suffix '')'' r'))"

fun max_paren_depth_loop :: "nat \<Rightarrow> nat \<Rightarrow> string \<Rightarrow> nat" where
  "max_paren_depth_loop depth mx [] = mx"
| "max_paren_depth_loop depth mx (b # bs) =
    (if b = CHR ''('' then max_paren_depth_loop (depth + 1) (max mx (depth + 1)) bs
     else if b = CHR '')'' then max_paren_depth_loop (depth - 1) mx bs
     else max_paren_depth_loop depth mx bs)"

definition max_paren_depth :: "string \<Rightarrow> nat" where
  "max_paren_depth s = max_paren_depth_loop 0 0 s"

text \<open>
  The loop of \<open>split_type_args\<close>; \<open>cur\<close> is the slice from \<open>start\<close> to the current character.  The
  separators are ASCII, so stepping by bytes visits the same splits as stepping by characters.
\<close>

fun split_type_args_loop :: "nat \<Rightarrow> string \<Rightarrow> string list \<Rightarrow> string \<Rightarrow> string list" where
  "split_type_args_loop depth cur result [] =
    (let tail = trim cur in if tail \<noteq> [] then result @ [tail] else result)"
| "split_type_args_loop depth cur result (c # cs) =
    (if c = CHR ''('' then split_type_args_loop (depth + 1) (cur @ [c]) result cs
     else if c = CHR '')'' then split_type_args_loop (depth - 1) (cur @ [c]) result cs
     else if c = CHR '','' \<and> depth = 0 then split_type_args_loop depth [] (result @ [trim cur]) cs
     else split_type_args_loop depth (cur @ [c]) result cs)"

definition split_type_args :: "string \<Rightarrow> string list" where
  "split_type_args s = split_type_args_loop 0 [] [] s"

fun find_first_comma_loop :: "nat \<Rightarrow> nat \<Rightarrow> string \<Rightarrow> nat option" where
  "find_first_comma_loop i depth [] = None"
| "find_first_comma_loop i depth (c # cs) =
    (if c = CHR ''('' then find_first_comma_loop (i + 1) (depth + 1) cs
     else if c = CHR '')'' then find_first_comma_loop (i + 1) (depth - 1) cs
     else if c = CHR '','' \<and> depth = 0 then Some i
     else find_first_comma_loop (i + 1) depth cs)"

definition find_first_comma_at_depth0 :: "string \<Rightarrow> nat option" where
  "find_first_comma_at_depth0 s = find_first_comma_loop 0 0 s"

text \<open>The arms of \<open>ColumnType::parse\<close> that do not recurse.\<close>

definition parse_datetime64 :: "string \<Rightarrow> ColumnType" where
  "parse_datetime64 args_str =
    (let args = split_type_args args_str;
         precision = (case args of a # _ \<Rightarrow> (case parse_u8 (trim a) of Some p \<Rightarrow> p | None \<Rightarrow> 0) | [] \<Rightarrow> 0);
         timezone = (case args of _ # z # _ \<Rightarrow>
                       (let tz = trim_matches (CHR 0x27) (trim z) in if tz \<noteq> [] then Some tz else None)
                     | _ \<Rightarrow> None)
     in DateTime64 precision timezone)"

definition parse_scale :: "string \<Rightarrow> nat" where
  "parse_scale args = (case parse_u8 (trim args) of Some n \<Rightarrow> n | None \<Rightarrow> 0)"

definition parse_decimal :: "string \<Rightarrow> ColumnType option" where
  "parse_decimal args_str =
    (case split_type_args args_str of
       [a0, a1] \<Rightarrow>
        (case (parse_u8 (trim a0), parse_u8 (trim a1)) of
           (Some precision, Some scale) \<Rightarrow>
             Some (if precision \<le> 9 then Decimal32 precision scale
                   else if precision \<le> 18 then Decimal64 precision scale
                   else if precision \<le> 38 then Decimal128 precision scale
                   else Decimal256 precision scale)
         | _ \<Rightarrow> None)
     | _ \<Rightarrow> None)"

definition parse_simple :: "string \<Rightarrow> ColumnType option" where
  "parse_simple = map_of
    [(''Bool'', UInt8), (''UInt8'', UInt8), (''UInt16'', UInt16), (''UInt32'', UInt32),
     (''UInt64'', UInt64), (''Int8'', Int8), (''Int16'', Int16), (''Int32'', Int32),
     (''Int64'', Int64), (''Int128'', Int128), (''UInt128'', UInt128), (''Int256'', Int256),
     (''UInt256'', UInt256), (''Float32'', Float32), (''Float64'', Float64), (''BFloat16'', BFloat16),
     (''String'', String), (''UUID'', Uuid), (''IPv4'', IPv4), (''IPv6'', IPv6), (''Date'', Date),
     (''Date32'', Date32), (''DateTime'', DateTime), (''Time'', Time), (''JSON'', NewJson),
     (''Dynamic'', DynamicType), (''Object('' @ [CHR 0x27] @ ''json'' @ [CHR 0x27] @ '')'', Json),
     (''Point'', Point)]"

text \<open>\<open>iter().filter_map(f).collect()\<close>\<close>

definition collect_some :: "('a \<Rightarrow> 'b option) \<Rightarrow> 'a list \<Rightarrow> 'b list" where
  "collect_some f xs = concat (map (\<lambda>x. case f x of Some y \<Rightarrow> [y] | None \<Rightarrow> []) xs)"

lemma collect_some_cong [fundef_cong]:
  "xs = ys \<Longrightarrow> (\<And>x. x \<in> set ys \<Longrightarrow> f x = g x) \<Longrightarrow> collect_some f xs = collect_some g ys"
  by (auto simp: collect_some_def cong: map_cong)

lemma strip_seqs_length: "length (strip_seqs seqs s) \<le> length s"
proof (induction seqs s rule: strip_seqs.induct)
  case (1 seqs s)
  show ?case
  proof (cases "find (\<lambda>w. w \<noteq> [] \<and> prefix w s) seqs")
    case (Some w)
    have "strip_seqs seqs s = strip_seqs seqs (drop (length w) s)"
      using Some by (subst strip_seqs.simps) simp
    then show ?thesis using 1 [OF Some] by simp
  qed (subst strip_seqs.simps, simp)
qed

lemma trim_length: "length (trim s) \<le> length s"
proof -
  have "length (trim_end t) \<le> length t" for t
    using strip_seqs_length [of "map rev ws_seqs" "rev t"] by (simp add: trim_end_def)
  moreover have "length (trim_start s) \<le> length s"
    by (simp add: trim_start_def strip_seqs_length)
  ultimately show ?thesis unfolding trim_def by (rule order_trans)
qed

lemma strip_outer_eq_Some: "strip_outer s name = Some x \<longleftrightarrow> s = name @ ''('' @ x @ '')''"
proof
  assume "strip_outer s name = Some x"
  then show "s = name @ ''('' @ x @ '')''"
    by (auto simp: strip_outer_def strip_prefix_def strip_suffix_def prefix_def suffix_def
        bind_eq_Some_conv split: if_splits)
next
  assume "s = name @ ''('' @ x @ '')''"
  then show "strip_outer s name = Some x"
    by (simp add: strip_outer_def strip_prefix_def strip_suffix_def suffix_def)
qed

lemma strip_outer_length: "strip_outer s name = Some x \<Longrightarrow> length x < length s"
  by (simp add: strip_outer_eq_Some)

lemma split_type_args_loop_length:
  "a \<in> set (split_type_args_loop depth cur result s) \<Longrightarrow>
    a \<in> set result \<or> length a \<le> length cur + length s"
proof (induction depth cur result s rule: split_type_args_loop.induct)
  case (1 depth cur result)
  then show ?case using trim_length [of cur] by (auto simp: Let_def split: if_splits)
next
  case (2 depth cur result c cs)
  consider (opn) "c = CHR ''(''" | (cls) "c = CHR '')''" | (com) "c = CHR '',''" "depth = 0"
    | (oth) "c \<noteq> CHR ''(''" "c \<noteq> CHR '')''" "\<not> (c = CHR '','' \<and> depth = 0)" by blast
  then show ?case
  proof cases
    case com
    then show ?thesis using 2(3) 2(5) trim_length [of cur] by auto
  qed (use 2 in auto)
qed

lemma split_type_args_length: "a \<in> set (split_type_args s) \<Longrightarrow> length a \<le> length s"
  using split_type_args_loop_length [of a 0 "[]" "[]" s] by (simp add: split_type_args_def)

text \<open>
  \<open>ColumnType::parse\<close>, arm by arm in the order of the source.  \<open>parse_arm\<close> is the arm a trimmed name
  falls into, with the strings that arm goes on to parse; \<open>parse\<close> runs it.
\<close>

datatype parse_arm =
    Done "ColumnType option"
  | ArmNullable string
  | ArmLowCardinality string
  | ArmArray string
  | ArmTuple "string list"
  | ArmMap string string
  | ArmSimpleAggregate string
  | ArmVariant "string list"

definition classify_tail :: "string \<Rightarrow> parse_arm" where
  "classify_tail type_str =
    (case strip_outer type_str ''Array'' of Some inner_str \<Rightarrow> ArmArray inner_str | None \<Rightarrow>
     case strip_outer type_str ''Tuple'' of
       Some args_str \<Rightarrow> ArmTuple (split_type_args args_str) | None \<Rightarrow>
     case strip_outer type_str ''Map'' of
       Some args_str \<Rightarrow> (case split_type_args args_str of [a0, a1] \<Rightarrow> ArmMap a0 a1 | _ \<Rightarrow> Done None)
     | None \<Rightarrow>
     case strip_prefix ''SimpleAggregateFunction('' type_str of
       Some rest \<Rightarrow>
        (case find_first_comma_at_depth0 rest of
           Some comma_pos \<Rightarrow>
            (let inner_str = trim (drop (comma_pos + 1) rest)
             in ArmSimpleAggregate
                  (case strip_suffix '')'' inner_str of Some i \<Rightarrow> i | None \<Rightarrow> inner_str))
         | None \<Rightarrow> Done None)
     | None \<Rightarrow>
     case strip_outer type_str ''Variant'' of
       Some args_str \<Rightarrow> ArmVariant (split_type_args args_str) | None \<Rightarrow>
     if prefix ''Dynamic('' type_str then Done (Some DynamicType) else
     Done (parse_simple type_str))"

definition classify :: "string \<Rightarrow> parse_arm" where
  "classify type_str =
    (if max_paren_depth type_str > MAX_TYPE_PARSE_DEPTH then Done None else
     case strip_outer type_str ''Nullable'' of Some inner \<Rightarrow> ArmNullable inner | None \<Rightarrow>
     case strip_outer type_str ''LowCardinality'' of Some inner \<Rightarrow> ArmLowCardinality inner | None \<Rightarrow>
     case strip_outer type_str ''FixedString'' of
       Some n_str \<Rightarrow> Done (map_option FixedString (parse_usize n_str)) | None \<Rightarrow>
     case strip_outer type_str ''DateTime64'' of
       Some args_str \<Rightarrow> Done (Some (parse_datetime64 args_str)) | None \<Rightarrow>
     if prefix ''DateTime('' type_str then Done (Some DateTime) else
     if prefix ''Time64('' type_str then Done (Some Time64) else
     case strip_outer type_str ''Decimal32'' of
       Some args \<Rightarrow> Done (Some (Decimal32 9 (parse_scale args))) | None \<Rightarrow>
     case strip_outer type_str ''Decimal64'' of
       Some args \<Rightarrow> Done (Some (Decimal64 18 (parse_scale args))) | None \<Rightarrow>
     case strip_outer type_str ''Decimal128'' of
       Some args \<Rightarrow> Done (Some (Decimal128 38 (parse_scale args))) | None \<Rightarrow>
     case strip_outer type_str ''Decimal256'' of
       Some args \<Rightarrow> Done (Some (Decimal256 76 (parse_scale args))) | None \<Rightarrow>
     case strip_outer type_str ''Decimal'' of Some args_str \<Rightarrow> Done (parse_decimal args_str) | None \<Rightarrow>
     if prefix ''Enum8('' type_str then Done (Some Enum8) else
     if prefix ''Enum16('' type_str then Done (Some Enum16) else
     classify_tail type_str)"

fun arm_strings :: "parse_arm \<Rightarrow> string set" where
  "arm_strings (Done r) = {}"
| "arm_strings (ArmNullable i) = {i}"
| "arm_strings (ArmLowCardinality i) = {i}"
| "arm_strings (ArmArray i) = {i}"
| "arm_strings (ArmTuple as) = set as"
| "arm_strings (ArmMap a b) = {a, b}"
| "arm_strings (ArmSimpleAggregate i) = {i}"
| "arm_strings (ArmVariant as) = set as"

lemma classify_tail_length: "a \<in> arm_strings (classify_tail s) \<Longrightarrow> length a < length s"
proof -
  have inner: "length (trim (drop n r)) < length s"
    if "strip_prefix ''SimpleAggregateFunction('' s = Some r" for r n
  proof -
    have "length r < length s" using that by (auto simp: strip_prefix_def prefix_def split: if_splits)
    then show ?thesis using trim_length [of "drop n r"] by simp
  qed
  have suf: "length a < length s"
    if "strip_prefix ''SimpleAggregateFunction('' s = Some r"
      "strip_suffix '')'' (trim (drop n r)) = Some a" for r n
    using inner [OF that(1), of n] that(2) by (auto simp: strip_suffix_def split: if_splits)
  have args: "length a < length s" if "strip_outer s name = Some x" "a \<in> set (split_type_args x)" for name x
    using strip_outer_length [OF that(1)] split_type_args_length [OF that(2)] by simp
  assume a: "a \<in> arm_strings (classify_tail s)"
  have map: "a = x \<or> a = y \<Longrightarrow> strip_outer s name = Some z \<Longrightarrow> split_type_args z = [x, y] \<Longrightarrow>
      length a < length s" for x y z name
    using args [of name z] by auto
  show ?thesis using a unfolding classify_tail_def Let_def
    by (auto split: option.splits if_splits list.splits intro: strip_outer_length inner suf args map)
qed

lemma classify_length: "a \<in> arm_strings (classify s) \<Longrightarrow> length a < length s"
  unfolding classify_def
  by (auto split: option.splits if_splits intro: strip_outer_length classify_tail_length)

lemma classify_trim_length:
  "classify (trim s) = arm \<Longrightarrow> a \<in> arm_strings arm \<Longrightarrow> length a < length s"
  using classify_length [of a "trim s"] trim_length [of s] by auto

function parse :: "string \<Rightarrow> ColumnType option" where
  "parse type_str =
    (case classify (trim type_str) of
       Done r \<Rightarrow> r
     | ArmNullable inner \<Rightarrow> map_option Nullable (parse inner)
     | ArmLowCardinality inner \<Rightarrow> map_option LowCardinality (parse inner)
     | ArmArray inner_str \<Rightarrow> map_option Array (parse inner_str)
     | ArmTuple arg_strings \<Rightarrow>
        (let fields = collect_some parse arg_strings
         in if fields \<noteq> [] \<and> length fields = length arg_strings then Some (Tuple fields) else None)
     | ArmMap a0 a1 \<Rightarrow>
        (case parse a0 of None \<Rightarrow> None
         | Some k \<Rightarrow> (case parse a1 of None \<Rightarrow> None | Some v \<Rightarrow> Some (Map k v)))
     | ArmSimpleAggregate inner_str \<Rightarrow> map_option SimpleAggregateFunction (parse inner_str)
     | ArmVariant arg_strings \<Rightarrow>
        (let fields = collect_some parse arg_strings
         in if fields \<noteq> [] \<and> length fields = length arg_strings then Some (Variant fields) else None))"
  by auto
termination parse
  by (relation "measure length") (auto dest: classify_trim_length)

declare parse.simps [simp del]

end
