(* ===== verification/DynType.thy ===== *)
theory DynType
  imports ColumnTypes
begin

text \<open>
  The type parser of the dynamic insert path, src/src/dynamic/parsed_type.rs.  Unlike the parser of
  native/columns.rs it never fails: a name it does not know keeps its text and the tag \<open>TUnknown\<close>.
  A parsed type is a record with optional children, here a datatype with one selector per field.
\<close>

datatype TypeTag =
    TString | TFixedString | TUInt8 | TUInt16 | TUInt32 | TUInt64 | TUInt128 | TUInt256
  | TInt8 | TInt16 | TInt32 | TInt64 | TInt128 | TInt256 | TFloat32 | TFloat64 | TBool
  | TDate | TDate32 | TDateTime | TDateTime64 | TDecimal32 | TDecimal64 | TDecimal128 | TDecimal256
  | TUUID | TIPv4 | TIPv6 | TEnum8 | TEnum16 | TArray | TMap | TPoint | TJSON | TVariant | TDynamic
  | TUnknown

definition from_base :: "string \<Rightarrow> TypeTag" where
  "from_base base =
    (if base = ''String'' then TString
     else if base = ''FixedString'' then TFixedString
     else if base = ''UInt8'' then TUInt8 else if base = ''UInt16'' then TUInt16
     else if base = ''UInt32'' then TUInt32 else if base = ''UInt64'' then TUInt64
     else if base = ''UInt128'' then TUInt128 else if base = ''UInt256'' then TUInt256
     else if base = ''Int8'' then TInt8 else if base = ''Int16'' then TInt16
     else if base = ''Int32'' then TInt32 else if base = ''Int64'' then TInt64
     else if base = ''Int128'' then TInt128 else if base = ''Int256'' then TInt256
     else if base = ''Float32'' then TFloat32 else if base = ''Float64'' then TFloat64
     else if base = ''Bool'' then TBool
     else if base = ''Date'' then TDate else if base = ''Date32'' then TDate32
     else if base = ''DateTime'' then TDateTime else if base = ''DateTime64'' then TDateTime64
     else if base = ''Decimal32'' then TDecimal32 else if base = ''Decimal64'' then TDecimal64
     else if base = ''Decimal128'' then TDecimal128 else if base = ''Decimal256'' then TDecimal256
     else if base = ''UUID'' then TUUID else if base = ''IPv4'' then TIPv4
     else if base = ''IPv6'' then TIPv6
     else if base = ''Enum8'' then TEnum8 else if base = ''Enum16'' then TEnum16
     else if base = ''Array'' then TArray else if base = ''Map'' then TMap
     else if base = ''Point'' then TPoint
     else if base = ''JSON'' \<or> base = ''Object'' then TJSON
     else if base = ''Variant'' then TVariant else if base = ''Dynamic'' then TDynamic
     else TUnknown)"

datatype ParsedType = ParsedType
  (pt_raw: string) (pt_base: string) (pt_tag: TypeTag) (pt_nullable: bool) (pt_low_cardinality: bool)
  (pt_array_element: "ParsedType option") (pt_map_types: "(ParsedType \<times> ParsedType) option")
  (pt_precision: "nat option") (pt_scale: "nat option") (pt_timezone: "string option")
  (pt_fixed_size: "nat option")

section \<open>String helpers\<close>

text \<open>\<open>str::split(',')\<close>, and \<open>splitn(2, ',')\<close> as the first piece and what follows the comma.\<close>

fun split_commas :: "string \<Rightarrow> string \<Rightarrow> string list" where
  "split_commas cur [] = [cur]"
| "split_commas cur (c # cs) = (if c = CHR '','' then cur # split_commas [] cs else split_commas (cur @ [c]) cs)"

fun split_first :: "char \<Rightarrow> string \<Rightarrow> string \<times> string option" where
  "split_first sep [] = ([], None)"
| "split_first sep (c # cs) =
    (if c = sep then ([], Some cs) else case split_first sep cs of (a, b) \<Rightarrow> (c # a, b))"

definition extract_wrapper :: "string \<Rightarrow> string \<Rightarrow> string option" where
  "extract_wrapper type_str wrapper =
    Option.bind (strip_prefix wrapper type_str) (\<lambda>r.
    Option.bind (strip_prefix ''('' r) (strip_suffix '')''))"

definition unwrap_wrapper :: "string \<Rightarrow> string \<Rightarrow> string \<times> bool" where
  "unwrap_wrapper type_str wrapper =
    (case extract_wrapper type_str wrapper of Some inner \<Rightarrow> (inner, True) | None \<Rightarrow> (type_str, False))"

text \<open>\<open>str::find\<close> and \<open>str::rfind\<close> for one character.\<close>

fun find_char :: "char \<Rightarrow> string \<Rightarrow> nat option" where
  "find_char c [] = None"
| "find_char c (x # xs) = (if x = c then Some 0 else map_option Suc (find_char c xs))"

definition rfind_char :: "char \<Rightarrow> string \<Rightarrow> nat option" where
  "rfind_char c s = map_option (\<lambda>i. length s - Suc i) (find_char c (rev s))"

definition extract_parens :: "string \<Rightarrow> string option" where
  "extract_parens type_str =
    Option.bind (find_char (CHR ''('') type_str) (\<lambda>start.
    Option.bind (rfind_char (CHR '')'') type_str) (\<lambda>e.
      if start < e then Some (take (e - (start + 1)) (drop (start + 1) type_str)) else None))"

definition parse_decimal_base :: "string \<Rightarrow> string" where
  "parse_decimal_base type_str =
    (if prefix ''Decimal256'' type_str then ''Decimal256''
     else if prefix ''Decimal128'' type_str then ''Decimal128''
     else if prefix ''Decimal64'' type_str then ''Decimal64''
     else if prefix ''Decimal32'' type_str then ''Decimal32''
     else ''Decimal'')"

text \<open>The depth of \<open>split_type_args\<close> here is signed; \<open>passed\<close> is the part already passed.\<close>

fun split_two_loop :: "int \<Rightarrow> string \<Rightarrow> string \<Rightarrow> (string \<times> string) option" where
  "split_two_loop depth passed [] = None"
| "split_two_loop depth passed (c # cs) =
    (if c = CHR ''('' then split_two_loop (depth + 1) (passed @ [c]) cs
     else if c = CHR '')'' then split_two_loop (depth - 1) (passed @ [c]) cs
     else if c = CHR '','' \<and> depth = 0 then Some (trim passed, trim cs)
     else split_two_loop depth (passed @ [c]) cs)"

definition split_two :: "string \<Rightarrow> (string \<times> string) option" where
  "split_two inner = split_two_loop 0 [] inner"

section \<open>The parser\<close>

text \<open>The loop that removes \<open>Nullable\<close> and \<open>LowCardinality\<close>, setting the two flags.\<close>

lemma extract_wrapper_length: "extract_wrapper s w = Some r \<Longrightarrow> length r + 2 + length w \<le> length s"
  by (auto simp: extract_wrapper_def strip_prefix_def strip_suffix_def bind_eq_Some_conv prefix_def
      suffix_def split: if_splits)

function unwrap_loop :: "string \<Rightarrow> bool \<Rightarrow> bool \<Rightarrow> string \<times> bool \<times> bool" where
  "unwrap_loop type_str nullable low_cardinality =
    (case unwrap_wrapper type_str ''Nullable'' of
       (unwrapped, True) \<Rightarrow> unwrap_loop unwrapped True low_cardinality
     | (_, False) \<Rightarrow>
        (case unwrap_wrapper type_str ''LowCardinality'' of
           (unwrapped, True) \<Rightarrow> unwrap_loop unwrapped nullable True
         | (_, False) \<Rightarrow> (type_str, nullable, low_cardinality)))"
  by pat_completeness auto
termination unwrap_loop
  by (relation "measure (\<lambda>(s, n, l). length s)")
     (auto simp: unwrap_wrapper_def split: option.splits dest!: extract_wrapper_length)

declare unwrap_loop.simps [simp del]

definition unquote :: "string \<Rightarrow> string" where
  "unquote s = trim_matches (CHR 0x22) (trim_matches (CHR 0x27) (trim s))"

text \<open>
  The arms of \<open>parse_inner\<close> after the loop that build the type without recursion; \<open>mk\<close> fills in the
  fields that every arm shares.
\<close>

definition plain_type :: "string \<Rightarrow> bool \<Rightarrow> bool \<Rightarrow> string \<Rightarrow> ParsedType" where
  "plain_type raw nl lc s =
    (let mk = (\<lambda>base tag prec scl tz fs. ParsedType raw base tag nl lc None None prec scl tz fs)
     in if prefix ''DateTime64'' s then
          (case extract_wrapper s ''DateTime64'' of
             None \<Rightarrow> mk ''DateTime64'' TDateTime64 None None None None
           | Some inner \<Rightarrow>
              (case split_first (CHR '','') inner of (p, tz) \<Rightarrow>
                 mk ''DateTime64'' TDateTime64 (parse_u8 (trim p)) None (map_option unquote tz) None))
        else (case extract_wrapper s ''DateTime'' of
          Some inner \<Rightarrow> mk ''DateTime'' TDateTime None None (Some (unquote inner)) None
        | None \<Rightarrow>
        (case extract_wrapper s ''FixedString'' of
          Some inner \<Rightarrow> mk ''FixedString'' TFixedString None None None (parse_usize (trim inner))
        | None \<Rightarrow>
        if prefix ''Decimal'' s then
          (let base = parse_decimal_base s;
               (prec, scl) = (case extract_parens s of
                  None \<Rightarrow> (None, None)
                | Some inner \<Rightarrow>
                   (case split_commas [] inner of
                      [p, q] \<Rightarrow> (parse_u8 (trim p), parse_u8 (trim q))
                    | [q] \<Rightarrow> (None, parse_u8 (trim q))
                    | _ \<Rightarrow> (None, None)))
           in mk base (from_base base) prec scl None None)
        else if prefix ''Enum8'' s then mk ''Enum8'' TEnum8 None None None None
        else if prefix ''Enum16'' s then mk ''Enum16'' TEnum16 None None None None
        else if prefix ''Variant('' s then mk ''Variant'' TVariant None None None None
        else if s = ''Dynamic'' \<or> prefix ''Dynamic('' s then mk ''Dynamic'' TDynamic None None None None
        else mk s (from_base s) None None None None)))"

lemma unwrap_loop_length: "length (fst (unwrap_loop s n l)) \<le> length s"
proof (induction s n l rule: unwrap_loop.induct)
  case (1 s n l)
  then show ?case
    by (subst unwrap_loop.simps)
       (fastforce simp: unwrap_wrapper_def split: option.splits dest!: extract_wrapper_length)
qed

lemma unwrapped_length:
  assumes "(s, nl, lc) = unwrap_loop (trim (trim x)) False False"
  shows "length s \<le> length x"
  using unwrap_loop_length [of "trim (trim x)" False False] trim_length [of "trim x"] trim_length [of x]
  by (simp flip: assms)

lemma split_two_loop_length:
  "split_two_loop d passed s = Some (k, v) \<Longrightarrow> length k \<le> length passed + length s \<and> length v < length s"
proof (induction d passed s rule: split_two_loop.induct)
  case (2 d passed c cs)
  then show ?case
    using trim_length [of passed] trim_length [of cs] by (auto split: if_splits)
qed simp

lemma split_two_length: "split_two s = Some (k, v) \<Longrightarrow> length k \<le> length s \<and> length v \<le> length s"
  by (auto simp: split_two_def dest!: split_two_loop_length)

text \<open>\<open>parse\<close> and \<open>parse_inner\<close>: both trim, and the inner types are parsed with \<open>parse\<close>.\<close>

function parse_pt :: "string \<Rightarrow> ParsedType" where
  "parse_pt type_str =
    (let raw = trim type_str;
         (s, nl, lc) = unwrap_loop (trim raw) False False
     in case extract_wrapper s ''Array'' of
          Some inner \<Rightarrow>
            ParsedType raw ''Array'' TArray nl lc (Some (parse_pt inner)) None None None None None
        | None \<Rightarrow>
          (case Option.bind (extract_wrapper s ''Map'') split_two of
             Some (key, val) \<Rightarrow>
               ParsedType raw ''Map'' TMap nl lc None (Some (parse_pt key, parse_pt val)) None None None None
           | None \<Rightarrow> plain_type raw nl lc s))"
  by pat_completeness auto
termination parse_pt
  by (relation "measure length")
     (auto simp: bind_eq_Some_conv dest!: unwrapped_length extract_wrapper_length split_two_length)

declare parse_pt.simps [simp del]

section \<open>Queries\<close>

definition category :: "ParsedType \<Rightarrow> string" where
  "category pt =
    (let b = pt_base pt
     in if b \<in> {''String'', ''FixedString''} then ''String''
        else if b \<in> {''Int8'', ''Int16'', ''Int32'', ''Int64'', ''Int128'', ''Int256''} then ''Int''
        else if b \<in> {''UInt8'', ''UInt16'', ''UInt32'', ''UInt64'', ''UInt128'', ''UInt256''} then ''UInt''
        else if b \<in> {''Float32'', ''Float64''} then ''Float''
        else if b \<in> {''Decimal'', ''Decimal32'', ''Decimal64'', ''Decimal128'', ''Decimal256''} then ''Decimal''
        else if b = ''Bool'' then ''Bool''
        else if b \<in> {''Date'', ''Date32''} then ''Date''
        else if b = ''DateTime'' then ''DateTime''
        else if b = ''DateTime64'' then ''DateTime64''
        else if b = ''UUID'' then ''UUID''
        else if b = ''IPv4'' then ''IPv4''
        else if b = ''IPv6'' then ''IPv6''
        else if b = ''Array'' then ''Array''
        else if b = ''Map'' then ''Map''
        else if b \<in> {''JSON'', ''Object''} then ''JSON''
        else if b = ''Variant'' then ''Variant''
        else if b = ''Dynamic'' then ''Dynamic''
        else if b \<in> {''Enum8'', ''Enum16''} then ''Enum''
        else if b \<in> {''Point'', ''Ring'', ''Polygon'', ''MultiPolygon'', ''LineString'', ''MultiLineString''}
        then ''Geo''
        else ''Unknown'')"

definition is_numeric :: "ParsedType \<Rightarrow> bool" where
  "is_numeric pt \<longleftrightarrow> category pt \<in> {''Int'', ''UInt'', ''Float'', ''Decimal''}"

definition is_string :: "ParsedType \<Rightarrow> bool" where
  "is_string pt \<longleftrightarrow> category pt = ''String''"

definition is_datetime :: "ParsedType \<Rightarrow> bool" where
  "is_datetime pt \<longleftrightarrow> category pt \<in> {''Date'', ''DateTime'', ''DateTime64''}"

definition is_ip :: "ParsedType \<Rightarrow> bool" where
  "is_ip pt \<longleftrightarrow> category pt \<in> {''IPv4'', ''IPv6''}"

definition fixed_byte_size :: "ParsedType \<Rightarrow> nat option" where
  "fixed_byte_size pt =
    (let b = pt_base pt
     in if b \<in> {''UInt8'', ''Int8'', ''Bool'', ''Enum8''} then Some 1
        else if b \<in> {''UInt16'', ''Int16'', ''Enum16'', ''Date''} then Some 2
        else if b \<in> {''UInt32'', ''Int32'', ''Date32'', ''DateTime'', ''Float32'', ''Decimal32'', ''IPv4''}
        then Some 4
        else if b \<in> {''UInt64'', ''Int64'', ''Float64'', ''Decimal64'', ''DateTime64''} then Some 8
        else if b \<in> {''Int128'', ''UInt128'', ''Decimal128'', ''UUID'', ''IPv6''} then Some 16
        else if b \<in> {''Int256'', ''UInt256'', ''Decimal256''} then Some 32
        else if b = ''FixedString'' then pt_fixed_size pt
        else None)"

end
