(* ===== verification/WireIO.thy ===== *)
theory WireIO
  imports Prelude
begin

text \<open>
  The wire primitives of src/src/native/io.rs: the variable-length integer, the length-prefixed
  string and the chunked exact read, on a byte stream and on a slice.  The lemmas show that the
  encoder never indexes past its ten-byte buffer, that the three decoders are inverse to it, that
  the stream and slice decoders agree, and that the chunked read is an exact read.
\<close>

section \<open>Encoding\<close>

definition MAX_STRING_SIZE :: nat where
  "MAX_STRING_SIZE = 2 ^ 30"

definition VAR_UINT_MAX_BYTES :: nat where
  "VAR_UINT_MAX_BYTES = 10"

text \<open>
  The loop of \<open>encode_var_uint\<close>, over the buffer and the write position.  An index past the
  buffer panics in the source; here the result is then \<open>None\<close>.
\<close>

function encode_var_uint :: "u64 \<Rightarrow> byte list \<Rightarrow> nat \<Rightarrow> (byte list \<times> nat) option" where
  "encode_var_uint value buf pos =
    (let byte = ucast (value AND 0x7F) :: byte;
         value' = drop_bit 7 value;
         byte' = (if value' > 0 then byte OR 0x80 else byte)
     in if pos < length buf
        then (if value' = 0 then Some (buf[pos := byte'], pos + 1)
              else encode_var_uint value' (buf[pos := byte']) (pos + 1))
        else None)"
  by auto
termination encode_var_uint
  by (relation "measure (\<lambda>(value, buf, pos). length buf - pos)") auto

declare encode_var_uint.simps [simp del]

definition put_var_uint :: "u64 \<Rightarrow> byte list" where
  "put_var_uint value =
    (case encode_var_uint value (replicate VAR_UINT_MAX_BYTES 0) 0 of
       Some (buf, n) \<Rightarrow> take n buf
     | None \<Rightarrow> [])"

definition put_string :: "byte list \<Rightarrow> byte list" where
  "put_string value = put_var_uint (of_nat (length value)) @ value"

section \<open>Decoding\<close>

record VarUintDecoder =
  out :: u64
  index :: nat

definition decoder_default :: VarUintDecoder where
  "decoder_default = \<lparr> out = 0, index = 0 \<rparr>"

definition push :: "VarUintDecoder \<Rightarrow> byte \<Rightarrow> (u64 option \<times> VarUintDecoder) result" where
  "push d octet =
    (let d' = d \<lparr> out := out d OR push_bit (7 * index d) (ucast (octet AND 0x7F)),
                  index := index d + 1 \<rparr>
     in if octet AND 0x80 = 0 then Inr (Some (out d'), d')
        else if index d' = VAR_UINT_MAX_BYTES then Inl (BadResponse VarintPastTenBytes)
        else Inr (None, d'))"

text \<open>The slice decoder: the loop over \<open>bytes.iter().enumerate()\<close>, \<open>i\<close> the next position.\<close>

fun get_var_uint_loop :: "VarUintDecoder \<Rightarrow> nat \<Rightarrow> byte list \<Rightarrow> (u64 \<times> nat) result" where
  "get_var_uint_loop d i [] = Inl NotEnoughData"
| "get_var_uint_loop d i (octet # rest) =
    tri (push d octet) (\<lambda>(v, d').
      case v of Some value \<Rightarrow> Inr (value, i + 1)
      | None \<Rightarrow> get_var_uint_loop d' (i + 1) rest)"

definition get_var_uint :: "byte list \<Rightarrow> (u64 \<times> nat) result" where
  "get_var_uint bytes = get_var_uint_loop decoder_default 0 bytes"

text \<open>The stream decoder: one byte at a time with \<open>read_exact\<close>.\<close>

fun read_var_uint_loop :: "VarUintDecoder \<Rightarrow> u64 rd" where
  "read_var_uint_loop d [] = Inl (OtherIo UnexpectedEof)"
| "read_var_uint_loop d (octet # rest) =
    (case push d octet of Inl e \<Rightarrow> Inl e
     | Inr (Some value, d') \<Rightarrow> Inr (value, rest)
     | Inr (None, d') \<Rightarrow> read_var_uint_loop d' rest)"

definition read_var_uint :: "u64 rd" where
  "read_var_uint = read_var_uint_loop decoder_default"

text \<open>The stream decoder that accepts an end of file before the first byte.\<close>

definition read_var_uint_or_eof :: "u64 option rd" where
  "read_var_uint_or_eof s =
    (case s of [] \<Rightarrow> Inr (None, [])
     | first # rest \<Rightarrow>
        (case push decoder_default first of Inl e \<Rightarrow> Inl e
         | Inr (Some value, d) \<Rightarrow> Inr (Some value, rest)
         | Inr (None, d) \<Rightarrow>
            (case read_var_uint_loop d rest of Inl e \<Rightarrow> Inl e
             | Inr (value, rest') \<Rightarrow> Inr (Some value, rest'))))"

definition checked_string_len :: "u64 \<Rightarrow> u64 result" where
  "checked_string_len len =
    (if unat len > MAX_STRING_SIZE then Inl (BadResponse (StringTooLarge (unat len))) else Inr len)"

definition string_len_usize :: "u64 \<Rightarrow> nat result" where
  "string_len_usize len = tri (checked_string_len len) (\<lambda>n. Inr (unat n))"

definition READ_CHUNK :: nat where
  "READ_CHUNK = 64 * 1024"

text \<open>The \<open>while left > 0\<close> loop of \<open>read_exact_grown\<close>, with the buffer read so far.\<close>

function read_exact_grown_loop :: "nat \<Rightarrow> byte list \<Rightarrow> byte list rd" where
  "read_exact_grown_loop left buf s =
    (if left > 0 then
       (let chunk = min left READ_CHUNK
        in case read_exact chunk s of Inl e \<Rightarrow> Inl e
           | Inr (bytes, s') \<Rightarrow> read_exact_grown_loop (left - chunk) (buf @ bytes) s')
     else Inr (buf, s))"
  by auto
termination read_exact_grown_loop
  by (relation "measure (\<lambda>(left, buf, s). left)") (auto simp: READ_CHUNK_def)

declare read_exact_grown_loop.simps [simp del]

definition read_exact_grown :: "nat \<Rightarrow> byte list rd" where
  "read_exact_grown len = read_exact_grown_loop len []"

definition read_string :: "byte list rd" where
  "read_string = rbind read_var_uint (\<lambda>n. rbind (rlift (string_len_usize n)) read_exact_grown)"

section \<open>The reference encoding\<close>

text \<open>Little-endian base 128, the high bit set on every byte but the last.\<close>

fun leb128 :: "nat \<Rightarrow> byte list" where
  "leb128 v = (if v < 128 then [of_nat v] else of_nat (v mod 128 + 128) # leb128 (v div 128))"

declare leb128.simps [simp del]

section \<open>Word facts\<close>

lemma unat_and_mask: "unat (v AND mask n) = unat v mod 2 ^ n"
  by (simp only: take_bit_eq_mask [symmetric] unsigned_take_bit_eq) (simp only: take_bit_eq_mod)

lemma unat_and_7F: "unat (v AND 0x7F :: u64) = unat v mod 128" "unat (b AND 0x7F :: byte) = unat b mod 128"
proof -
  have *: "(0x7F :: u64) = mask 7" "(0x7F :: byte) = mask 7" by (simp_all add: mask_eq_exp_minus_1)
  show "unat (v AND 0x7F :: u64) = unat v mod 128" "unat (b AND 0x7F :: byte) = unat b mod 128"
    unfolding * unat_and_mask by simp_all
qed

lemma or_push_bit_nat:
  fixes x :: nat assumes "x < 2 ^ n" shows "x OR push_bit n y = x + 2 ^ n * y"
proof -
  have "take_bit n x = x" using assms by (simp add: take_bit_nat_eq_self)
  then have "\<not> bit x m \<or> \<not> bit (push_bit n y) m" for m
    by (metis bit_take_bit_iff bit_push_bit_iff linorder_not_le)
  then have "x + push_bit n y = x OR push_bit n y" by (rule disjunctive_add)
  then show ?thesis by (simp add: push_bit_eq_mult mult.commute)
qed

lemma high_bit_clear: "octet AND 0x80 = 0 \<longleftrightarrow> unat octet < 128" for octet :: byte
proof -
  have "(0x80 :: byte) = push_bit 7 1" by simp
  then have "octet AND 0x80 = 0 \<longleftrightarrow> \<not> bit octet 7"
    using bit_iff_and_push_bit_not_eq_0 [of octet 7] by simp
  also have "\<dots> \<longleftrightarrow> \<not> bit (unat octet) 7" by (simp add: bit_unsigned_iff)
  also have "\<dots> \<longleftrightarrow> even (unat octet div 128)" by (simp add: bit_iff_odd)
  also have "\<dots> \<longleftrightarrow> unat octet < 128"
  proof -
    have "unat octet < 256" by simp
    then have "unat octet div 128 < 2" by (subst div_less_iff_less_mult) auto
    then have "unat octet div 128 = 0 \<or> unat octet div 128 = 1" by linarith
    moreover have "unat octet div 128 = 0 \<longleftrightarrow> unat octet < 128" by auto
    ultimately show ?thesis by auto
  qed
  finally show ?thesis .
qed


section \<open>The encoder writes the reference encoding\<close>

lemma leb128_nonempty [simp]: "leb128 v \<noteq> []"
  by (subst leb128.simps) simp

lemma leb128_length_bound: "0 < n \<Longrightarrow> v < 128 ^ n \<Longrightarrow> length (leb128 v) \<le> n"
proof (induction v arbitrary: n rule: leb128.induct)
  case (1 v)
  show ?case
  proof (cases "v < 128")
    case True
    then show ?thesis using 1(2) by (subst leb128.simps) simp
  next
    case False
    then obtain m where n: "n = Suc m" "0 < m" using 1(2,3) by (cases n; cases "n - 1") auto
    then have "v div 128 < 128 ^ m" using 1(3) by (simp add: less_mult_imp_div_less mult.commute)
    with 1(1) [OF False n(2)] False n show ?thesis by (subst leb128.simps) simp
  qed
qed

lemma leb128_length_u64: "length (leb128 (unat (v :: u64))) \<le> VAR_UINT_MAX_BYTES"
proof -
  have "unat v < 2 ^ 64" using unsigned_less [of v, where 'a = nat] by simp
  then have "unat v < 128 ^ 10" by simp
  then show ?thesis unfolding VAR_UINT_MAX_BYTES_def by (intro leb128_length_bound) simp_all
qed

lemma byte_low: "ucast (value AND 0x7F :: u64) = (of_nat (unat value mod 128) :: byte)"
proof (rule word_unat_eq_iff [THEN iffD2])
  have "unat value mod 128 < 2 ^ 8" by (rule order.strict_trans [of _ 128]) simp_all
  then show "unat (ucast (value AND 0x7F :: u64) :: byte) = unat (of_nat (unat value mod 128) :: byte)"
    by (simp add: unsigned_ucast_eq unat_and_7F take_bit_eq_mod)
qed

lemma byte_high: "(of_nat (v mod 128) OR 0x80 :: byte) = of_nat (v mod 128 + 128)"
proof (rule word_unat_eq_iff [THEN iffD2])
  have v: "v mod 128 < 2 ^ 7" by simp
  have "unat (0x80 :: byte) = push_bit 7 1" by simp
  then have "unat (of_nat (v mod 128) OR 0x80 :: byte) = v mod 128 mod 256 OR push_bit 7 1"
    by (simp only: unsigned_or_eq unat_byte_of_nat)
  also have "v mod 128 mod 256 = v mod 128" using v by simp
  also have "v mod 128 OR push_bit 7 1 = v mod 128 + 128"
    using or_push_bit_nat [OF v, of 1] by simp
  finally show "unat (of_nat (v mod 128) OR 0x80 :: byte) = unat (of_nat (v mod 128 + 128) :: byte)"
    using v unfolding unat_byte_of_nat by simp
qed

lemma unat_shr7: "unat (drop_bit 7 (v :: u64)) = unat v div 128"
  by (simp only: unat_drop_bit_eq) (simp add: drop_bit_eq_div)

lemma encode_var_uint_leb128:
  assumes "pos + length (leb128 (unat v)) \<le> length buf"
  shows "encode_var_uint v buf pos =
    Some (take pos buf @ leb128 (unat v) @ drop (pos + length (leb128 (unat v))) buf,
          pos + length (leb128 (unat v)))"
  using assms
proof (induction v buf pos rule: encode_var_uint.induct)
  case (1 w buf pos)
  have pos: "pos < length buf"
    using 1(2) leb128_nonempty [of "unat w"] by (cases "leb128 (unat w)") auto
  show ?case
  proof (cases "unat w < 128")
    case True
    then have z: "drop_bit 7 w = 0" by (simp add: word_unat_eq_iff unat_shr7)
    have l: "leb128 (unat w) = [ucast (w AND 0x7F)]"
      using True by (subst leb128.simps) (simp add: byte_low)
    show ?thesis unfolding l
      by (subst encode_var_uint.simps) (simp add: z pos upd_conv_take_nth_drop)
  next
    case False
    then have z: "drop_bit 7 w \<noteq> 0"
      using unat_shr7 [of w] by (auto simp: div_eq_0_iff)
    let ?b = "ucast (w AND 0x7F) OR 0x80 :: byte"
    have l: "leb128 (unat w) = ?b # leb128 (unat (drop_bit 7 w))"
      using False by (subst leb128.simps) (simp add: byte_low byte_high unat_shr7)
    have gt: "drop_bit 7 w > 0" using z by (simp add: word_gt_0)
    have "encode_var_uint (drop_bit 7 w) (buf[pos := ?b]) (pos + 1) =
      Some (take (pos + 1) (buf[pos := ?b]) @ leb128 (unat (drop_bit 7 w)) @
            drop (pos + 1 + length (leb128 (unat (drop_bit 7 w)))) (buf[pos := ?b]),
            pos + 1 + length (leb128 (unat (drop_bit 7 w))))"
      using 1(1) [OF refl refl refl pos z] 1(2) gt l by simp
    moreover have "encode_var_uint w buf pos =
      encode_var_uint (drop_bit 7 w) (buf[pos := ?b]) (pos + 1)"
      by (subst encode_var_uint.simps) (simp add: z gt pos)
    ultimately show ?thesis unfolding l
      using pos by (simp add: take_Suc_conv_app_nth list_update_append)
  qed
qed

lemma put_var_uint_leb128: "put_var_uint v = leb128 (unat v)"
  using encode_var_uint_leb128 [of 0 v "replicate VAR_UINT_MAX_BYTES 0"] leb128_length_u64 [of v]
  by (simp add: put_var_uint_def)

section \<open>The decoders invert it\<close>

lemma u64_eq_of_nat: "unat w = n \<Longrightarrow> w = of_nat n" for w :: u64
  by auto

lemma push_out:
  assumes "unat a < 2 ^ (7 * i)" "unat a + 2 ^ (7 * i) * (unat octet mod 128) < 2 ^ 64"
  shows "unat (a OR push_bit (7 * i) (ucast (octet AND 0x7F :: byte)) :: u64) =
    unat a + 2 ^ (7 * i) * (unat octet mod 128)"
proof -
  have "unat (push_bit (7 * i) (ucast (octet AND 0x7F :: byte)) :: u64) =
      push_bit (7 * i) (unat octet mod 128)"
    using assms(2)
    by (simp only: unsigned_push_bit_eq unsigned_ucast_eq unat_and_7F)
       (simp add: take_bit_eq_mod push_bit_eq_mult mult.commute)
  then show ?thesis by (simp add: unsigned_or_eq or_push_bit_nat [OF assms(1)])
qed

lemma read_var_uint_loop_leb128:
  assumes "i < VAR_UINT_MAX_BYTES" "unat a < 2 ^ (7 * i)" "unat a + 2 ^ (7 * i) * v < 2 ^ 64"
  shows "read_var_uint_loop \<lparr> out = a, index = i \<rparr> (leb128 v @ rest) =
    Inr (of_nat (unat a + 2 ^ (7 * i) * v), rest)"
  using assms
proof (induction v arbitrary: a i rule: leb128.induct)
  case (1 v)
  let ?n = "2 ^ (7 * i) :: nat"
  show ?case
  proof (cases "v < 128")
    case True
    then have l: "leb128 v = [of_nat v]" by (subst leb128.simps) simp
    have u: "unat (of_nat v :: byte) = v" using True by simp
    have "unat (a OR push_bit (7 * i) (ucast (of_nat v AND 0x7F :: byte)) :: u64) = unat a + ?n * v"
      using push_out [of a i "of_nat v"] 1(3,4) True unfolding u by simp
    then have "(a OR push_bit (7 * i) (ucast (of_nat v AND 0x7F :: byte)) :: u64) =
        of_nat (unat a + ?n * v)"
      by (rule u64_eq_of_nat)
    then show ?thesis using True by (simp add: l push_def high_bit_clear u)
  next
    case False
    let ?b = "of_nat (v mod 128 + 128) :: byte"
    let ?a = "a OR push_bit (7 * i) (ucast (?b AND 0x7F)) :: u64"
    have l: "leb128 v = ?b # leb128 (v div 128)" using False by (subst leb128.simps) simp
    have b: "unat ?b = v mod 128 + 128"
      unfolding unat_byte_of_nat using mod_less_divisor [of 128 v] by simp
    have "?n * 128 \<le> ?n * v" using False by (intro mult_le_mono2) simp
    then have "?n * 128 < 2 ^ 64" using 1(4) by linarith
    then have "2 ^ (7 * i + 7) < (2 :: nat) ^ 64" by (simp add: power_add)
    then have i: "7 * i + 7 < 64" by (rule power_less_imp_less_exp [rotated]) simp
    have sum: "?n * v = ?n * (v mod 128) + 2 ^ (7 * (i + 1)) * (v div 128)"
    proof -
      have "?n * v = ?n * (v mod 128 + 128 * (v div 128))" by simp
      then show ?thesis by (simp only: distrib_left) (simp add: power_add)
    qed
    have ua: "unat ?a = unat a + ?n * (v mod 128)"
      using push_out [of a i ?b] 1(3,4) sum unfolding b by simp
    have "?n * (v mod 128) \<le> ?n * 127"
      using mod_less_divisor [of 128 v] by (intro mult_le_mono2) simp
    then have "unat a + ?n * (v mod 128) < ?n * 128" using 1(3) by linarith
    then have ua_less: "unat ?a < 2 ^ (7 * (i + 1))" unfolding ua by (simp add: power_add)
    have "push \<lparr> out = a, index = i \<rparr> ?b = Inr (None, \<lparr> out = ?a, index = i + 1 \<rparr>)"
      using i b by (simp add: push_def high_bit_clear VAR_UINT_MAX_BYTES_def)
    moreover have "read_var_uint_loop \<lparr> out = ?a, index = i + 1 \<rparr> (leb128 (v div 128) @ rest) =
        Inr (of_nat (unat ?a + 2 ^ (7 * (i + 1)) * (v div 128)), rest)"
    proof (rule 1(1) [OF False])
      show "i + 1 < VAR_UINT_MAX_BYTES" using i by (simp add: VAR_UINT_MAX_BYTES_def)
      show "unat ?a + 2 ^ (7 * (i + 1)) * (v div 128) < 2 ^ 64" using 1(4) unfolding ua sum by linarith
    qed (rule ua_less)
    ultimately show ?thesis unfolding l ua sum by (simp add: add.assoc)
  qed
qed

lemma read_var_uint_enc: "read_var_uint (put_var_uint v @ rest) = Inr (v, rest)"
  using read_var_uint_loop_leb128 [of 0 0 "unat v" rest] unsigned_less [of v, where 'a = nat]
  by (simp add: read_var_uint_def decoder_default_def put_var_uint_leb128 VAR_UINT_MAX_BYTES_def)

lemma read_exact_grown_loop_eq:
  "read_exact_grown_loop left buf s =
    (if length s < left then Inl (OtherIo UnexpectedEof) else Inr (buf @ take left s, drop left s))"
proof (induction left buf s rule: read_exact_grown_loop.induct)
  case (1 left buf s)
  show ?case
    by (subst read_exact_grown_loop.simps)
       (auto simp: 1 read_exact_def take_add [symmetric] READ_CHUNK_def Let_def min_def split: if_splits)
qed

lemma read_exact_grown_eq [simp]: "read_exact_grown n = read_exact n"
  by (rule ext) (simp add: read_exact_grown_def read_exact_grown_loop_eq read_exact_def)

lemma push_not_eof: "push d octet \<noteq> Inl (OtherIo UnexpectedEof)"
  by (simp add: push_def Let_def)

lemma read_var_uint_loop_consumes:
  "read_var_uint_loop d s = Inr (v, rest) \<Longrightarrow> length rest < length s"
  by (induction d s rule: read_var_uint_loop.induct)
     (fastforce split: sum.splits option.splits prod.splits)+

lemma get_var_uint_loop_stream:
  "get_var_uint_loop d i bytes = (case read_var_uint_loop d bytes of
     Inl e \<Rightarrow> Inl (if e = OtherIo UnexpectedEof then NotEnoughData else e)
   | Inr (v, rest) \<Rightarrow> Inr (v, i + (length bytes - length rest)))"
proof (induction d i bytes rule: get_var_uint_loop.induct)
  case (2 d i octet rest)
  show ?case
  proof (cases "push d octet")
    case (Inr r)
    then obtain v d' where r: "push d octet = Inr (v, d')" by (cases r) simp
    show ?thesis
    proof (cases v)
      case None
      with r 2 [OF r refl None] show ?thesis
        by (auto split: sum.splits dest!: read_var_uint_loop_consumes)
    qed (simp add: r)
  qed (use push_not_eof [of d octet] in auto)
qed simp

lemma read_var_uint_or_eof_Cons:
  "s \<noteq> [] \<Longrightarrow> read_var_uint_or_eof s = rbind read_var_uint (\<lambda>v. rret (Some v)) s"
  by (cases s)
     (auto simp: read_var_uint_or_eof_def read_var_uint_def rbind_def split: sum.splits option.splits)

lemma put_var_uint_nonempty [simp]: "put_var_uint v \<noteq> []"
  by (simp add: put_var_uint_leb128)

interpretation varuint: wire_codec put_var_uint read_var_uint "\<lambda>_. True"
  by unfold_locales (simp add: read_var_uint_enc)

lemma get_var_uint_enc: "get_var_uint (put_var_uint v @ rest) = Inr (v, length (put_var_uint v))"
  using read_var_uint_enc [of v rest]
  by (simp add: get_var_uint_def get_var_uint_loop_stream read_var_uint_def)

text \<open>Counts below \<open>2 ^ 64\<close> travel as varints.\<close>

abbreviation put_len :: "nat \<Rightarrow> byte list" where
  "put_len n \<equiv> put_var_uint (of_nat n)"

lemma unat_u64_of_nat: "n < 2 ^ 64 \<Longrightarrow> unat (of_nat n :: u64) = n"
  by (simp add: unat_of_nat)

lemma unat_u64_less: "unat (v :: u64) < 2 ^ 64"
  using unsigned_less [of v, where 'a = nat] by simp

lemma string_len_usize_ok:
  "n \<le> MAX_STRING_SIZE \<Longrightarrow> string_len_usize (of_nat n) = Inr n"
  by (simp add: string_len_usize_def checked_string_len_def MAX_STRING_SIZE_def unat_u64_of_nat)

lemma read_string_enc:
  "length p \<le> MAX_STRING_SIZE \<Longrightarrow> read_string (put_string p @ rest) = Inr (p, rest)"
  by (simp add: read_string_def put_string_def varuint.dec_bind string_len_usize_ok read_exact_append)

interpretation str: wire_codec put_string read_string "\<lambda>p. length p \<le> MAX_STRING_SIZE"
  by unfold_locales (rule read_string_enc)


section \<open>Properties\<close>

lemma read_var_uint_loop_prefix:
  assumes "read_var_uint_loop d s = Inr (v, rest)" "index d < VAR_UINT_MAX_BYTES"
  shows "\<exists>p. s = p @ rest \<and> 0 < length p \<and> length p + index d \<le> VAR_UINT_MAX_BYTES \<and>
    (\<forall>t. read_var_uint_loop d (p @ t) = Inr (v, t))"
  using assms
proof (induction d s rule: read_var_uint_loop.induct)
  case (2 d octet s)
  from 2(2) consider (fin) d' where "push d octet = Inr (Some v, d')" "s = rest"
    | (more) d' where "push d octet = Inr (None, d')" "read_var_uint_loop d' s = Inr (v, rest)"
    by (auto split: sum.splits option.splits)
  then show ?case
  proof cases
    case fin
    then show ?thesis using 2(3) by (intro exI [of _ "[octet]"]) simp
  next
    case more
    then have i: "index d' = index d + 1" "index d' < VAR_UINT_MAX_BYTES"
      using 2(3) by (auto simp: push_def Let_def split: if_splits)
    obtain p where "s = p @ rest" "length p + index d' \<le> VAR_UINT_MAX_BYTES"
      "\<forall>t. read_var_uint_loop d' (p @ t) = Inr (v, t)"
      using 2(1) [OF more(1) refl refl more(2) i(2)] by blast
    then show ?thesis using more i by (intro exI [of _ "octet # p"]) simp
  qed
qed simp

text \<open>
  C31: every 64-bit value written as a varint is read back by the stream decoder, by the
  end-of-file tolerant one and by the slice decoder, each stopping where the encoding stops; the
  encoder takes between one and ten bytes, so the write position never leaves its buffer.
\<close>

theorem var_uint_roundtrip:
  "read_var_uint (put_var_uint v @ rest) = Inr (v, rest) \<and>
   read_var_uint_or_eof (put_var_uint v @ rest) = Inr (Some v, rest) \<and>
   get_var_uint (put_var_uint v @ rest) = Inr (v, length (put_var_uint v)) \<and>
   encode_var_uint v (replicate VAR_UINT_MAX_BYTES 0) 0 \<noteq> None \<and>
   1 \<le> length (put_var_uint v) \<and> length (put_var_uint v) \<le> VAR_UINT_MAX_BYTES"
proof -
  have len: "1 \<le> length (put_var_uint v)" "length (put_var_uint v) \<le> VAR_UINT_MAX_BYTES"
    by (simp_all add: put_var_uint_leb128 leb128_length_u64 Suc_leI)
  have "encode_var_uint v (replicate VAR_UINT_MAX_BYTES 0) 0 \<noteq> None"
    using encode_var_uint_leb128 [of 0 v "replicate VAR_UINT_MAX_BYTES 0"] leb128_length_u64 [of v]
    by simp
  then show ?thesis
    using len by (simp add: get_var_uint_enc read_var_uint_or_eof_Cons varuint.dec_enc varuint.dec_bind)
qed

text \<open>
  A varint read takes at most ten bytes off the stream, and what it returns depends on those
  bytes alone, so a reader never runs into the value that follows.
\<close>

theorem read_var_uint_bounded:
  assumes "read_var_uint s = Inr (v, rest)"
  shows "\<exists>p. s = p @ rest \<and> 0 < length p \<and> length p \<le> VAR_UINT_MAX_BYTES \<and>
    (\<forall>t. read_var_uint (p @ t) = Inr (v, t))"
  using read_var_uint_loop_prefix [OF assms [unfolded read_var_uint_def]]
  by (simp add: read_var_uint_def decoder_default_def VAR_UINT_MAX_BYTES_def)

theorem read_var_uint_bounded_witness:
  "\<exists>p. [0xAC, 0x02, 0x07] = p @ [0x07] \<and> 0 < length p \<and> length p \<le> VAR_UINT_MAX_BYTES \<and>
    (\<forall>t. read_var_uint (p @ t) = Inr (300, t))"
proof (rule read_var_uint_bounded)
  show "read_var_uint [0xAC, 0x02, 0x07] = Inr (300, [0x07])" by code_simp
qed

text \<open>
  The slice decoder and the stream decoder agree on every input: same value and same number of
  bytes taken, same overflow error; only the report of missing bytes differs.
\<close>

theorem get_var_uint_stream:
  "get_var_uint bytes = (case read_var_uint bytes of
     Inl e \<Rightarrow> Inl (if e = OtherIo UnexpectedEof then NotEnoughData else e)
   | Inr (v, rest) \<Rightarrow> Inr (v, length bytes - length rest))"
  by (simp add: get_var_uint_def read_var_uint_def get_var_uint_loop_stream split: sum.splits)

text \<open>
  A length-prefixed string that fits the size cap is read back exactly; a longer one is refused
  from its length prefix, before any of its bytes is read.
\<close>

theorem string_roundtrip:
  assumes "length p < 2 ^ 64"
  shows "read_string (put_string p @ rest) =
    (if length p \<le> MAX_STRING_SIZE then Inr (p, rest)
     else Inl (BadResponse (StringTooLarge (length p))))"
  using assms
  by (auto simp: str.dec_enc)
     (simp add: read_string_def put_string_def varuint.dec_bind string_len_usize_def
        checked_string_len_def unat_u64_of_nat)

theorem string_roundtrip_witness:
  "read_string (put_string [0x68, 0x69] @ [0xFF]) =
    (if length [0x68, 0x69 :: byte] \<le> MAX_STRING_SIZE then Inr ([0x68, 0x69], [0xFF])
     else Inl (BadResponse (StringTooLarge (length [0x68, 0x69 :: byte]))))"
  by (rule string_roundtrip) simp

text \<open>
  Reading in chunks of 64 KiB is an exact read: the same bytes, the same rest of the stream, and
  an unexpected end of file exactly when fewer bytes than asked for arrive.
\<close>

theorem read_exact_grown_exact:
  "read_exact_grown n s =
    (if n \<le> length s then Inr (take n s, drop n s) else Inl (OtherIo UnexpectedEof))"
  by (simp add: read_exact_def)

end
