(* ===== verification/RowBinaryJson.thy ===== *)
theory RowBinaryJson
  imports WireIO ColumnTypes
begin

text \<open>
  Rendering a RowBinary cell as JSON, the second half of src/src/native/columns.rs, with what it uses of
  the standard library's formatting: integers, hexadecimal, the shortest decimal form of a float
  and the text of IP addresses.  \<open>Err(())\<close> is \<open>None\<close>.
\<close>

section \<open>Formatting\<close>

definition show_int :: "int \<Rightarrow> string" where
  "show_int i = (if i < 0 then CHR ''-'' # show_nat (nat (- i)) else show_nat (nat i))"

text \<open>\<open>iN::from_le_bytes\<close>: two's complement at the width of the slice.\<close>

definition le_signed :: "byte list \<Rightarrow> int" where
  "le_signed bs =
    (let v = le_val bs; w = 8 * length bs
     in if 2 * v \<ge> 2 ^ w then int v - 2 ^ w else int v)"

definition hex_char :: "nat \<Rightarrow> char" where
  "hex_char d = (if d < 10 then char_of (48 + d) else char_of (87 + d))"

fun show_hex :: "nat \<Rightarrow> string" where
  "show_hex n = (if n < 16 then [hex_char n] else show_hex (n div 16) @ [hex_char (n mod 16)])"

declare show_hex.simps [simp del]

text \<open>\<open>{:0wx}\<close>: at least \<open>w\<close> digits, padded with zeros.\<close>

definition hex_pad :: "nat \<Rightarrow> nat \<Rightarrow> string" where
  "hex_pad w n = (let s = show_hex n in replicate (w - length s) (CHR ''0'') @ s)"

subsection \<open>Floats\<close>

text \<open>
  A binary64 bit pattern: its sign, and its magnitude as an integer mantissa times a power of two.
  \<open>None\<close> is a NaN or an infinity.
\<close>

definition f64_finite :: "int \<Rightarrow> (bool \<times> int \<times> int) option" where
  "f64_finite bits =
    (let sign = bits div 2 ^ 63 mod 2 = 1;
         ex = bits div 2 ^ 52 mod 2048;
         frac = bits mod 2 ^ 52
     in if ex = 2047 then None
        else if ex = 0 then Some (sign, frac, -1074)
        else Some (sign, frac + 2 ^ 52, ex - 1075))"

text \<open>\<open>f64::from(f32)\<close> is exact; every binary32 magnitude but zero is a normal binary64.\<close>

function f64_normalise :: "int \<Rightarrow> int \<Rightarrow> int \<times> int" where
  "f64_normalise m e = (if 0 < m \<and> m < 2 ^ 52 then f64_normalise (2 * m) (e - 1) else (m, e))"
  by auto
termination f64_normalise
  by (relation "measure (\<lambda>(m, e). nat (2 ^ 52 - m))") auto

declare f64_normalise.simps [simp del]

definition f32_finite :: "int \<Rightarrow> (bool \<times> int \<times> int) option" where
  "f32_finite bits =
    (let sign = bits div 2 ^ 31 mod 2 = 1;
         ex = bits div 2 ^ 23 mod 256;
         frac = bits mod 2 ^ 23;
         widen = (\<lambda>m e. if m = 0 then Some (sign, 0, -1074) else Some (sign, f64_normalise m e))
     in if ex = 255 then None
        else if ex = 0 then widen frac (-149)
        else widen (frac + 2 ^ 23) (ex - 150))"

text \<open>
  The shortest decimal \<open>c * 10 ^ k\<close> that lies in the rounding interval of a non-zero magnitude, and
  among those the closest one: \<open>mant\<close>, \<open>dminus\<close>, \<open>dplus\<close> and \<open>e\<close> as the standard library's decoder sets
  them, the interval closed for an even mantissa.  The integers \<open>num\<close>, \<open>lo\<close> and \<open>hi\<close>, divided by \<open>den\<close>,
  are the value and the bounds in units of \<open>10 ^ k\<close>.  The search starts past the largest binary64 and
  reaches the exact decimal expansion at \<open>k = -1076\<close> at the latest.
\<close>

function shortest_decimal :: "bool \<Rightarrow> int \<Rightarrow> int \<Rightarrow> int \<Rightarrow> int \<Rightarrow> int \<Rightarrow> int \<times> int" where
  "shortest_decimal inclusive mant dminus dplus e k =
    (let up = 2 ^ nat e * 10 ^ nat (- k);
         den = 2 ^ nat (- e) * 10 ^ nat k;
         num = mant * up; lo = (mant - dminus) * up; hi = (mant + dplus) * up;
         inside = (\<lambda>c. if inclusive then lo \<le> c * den \<and> c * den \<le> hi else lo < c * den \<and> c * den < hi);
         c = num div den;
         down_ok = (c > 0 \<and> inside c);
         up_ok = inside (c + 1)
     in if up_ok \<and> (\<not> down_ok \<or> 2 * (num mod den) \<ge> den) then (c + 1, k)
        else if down_ok \<or> k < -1080 then (c, k)
        else shortest_decimal inclusive mant dminus dplus e (k - 1))"
  by auto
termination shortest_decimal
  by (relation "measure (\<lambda>(inclusive, mant, dminus, dplus, e, k). nat (k + 1081))") auto

declare shortest_decimal.simps [simp del]

definition f64_digits :: "int \<Rightarrow> int \<Rightarrow> int \<times> int" where
  "f64_digits m e =
    (if m < 2 ^ 52 then shortest_decimal True (2 * m) 1 1 (e - 1) 309
     else if m = 2 ^ 52 then shortest_decimal True (4 * m) 1 2 (e - 2) 309
     else shortest_decimal (even m) (2 * m) 1 1 (e - 1) 309)"

definition show_decimal :: "int \<Rightarrow> int \<Rightarrow> string" where
  "show_decimal c k =
    (let ds = show_nat (nat c); n = length ds
     in if k \<ge> 0 then ds @ replicate (nat k) (CHR ''0'')
        else let f = nat (- k)
             in if f < n then take (n - f) ds @ ''.'' @ drop (n - f) ds
                else ''0.'' @ replicate (f - n) (CHR ''0'') @ ds)"

definition format_float_json :: "(bool \<times> int \<times> int) option \<Rightarrow> string" where
  "format_float_json v =
    (case v of None \<Rightarrow> ''null''
     | Some (sign, m, e) \<Rightarrow>
        (if sign then ''-'' else []) @
        (if m = 0 then ''0'' else case f64_digits m e of (c, k) \<Rightarrow> show_decimal c k))"

subsection \<open>IP addresses\<close>

definition show_ipv4 :: "nat list \<Rightarrow> string" where
  "show_ipv4 octets =
    (case octets of
       [a, b, c, d] \<Rightarrow> show_nat a @ ''.'' @ show_nat b @ ''.'' @ show_nat c @ ''.'' @ show_nat d
     | _ \<Rightarrow> [])"

text \<open>The longest run of zero segments, the first on a tie: its start and length.\<close>

fun zero_run :: "nat \<Rightarrow> nat \<times> nat \<Rightarrow> nat \<times> nat \<Rightarrow> nat list \<Rightarrow> nat \<times> nat" where
  "zero_run i cur longest [] = longest"
| "zero_run i (start, n) longest (seg # segs) =
    (if seg = 0 then
       (let cur = (if n = 0 then i else start, n + 1)
        in zero_run (i + 1) cur (if n + 1 > snd longest then cur else longest) segs)
     else zero_run (i + 1) (0, 0) longest segs)"

fun hex_segments :: "nat list \<Rightarrow> string" where
  "hex_segments [] = []"
| "hex_segments [a] = show_hex a"
| "hex_segments (a # b # as) = show_hex a @ '':'' @ hex_segments (b # as)"

fun be_segments :: "byte list \<Rightarrow> nat list" where
  "be_segments (a # b # rest) = (256 * unat a + unat b) # be_segments rest"
| "be_segments _ = []"

definition show_ipv6 :: "byte list \<Rightarrow> string" where
  "show_ipv6 octets =
    (if take 12 octets = replicate 10 0 @ [0xFF, 0xFF]
     then ''::ffff:'' @ show_ipv4 (map unat (drop 12 octets))
     else let segs = be_segments octets; (start, n) = zero_run 0 (0, 0) (0, 0) segs
          in if n > 1 then hex_segments (take start segs) @ ''::'' @ hex_segments (drop (start + n) segs)
             else hex_segments segs)"

section \<open>JSON text\<close>

definition json_escape :: "byte \<Rightarrow> byte list" where
  "json_escape b =
    (if b = 0x22 then [0x5C, 0x22]
     else if b = 0x5C then [0x5C, 0x5C]
     else if b = 0x0A then [0x5C, 0x6E]
     else if b = 0x0D then [0x5C, 0x72]
     else if b = 0x09 then [0x5C, 0x74]
     else if unat b \<le> 0x1F then as_bytes ([CHR 0x5C] @ ''u'' @ hex_pad 4 (unat b))
     else [b])"

definition json_quote_bytes :: "byte list \<Rightarrow> byte list" where
  "json_quote_bytes bytes = [0x22] @ concat (map json_escape bytes) @ [0x22]"

definition json_null :: "byte list" where
  "json_null = as_bytes ''null''"

fun json_commas :: "byte list list \<Rightarrow> byte list" where
  "json_commas [] = []"
| "json_commas [e] = e"
| "json_commas (e # e' # es) = e @ [0x2C] @ json_commas (e' # es)"

section \<open>Cells\<close>

definition slice_var_uint :: "byte list \<Rightarrow> (u64 \<times> nat) option" where
  "slice_var_uint bytes = (case get_var_uint bytes of Inl e \<Rightarrow> None | Inr r \<Rightarrow> Some r)"

definition head :: "nat \<Rightarrow> byte list \<Rightarrow> byte list option" where
  "head n bytes = (if n \<le> length bytes then Some (take n bytes) else None)"

definition fixed_json :: "nat \<Rightarrow> (byte list \<Rightarrow> string) \<Rightarrow> byte list \<Rightarrow> (byte list \<times> nat) option" where
  "fixed_json n render bytes = map_option (\<lambda>h. (as_bytes (render h), n)) (head n bytes)"

definition hex256_json :: "byte list \<Rightarrow> string" where
  "hex256_json raw = [CHR 0x22] @ concat (map (\<lambda>b. hex_pad 2 (unat b)) (rev raw)) @ [CHR 0x22]"

definition uuid_json :: "byte list \<Rightarrow> string" where
  "uuid_json raw =
    (let hex = hex_pad 16 (le_val (take 8 raw)) @ hex_pad 16 (le_val (drop 8 raw));
         part = (\<lambda>a b. take (b - a) (drop a hex))
     in [CHR 0x22] @ part 0 8 @ ''-'' @ part 8 12 @ ''-'' @ part 12 16 @ ''-'' @ part 16 20 @ ''-'' @
        part 20 32 @ [CHR 0x22])"

definition point_json :: "byte list \<Rightarrow> string" where
  "point_json raw =
    ''['' @ format_float_json (f64_finite (int (le_val (take 8 raw)))) @ '','' @
    format_float_json (f64_finite (int (le_val (drop 8 raw)))) @ '']''"

text \<open>A length-prefixed byte run: the run and the position after it.\<close>

definition prefixed_slice :: "byte list \<Rightarrow> (byte list \<times> nat) option" where
  "prefixed_slice bytes =
    Option.bind (slice_var_uint bytes) (\<lambda>(len, hdr).
      let e = hdr + unat len
      in if e < 2 ^ 64 \<and> e \<le> length bytes then Some (take (unat len) (drop hdr bytes), e) else None)"

text \<open>The loops over array elements, tuple fields and map entries; \<open>pos\<close> is the position in the cell.\<close>

primrec json_elems ::
  "nat \<Rightarrow> (byte list \<Rightarrow> (byte list \<times> nat) option) \<Rightarrow> byte list \<Rightarrow> nat \<Rightarrow> (byte list list \<times> nat) option" where
  "json_elems 0 f bytes pos = Some ([], pos)"
| "json_elems (Suc n) f bytes pos =
    Option.bind (f (drop pos bytes)) (\<lambda>(e, consumed).
      map_option (\<lambda>(es, p). (e # es, p)) (json_elems n f bytes (pos + consumed)))"

primrec json_fields ::
  "(ColumnType \<Rightarrow> byte list \<Rightarrow> (byte list \<times> nat) option) \<Rightarrow> ColumnType list \<Rightarrow> byte list \<Rightarrow> nat \<Rightarrow>
    (byte list list \<times> nat) option" where
  "json_fields f [] bytes pos = Some ([], pos)"
| "json_fields f (t # ts) bytes pos =
    Option.bind (f t (drop pos bytes)) (\<lambda>(e, consumed).
      map_option (\<lambda>(es, p). (e # es, p)) (json_fields f ts bytes (pos + consumed)))"

definition json_entry ::
  "(byte list \<Rightarrow> (byte list \<times> nat) option) \<Rightarrow> (byte list \<Rightarrow> (byte list \<times> nat) option) \<Rightarrow> byte list \<Rightarrow>
    (byte list \<times> nat) option" where
  "json_entry fk fv bytes =
    Option.bind (fk bytes) (\<lambda>(k, kc).
      map_option (\<lambda>(v, vc). (k @ [0x3A] @ v, kc + vc)) (fv (drop kc bytes)))"

lemma json_elems_cong [fundef_cong]:
  "n = m \<Longrightarrow> (\<And>b. f b = g b) \<Longrightarrow> bytes = bytes' \<Longrightarrow> pos = pos' \<Longrightarrow>
    json_elems n f bytes pos = json_elems m g bytes' pos'"
  by (simp add: ext [of f g])

lemma json_fields_cong [fundef_cong]:
  "ts = ts' \<Longrightarrow> (\<And>t b. t \<in> set ts' \<Longrightarrow> f t b = g t b) \<Longrightarrow> bytes = bytes' \<Longrightarrow> pos = pos' \<Longrightarrow>
    json_fields f ts bytes pos = json_fields g ts' bytes' pos'"
proof (induction ts arbitrary: ts' pos pos')
  case (Cons t ts)
  then have "f t b = g t b" "json_fields f ts bytes p = json_fields g ts bytes p" for b p by auto
  then show ?case using Cons.prems by (auto split: option.splits)
qed simp

lemma json_entry_cong [fundef_cong]:
  "(\<And>b. fk b = gk b) \<Longrightarrow> (\<And>b. fv b = gv b) \<Longrightarrow> bytes = bytes' \<Longrightarrow>
    json_entry fk fv bytes = json_entry gk gv bytes'"
  by (simp add: json_entry_def)

text \<open>The arms with a fixed wire width: the width and the text of the bytes.\<close>

definition scalar_json :: "ColumnType \<Rightarrow> (nat \<times> (byte list \<Rightarrow> string)) option" where
  "scalar_json t =
    (let unsigned = (\<lambda>n. Some (n, \<lambda>h. show_nat (le_val h)));
         signed = (\<lambda>n. Some (n, \<lambda>h. show_int (le_signed h)))
     in case t of
       UInt8 \<Rightarrow> unsigned 1
     | UInt16 \<Rightarrow> unsigned 2 | Date \<Rightarrow> unsigned 2
     | UInt32 \<Rightarrow> unsigned 4 | Time \<Rightarrow> unsigned 4 | DateTime \<Rightarrow> unsigned 4
     | UInt64 \<Rightarrow> unsigned 8
     | UInt128 \<Rightarrow> unsigned 16
     | Int8 \<Rightarrow> signed 1 | Enum8 \<Rightarrow> signed 1
     | Int16 \<Rightarrow> signed 2 | Enum16 \<Rightarrow> signed 2
     | Int32 \<Rightarrow> signed 4 | Decimal32 p s \<Rightarrow> signed 4 | Date32 \<Rightarrow> signed 4
     | Int64 \<Rightarrow> signed 8 | Time64 \<Rightarrow> signed 8 | Decimal64 p s \<Rightarrow> signed 8 | DateTime64 p z \<Rightarrow> signed 8
     | Int128 \<Rightarrow> signed 16 | Decimal128 p s \<Rightarrow> signed 16
     | Int256 \<Rightarrow> Some (32, hex256_json) | UInt256 \<Rightarrow> Some (32, hex256_json)
     | Decimal256 p s \<Rightarrow> Some (32, hex256_json)
     | Float32 \<Rightarrow> Some (4, \<lambda>h. format_float_json (f32_finite (int (le_val h))))
     | Float64 \<Rightarrow> Some (8, \<lambda>h. format_float_json (f64_finite (int (le_val h))))
     | BFloat16 \<Rightarrow> Some (2, \<lambda>h. format_float_json (f32_finite (int (le_val h) * 2 ^ 16)))
     | Uuid \<Rightarrow> Some (16, uuid_json)
     | IPv4 \<Rightarrow> Some (4, \<lambda>h. [CHR 0x22] @ show_ipv4 (map unat (rev h)) @ [CHR 0x22])
     | IPv6 \<Rightarrow> Some (16, \<lambda>h. [CHR 0x22] @ show_ipv6 h @ [CHR 0x22])
     | Point \<Rightarrow> Some (16, point_json)
     | _ \<Rightarrow> None)"

function (sequential) rowbinary_to_json_inner :: "ColumnType \<Rightarrow> byte list \<Rightarrow> (byte list \<times> nat) option" where
  "rowbinary_to_json_inner col_type bytes =
    (case scalar_json col_type of
       Some (n, render) \<Rightarrow> fixed_json n render bytes
     | None \<Rightarrow>
        (if col_type = String \<or> col_type = Json then
           map_option (\<lambda>(run, e). (json_quote_bytes run, e)) (prefixed_slice bytes)
         else case col_type of
           FixedString width \<Rightarrow> map_option (\<lambda>cell. (json_quote_bytes cell, width)) (head width bytes)
         | Nullable inner \<Rightarrow>
             (case bytes of [] \<Rightarrow> None
              | b # rest \<Rightarrow>
                  if b \<noteq> 0 then Some (json_null, 1)
                  else map_option (\<lambda>(json, consumed). (json, 1 + consumed))
                         (rowbinary_to_json_inner inner rest))
         | LowCardinality inner \<Rightarrow> rowbinary_to_json_inner inner bytes
         | SimpleAggregateFunction inner \<Rightarrow> rowbinary_to_json_inner inner bytes
         | Array inner \<Rightarrow>
             Option.bind (slice_var_uint bytes) (\<lambda>(count, hdr).
               map_option (\<lambda>(es, pos). ([0x5B] @ json_commas es @ [0x5D], pos))
                 (json_elems (unat count) (rowbinary_to_json_inner inner) bytes hdr))
         | Tuple flds \<Rightarrow>
             map_option (\<lambda>(es, pos). ([0x5B] @ json_commas es @ [0x5D], pos))
               (json_fields rowbinary_to_json_inner flds bytes 0)
         | Map key_type val_type \<Rightarrow>
             Option.bind (slice_var_uint bytes) (\<lambda>(count, hdr).
               map_option (\<lambda>(es, pos). ([0x7B] @ json_commas es @ [0x7D], pos))
                 (json_elems (unat count)
                   (json_entry (rowbinary_to_json_inner key_type) (rowbinary_to_json_inner val_type))
                   bytes hdr))
         | _ \<Rightarrow> prefixed_slice bytes))"
  by pat_completeness auto
termination rowbinary_to_json_inner
  by (relation "measure (\<lambda>(col_type, bytes). size col_type)")
     (auto simp: less_Suc_eq_le size_list_estimation')

declare rowbinary_to_json_inner.simps [simp del]

definition rowbinary_to_json :: "byte list \<Rightarrow> ColumnType \<Rightarrow> byte list" where
  "rowbinary_to_json bytes col_type =
    (case rowbinary_to_json_inner col_type bytes of Some (json, consumed) \<Rightarrow> json | None \<Rightarrow> json_null)"

definition cell_to_json :: "byte list option \<Rightarrow> ColumnType \<Rightarrow> byte list" where
  "cell_to_json cell col_type = (case cell of None \<Rightarrow> json_null | Some c \<Rightarrow> rowbinary_to_json c col_type)"

end
