(* ===== verification/Floats.thy ===== *)
theory Floats
  imports RowBinaryJson "HOL-Library.Log_Nat"
begin

text \<open>
  What the dynamic encoder uses of the standard library's binary64 and binary32: rounding to nearest
  even, decimal parsing, multiplication, and whole values.  A float is its bit pattern; a finite
  magnitude is a mantissa times a power of two, as in \<open>f64_finite\<close>.
\<close>

section \<open>Rounding\<close>

definition round_even :: "int \<Rightarrow> int \<Rightarrow> int" where
  "round_even num den =
    (let q = num div den; r = num mod den
     in if 2 * r < den \<or> (2 * r = den \<and> even q) then q else q + 1)"

text \<open>The integer part of the binary logarithm of \<open>num / den\<close>, both positive.\<close>

definition log2_ratio :: "int \<Rightarrow> int \<Rightarrow> int" where
  "log2_ratio num den =
    (let k = bitlen num - bitlen den
     in if den * 2 ^ nat k \<le> num * 2 ^ nat (- k) then k else k - 1)"

text \<open>
  \<open>num / den\<close> rounded to \<open>p\<close> bits, the last of them worth \<open>2 ^ e\<close> with \<open>e\<close> between \<open>emin\<close> (subnormal)
  and \<open>emax\<close>; \<open>None\<close> when it rounds past the largest finite value.
\<close>

definition round_ratio :: "nat \<Rightarrow> int \<Rightarrow> int \<Rightarrow> int \<Rightarrow> int \<Rightarrow> (int \<times> int) option" where
  "round_ratio p emin emax num den =
    (if num = 0 then Some (0, emin)
     else let e = max emin (log2_ratio num den - (int p - 1));
              m = round_even (num * 2 ^ nat (- e)) (den * 2 ^ nat e);
              (m', e') = (if m = 2 ^ p then (2 ^ (p - 1), e + 1) else (m, e))
          in if e' > emax then None else Some (m', e'))"

section \<open>Bit patterns\<close>

definition f64_infinity :: "bool \<Rightarrow> int" where
  "f64_infinity neg = of_bool neg * 2 ^ 63 + 2047 * 2 ^ 52"

definition f64_nan :: "bool \<Rightarrow> int" where
  "f64_nan neg = of_bool neg * 2 ^ 63 + 2047 * 2 ^ 52 + 2 ^ 51"

definition f64_encode :: "bool \<Rightarrow> (int \<times> int) option \<Rightarrow> int" where
  "f64_encode neg v =
    (case v of None \<Rightarrow> f64_infinity neg
     | Some (m, e) \<Rightarrow> of_bool neg * 2 ^ 63 + (if m < 2 ^ 52 then m else (e + 1075) * 2 ^ 52 + (m - 2 ^ 52)))"

definition f32_encode :: "bool \<Rightarrow> (int \<times> int) option \<Rightarrow> int" where
  "f32_encode neg v =
    (case v of None \<Rightarrow> of_bool neg * 2 ^ 31 + 255 * 2 ^ 23
     | Some (m, e) \<Rightarrow> of_bool neg * 2 ^ 31 + (if m < 2 ^ 23 then m else (e + 150) * 2 ^ 23 + (m - 2 ^ 23)))"

definition f64_sign :: "int \<Rightarrow> bool" where
  "f64_sign bits \<longleftrightarrow> bits div 2 ^ 63 mod 2 = 1"

definition f64_is_nan :: "int \<Rightarrow> bool" where
  "f64_is_nan bits \<longleftrightarrow> bits div 2 ^ 52 mod 2048 = 2047 \<and> bits mod 2 ^ 52 \<noteq> 0"

text \<open>\<open>as f32\<close> of a finite value or an infinity: the bits, and whether the result is infinite.\<close>

definition f64_to_f32 :: "int \<Rightarrow> int \<times> bool" where
  "f64_to_f32 bits =
    (case f64_finite bits of
       None \<Rightarrow> (f32_encode (f64_sign bits) None, True)
     | Some (neg, m, e) \<Rightarrow>
        (let r = round_ratio 24 (-149) 104 (m * 2 ^ nat e) (2 ^ nat (- e))
         in (f32_encode neg r, r = None)))"

section \<open>Decimal text\<close>

definition lower :: "char \<Rightarrow> char" where
  "lower c = (if 65 \<le> (of_char c :: nat) \<and> (of_char c :: nat) \<le> 90 then char_of ((of_char c :: nat) + 32) else c)"

definition is_digit :: "char \<Rightarrow> bool" where
  "is_digit c \<longleftrightarrow> digit_val c \<noteq> None"

definition take_digits :: "string \<Rightarrow> string \<times> string" where
  "take_digits s = (takeWhile is_digit s, dropWhile is_digit s)"

definition digits_nat :: "string \<Rightarrow> nat" where
  "digits_nat ds = (case digits_val 0 ds of Some n \<Rightarrow> n | None \<Rightarrow> 0)"

definition split_sign :: "string \<Rightarrow> bool \<times> string" where
  "split_sign s = (case s of
     c # r \<Rightarrow> if c = CHR ''-'' then (True, r) else if c = CHR ''+'' then (False, r) else (False, s)
   | [] \<Rightarrow> (False, []))"

text \<open>The exponent part of a float literal: absent, or \<open>e\<close> with an optional sign and digits.\<close>

definition parse_exponent :: "string \<Rightarrow> int option" where
  "parse_exponent s = (case s of
     [] \<Rightarrow> Some 0
   | c # r \<Rightarrow>
      (if lower c = CHR ''e'' then
         (case split_sign r of (neg, ds) \<Rightarrow>
            if ds \<noteq> [] \<and> list_all is_digit ds
            then Some (if neg then - int (digits_nat ds) else int (digits_nat ds)) else None)
       else None))"

text \<open>\<open>str::parse::<f64>\<close>: the correctly rounded value of the literal.\<close>

definition parse_f64 :: "string \<Rightarrow> int option" where
  "parse_f64 s =
    (case split_sign s of (neg, r) \<Rightarrow>
      if map lower r \<in> {''inf'', ''infinity''} then Some (f64_infinity neg)
      else if map lower r = ''nan'' then Some (f64_nan neg)
      else
        (case take_digits r of (ip, r1) \<Rightarrow>
         case (case r1 of c # r2 \<Rightarrow> if c = CHR ''.'' then take_digits r2 else ([], r1) | [] \<Rightarrow> ([], [])) of
           (fp, r3) \<Rightarrow>
             if ip = [] \<and> fp = [] then None
             else Option.bind (parse_exponent r3) (\<lambda>ex.
               let c = int (digits_nat (ip @ fp)); k = ex - int (length fp)
               in Some (f64_encode neg (round_ratio 53 (-1074) 971 (c * 10 ^ nat k) (10 ^ nat (- k)))))))"

section \<open>Arithmetic\<close>

text \<open>The product of two finite values, \<open>None\<close> when it is not finite.\<close>

definition f64_times :: "bool \<times> int \<times> int \<Rightarrow> bool \<times> int \<times> int \<Rightarrow> (bool \<times> int \<times> int) option" where
  "f64_times a b =
    (case (a, b) of ((na, ma, ea), (nb, mb, eb)) \<Rightarrow>
      map_option (\<lambda>(m, e). (na \<noteq> nb, m, e))
        (round_ratio 53 (-1074) 971 (ma * mb * 2 ^ nat (ea + eb)) (2 ^ nat (- (ea + eb)))))"

text \<open>\<open>f64::round\<close>, halves away from zero, as an integer.\<close>

definition f64_round :: "bool \<times> int \<times> int \<Rightarrow> int" where
  "f64_round v = (case v of (neg, m, e) \<Rightarrow>
    (let num = m * 2 ^ nat e; den = 2 ^ nat (- e); q = (2 * num + den) div (2 * den)
     in if neg then - q else q))"

text \<open>The integer a finite value equals, if it is whole (\<open>fract() == 0.0\<close>).\<close>

definition f64_whole :: "int \<Rightarrow> int option" where
  "f64_whole bits =
    (case f64_finite bits of
       None \<Rightarrow> None
     | Some (neg, m, e) \<Rightarrow>
        (let num = m * 2 ^ nat e; den = 2 ^ nat (- e)
         in if num mod den = 0 then Some (if neg then - (num div den) else num div den) else None))"

end
