(* ===== verification/DynEncode.thy ===== *)
theory DynEncode
  imports DynType Floats
begin

text \<open>
  The dynamic RowBinary encoder, src/src/dynamic/encode.rs: a JSON row and a resolved column schema
  to RowBinary bytes, with the coercions of dates, decimals, enums, UUIDs and IP addresses.

  The source appends to a buffer and leaves a partial row behind on an error, which its callers
  drop; here an encoder returns the bytes it appends or the error.  A column name is carried for the
  error messages only.
\<close>

section \<open>JSON values\<close>

text \<open>
  A number of the JSON library, by the four observations the encoder makes of it: its value as an
  unsigned and as a signed 64-bit integer, the bits of its binary64 value, and its text.
\<close>

record number =
  as_u64_of :: "nat option"
  as_i64_of :: "int option"
  as_f64_of :: "int option"
  num_text :: string

datatype Value =
    Null
  | Bool bool
  | Number number
  | Str string
  | Arr "Value list"
  | Object "(string \<times> Value) list"

text \<open>
  What the encoder calls and this repository does not define: the JSON library's two printers, and
  the two floating point results the language leaves open (\<open>10f64.powi(n)\<close>, and which NaN a
  narrowing cast gives).
\<close>

record platform =
  to_text :: "Value \<Rightarrow> string"
  to_writer :: "Value \<Rightarrow> string + byte list"
  powi10 :: "nat \<Rightarrow> int"
  nan_to_f32 :: "int \<Rightarrow> int"

type_synonym 'a dres = "dynamic_error + 'a"

definition JSON_ARRAY_WRAPPER_KEY :: string where
  "JSON_ARRAY_WRAPPER_KEY = ''_values''"

definition enc_err :: "string \<Rightarrow> string \<Rightarrow> dynamic_error" where
  "enc_err col msg = EncodingError col msg"

definition unsupported :: "string \<Rightarrow> ParsedType \<Rightarrow> dynamic_error" where
  "unsupported col pt = UnsupportedType col (pt_raw pt)"

definition ok_or :: "'a option \<Rightarrow> dynamic_error \<Rightarrow> 'a dres" where
  "ok_or x e = (case x of Some v \<Rightarrow> Inr v | None \<Rightarrow> Inl e)"

definition or_else :: "'a option \<Rightarrow> 'a option \<Rightarrow> 'a option" where
  "or_else a b = (case a of Some x \<Rightarrow> Some x | None \<Rightarrow> b)"

text \<open>\<open>str::parse\<close> for a signed integer between \<open>lo\<close> and \<open>hi\<close>.\<close>

definition parse_signed :: "int \<Rightarrow> int \<Rightarrow> string \<Rightarrow> int option" where
  "parse_signed lo hi s =
    (case split_sign s of (neg, ds) \<Rightarrow>
      if ds = [] then None
      else Option.bind (digits_val 0 ds) (\<lambda>n.
        let i = (if neg then - int n else int n) in if lo \<le> i \<and> i \<le> hi then Some i else None))"

abbreviation parse_i64 :: "string \<Rightarrow> int option" where
  "parse_i64 \<equiv> parse_signed (- (2 ^ 63)) (2 ^ 63 - 1)"

abbreviation parse_i128 :: "string \<Rightarrow> int option" where
  "parse_i128 \<equiv> parse_signed (- (2 ^ 127)) (2 ^ 127 - 1)"

abbreviation parse_i32 :: "string \<Rightarrow> int option" where
  "parse_i32 \<equiv> parse_signed (- (2 ^ 31)) (2 ^ 31 - 1)"

abbreviation parse_u32 :: "string \<Rightarrow> nat option" where
  "parse_u32 \<equiv> parse_unsigned (2 ^ 32 - 1)"

abbreviation parse_u64 :: "string \<Rightarrow> nat option" where
  "parse_u64 \<equiv> parse_unsigned (2 ^ 64 - 1)"

abbreviation parse_u128 :: "string \<Rightarrow> nat option" where
  "parse_u128 \<equiv> parse_unsigned (2 ^ 128 - 1)"

section \<open>Scalar coercions\<close>

text \<open>\<open>narrow\<close>: the target range is \<open>lo\<close> to \<open>hi\<close>.\<close>

definition narrow :: "int \<Rightarrow> int \<Rightarrow> int \<Rightarrow> string \<Rightarrow> string \<Rightarrow> int dres" where
  "narrow lo hi v col ty =
    (if lo \<le> v \<and> v \<le> hi then Inr v else Inl (enc_err col (ty @ '' value out of range'')))"

definition value_to_str :: "platform \<Rightarrow> Value \<Rightarrow> string" where
  "value_to_str env v = (case v of
     Str s \<Rightarrow> s
   | Number n \<Rightarrow> num_text n
   | Bool b \<Rightarrow> if b then ''true'' else ''false''
   | Null \<Rightarrow> []
   | other \<Rightarrow> to_text env other)"

definition whole_f64_as_u64 :: "int \<Rightarrow> nat option" where
  "whole_f64_as_u64 v =
    Option.bind (f64_whole v) (\<lambda>i. if 0 \<le> i \<and> i < 2 ^ 64 then Some (nat i) else None)"

definition whole_f64_as_i64 :: "int \<Rightarrow> int option" where
  "whole_f64_as_i64 v =
    Option.bind (f64_whole v) (\<lambda>i. if - (2 ^ 63) \<le> i \<and> i < 2 ^ 63 then Some i else None)"

definition int_as_u64 :: "int \<Rightarrow> nat option" where
  "int_as_u64 i = (if 0 \<le> i then Some (nat i) else None)"

definition nat_as_i64 :: "nat \<Rightarrow> int option" where
  "nat_as_i64 n = (if n < 2 ^ 63 then Some (int n) else None)"

definition as_u64 :: "Value \<Rightarrow> string \<Rightarrow> nat dres" where
  "as_u64 v col = (case v of
     Number n \<Rightarrow>
       ok_or (or_else (as_u64_of n) (or_else (Option.bind (as_i64_of n) int_as_u64)
                (Option.bind (as_f64_of n) whole_f64_as_u64)))
         (enc_err col ''not a valid unsigned integer'')
   | Bool b \<Rightarrow> Inr (of_bool b)
   | Str s \<Rightarrow> ok_or (parse_u64 (trim s)) (enc_err col ''string not parseable as u64'')
   | _ \<Rightarrow> Inl (enc_err col ''expected number''))"

definition as_i64 :: "Value \<Rightarrow> string \<Rightarrow> int dres" where
  "as_i64 v col = (case v of
     Number n \<Rightarrow>
       ok_or (or_else (as_i64_of n) (or_else (Option.bind (as_u64_of n) nat_as_i64)
                (Option.bind (as_f64_of n) whole_f64_as_i64)))
         (enc_err col ''not a valid integer'')
   | Bool b \<Rightarrow> Inr (of_bool b)
   | Str s \<Rightarrow> ok_or (parse_i64 (trim s)) (enc_err col ''string not parseable as i64'')
   | _ \<Rightarrow> Inl (enc_err col ''expected number''))"

definition as_u128 :: "Value \<Rightarrow> string \<Rightarrow> nat dres" where
  "as_u128 v col = (case v of
     Number n \<Rightarrow>
       ok_or (or_else (as_u64_of n) (Option.bind (as_i64_of n) int_as_u64)) (enc_err col ''not a valid u128'')
   | Bool b \<Rightarrow> Inr (of_bool b)
   | Str s \<Rightarrow> ok_or (parse_u128 (trim s)) (enc_err col ''string not parseable as u128'')
   | _ \<Rightarrow> Inl (enc_err col ''expected number''))"

definition as_i128 :: "Value \<Rightarrow> string \<Rightarrow> int dres" where
  "as_i128 v col = (case v of
     Number n \<Rightarrow>
       ok_or (or_else (as_i64_of n) (map_option int (as_u64_of n))) (enc_err col ''not a valid i128'')
   | Bool b \<Rightarrow> Inr (of_bool b)
   | Str s \<Rightarrow> ok_or (parse_i128 (trim s)) (enc_err col ''string not parseable as i128'')
   | _ \<Rightarrow> Inl (enc_err col ''expected number''))"

definition as_f64 :: "Value \<Rightarrow> string \<Rightarrow> int dres" where
  "as_f64 v col = (case v of
     Number n \<Rightarrow> ok_or (as_f64_of n) (enc_err col ''not a valid float'')
   | Str s \<Rightarrow> ok_or (parse_f64 (trim s)) (enc_err col ''string not parseable as f64'')
   | _ \<Rightarrow> Inl (enc_err col ''expected number''))"

definition as_bool :: "Value \<Rightarrow> string \<Rightarrow> bool dres" where
  "as_bool v col = (case v of
     Bool b \<Rightarrow> Inr b
   | Number n \<Rightarrow>
       ok_or (map_option (\<lambda>i. i \<noteq> 0)
               (or_else (as_i64_of n) (or_else (Option.bind (as_u64_of n) nat_as_i64)
                 (Option.bind (as_f64_of n) whole_f64_as_i64))))
         (enc_err col ''number not parseable as bool'')
   | Str s \<Rightarrow>
       (let t = map lower (trim s)
        in if t \<in> {''true'', ''yes'', ''1''} then Inr True
           else if t \<in> {''false'', ''no'', ''0'', []} then Inr False
           else Inl (enc_err col ''string not parseable as bool''))
   | Null \<Rightarrow> Inr False
   | _ \<Rightarrow> Inl (enc_err col ''expected bool''))"

text \<open>\<open>to_le_bytes\<close> of a signed integer at \<open>w\<close> bytes.\<close>

definition signed_bytes :: "nat \<Rightarrow> int \<Rightarrow> byte list" where
  "signed_bytes w i = le_bytes w (nat (i mod 2 ^ (8 * w)))"

definition i128_to_i256_le :: "int \<Rightarrow> byte list" where
  "i128_to_i256_le v = signed_bytes 16 v @ replicate 16 (if v < 0 then 0xFF else 0)"

definition u128_to_u256_le :: "nat \<Rightarrow> byte list" where
  "u128_to_u256_le v = le_bytes 16 v @ replicate 16 0"

definition as_i256_le :: "Value \<Rightarrow> string \<Rightarrow> byte list dres" where
  "as_i256_le v col = tri (as_i128 v col) (\<lambda>i. Inr (i128_to_i256_le i))"

definition as_u256_le :: "Value \<Rightarrow> string \<Rightarrow> byte list dres" where
  "as_u256_le v col = tri (as_u128 v col) (\<lambda>n. Inr (u128_to_u256_le n))"

section \<open>Decimals\<close>

definition decimal_tag_for_precision :: "nat \<Rightarrow> TypeTag" where
  "decimal_tag_for_precision precision =
    (if precision \<le> 9 then TDecimal32 else if precision \<le> 18 then TDecimal64
     else if precision \<le> 38 then TDecimal128 else TDecimal256)"

definition checked_i128 :: "int \<Rightarrow> int option" where
  "checked_i128 i = (if - (2 ^ 127) \<le> i \<and> i \<le> 2 ^ 127 - 1 then Some i else None)"

text \<open>The loop over \<open>0..scale\<close>: the next digit of the fraction, or zero past its end.\<close>

fun scale_digits :: "nat \<Rightarrow> string \<Rightarrow> int \<Rightarrow> int option" where
  "scale_digits 0 fr acc = Some acc"
| "scale_digits (Suc k) fr acc =
    (let digit = (case fr of [] \<Rightarrow> 0 | c # _ \<Rightarrow> int (of_char c) - 48)
     in Option.bind (checked_i128 (acc * 10)) (\<lambda>a.
        Option.bind (checked_i128 (a + digit)) (\<lambda>a'. scale_digits k (tl fr) a')))"

definition decimal_from_text :: "string \<Rightarrow> nat \<Rightarrow> int option" where
  "decimal_from_text txt scl =
    (if txt = [] then None
     else case split_sign txt of (negative, digits) \<Rightarrow>
      (case (case split_first (CHR ''.'') digits of (a, None) \<Rightarrow> (digits, []) | (a, Some b) \<Rightarrow> (a, b)) of
         (int_part, frac_part) \<Rightarrow>
          if int_part = [] \<and> frac_part = [] then None
          else if \<not> list_all is_digit int_part then None
          else if \<not> list_all is_digit frac_part then None
          else
            Option.bind (if int_part = [] then Some 0 else parse_i128 int_part) (\<lambda>acc0.
            Option.bind (scale_digits scl frac_part acc0) (\<lambda>acc.
            Option.bind (if scl < length frac_part \<and> (of_char (frac_part ! scl) :: nat) \<ge> 53
                         then checked_i128 (acc + 1) else Some acc) (\<lambda>acc'.
              if negative then checked_i128 (- acc') else Some acc')))))"

definition I128_BOUND :: int where
  "I128_BOUND = 2 ^ 127"

text \<open>A finite value compared with an integer bound: \<open>v >= b\<close>.\<close>

definition f64_ge :: "bool \<times> int \<times> int \<Rightarrow> int \<Rightarrow> bool" where
  "f64_ge v b = (case v of (neg, m, e) \<Rightarrow>
    (if neg then - m else m) * 2 ^ nat e \<ge> b * 2 ^ nat (- e))"

definition decimal_backing_i128 :: "platform \<Rightarrow> Value \<Rightarrow> nat \<Rightarrow> string \<Rightarrow> int dres" where
  "decimal_backing_i128 env v scl col =
    tri (case v of
           Number n \<Rightarrow> Inr (num_text n)
         | Str s \<Rightarrow> Inr (trim s)
         | Bool b \<Rightarrow> Inr (if b then ''1'' else ''0'')
         | _ \<Rightarrow> Inl (enc_err col ''expected decimal number'')) (\<lambda>txt.
      case decimal_from_text txt scl of
        Some backing \<Rightarrow> Inr backing
      | None \<Rightarrow>
         (let digits = dropWhile (\<lambda>c. c \<in> {CHR ''+'', CHR ''-''}) txt
          in if list_ex is_digit digits \<and> list_all (\<lambda>b. is_digit b \<or> b = CHR ''.'') digits
             then Inl (enc_err col ''decimal out of range'')
             else tri (ok_or (parse_f64 txt) (enc_err col ''not parseable as a decimal'')) (\<lambda>f.
               case Option.bind (f64_finite f) (\<lambda>a. Option.bind (f64_finite (powi10 env scl)) (f64_times a)) of
                 None \<Rightarrow> Inl (enc_err col ''decimal out of range after scaling'')
               | Some scaled \<Rightarrow>
                   if f64_ge scaled I128_BOUND \<or> \<not> f64_ge scaled (- I128_BOUND)
                   then Inl (enc_err col ''decimal out of range after scaling'')
                   else Inr (f64_round scaled))))"

section \<open>Dates and times\<close>

text \<open>Integer division of the machine truncates towards zero.\<close>

definition quot :: "int \<Rightarrow> int \<Rightarrow> int" where
  "quot a b = (if a < 0 then - ((- a) div b) else a div b)"

definition epoch_to_seconds :: "int \<Rightarrow> int" where
  "epoch_to_seconds ts =
    (let m = abs ts
     in if m > 1000000000000000000 then quot ts 1000000000
        else if m > 1000000000000000 then quot ts 1000000
        else if m > 1000000000000 then quot ts 1000
        else ts)"

definition days_in_month :: "int \<Rightarrow> nat \<Rightarrow> nat" where
  "days_in_month year month =
    (if month \<in> {1, 3, 5, 7, 8, 10, 12} then 31
     else if month \<in> {4, 6, 9, 11} then 30
     else if month = 2 \<and> year mod 4 = 0 \<and> (year mod 100 \<noteq> 0 \<or> year mod 400 = 0) then 29
     else if month = 2 then 28
     else 0)"

definition check_calendar_day :: "int \<Rightarrow> nat \<Rightarrow> nat \<Rightarrow> bool" where
  "check_calendar_day year month day \<longleftrightarrow>
    1 \<le> month \<and> month \<le> 12 \<and> day \<ge> 1 \<and> day \<le> days_in_month year month"

definition civil_days_from_epoch :: "int \<Rightarrow> nat \<Rightarrow> nat \<Rightarrow> int" where
  "civil_days_from_epoch year month day =
    (let y = (if month \<le> 2 then year - 1 else year);
         m = (if month \<le> 2 then int month + 9 else int month - 3);
         era = y div 400;
         yoe = y mod 400;
         day_of_year = quot (153 * m + 2) 5 + int day - 1;
         doe = yoe * 365 + quot yoe 4 - quot yoe 100 + day_of_year
     in era * 146097 + doe - 719468)"

text \<open>\<open>&s[a..b]\<close> on an ASCII string.\<close>

definition slice :: "nat \<Rightarrow> nat \<Rightarrow> string \<Rightarrow> string" where
  "slice a b s = take (b - a) (drop a s)"

definition is_ascii :: "string \<Rightarrow> bool" where
  "is_ascii s \<longleftrightarrow> list_all (\<lambda>c. (of_char c :: nat) < 128) s"

text \<open>The fraction after the seconds: the nanoseconds and the position behind it.\<close>

definition parse_fraction :: "string \<Rightarrow> nat \<Rightarrow> string + (nat \<times> nat)" where
  "parse_fraction s pos =
    (if pos < length s \<and> s ! pos = CHR ''.'' then
       (let ds = takeWhile is_digit (drop (pos + 1) s);
            clamped = min (length ds) 9
        in if ds = [] then Inl ''invalid DateTime string''
           else case parse_u32 (take clamped ds) of
             None \<Rightarrow> Inl ''invalid fractional seconds''
           | Some n \<Rightarrow> Inr (if clamped < 9 then n * 10 ^ (9 - clamped) else n, pos + 1 + length ds))
     else Inr (0, pos))"

text \<open>The zone suffix: the position behind it, unmoved when there is none.\<close>

definition parse_zone :: "string \<Rightarrow> nat \<Rightarrow> string + nat" where
  "parse_zone s pos =
    (if pos < length s then
       (if s ! pos = CHR ''Z'' then Inr (pos + 1)
        else if (s ! pos = CHR ''+'' \<or> s ! pos = CHR ''-'') \<and> pos + 6 \<le> length s then
          (let sign = s ! pos; tz = slice (pos + 1) (pos + 6) s
           in if tz ! 2 = CHR '':'' \<and> list_all is_digit (take 2 tz) \<and> list_all is_digit (drop 3 tz)
              then if sign = CHR ''-'' \<or> take 2 tz \<noteq> ''00'' \<or> drop 3 tz \<noteq> ''00''
                   then Inl (''non-UTC timezone offset '' @ [CHR 0x27] @ [sign] @ tz @ [CHR 0x27] @
                          '' not supported; convert to UTC first'')
                   else Inr (pos + 6)
              else Inr pos)
        else Inr pos)
     else Inr pos)"

definition ok_str :: "'a option \<Rightarrow> string \<Rightarrow> string + 'a" where
  "ok_str x msg = (case x of Some v \<Rightarrow> Inr v | None \<Rightarrow> Inl msg)"

definition parse_datetime_str :: "string \<Rightarrow> string + (int \<times> nat)" where
  "parse_datetime_str s =
    (if length s < 19 then Inl ''invalid DateTime string''
     else if \<not> is_ascii s then Inl ''invalid DateTime string''
     else if s ! 10 \<noteq> CHR '' '' \<and> s ! 10 \<noteq> CHR ''T'' then Inl ''invalid DateTime string''
     else
       tri (parse_fraction s 19) (\<lambda>(frac_nanos, pos).
       tri (parse_zone s pos) (\<lambda>pos'.
         if pos' \<noteq> length s then Inl ''invalid DateTime string''
         else
           tri (ok_str (parse_i32 (slice 0 4 s)) ''invalid year'') (\<lambda>year.
           tri (ok_str (parse_u32 (slice 5 7 s)) ''invalid month'') (\<lambda>month.
           tri (ok_str (parse_u32 (slice 8 10 s)) ''invalid day'') (\<lambda>day.
           tri (ok_str (parse_u32 (slice 11 13 s)) ''invalid hour'') (\<lambda>hour.
           tri (ok_str (parse_u32 (slice 14 16 s)) ''invalid minute'') (\<lambda>minute.
           tri (ok_str (parse_u32 (slice 17 19 s)) ''invalid second'') (\<lambda>second.
             if \<not> check_calendar_day year month day \<or> hour > 23 \<or> minute > 59 \<or> second > 59
             then Inl ''invalid DateTime string''
             else Inr (civil_days_from_epoch year month day * 86400 + int hour * 3600 + int minute * 60 +
                         int second, frac_nanos))))))))))"

definition map_err :: "('e \<Rightarrow> 'f) \<Rightarrow> 'e + 'a \<Rightarrow> 'f + 'a" where
  "map_err f r = (case r of Inl e \<Rightarrow> Inl (f e) | Inr x \<Rightarrow> Inr x)"

definition to_epoch_seconds :: "Value \<Rightarrow> string \<Rightarrow> int dres" where
  "to_epoch_seconds v col = (case v of
     Number n \<Rightarrow>
       tri (ok_or (or_else (as_i64_of n) (Option.bind (as_f64_of n) whole_f64_as_i64))
              (enc_err col ''invalid epoch number'')) (\<lambda>ts. Inr (epoch_to_seconds ts))
   | Str s0 \<Rightarrow>
       (let s = trim s0
        in case parse_i64 s of
             Some ts \<Rightarrow> Inr (epoch_to_seconds ts)
           | None \<Rightarrow> tri (map_err (enc_err col) (parse_datetime_str s)) (\<lambda>(secs, _). Inr secs))
   | _ \<Rightarrow> Inl (enc_err col ''expected datetime string or epoch number''))"

definition checked_i32 :: "int \<Rightarrow> int option" where
  "checked_i32 i = (if - (2 ^ 31) \<le> i \<and> i \<le> 2 ^ 31 - 1 then Some i else None)"

text \<open>The fallback of \<open>to_epoch_days\<close> for everything but a bare date string.\<close>

definition days_of_seconds :: "Value \<Rightarrow> string \<Rightarrow> int dres" where
  "days_of_seconds v col =
    tri (to_epoch_seconds v col) (\<lambda>secs. ok_or (checked_i32 (secs div 86400)) (enc_err col ''Date out of range''))"

definition to_epoch_days :: "Value \<Rightarrow> string \<Rightarrow> int dres" where
  "to_epoch_days v col = (case v of
     Str s0 \<Rightarrow>
       (let s = trim s0
        in if length s = 10 \<and> is_ascii s \<and> s ! 4 = CHR ''-'' then
             tri (ok_or (parse_i32 (slice 0 4 s)) (enc_err col ''invalid Date year'')) (\<lambda>year.
             tri (ok_or (parse_u32 (slice 5 7 s)) (enc_err col ''invalid Date month'')) (\<lambda>month.
             tri (ok_or (parse_u32 (slice 8 10 s)) (enc_err col ''invalid Date day'')) (\<lambda>day.
               if \<not> check_calendar_day year month day then Inl (enc_err col ''invalid Date components'')
               else ok_or (checked_i32 (civil_days_from_epoch year month day))
                      (enc_err col ''Date out of range''))))
           else days_of_seconds v col)
   | _ \<Rightarrow> days_of_seconds v col)"

text \<open>\<open>10i64.pow\<close> wraps in a release build; the two checked operations that follow do not.\<close>

definition wrap_i64 :: "int \<Rightarrow> int" where
  "wrap_i64 i = (i + 2 ^ 63) mod 2 ^ 64 - 2 ^ 63"

definition checked_i64 :: "int \<Rightarrow> int option" where
  "checked_i64 i = (if - (2 ^ 63) \<le> i \<and> i \<le> 2 ^ 63 - 1 then Some i else None)"

definition datetime64_to_ticks :: "Value \<Rightarrow> nat \<Rightarrow> string \<Rightarrow> int dres" where
  "datetime64_to_ticks v precision col = (case v of
     Number n \<Rightarrow>
       ok_or (or_else (as_i64_of n) (Option.bind (as_f64_of n) whole_f64_as_i64))
         (enc_err col ''invalid DateTime64 number'')
   | Str s0 \<Rightarrow>
       (let s = trim s0
        in case parse_i64 s of
             Some n \<Rightarrow> Inr n
           | None \<Rightarrow>
              tri (map_err (enc_err col) (parse_datetime_str s)) (\<lambda>(secs, frac_nanos).
              tri (ok_or (checked_i64 (secs * wrap_i64 (10 ^ precision)))
                     (enc_err col ''DateTime64 epoch overflow'')) (\<lambda>base.
                ok_or (checked_i64 (base + int frac_nanos div 10 ^ (9 - precision)))
                  (enc_err col ''DateTime64 epoch overflow''))))
   | _ \<Rightarrow> Inl (enc_err col ''expected number or datetime string''))"

section \<open>Enums\<close>

text \<open>The loop of \<open>split_enum_members\<close>: \<open>cur\<close> is the slice from \<open>start\<close>.\<close>

fun split_enum_loop :: "char option \<Rightarrow> bool \<Rightarrow> string \<Rightarrow> string \<Rightarrow> string list" where
  "split_enum_loop quote escaped cur [] = [cur]"
| "split_enum_loop quote escaped cur (c # cs) =
    (if escaped then split_enum_loop quote False (cur @ [c]) cs
     else if c = CHR 0x5C \<and> quote \<noteq> None then split_enum_loop quote True (cur @ [c]) cs
     else case quote of
       Some q \<Rightarrow> split_enum_loop (if c = q then None else quote) False (cur @ [c]) cs
     | None \<Rightarrow>
        (if c = CHR 0x27 \<or> c = CHR 0x22 then split_enum_loop (Some c) False (cur @ [c]) cs
         else if c = CHR '','' then cur # split_enum_loop None False [] cs
         else split_enum_loop None False (cur @ [c]) cs))"

definition split_enum_members :: "string \<Rightarrow> string list" where
  "split_enum_members inner = split_enum_loop None False [] inner"

text \<open>The loop over the members: a member without an equals sign ends the search.\<close>

fun find_member :: "string \<Rightarrow> string list \<Rightarrow> int option" where
  "find_member name [] = None"
| "find_member name (member # members) =
    (case split_first (CHR ''='') member of
       (_, None) \<Rightarrow> None
     | (label, Some num) \<Rightarrow>
        (if trim_matches (CHR 0x22) (trim_matches (CHR 0x27) (trim label)) = name
         then parse_i64 (trim num) else find_member name members))"

definition enum_member_value :: "string \<Rightarrow> string \<Rightarrow> int option" where
  "enum_member_value type_str name =
    Option.bind (find_char (CHR ''('') type_str) (\<lambda>open_pos.
    Option.bind (rfind_char (CHR '')'') type_str) (\<lambda>close_pos.
      if open_pos \<ge> close_pos then None
      else find_member name (split_enum_members (slice (open_pos + 1) close_pos type_str))))"

definition enum_discriminant :: "Value \<Rightarrow> string \<Rightarrow> string \<Rightarrow> int dres" where
  "enum_discriminant v type_str col = (case v of
     Number n \<Rightarrow> as_i64 v col
   | Bool b \<Rightarrow> as_i64 v col
   | Str s \<Rightarrow>
       (case parse_i64 (trim s) of
          Some n \<Rightarrow> Inr n
        | None \<Rightarrow> ok_or (enum_member_value type_str s) (enc_err col ''enum string not found in type definition''))
   | _ \<Rightarrow> Inl (enc_err col ''expected enum value''))"

section \<open>UUIDs and IP addresses\<close>

definition hex_val :: "char \<Rightarrow> nat option" where
  "hex_val c =
    (let n = of_char c :: nat
     in if 48 \<le> n \<and> n \<le> 57 then Some (n - 48)
        else if 65 \<le> n \<and> n \<le> 70 then Some (n - 55)
        else if 97 \<le> n \<and> n \<le> 102 then Some (n - 87)
        else None)"

fun hex_digits_val :: "nat \<Rightarrow> string \<Rightarrow> nat option" where
  "hex_digits_val acc [] = Some acc"
| "hex_digits_val acc (c # cs) = Option.bind (hex_val c) (\<lambda>d. hex_digits_val (16 * acc + d) cs)"

definition encode_uuid :: "platform \<Rightarrow> Value \<Rightarrow> string \<Rightarrow> byte list dres" where
  "encode_uuid env v col =
    (let hex = filter (\<lambda>c. hex_val c \<noteq> None) (value_to_str env v)
     in if length hex \<noteq> 32 then Inl (enc_err col ''invalid UUID length'')
        else tri (ok_or (hex_digits_val 0 (take 16 hex)) (enc_err col ''invalid UUID hex'')) (\<lambda>high.
             tri (ok_or (hex_digits_val 0 (drop 16 hex)) (enc_err col ''invalid UUID hex'')) (\<lambda>low.
               Inr (le_bytes 8 high @ le_bytes 8 low))))"

text \<open>
  The standard library's address parser: a parser takes a prefix or fails without moving.
  \<open>read_number\<close> takes all digits of the radix and refuses more than \<open>max_digits\<close>, a value of more than
  \<open>limit\<close>, and, where it is asked to, a leading zero.
\<close>

type_synonym 'a chars = "string \<Rightarrow> ('a \<times> string) option"

definition read_number :: "(char \<Rightarrow> nat option) \<Rightarrow> nat \<Rightarrow> nat \<Rightarrow> nat \<Rightarrow> bool \<Rightarrow> nat chars" where
  "read_number val radix max_digits limit allow_zero_prefix s =
    (let ds = takeWhile (\<lambda>c. val c \<noteq> None) s;
         n = foldl (\<lambda>acc c. radix * acc + the (val c)) 0 ds
     in if ds = [] \<or> length ds > max_digits \<or> n > limit \<or>
           (\<not> allow_zero_prefix \<and> hd ds = CHR ''0'' \<and> length ds > 1)
        then None else Some (n, drop (length ds) s))"

definition read_given_char :: "char \<Rightarrow> unit chars" where
  "read_given_char c s = (case s of x # xs \<Rightarrow> if x = c then Some ((), xs) else None | [] \<Rightarrow> None)"

definition read_separator :: "char \<Rightarrow> nat \<Rightarrow> 'a chars \<Rightarrow> 'a chars" where
  "read_separator sep i inner s =
    (if i > 0 then Option.bind (read_given_char sep s) (\<lambda>(_, r). inner r) else inner s)"

definition read_octet :: "nat \<Rightarrow> nat chars" where
  "read_octet i = read_separator (CHR ''.'') i (read_number digit_val 10 3 255 False)"

definition read_ipv4_addr :: "(nat list) chars" where
  "read_ipv4_addr s =
    Option.bind (read_octet 0 s) (\<lambda>(a, s1). Option.bind (read_octet 1 s1) (\<lambda>(b, s2).
    Option.bind (read_octet 2 s2) (\<lambda>(c, s3). Option.bind (read_octet 3 s3) (\<lambda>(d, s4).
      Some ([a, b, c, d], s4)))))"

text \<open>The whole text, of at most fifteen bytes.\<close>

definition parse_ipv4 :: "string \<Rightarrow> nat list option" where
  "parse_ipv4 s =
    (if length s > 15 then None
     else case read_ipv4_addr s of Some (octets, []) \<Rightarrow> Some octets | _ \<Rightarrow> None)"

text \<open>\<open>read_groups\<close>: up to \<open>limit\<close> groups, \<open>i\<close> of them read, and whether an IPv4 address ended them.\<close>

function read_groups :: "nat \<Rightarrow> nat \<Rightarrow> string \<Rightarrow> nat list \<times> bool \<times> string" where
  "read_groups limit i s =
    (if i \<ge> limit then ([], False, s)
     else case (if i < limit - 1 then read_separator (CHR '':'') i read_ipv4_addr s else None) of
       Some ([a, b, c, d], r) \<Rightarrow> ([256 * a + b, 256 * c + d], True, r)
     | _ \<Rightarrow>
        (case read_separator (CHR '':'') i (read_number hex_val 16 4 0xFFFF True) s of
           None \<Rightarrow> ([], False, s)
         | Some (g, r) \<Rightarrow> (case read_groups limit (i + 1) r of (gs, v4, t) \<Rightarrow> (g # gs, v4, t))))"
  by pat_completeness auto
termination read_groups
  by (relation "measure (\<lambda>(limit, i, s). limit - i)") auto

declare read_groups.simps [simp del]

definition read_ipv6_addr :: "(nat list) chars" where
  "read_ipv6_addr s =
    (case read_groups 8 0 s of (head_groups, head_ipv4, r) \<Rightarrow>
      if length head_groups = 8 then Some (head_groups, r)
      else if head_ipv4 then None
      else Option.bind (read_given_char (CHR '':'') r) (\<lambda>(_, r1).
        Option.bind (read_given_char (CHR '':'') r1) (\<lambda>(_, r2).
          case read_groups (8 - (length head_groups + 1)) 0 r2 of (tail_groups, _, r3) \<Rightarrow>
            Some (head_groups @ replicate (8 - length tail_groups - length head_groups) 0 @ tail_groups, r3))))"

definition parse_ipv6 :: "string \<Rightarrow> nat list option" where
  "parse_ipv6 s = (case read_ipv6_addr s of Some (groups, []) \<Rightarrow> Some groups | _ \<Rightarrow> None)"

definition ipv4_number :: "nat list \<Rightarrow> nat" where
  "ipv4_number octets = foldl (\<lambda>acc b. 256 * acc + b) 0 octets"

definition encode_ipv4 :: "platform \<Rightarrow> Value \<Rightarrow> string \<Rightarrow> byte list dres" where
  "encode_ipv4 env v col =
    (case (case v of Number n \<Rightarrow> as_u64_of n | _ \<Rightarrow> None) of
       Some u \<Rightarrow> tri (narrow 0 (2 ^ 32 - 1) (int u) col ''IPv4'') (\<lambda>a. Inr (le_bytes 4 (nat a)))
     | None \<Rightarrow>
        tri (ok_or (parse_ipv4 (value_to_str env v)) (enc_err col ''invalid IPv4''))
          (\<lambda>octets. Inr (le_bytes 4 (ipv4_number octets))))"

definition encode_ipv6 :: "platform \<Rightarrow> Value \<Rightarrow> string \<Rightarrow> byte list dres" where
  "encode_ipv6 env v col =
    tri (ok_or (parse_ipv6 (value_to_str env v)) (enc_err col ''invalid IPv6''))
      (\<lambda>groups. Inr (concat (map (\<lambda>g. [of_nat (g div 256), of_nat (g mod 256)]) groups)))"

section \<open>Values\<close>

definition wrap_root_array :: "platform \<Rightarrow> Value \<Rightarrow> string \<Rightarrow> byte list dres" where
  "wrap_root_array env v col =
    tri (map_err (\<lambda>e. enc_err col (''JSON array not serialisable: '' @ e)) (to_writer env v)) (\<lambda>out_text.
      Inr (as_bytes (''{'' @ [CHR 0x22] @ JSON_ARRAY_WRAPPER_KEY @ [CHR 0x22] @ '':'') @ out_text @ as_bytes ''}''))"

text \<open>The tag the value is encoded under: a bare \<open>Decimal(P, S)\<close> is resolved by its precision.\<close>

definition resolved_tag :: "ParsedType \<Rightarrow> TypeTag" where
  "resolved_tag pt =
    (if pt_base pt = ''Decimal''
     then decimal_tag_for_precision (case pt_precision pt of Some p \<Rightarrow> p | None \<Rightarrow> 38)
     else pt_tag pt)"

definition write_default :: "ParsedType \<Rightarrow> string \<Rightarrow> byte list dres" where
  "write_default pt col =
    (if pt_base pt = ''Decimal'' then
       (let w = (case resolved_tag pt of TDecimal32 \<Rightarrow> 4 | TDecimal64 \<Rightarrow> 8 | TDecimal256 \<Rightarrow> 32 | _ \<Rightarrow> 16)
        in Inr (replicate w 0))
     else if pt_tag pt = TJSON then Inr (put_string (as_bytes ''{}''))
     else if pt_tag pt \<in> {TPoint, TVariant, TDynamic, TUnknown} then Inl (unsupported col pt)
     else case fixed_byte_size pt of
       Some w \<Rightarrow> Inr (replicate w 0)
     | None \<Rightarrow> Inr (put_var_uint 0))"

definition unsigned_arm :: "nat \<Rightarrow> string \<Rightarrow> Value \<Rightarrow> string \<Rightarrow> byte list dres" where
  "unsigned_arm w ty v col =
    tri (as_u64 v col) (\<lambda>n. tri (narrow 0 (2 ^ (8 * w) - 1) (int n) col ty) (\<lambda>i. Inr (le_bytes w (nat i))))"

definition signed_arm :: "nat \<Rightarrow> string \<Rightarrow> Value \<Rightarrow> string \<Rightarrow> byte list dres" where
  "signed_arm w ty v col =
    tri (as_i64 v col) (\<lambda>n.
    tri (narrow (- (2 ^ (8 * w - 1))) (2 ^ (8 * w - 1) - 1) n col ty) (\<lambda>i. Inr (signed_bytes w i)))"

definition decimal_arm :: "platform \<Rightarrow> (int \<Rightarrow> byte list dres) \<Rightarrow> ParsedType \<Rightarrow> Value \<Rightarrow> string \<Rightarrow> byte list dres" where
  "decimal_arm env fit pt v col =
    tri (decimal_backing_i128 env v (case pt_scale pt of Some s \<Rightarrow> s | None \<Rightarrow> 0) col) fit"

definition fit_signed :: "nat \<Rightarrow> string \<Rightarrow> string \<Rightarrow> int \<Rightarrow> byte list dres" where
  "fit_signed w col msg i =
    (if - (2 ^ (8 * w - 1)) \<le> i \<and> i \<le> 2 ^ (8 * w - 1) - 1 then Inr (signed_bytes w i) else Inl (enc_err col msg))"

definition fit_unsigned :: "nat \<Rightarrow> string \<Rightarrow> string \<Rightarrow> int \<Rightarrow> byte list dres" where
  "fit_unsigned w col msg i =
    (if 0 \<le> i \<and> i \<le> 2 ^ (8 * w) - 1 then Inr (le_bytes w (nat i)) else Inl (enc_err col msg))"

text \<open>The text a JSON column carries.\<close>

definition json_bytes :: "platform \<Rightarrow> Value \<Rightarrow> string \<Rightarrow> byte list dres" where
  "json_bytes env v col = (case v of
     Null \<Rightarrow> Inr (as_bytes ''{}'')
   | Str s \<Rightarrow> Inr (as_bytes (if s = [] then ''{}'' else s))
   | Arr items \<Rightarrow> wrap_root_array env v col
   | _ \<Rightarrow> Inr (as_bytes (value_to_str env v)))"

text \<open>The arms of \<open>encode_typed\<close> that do not recurse.\<close>

definition encode_scalar :: "platform \<Rightarrow> TypeTag \<Rightarrow> Value \<Rightarrow> ParsedType \<Rightarrow> string \<Rightarrow> byte list dres" where
  "encode_scalar env tag v pt col = (case tag of
     TString \<Rightarrow> Inr (put_string (as_bytes (value_to_str env v)))
   | TFixedString \<Rightarrow>
       (let bytes = as_bytes (value_to_str env v);
            n = (case pt_fixed_size pt of Some k \<Rightarrow> k | None \<Rightarrow> 1)
        in if length bytes > n
           then Inl (enc_err col (''FixedString('' @ show_nat n @ '') value out of range: '' @
                  show_nat (length bytes) @ '' bytes''))
           else Inr (bytes @ replicate (n - length bytes) 0))
   | TBool \<Rightarrow> tri (as_bool v col) (\<lambda>b. Inr [of_bool b])
   | TUInt8 \<Rightarrow> unsigned_arm 1 ''UInt8'' v col
   | TUInt16 \<Rightarrow> unsigned_arm 2 ''UInt16'' v col
   | TUInt32 \<Rightarrow> unsigned_arm 4 ''UInt32'' v col
   | TUInt64 \<Rightarrow> tri (as_u64 v col) (\<lambda>n. Inr (le_bytes 8 n))
   | TUInt128 \<Rightarrow> tri (as_u128 v col) (\<lambda>n. Inr (le_bytes 16 n))
   | TUInt256 \<Rightarrow> as_u256_le v col
   | TInt8 \<Rightarrow> signed_arm 1 ''Int8'' v col
   | TInt16 \<Rightarrow> signed_arm 2 ''Int16'' v col
   | TEnum8 \<Rightarrow> tri (enum_discriminant v (pt_raw pt) col) (fit_signed 1 col ''Enum8 value out of range'')
   | TEnum16 \<Rightarrow> tri (enum_discriminant v (pt_raw pt) col) (fit_signed 2 col ''Enum16 value out of range'')
   | TInt32 \<Rightarrow> signed_arm 4 ''Int32'' v col
   | TInt64 \<Rightarrow> tri (as_i64 v col) (\<lambda>i. Inr (signed_bytes 8 i))
   | TInt128 \<Rightarrow> tri (as_i128 v col) (\<lambda>i. Inr (signed_bytes 16 i))
   | TInt256 \<Rightarrow> as_i256_le v col
   | TFloat32 \<Rightarrow>
       tri (as_f64 v col) (\<lambda>wide.
         if f64_is_nan wide then Inr (le_bytes 4 (nat (nan_to_f32 env wide)))
         else case f64_to_f32 wide of (bits, is_inf) \<Rightarrow>
           if is_inf \<and> f64_finite wide \<noteq> None then Inl (enc_err col ''Float32 value out of range'')
           else Inr (le_bytes 4 (nat bits)))
   | TFloat64 \<Rightarrow> tri (as_f64 v col) (\<lambda>bits. Inr (le_bytes 8 (nat bits)))
   | TDate \<Rightarrow> tri (to_epoch_days v col) (fit_unsigned 2 col ''Date out of range for UInt16 days'')
   | TDate32 \<Rightarrow> tri (to_epoch_days v col) (\<lambda>d. Inr (signed_bytes 4 d))
   | TDateTime \<Rightarrow> tri (to_epoch_seconds v col) (fit_unsigned 4 col ''DateTime out of range for UInt32 seconds'')
   | TDateTime64 \<Rightarrow>
       tri (datetime64_to_ticks v (case pt_precision pt of Some p \<Rightarrow> p | None \<Rightarrow> 3) col) (\<lambda>t. Inr (signed_bytes 8 t))
   | TDecimal32 \<Rightarrow> decimal_arm env (fit_signed 4 col ''Decimal32 overflow'') pt v col
   | TDecimal64 \<Rightarrow> decimal_arm env (fit_signed 8 col ''Decimal64 overflow'') pt v col
   | TDecimal128 \<Rightarrow> decimal_arm env (\<lambda>i. Inr (signed_bytes 16 i)) pt v col
   | TDecimal256 \<Rightarrow> decimal_arm env (\<lambda>i. Inr (i128_to_i256_le i)) pt v col
   | TUUID \<Rightarrow> encode_uuid env v col
   | TIPv4 \<Rightarrow> encode_ipv4 env v col
   | TIPv6 \<Rightarrow> encode_ipv6 env v col
   | TJSON \<Rightarrow> tri (json_bytes env v col) (\<lambda>bs. Inr (put_string bs))
   | _ \<Rightarrow> Inl (unsupported col pt))"

type_synonym encoder = "Value \<Rightarrow> ParsedType \<Rightarrow> byte list dres"

definition encode_array :: "encoder \<Rightarrow> Value \<Rightarrow> ParsedType \<Rightarrow> string \<Rightarrow> byte list dres" where
  "encode_array enc v elem col = (case v of
     Arr items \<Rightarrow>
       tri (each_result (\<lambda>item. enc item elem) items) (\<lambda>cells.
         Inr (put_var_uint (of_nat (length items)) @ concat cells))
   | _ \<Rightarrow> Inl (enc_err col ''expected array''))"

definition encode_map :: "encoder \<Rightarrow> Value \<Rightarrow> ParsedType \<Rightarrow> ParsedType \<Rightarrow> string \<Rightarrow> byte list dres" where
  "encode_map enc v key val col = (case v of
     Object entries \<Rightarrow>
       (if pt_tag key \<noteq> TString \<or> pt_nullable key then Inl (unsupported col key)
        else tri (each_result (\<lambda>(k, x). tri (enc x val) (\<lambda>b. Inr (put_string (as_bytes k) @ b))) entries) (\<lambda>cells.
          Inr (put_var_uint (of_nat (length entries)) @ concat cells)))
   | _ \<Rightarrow> Inl (enc_err col ''expected object for Map''))"

definition encode_typed :: "platform \<Rightarrow> encoder \<Rightarrow> Value \<Rightarrow> ParsedType \<Rightarrow> string \<Rightarrow> byte list dres" where
  "encode_typed env enc v pt col =
    (case resolved_tag pt of
       TArray \<Rightarrow>
         (case pt_array_element pt of
            None \<Rightarrow> Inl (enc_err col ''Array without element type'')
          | Some elem \<Rightarrow> encode_array enc v elem col)
     | TMap \<Rightarrow>
         (case pt_map_types pt of
            None \<Rightarrow> Inl (enc_err col ''Map without key/value types'')
          | Some (kt, vt) \<Rightarrow> encode_map enc v kt vt col)
     | tag \<Rightarrow> encode_scalar env tag v pt col)"

definition subvalues :: "Value \<Rightarrow> Value set" where
  "subvalues v = (case v of Arr items \<Rightarrow> set items | Object entries \<Rightarrow> snd ` set entries | _ \<Rightarrow> {})"

lemma encode_typed_cong [fundef_cong]:
  assumes "env = env'" "v = v'" "pt = pt'" "col = col'"
    and "\<And>x p. x \<in> subvalues v' \<Longrightarrow> enc x p = enc' x p"
  shows "encode_typed env enc v pt col = encode_typed env' enc' v' pt' col'"
proof -
  have arr: "encode_array enc v' e col' = encode_array enc' v' e col'" for e
    using assms(5) by (cases v')
      (auto simp: encode_array_def subvalues_def intro!: each_result_cong arg_cong [where f = "\<lambda>r. tri r _"])
  have "each_result (\<lambda>(k, x). tri (enc x p) (\<lambda>b. Inr (put_string (as_bytes k) @ b))) es =
      each_result (\<lambda>(k, x). tri (enc' x p) (\<lambda>b. Inr (put_string (as_bytes k) @ b))) es"
    if "v' = Object es" for es p
    using that assms(5) by (intro each_result_cong) (force simp: subvalues_def)+
  then have mp: "encode_map enc v' k e col' = encode_map enc' v' k e col'" for k e
    by (cases v') (auto simp: encode_map_def)
  show ?thesis
    unfolding assms(1-4) encode_typed_def by (auto simp: arr mp split: TypeTag.split option.split)
qed

lemma size_subvalue: "x \<in> subvalues v \<Longrightarrow> size x < size v"
proof (cases v)
  case (Object es)
  moreover assume "x \<in> subvalues v"
  ultimately obtain k where "(k, x) \<in> set es" by (auto simp: subvalues_def)
  then show ?thesis using Object
    by (induction es arbitrary: v) (auto simp: less_Suc_eq_le trans_le_add1)
qed (auto simp: subvalues_def less_Suc_eq_le size_list_estimation')

function encode_value :: "platform \<Rightarrow> string \<Rightarrow> Value \<Rightarrow> ParsedType \<Rightarrow> byte list dres" where
  "encode_value env col v pt =
    (if pt_nullable pt then
       (if v = Null then Inr [1]
        else tri (encode_typed env (encode_value env col) v pt col) (\<lambda>bs. Inr (0 # bs)))
     else if v = Null then write_default pt col
     else encode_typed env (encode_value env col) v pt col)"
  by pat_completeness auto
termination encode_value
  by (relation "measure (\<lambda>(env, col, v, pt). size v)") (auto dest: size_subvalue)

declare encode_value.simps [simp del]

section \<open>Rows\<close>

record ColumnDef =
  cd_name :: string
  cd_ty :: ParsedType
  cd_default_kind :: string
  cd_has_default :: bool

definition column_def_new :: "string \<Rightarrow> string \<Rightarrow> ColumnDef" where
  "column_def_new name type_string =
    \<lparr> cd_name = name, cd_ty = parse_pt type_string, cd_default_kind = [], cd_has_default = False \<rparr>"

definition with_default_kind :: "string \<Rightarrow> string \<Rightarrow> string \<Rightarrow> ColumnDef" where
  "with_default_kind name type_string default_kind =
    (column_def_new name type_string) \<lparr> cd_default_kind := default_kind, cd_has_default := default_kind \<noteq> [] \<rparr>"

type_synonym row = "(string \<times> Value) list"

record DynamicRow =
  dr_row :: row
  dr_columns :: "ColumnDef list"
  dr_raw :: "(string \<times> byte list) option"

definition encode_row_column :: "platform \<Rightarrow> DynamicRow \<Rightarrow> ColumnDef \<Rightarrow> byte list dres" where
  "encode_row_column env r col =
    (case dr_raw r of
       Some (name, bytes) \<Rightarrow>
         if name = cd_name col
         then Inr ((if pt_nullable (cd_ty col) then [0] else []) @ put_string bytes)
         else encode_value env (cd_name col)
                (case map_of (dr_row r) (cd_name col) of Some v \<Rightarrow> v | None \<Rightarrow> Null) (cd_ty col)
     | None \<Rightarrow> encode_value env (cd_name col)
                (case map_of (dr_row r) (cd_name col) of Some v \<Rightarrow> v | None \<Rightarrow> Null) (cd_ty col))"

definition encode_row :: "platform \<Rightarrow> DynamicRow \<Rightarrow> byte list dres" where
  "encode_row env r = tri (each_result (encode_row_column env r) (dr_columns r)) (\<lambda>cells. Inr (concat cells))"

end
