(* ===== verification/DynDates.thy ===== *)
theory DynDates
  imports DynEncode
begin

text \<open>
  Dates, decimals and enums of the dynamic encoder: the day count against the calendar, the scaled
  decimal against exact rounding, and the date-time parser against its printer.
\<close>

section \<open>The calendar\<close>

definition next_day :: "int \<times> nat \<times> nat \<Rightarrow> int \<times> nat \<times> nat" where
  "next_day date = (case date of (y, m, d) \<Rightarrow>
    if d < days_in_month y m then (y, m, d + 1)
    else if m < 12 then (y, m + 1, 1)
    else (y + 1, 1, 1))"

text \<open>The days of the years before the March-based year \<open>y\<close>.\<close>

definition year_days :: "int \<Rightarrow> int" where
  "year_days y = 365 * y + y div 4 - y div 100 + y div 400"

lemma quot_nonneg: "0 \<le> a \<Longrightarrow> quot a b = a div b"
  by (simp add: quot_def)

lemma era_days:
  "y div 400 * 146097 + (y mod 400 * 365 + quot (y mod 400) 4 - quot (y mod 400) 100) = year_days y"
proof -
  obtain q r where y: "y = 400 * q + r" "0 \<le> r" "r < 400"
    by (metis mult_div_mod_eq pos_mod_bound pos_mod_sign zero_less_numeral)
  then have "y div 400 = q" "y mod 400 = r" "y div 4 = 100 * q + r div 4" "y div 100 = 4 * q + r div 100"
    by simp_all
  then show ?thesis using y by (simp add: year_days_def quot_nonneg)
qed

lemma civil_days_eq:
  "civil_days_from_epoch y m d =
    (if m \<le> 2 then year_days (y - 1) + (153 * (int m + 9) + 2) div 5
     else year_days y + (153 * (int m - 3) + 2) div 5) + int d - 719469"
proof (cases "m \<le> 2")
  case True
  have "quot (153 * (int m + 9) + 2) 5 = (153 * (int m + 9) + 2) div 5" by (rule quot_nonneg) simp
  with era_days [of "y - 1"] True show ?thesis
    unfolding civil_days_from_epoch_def Let_def by (simp only: if_True; linarith)
next
  case False
  then have "quot (153 * (int m - 3) + 2) 5 = (153 * (int m - 3) + 2) div 5" by (intro quot_nonneg) simp
  with era_days [of y] False show ?thesis
    unfolding civil_days_from_epoch_def Let_def by (simp only: if_False; linarith)
qed

lemma year_days_step:
  "year_days y = year_days (y - 1) + (if y mod 4 = 0 \<and> (y mod 100 \<noteq> 0 \<or> y mod 400 = 0) then 366 else 365)"
proof -
  have regroup: "a = a' + i \<Longrightarrow> b = b' + j \<Longrightarrow> c = c' + k \<Longrightarrow>
      365 * y + a - b + c = 365 * (y - 1) + a' - b' + c' + 365 + i - j + k" for a a' b b' c c' i j k :: int
    by simp
  have step: "z div k = (z - 1) div k + (if z mod k = 0 then 1 else 0)" if "0 < k" for z k :: int
  proof -
    have z: "z = k * (z div k) + z mod k" "0 \<le> z mod k" "z mod k < k" using that by simp_all
    show ?thesis
    proof (cases "z mod k = 0")
      case True
      have "(z - 1) div k = z div k - 1"
        by (rule int_div_pos_eq [where r = "k - 1"]) (use z True that in \<open>auto simp: right_diff_distrib\<close>)
      with True show ?thesis by simp
    next
      case False
      have "(z - 1) div k = z div k"
        by (rule int_div_pos_eq [where r = "z mod k - 1"]) (use z False in linarith)+
      with False show ?thesis by simp
    qed
  qed
  have "year_days y = year_days (y - 1) + 365 + (if y mod 4 = 0 then 1 else 0) -
      (if y mod 100 = 0 then 1 else 0) + (if y mod 400 = 0 then 1 else 0)"
    unfolding year_days_def
    by (rule regroup [OF step step step]) simp_all
  moreover have "y mod 400 = 0 \<Longrightarrow> y mod 100 = 0" "y mod 100 = 0 \<Longrightarrow> y mod 4 = 0"
    by presburger+
  ultimately show ?thesis
    by (cases "y mod 4 = 0"; cases "y mod 100 = 0"; cases "y mod 400 = 0") simp_all
qed

lemma next_day_count:
  assumes "check_calendar_day y m d" "next_day (y, m, d) = (y', m', d')"
  shows "check_calendar_day y' m' d' \<and> civil_days_from_epoch y' m' d' = civil_days_from_epoch y m d + 1"
proof -
  have "1 \<le> m" "m \<le> 12" using assms(1) by (simp_all add: check_calendar_day_def)
  then have m: "m \<in> {1, 2, 3, 4, 5, 6, 7, 8, 9, 10, 11, 12}" unfolding insert_iff empty_iff by presburger
  show ?thesis
  proof (cases "m = 2")
    case True
    then show ?thesis
      using assms year_days_step [of y]
      by (auto simp: next_day_def check_calendar_day_def days_in_month_def civil_days_eq split: if_splits)
  next
    case False
    with m assms show ?thesis
      unfolding insert_iff empty_iff
      by (elim disjE; clarsimp simp: next_day_def check_calendar_day_def days_in_month_def civil_days_eq
          split: if_splits)
  qed
qed

text \<open>
  C30: the day number is the calendar's: 1970-01-01 is day 0, and for every valid date of the
  proleptic Gregorian calendar the day after it is valid and has the next number, month ends, leap
  days, century years and years before the epoch included.
\<close>

theorem civil_days_calendar:
  assumes "check_calendar_day y m d"
  shows "civil_days_from_epoch 1970 1 1 = 0 \<and>
    (case next_day (y, m, d) of (y', m', d') \<Rightarrow>
      check_calendar_day y' m' d' \<and> civil_days_from_epoch y' m' d' = civil_days_from_epoch y m d + 1)"
  using next_day_count [OF assms] by (auto simp: civil_days_eq year_days_def split: prod.split)

theorem civil_days_calendar_witness:
  "civil_days_from_epoch 1970 1 1 = 0 \<and>
    (case next_day (2000, 2, 29) of (y', m', d') \<Rightarrow>
      check_calendar_day y' m' d' \<and> civil_days_from_epoch y' m' d' = civil_days_from_epoch 2000 2 29 + 1)"
  by (rule civil_days_calendar) (simp add: check_calendar_day_def days_in_month_def)

section \<open>Decimals\<close>

definition dig :: "char \<Rightarrow> nat" where
  "dig c = of_char c - 48"

lemma is_digit_iff: "is_digit c \<longleftrightarrow> 48 \<le> (of_char c :: nat) \<and> (of_char c :: nat) \<le> 57"
  by (simp add: is_digit_def digit_val_def)

lemma digit_val_dig: "is_digit c \<Longrightarrow> digit_val c = Some (dig c)"
  by (simp add: is_digit_iff digit_val_def dig_def)

lemma dig_bound: "is_digit c \<Longrightarrow> dig c < 10"
  unfolding is_digit_iff dig_def by linarith

lemma digits_val_acc: "list_all is_digit ds \<Longrightarrow> digits_val acc ds = Some (acc * 10 ^ length ds + digits_nat ds)"
proof (induction ds arbitrary: acc)
  case (Cons d ds)
  from Cons.prems Cons.IH [of "dig d"] Cons.IH [of "10 * acc + dig d"] show ?case
    by (simp add: digit_val_dig digits_nat_def algebra_simps)
qed (simp add: digits_nat_def)

lemma digits_nat_Cons:
  "is_digit d \<Longrightarrow> list_all is_digit ds \<Longrightarrow> digits_nat (d # ds) = dig d * 10 ^ length ds + digits_nat ds"
  using digits_val_acc [of ds "dig d"] by (simp add: digits_nat_def digit_val_dig)

lemma digits_nat_append:
  "list_all is_digit xs \<Longrightarrow> list_all is_digit ys \<Longrightarrow>
    digits_nat (xs @ ys) = digits_nat xs * 10 ^ length ys + digits_nat ys"
  by (induction xs) (auto simp: digits_nat_Cons power_add algebra_simps digits_nat_def [of "[]"])

lemma digits_nat_bound: "list_all is_digit ds \<Longrightarrow> digits_nat ds < 10 ^ length ds"
proof (induction ds)
  case (Cons d ds)
  then have "dig d + 1 \<le> 10" "digits_nat ds < 10 ^ length ds" using dig_bound [of d] by simp_all
  then have "(dig d + 1) * 10 ^ length ds \<le> 10 * 10 ^ length ds" by (intro mult_le_mono1)
  then have "dig d * 10 ^ length ds + 10 ^ length ds \<le> 10 * 10 ^ length ds" by (simp only: distrib_right mult_1)
  moreover have "digits_nat (d # ds) = dig d * 10 ^ length ds + digits_nat ds"
    using Cons.prems by (simp add: digits_nat_Cons)
  moreover have "digits_nat ds < 10 ^ length ds" using Cons by simp
  ultimately show ?case unfolding length_Cons power_Suc by linarith
qed (simp add: digits_nat_def)

text \<open>The digits the loop appends, zeros past the end of the fraction.\<close>

fun appended :: "nat \<Rightarrow> string \<Rightarrow> nat" where
  "appended 0 fr = 0"
| "appended (Suc k) fr = (case fr of [] \<Rightarrow> 0 | c # _ \<Rightarrow> dig c) * 10 ^ k + appended k (tl fr)"

definition i128_max :: int where
  "i128_max = 2 ^ 127 - 1"

lemma scale_digits_eq:
  assumes "list_all is_digit fr"
  shows "scale_digits k fr (int acc) =
    (if int (acc * 10 ^ k + appended k fr) \<le> i128_max then Some (int (acc * 10 ^ k + appended k fr)) else None)
    \<or> int acc > i128_max"
  using assms
proof (induction k arbitrary: fr acc)
  case (Suc k)
  let ?d = "case fr of [] \<Rightarrow> 0 | c # _ \<Rightarrow> dig c"
  have d: "(case fr of [] \<Rightarrow> 0 | c # _ \<Rightarrow> int (of_char c) - 48) = int ?d"
    using Suc.prems by (cases fr) (auto simp: dig_def is_digit_iff)
  have tl: "list_all is_digit (tl fr)" using Suc.prems by (cases fr) auto
  let ?a = "10 * acc + ?d"
  have total: "acc * 10 ^ Suc k + appended (Suc k) fr = ?a * 10 ^ k + appended k (tl fr)"
    by (simp add: algebra_simps)
  have mono: "int ?a \<le> int (?a * 10 ^ k + appended k (tl fr))"
    by (simp only: of_nat_le_iff) (metis le_add1 le_trans mult.right_neutral mult_le_mono2 one_le_numeral one_le_power)
  show ?case
  proof (cases "int ?a \<le> i128_max")
    case True
    then have "scale_digits (Suc k) fr (int acc) = scale_digits k (tl fr) (int ?a)"
      by (simp add: Let_def d checked_i128_def i128_max_def algebra_simps)
    with Suc.IH [OF tl, of ?a] True show ?thesis unfolding total by auto
  next
    case False
    then have "scale_digits (Suc k) fr (int acc) = None"
      by (auto simp: Let_def d checked_i128_def i128_max_def algebra_simps split: bind_split)
    with False mono show ?thesis unfolding total by auto
  qed
qed (auto simp: i128_max_def)

lemma round_half:
  fixes d p z :: nat
  assumes "d \<le> 9" "z < p"
  shows "(2 * (d * p) + 2 * z + 10 * p) div (20 * p) = (if 5 \<le> d then 1 else 0)"
proof -
  have hi: "(2 * x + 2 * z + 10 * p) div (20 * p) = 1" if "5 * p \<le> x" "x \<le> 9 * p" for x
    using that assms(2) by (intro div_nat_eqI) simp_all
  have lo: "(2 * x + 2 * z + 10 * p) div (20 * p) = 0" if "x \<le> 4 * p" for x
    using that assms(2) by (intro div_nat_eqI) linarith+
  show ?thesis
  proof (cases "5 \<le> d")
    case True
    then have "5 * p \<le> d * p" "d * p \<le> 9 * p" using assms(1) by (intro mult_le_mono1; simp)+
    then show ?thesis using True hi by presburger
  next
    case False
    then have "d * p \<le> 4 * p" by (intro mult_le_mono1) simp
    then show ?thesis using False lo by presburger
  qed
qed

lemma round_first_digit:
  assumes "list_all is_digit fr"
  shows "(2 * digits_nat fr + 10 ^ length fr) div (2 * 10 ^ length fr) = (if fr \<noteq> [] \<and> 53 \<le> (of_char (hd fr) :: nat) then 1 else 0)"
proof (cases fr)
  case (Cons c cs)
  then have c: "is_digit c" "list_all is_digit cs" using assms by simp_all
  have five: "53 \<le> (of_char c :: nat) \<longleftrightarrow> 5 \<le> dig c" using c(1) by (auto simp: is_digit_iff dig_def)
  have num: "2 * digits_nat fr + 10 ^ length fr = 2 * (dig c * 10 ^ length cs) + 2 * digits_nat cs + 10 * 10 ^ length cs"
    using c Cons by (simp add: digits_nat_Cons algebra_simps)
  show ?thesis unfolding num
    using round_half [of "dig c" "digits_nat cs" "10 ^ length cs"] dig_bound [OF c(1)] digits_nat_bound [OF c(2)] five Cons by simp
qed (simp add: digits_nat_def)

lemma round_digit:
  assumes "list_all is_digit fr"
  shows "(2 * (digits_nat fr * 10 ^ k) + 10 ^ length fr) div (2 * 10 ^ length fr) =
    appended k fr + (if k < length fr \<and> 53 \<le> (of_char (fr ! k) :: nat) then 1 else 0)"
  using assms
proof (induction k arbitrary: fr)
  case 0
  then show ?case using round_first_digit [OF 0] by (cases fr) auto
next
  case (Suc k)
  show ?case
  proof (cases fr)
    case Nil
    have "appended j [] = 0" for j by (induction j) auto
    then show ?thesis by (simp add: Nil digits_nat_def)
  next
    case (Cons c cs)
    then have c: "is_digit c" "list_all is_digit cs" using Suc.prems by simp_all
    let ?p = "10 ^ length cs :: nat"
    have "2 * (digits_nat fr * 10 ^ Suc k) + 10 ^ length fr =
        10 * (dig c * 10 ^ k * (2 * ?p) + (2 * (digits_nat cs * 10 ^ k) + ?p))"
      using c Cons by (simp add: digits_nat_Cons algebra_simps)
    moreover have "2 * 10 ^ length fr = 10 * (2 * ?p)" using Cons by simp
    ultimately have "(2 * (digits_nat fr * 10 ^ Suc k) + 10 ^ length fr) div (2 * 10 ^ length fr) =
        (dig c * 10 ^ k * (2 * ?p) + (2 * (digits_nat cs * 10 ^ k) + ?p)) div (2 * ?p)"
      by (simp only: div_mult_mult1 zero_neq_numeral [symmetric] not_False_eq_True)
    also have "\<dots> = dig c * 10 ^ k + (2 * (digits_nat cs * 10 ^ k) + ?p) div (2 * ?p)" by simp
    finally show ?thesis using Suc.IH [OF c(2)] Cons by simp
  qed
qed

lemma split_sign_digits:
  "list_all (\<lambda>c. is_digit c \<or> c = CHR ''.'') ds \<Longrightarrow> split_sign ds = (False, ds)"
  by (cases ds) (auto simp: split_sign_def is_digit_iff)

lemma split_point:
  "list_all is_digit ip \<Longrightarrow> split_first (CHR ''.'') (ip @ CHR ''.'' # fp) = (ip, Some fp)"
  "list_all is_digit ip \<Longrightarrow> split_first (CHR ''.'') ip = (ip, None)"
  by (induction ip) (auto simp: is_digit_iff)

lemma parse_i128_digits:
  "list_all is_digit ip \<Longrightarrow> ip \<noteq> [] \<Longrightarrow>
    parse_i128 ip = (if int (digits_nat ip) \<le> i128_max then Some (int (digits_nat ip)) else None)"
  using split_sign_digits [of ip] digits_val_acc [of ip 0]
  by (auto simp: parse_signed_def i128_max_def Let_def list.pred_mono_strong)

text \<open>The literal \<open>[+-]?digits[.digits]\<close>, and its magnitude scaled and rounded half up.\<close>

definition decimal_literal :: "string \<Rightarrow> string \<Rightarrow> bool \<Rightarrow> string \<Rightarrow> string" where
  "decimal_literal sg ip point fp = sg @ ip @ (if point then CHR ''.'' # fp else [])"

definition scaled_half_up :: "nat \<Rightarrow> string \<Rightarrow> string \<Rightarrow> nat" where
  "scaled_half_up scl ip fp =
    (2 * (digits_nat (ip @ fp) * 10 ^ scl) + 10 ^ length fp) div (2 * 10 ^ length fp)"

lemma scaled_half_up_eq:
  assumes "list_all is_digit ip" "list_all is_digit fp"
  shows "scaled_half_up scl ip fp = digits_nat ip * 10 ^ scl + appended scl fp +
    (if scl < length fp \<and> 53 \<le> (of_char (fp ! scl) :: nat) then 1 else 0)"
proof -
  let ?p = "10 ^ length fp :: nat"
  have "2 * (digits_nat (ip @ fp) * 10 ^ scl) + ?p =
      digits_nat ip * 10 ^ scl * (2 * ?p) + (2 * (digits_nat fp * 10 ^ scl) + ?p)"
    using assms by (simp add: digits_nat_append algebra_simps)
  then have "scaled_half_up scl ip fp =
      digits_nat ip * 10 ^ scl + (2 * (digits_nat fp * 10 ^ scl) + ?p) div (2 * ?p)"
    unfolding scaled_half_up_def by (simp only: div_mult_self3) simp
  then show ?thesis using round_digit [OF assms(2), of scl] by simp
qed

lemma decimal_body:
  assumes "list_all is_digit ip" "list_all is_digit fp"
  shows "Option.bind (if ip = [] then Some 0 else parse_i128 ip) (\<lambda>acc0.
      Option.bind (scale_digits scl fp acc0) (\<lambda>acc.
      Option.bind (if scl < length fp \<and> (of_char (fp ! scl) :: nat) \<ge> 53
                   then checked_i128 (acc + 1) else Some acc) (\<lambda>acc'.
        if negative then checked_i128 (- acc') else Some acc'))) =
    (if int (scaled_half_up scl ip fp) \<le> i128_max
     then Some (if negative then - int (scaled_half_up scl ip fp) else int (scaled_half_up scl ip fp)) else None)"
proof -
  let ?n = "digits_nat ip" let ?a = "?n * 10 ^ scl + appended scl fp"
  have "1 \<le> (10 ^ scl :: nat)" by simp
  then have "?n * 1 \<le> ?n * 10 ^ scl" by (rule mult_le_mono2)
  then have big: "int ?n \<le> int ?a" by linarith
  have start: "(if ip = [] then Some 0 else parse_i128 ip) = (if int ?n \<le> i128_max then Some (int ?n) else None)"
    using parse_i128_digits [OF assms(1)] by (auto simp: digits_nat_def i128_max_def)
  define a where "a = int ?a"
  have a: "int (scaled_half_up scl ip fp) =
      a + (if scl < length fp \<and> 53 \<le> (of_char (fp ! scl) :: nat) then 1 else 0)" "0 \<le> a"
    unfolding a_def scaled_half_up_eq [OF assms] by simp_all
  show ?thesis
  proof (cases "int ?n \<le> i128_max")
    case True
    then have "scale_digits scl fp (int ?n) = (if a \<le> i128_max then Some a else None)"
      using scale_digits_eq [OF assms(2), of scl ?n] unfolding a_def by auto
    with True start a(2) show ?thesis unfolding a(1)
      by (auto simp: checked_i128_def i128_max_def)
  next
    case False
    with big start a(2) show ?thesis unfolding a(1) a_def by auto
  qed
qed

text \<open>
  C27: a plain decimal literal is scaled exactly.  Whatever its length and sign, the backing integer
  is the literal's magnitude times ten to the scale, rounded half up on all its digits, with the
  sign applied; it is refused exactly when that magnitude passes the largest 128-bit integer.
\<close>

theorem decimal_from_text_exact:
  assumes "list_all is_digit ip" "list_all is_digit fp" "ip \<noteq> [] \<or> point \<and> fp \<noteq> []" "\<not> point \<longrightarrow> fp = []"
    and "sg \<in> {[], ''+'', ''-''}"
  shows "decimal_from_text (decimal_literal sg ip point fp) scl =
    (if int (scaled_half_up scl ip fp) \<le> i128_max
     then Some (if sg = ''-'' then - int (scaled_half_up scl ip fp) else int (scaled_half_up scl ip fp))
     else None)"
proof -
  let ?ds = "ip @ (if point then CHR ''.'' # fp else [])"
  have ds: "list_all (\<lambda>c. is_digit c \<or> c = CHR ''.'') ?ds"
    using assms(1,2) by (auto simp: list_all_iff)
  have "split_sign (decimal_literal sg ip point fp) = (sg = ''-'', ?ds)"
  proof (cases "sg = []")
    case True
    then show ?thesis using split_sign_digits [OF ds] by (simp add: decimal_literal_def)
  qed (use assms(5) in \<open>auto simp: decimal_literal_def split_sign_def\<close>)
  moreover have "(case split_first (CHR ''.'') ?ds of (a, None) \<Rightarrow> (?ds, []) | (a, Some b) \<Rightarrow> (a, b)) = (ip, fp)"
    using split_point [OF assms(1)] assms(4) by simp
  moreover have "decimal_literal sg ip point fp \<noteq> []" "\<not> (ip = [] \<and> fp = [])"
    using assms(3) by (auto simp: decimal_literal_def)
  ultimately show ?thesis
    using decimal_body [OF assms(1,2), of scl "sg = ''-''"] assms(1,2)
    by (simp add: decimal_from_text_def) blast
qed

theorem decimal_from_text_exact_witness:
  "decimal_from_text (decimal_literal ''-'' ''12'' True ''345'') 2 =
    (if int (scaled_half_up 2 ''12'' ''345'') \<le> i128_max
     then Some (if ''-'' = ''-'' then - int (scaled_half_up 2 ''12'' ''345'') else int (scaled_half_up 2 ''12'' ''345''))
     else None) \<and> scaled_half_up 2 ''12'' ''345'' = 1235"
proof
  show "scaled_half_up 2 ''12'' ''345'' = 1235"
    by (simp add: scaled_half_up_def digits_nat_def digit_val_def)
  show "decimal_from_text (decimal_literal ''-'' ''12'' True ''345'') 2 =
      (if int (scaled_half_up 2 ''12'' ''345'') \<le> i128_max
       then Some (if ''-'' = ''-'' then - int (scaled_half_up 2 ''12'' ''345'') else int (scaled_half_up 2 ''12'' ''345''))
       else None)"
    by (rule decimal_from_text_exact) (simp_all add: is_digit_iff)
qed

end
