(* ===== verification/DynScalars.thy ===== *)
theory DynScalars
  imports DynDates
begin

text \<open>
  Date-time strings, integers and enum members of the dynamic encoder: what the text parser accepts
  and what it makes of it, that no integer is written modulo its width, and a name the enum lookup
  cannot resolve.
\<close>

section \<open>Date-time strings\<close>

lemma parse_u32_digits:
  assumes "list_all is_digit ds" "ds \<noteq> []" "length ds \<le> 9"
  shows "parse_u32 ds = Some (digits_nat ds)"
proof -
  have "digits_nat ds < 10 ^ length ds" by (rule digits_nat_bound [OF assms(1)])
  also have "\<dots> \<le> (10 :: nat) ^ 9" using assms(3) by (intro power_increasing) auto
  finally have "digits_nat ds \<le> 2 ^ 32 - 1" by simp
  moreover have "strip_prefix ''+'' ds = None"
    using assms(1,2) by (cases ds) (auto simp: strip_prefix_def is_digit_iff)
  ultimately show ?thesis using assms(2) digits_val_acc [OF assms(1), of 0] by (simp add: parse_unsigned_def)
qed

lemma parse_i32_digits:
  assumes "list_all is_digit ds" "ds \<noteq> []" "length ds \<le> 9"
  shows "parse_i32 ds = Some (int (digits_nat ds))"
proof -
  have "digits_nat ds < 10 ^ length ds" by (rule digits_nat_bound [OF assms(1)])
  also have "\<dots> \<le> (10 :: nat) ^ 9" using assms(3) by (intro power_increasing) auto
  finally have "int (digits_nat ds) \<le> 2 ^ 31 - 1" by simp
  moreover have "split_sign ds = (False, ds)"
    using assms(1) by (intro split_sign_digits) (auto simp: list_all_iff)
  ultimately show ?thesis using assms(2) digits_val_acc [OF assms(1), of 0] by (simp add: parse_signed_def Let_def)
qed

text \<open>The fraction and the zone that follow the seconds.\<close>

definition fraction :: "string \<Rightarrow> string" where
  "fraction fr = (if fr = [] then [] else CHR ''.'' # fr)"

definition utc_zones :: "string list" where
  "utc_zones = [[], ''Z'', ''+00:00'']"

definition nanos :: "string \<Rightarrow> nat" where
  "nanos fr = digits_nat (take 9 fr) * 10 ^ (9 - min (length fr) 9)"

lemma parse_fraction_text:
  assumes "length s = n" "list_all is_digit fr" "zone \<in> set utc_zones"
  shows "parse_fraction (s @ fraction fr @ zone) n = Inr (nanos fr, n + length (fraction fr))"
proof (cases "fr = []")
  case True
  then show ?thesis using assms(1,3)
    by (auto simp: parse_fraction_def fraction_def nanos_def utc_zones_def nth_append digits_nat_def)
next
  case False
  have ds: "takeWhile is_digit (fr @ zone) = fr"
  proof -
    have "takeWhile is_digit zone = []" using assms(3) by (auto simp: utc_zones_def is_digit_iff)
    moreover have "takeWhile is_digit (fr @ zone) = fr @ takeWhile is_digit zone"
      using assms(2) by (intro takeWhile_append2) (auto simp: list_all_iff)
    ultimately show ?thesis by simp
  qed
  have "list_all is_digit (take 9 fr)"
    using assms(2) append_take_drop_id [of 9 fr] by (metis list_all_append)
  moreover have "take (min (length fr) 9) fr = take 9 fr" by (simp add: min_def)
  ultimately have "parse_u32 (take (min (length fr) 9) fr) = Some (digits_nat (take 9 fr))"
    using False parse_u32_digits [of "take 9 fr"] by simp
  with False ds assms(1) show ?thesis
    by (simp add: parse_fraction_def fraction_def nanos_def nth_append Let_def)
qed

lemma parse_zone_text:
  assumes "length s = n" "zone \<in> set utc_zones"
  shows "parse_zone (s @ zone) n = Inr (n + length zone)"
  using assms
  by (auto simp: parse_zone_def utc_zones_def nth_append slice_def Let_def is_digit_iff numeral_2_eq_2)

definition datetime_text :: "string \<Rightarrow> string \<Rightarrow> string \<Rightarrow> string \<Rightarrow> string \<Rightarrow> string \<Rightarrow> string \<Rightarrow> string" where
  "datetime_text seps y mo d h mi s =
    y @ [seps ! 0] @ mo @ [seps ! 1] @ d @ [seps ! 2] @ h @ [seps ! 3] @ mi @ [seps ! 4] @ s"

lemma datetime_slices:
  assumes "length y = 4" "list_all (\<lambda>x. length x = 2) [mo, d, h, mi, s]"
  shows "length (datetime_text seps y mo d h mi s) = 19"
    "datetime_text seps y mo d h mi s ! 10 = seps ! 2"
    "slice 0 4 (datetime_text seps y mo d h mi s @ r) = y"
    "slice 5 7 (datetime_text seps y mo d h mi s @ r) = mo"
    "slice 8 10 (datetime_text seps y mo d h mi s @ r) = d"
    "slice 11 13 (datetime_text seps y mo d h mi s @ r) = h"
    "slice 14 16 (datetime_text seps y mo d h mi s @ r) = mi"
    "slice 17 19 (datetime_text seps y mo d h mi s @ r) = s"
  using assms by (simp_all add: datetime_text_def slice_def nth_append)

lemma digits_ascii: "list_all is_digit ds \<Longrightarrow> is_ascii ds"
  by (auto simp: is_ascii_def list_all_iff is_digit_iff)

text \<open>
  What the parser makes of a text with digits in the places of year, month, day, hour, minute and second.  The
  characters between the fields, the one before the hour apart, may be any ASCII: the parser does not read them.
\<close>

lemma parse_datetime_loose:
  assumes "list_all (list_all is_digit) [y, mo, d, h, mi, s, fr]"
    and "length y = 4" "list_all (\<lambda>x. length x = 2) [mo, d, h, mi, s]"
    and "length seps = 5" "is_ascii seps" "seps ! 2 \<in> {CHR '' '', CHR ''T''}" "zone \<in> set utc_zones"
  shows "parse_datetime_str (datetime_text seps y mo d h mi s @ fraction fr @ zone) =
    (if check_calendar_day (int (digits_nat y)) (digits_nat mo) (digits_nat d) \<and>
        digits_nat h \<le> 23 \<and> digits_nat mi \<le> 59 \<and> digits_nat s \<le> 59
     then Inr (civil_days_from_epoch (int (digits_nat y)) (digits_nat mo) (digits_nat d) * 86400 +
            int (digits_nat h) * 3600 + int (digits_nat mi) * 60 + int (digits_nat s), nanos fr)
     else Inl ''invalid DateTime string'')"
proof -
  let ?t = "datetime_text seps y mo d h mi s"
  note sl = datetime_slices [OF assms(2,3)]
  have "is_ascii (fraction fr @ zone)"
    using assms(1,7) digits_ascii [of fr] by (auto simp: is_ascii_def fraction_def utc_zones_def)
  moreover have "is_ascii ?t"
  proof -
    have "(of_char (seps ! i) :: nat) < 128" if "i < 5" for i
      using that assms(4,5) by (simp add: is_ascii_def list_all_length)
    then show ?thesis using assms(1) digits_ascii by (simp add: is_ascii_def datetime_text_def)
  qed
  ultimately have ascii: "is_ascii (?t @ fraction fr @ zone)" by (simp add: is_ascii_def)
  have nums: "parse_i32 y = Some (int (digits_nat y))" "parse_u32 mo = Some (digits_nat mo)"
    "parse_u32 d = Some (digits_nat d)" "parse_u32 h = Some (digits_nat h)" "parse_u32 mi = Some (digits_nat mi)"
    "parse_u32 s = Some (digits_nat s)"
    by (rule parse_i32_digits parse_u32_digits; use assms(1-3) in force)+
  have pf: "parse_fraction (?t @ fraction fr @ zone) 19 = Inr (nanos fr, 19 + length (fraction fr))"
    by (rule parse_fraction_text) (use sl(1) assms in auto)
  have pz: "parse_zone ((?t @ fraction fr) @ zone) (19 + length (fraction fr)) =
      Inr (19 + length (fraction fr) + length zone)"
    by (rule parse_zone_text) (use sl(1) assms(7) in auto)
  have ten: "(?t @ fraction fr @ zone) ! 10 = seps ! 2" using sl(1,2) by (simp add: nth_append)
  show ?thesis
    unfolding parse_datetime_str_def pf ten sl(3-8) nums tri_simps ok_str_def prod.case option.case
    using ascii assms(6) pz sl(1) by auto
qed

text \<open>
  C29: what the date-time parser makes of a text in the documented form, \<open>YYYY-MM-DD\<close>, a blank or \<open>T\<close>, \<open>HH:MM:SS\<close>, any
  number of fraction digits and one of the notations for UTC (none, \<open>Z\<close> or \<open>+00:00\<close>).  The result is the
  instant on the proleptic Gregorian calendar with the fraction cut to nanoseconds; and among these texts exactly those
  are refused whose day or time does not exist.
\<close>

theorem parse_datetime_text:
  assumes "list_all (list_all is_digit) [y, mo, d, h, mi, s, fr]"
    and "length y = 4" "list_all (\<lambda>x. length x = 2) [mo, d, h, mi, s]"
    and "sep \<in> {CHR '' '', CHR ''T''}" "zone \<in> set utc_zones"
  shows "parse_datetime_str (y @ ''-'' @ mo @ ''-'' @ d @ [sep] @ h @ '':'' @ mi @ '':'' @ s @ fraction fr @ zone) =
    (if check_calendar_day (int (digits_nat y)) (digits_nat mo) (digits_nat d) \<and>
        digits_nat h \<le> 23 \<and> digits_nat mi \<le> 59 \<and> digits_nat s \<le> 59
     then Inr (civil_days_from_epoch (int (digits_nat y)) (digits_nat mo) (digits_nat d) * 86400 +
            int (digits_nat h) * 3600 + int (digits_nat mi) * 60 + int (digits_nat s), nanos fr)
     else Inl ''invalid DateTime string'')"
proof -
  have form: "y @ ''-'' @ mo @ ''-'' @ d @ [sep] @ h @ '':'' @ mi @ '':'' @ s @ fraction fr @ zone =
      datetime_text [CHR ''-'', CHR ''-'', sep, CHR '':'', CHR '':''] y mo d h mi s @ fraction fr @ zone"
    by (simp add: datetime_text_def)
  show ?thesis unfolding form by (rule parse_datetime_loose [OF assms(1-3)]) (use assms(4,5) in \<open>auto simp: is_ascii_def\<close>)
qed

theorem parse_datetime_text_witness:
  "parse_datetime_str (''2024-02-29T23:59:58'' @ fraction ''25'' @ ''Z'') = Inr (1709251198, 250000000)"
proof -
  have ds: "list_all (list_all is_digit) [''2024'', ''02'', ''29'', ''23'', ''59'', ''58'', ''25'']"
    by (simp add: is_digit_iff)
  have "parse_datetime_str (''2024'' @ ''-'' @ ''02'' @ ''-'' @ ''29'' @ [CHR ''T''] @ ''23'' @ '':'' @ ''59'' @ '':'' @ ''58'' @
      fraction ''25'' @ ''Z'') =
    (if check_calendar_day (int (digits_nat ''2024'')) (digits_nat ''02'') (digits_nat ''29'') \<and>
        digits_nat ''23'' \<le> 23 \<and> digits_nat ''59'' \<le> 59 \<and> digits_nat ''58'' \<le> 59
     then Inr (civil_days_from_epoch (int (digits_nat ''2024'')) (digits_nat ''02'') (digits_nat ''29'') * 86400 +
            int (digits_nat ''23'') * 3600 + int (digits_nat ''59'') * 60 + int (digits_nat ''58''), nanos ''25'')
     else Inl ''invalid DateTime string'')"
    by (rule parse_datetime_text [OF ds]) (simp_all add: utc_zones_def)
  then show ?thesis
    by (simp add: digits_nat_def digit_val_def check_calendar_day_def days_in_month_def civil_days_from_epoch_def
        quot_def nanos_def)
qed

text \<open>The separators are not checked: a text in no documented form is read as a date-time.\<close>

lemma separators_not_checked:
  "parse_datetime_str (datetime_text ''xyTab'' ''2024'' ''02'' ''29'' ''23'' ''59'' ''58'' @ fraction ''25'' @ ''Z'') =
    Inr (1709251198, 250000000)"
proof -
  have ds: "list_all (list_all is_digit) [''2024'', ''02'', ''29'', ''23'', ''59'', ''58'', ''25'']"
    by (simp add: is_digit_iff)
  have seps: "is_ascii ''xyTab''" by (simp add: is_ascii_def)
  show ?thesis
    by (subst parse_datetime_loose [OF ds _ _ _ seps])
      (simp_all add: utc_zones_def digits_nat_def digit_val_def check_calendar_day_def days_in_month_def
        civil_days_from_epoch_def quot_def nanos_def)
qed

section \<open>Integers\<close>

text \<open>
  A JSON number that is the integer \<open>i\<close>: the library reports it in each of the two 64-bit ranges it
  lies in, and as the float it is rounded to.  Rounding may carry a number up to \<open>2 ^ 63\<close> but takes none
  down from there, and none across zero.
\<close>

definition json_int :: "number \<Rightarrow> int \<Rightarrow> bool" where
  "json_int n i \<longleftrightarrow> - (2 ^ 63) \<le> i \<and> i < 2 ^ 64 \<and>
    as_u64_of n = (if 0 \<le> i then Some (nat i) else None) \<and>
    as_i64_of n = (if i < 2 ^ 63 then Some i else None) \<and>
    (\<exists>bits j. as_f64_of n = Some bits \<and> f64_whole bits = Some j \<and> (i < 0 \<longrightarrow> j < 0) \<and> (2 ^ 63 \<le> i \<longrightarrow> 2 ^ 63 \<le> j))"

definition int_width :: "TypeTag \<Rightarrow> (bool \<times> nat) option" where
  "int_width tag = (case tag of
     TUInt8 \<Rightarrow> Some (False, 1) | TUInt16 \<Rightarrow> Some (False, 2) | TUInt32 \<Rightarrow> Some (False, 4) | TUInt64 \<Rightarrow> Some (False, 8)
   | TUInt128 \<Rightarrow> Some (False, 16) | TUInt256 \<Rightarrow> Some (False, 32)
   | TInt8 \<Rightarrow> Some (True, 1) | TInt16 \<Rightarrow> Some (True, 2) | TInt32 \<Rightarrow> Some (True, 4) | TInt64 \<Rightarrow> Some (True, 8)
   | TInt128 \<Rightarrow> Some (True, 16) | TInt256 \<Rightarrow> Some (True, 32)
   | _ \<Rightarrow> None)"

text \<open>The integer that \<open>w\<close> bytes denote, in two's complement where the type is signed.\<close>

definition int_of_bytes :: "bool \<Rightarrow> byte list \<Rightarrow> int" where
  "int_of_bytes sgnd bs =
    (if sgnd \<and> 2 ^ (8 * length bs - 1) \<le> le_val bs then int (le_val bs) - 2 ^ (8 * length bs) else int (le_val bs))"

definition in_range :: "bool \<Rightarrow> nat \<Rightarrow> int \<Rightarrow> bool" where
  "in_range sgnd w i \<longleftrightarrow> (if sgnd then - (2 ^ (8 * w - 1)) \<le> i \<and> i < 2 ^ (8 * w - 1) else 0 \<le> i \<and> i < 2 ^ (8 * w))"

lemma pow256: "(256 :: 'a :: comm_semiring_1) ^ w = 2 ^ (8 * w)"
  by (simp add: power_mult)

lemma unsigned_back: "in_range False w i \<Longrightarrow> int_of_bytes False (le_bytes w (nat i)) = i"
  by (simp add: int_of_bytes_def in_range_def le_val_le_bytes pow256 nat_less_iff)

lemma signed_back:
  assumes "in_range True w i" "0 < w"
  shows "int_of_bytes True (signed_bytes w i) = i"
proof -
  obtain h :: int where h: "h = 2 ^ (8 * w - 1)" "2 ^ (8 * w) = 2 * h"
    using assms(2) by (simp add: power_eq_if)
  then have "0 < h" by simp
  have b: "- h \<le> i" "i < h" using assms(1) by (simp_all add: in_range_def h)
  have m: "i mod (2 * h) = (if i < 0 then i + 2 * h else i)"
  proof (cases "i < 0")
    case True
    have "(i + 2 * h) mod (2 * h) = i + 2 * h" by (rule mod_pos_pos_trivial) (use True b \<open>0 < h\<close> in linarith)+
    with True show ?thesis by simp
  qed (use b \<open>0 < h\<close> in simp)
  have v: "int (le_val (signed_bytes w i)) = i mod (2 * h)"
    using \<open>0 < h\<close> h(2) by (simp add: signed_bytes_def le_val_le_bytes pow256 nat_less_iff flip: h(2))
  moreover have "2 ^ (8 * w - 1) \<le> le_val (signed_bytes w i) \<longleftrightarrow> h \<le> i mod (2 * h)"
    using v h(1) by (metis of_nat_le_iff of_nat_numeral of_nat_power)
  ultimately show ?thesis using m b \<open>0 < h\<close>
    by (auto simp: int_of_bytes_def signed_bytes_def h(2))
qed

lemma as_u64_int:
  "json_int n i \<Longrightarrow> as_u64 (Number n) col = (if 0 \<le> i then Inr (nat i) else Inl (enc_err col ''not a valid unsigned integer''))"
  by (auto simp: json_int_def as_u64_def or_else_def ok_or_def int_as_u64_def whole_f64_as_u64_def
      split: option.splits Option.bind_splits)

lemma as_i64_int:
  "json_int n i \<Longrightarrow> as_i64 (Number n) col = (if i < 2 ^ 63 then Inr i else Inl (enc_err col ''not a valid integer''))"
  by (auto simp: json_int_def as_i64_def or_else_def ok_or_def nat_as_i64_def whole_f64_as_i64_def
      split: option.splits Option.bind_splits)

lemma as_u128_int:
  "json_int n i \<Longrightarrow> as_u128 (Number n) col = (if 0 \<le> i then Inr (nat i) else Inl (enc_err col ''not a valid u128''))"
  by (auto simp: json_int_def as_u128_def or_else_def ok_or_def int_as_u64_def)

lemma as_i128_int: "json_int n i \<Longrightarrow> as_i128 (Number n) col = Inr i"
  by (auto simp: json_int_def as_i128_def or_else_def ok_or_def)

definition keeps :: "bool \<Rightarrow> nat \<Rightarrow> int \<Rightarrow> byte list dres \<Rightarrow> bool" where
  "keeps sgnd w i r \<longleftrightarrow> (case r of
     Inr bs \<Rightarrow> in_range sgnd w i \<and> length bs = w \<and> int_of_bytes sgnd bs = i
   | Inl e \<Rightarrow> \<not> in_range sgnd w i)"

lemma unsigned_arm_keeps:
  "json_int n i \<Longrightarrow> keeps False w i (unsigned_arm w ty (Number n) col)"
  using unsigned_back [of w i]
  by (auto simp: keeps_def unsigned_arm_def as_u64_int narrow_def in_range_def)

lemma signed_arm_keeps:
  assumes "json_int n i" "0 < w" "w \<le> 8"
  shows "keeps True w i (signed_arm w ty (Number n) col)"
proof -
  have "(2 :: int) ^ (8 * w - 1) \<le> 2 ^ 63" using assms(3) by (intro power_increasing) auto
  then show ?thesis using signed_back [of w i] assms
    by (auto simp: keeps_def signed_arm_def as_i64_int narrow_def in_range_def signed_bytes_def)
qed

lemma le_val_app: "le_val (a @ b) = le_val a + 256 ^ length a * le_val b"
  by (induction a) (auto simp: algebra_simps)

lemma le_val_zeros: "le_val (replicate k 0) = 0"
  by (induction k) auto

lemma le_val_ones: "le_val (replicate k 0xFF) + 1 = 256 ^ k"
  by (induction k) auto

lemma wide_unsigned: "n < 2 ^ 128 \<Longrightarrow> int_of_bytes False (u128_to_u256_le n) = int n"
  by (simp add: int_of_bytes_def u128_to_u256_le_def le_val_app le_val_zeros le_val_le_bytes)

lemma wide_signed:
  assumes "- (2 ^ 127) \<le> i" "i < 2 ^ 127"
  shows "int_of_bytes True (i128_to_i256_le i) = i"
proof -
  have low: "int (le_val (signed_bytes 16 i)) = i mod 2 ^ 128"
    by (simp add: signed_bytes_def le_val_le_bytes nat_less_iff)
  have len: "length (i128_to_i256_le i) = 32" by (simp add: i128_to_i256_le_def signed_bytes_def)
  have high: "le_val (replicate 16 0xFF) = 256 ^ 16 - 1" using le_val_ones [of 16] by simp
  show ?thesis
  proof (cases "i < 0")
    case True
    have "i mod 2 ^ 128 = (i + 2 ^ 128) mod 2 ^ 128" by simp
    also have "\<dots> = i + 2 ^ 128" by (rule mod_pos_pos_trivial) (use True assms in simp_all)
    finally have v: "int (le_val (i128_to_i256_le i)) = i + 2 ^ 256"
      using True low by (simp add: i128_to_i256_le_def le_val_app high signed_bytes_def)
    then have "int (2 ^ 255) \<le> int (le_val (i128_to_i256_le i))" using assms by simp
    then have "2 ^ 255 \<le> le_val (i128_to_i256_le i)" by (simp only: of_nat_le_iff)
    with v show ?thesis by (simp add: int_of_bytes_def len)
  next
    case False
    then have v: "int (le_val (i128_to_i256_le i)) = i"
      using low assms by (simp add: i128_to_i256_le_def le_val_app le_val_zeros)
    then have "\<not> int (2 ^ 255) \<le> int (le_val (i128_to_i256_le i))" using assms by simp
    then have "\<not> 2 ^ 255 \<le> le_val (i128_to_i256_le i)" unfolding of_nat_le_iff .
    with v show ?thesis by (simp add: int_of_bytes_def len)
  qed
qed

lemma wide_keeps:
  assumes "json_int n i"
  shows "keeps False 8 i (tri (as_u64 (Number n) col) (\<lambda>m. Inr (le_bytes 8 m)))"
    "keeps False 16 i (tri (as_u128 (Number n) col) (\<lambda>m. Inr (le_bytes 16 m)))"
    "keeps False 32 i (as_u256_le (Number n) col)"
    "keeps True 8 i (tri (as_i64 (Number n) col) (\<lambda>m. Inr (signed_bytes 8 m)))"
    "keeps True 16 i (tri (as_i128 (Number n) col) (\<lambda>m. Inr (signed_bytes 16 m)))"
    "keeps True 32 i (as_i256_le (Number n) col)"
proof -
  have i: "- (2 ^ 63) \<le> i" "i < 2 ^ 64" using assms by (simp_all add: json_int_def)
  note read = unsigned_back [of 8 i] unsigned_back [of 16 i] signed_back [of 8 i] signed_back [of 16 i]
  show "keeps False 8 i (tri (as_u64 (Number n) col) (\<lambda>m. Inr (le_bytes 8 m)))"
    "keeps False 16 i (tri (as_u128 (Number n) col) (\<lambda>m. Inr (le_bytes 16 m)))"
    "keeps True 8 i (tri (as_i64 (Number n) col) (\<lambda>m. Inr (signed_bytes 8 m)))"
    "keeps True 16 i (tri (as_i128 (Number n) col) (\<lambda>m. Inr (signed_bytes 16 m)))"
    using i read
    by (auto simp: keeps_def as_u64_int [OF assms] as_u128_int [OF assms] as_i64_int [OF assms] as_i128_int [OF assms]
        in_range_def signed_bytes_def)
  show "keeps False 32 i (as_u256_le (Number n) col)"
    using i wide_unsigned [of "nat i"]
    by (auto simp: keeps_def as_u256_le_def as_u128_int [OF assms] in_range_def u128_to_u256_le_def nat_less_iff)
  show "keeps True 32 i (as_i256_le (Number n) col)"
    using i wide_signed [of i]
    by (auto simp: keeps_def as_i256_le_def as_i128_int [OF assms] in_range_def i128_to_i256_le_def signed_bytes_def)
qed

text \<open>
  C26: an integer is written exactly or refused.  For every JSON integer and each of the twelve integer
  column types the encoder succeeds exactly when the column's range holds the value, and then the
  bytes it writes denote that value: nothing is written modulo the width.
\<close>

theorem integers_exact_or_refused:
  assumes "json_int n i" "int_width (pt_tag pt) = Some (sgnd, w)" "pt_base pt \<noteq> ''Decimal''" "\<not> pt_nullable pt"
  shows "case encode_value env col (Number n) pt of
      Inr bs \<Rightarrow> in_range sgnd w i \<and> length bs = w \<and> int_of_bytes sgnd bs = i
    | Inl e \<Rightarrow> \<not> in_range sgnd w i"
proof -
  have "encode_value env col (Number n) pt = encode_scalar env (pt_tag pt) (Number n) pt col"
    using assms(2-4)
    by (cases "pt_tag pt") (simp_all add: int_width_def encode_value.simps encode_typed_def resolved_tag_def)
  moreover have "keeps sgnd w i (encode_scalar env (pt_tag pt) (Number n) pt col)"
    using assms(2) unsigned_arm_keeps [OF assms(1)] signed_arm_keeps [OF assms(1)] wide_keeps [OF assms(1), of col]
    by (cases "pt_tag pt") (auto simp: int_width_def encode_scalar_def)
  ultimately show ?thesis by (simp add: keeps_def)
qed

text \<open>The largest \<open>Int64\<close>, which the library reports as the float \<open>2 ^ 63\<close>.\<close>

theorem integers_exact_or_refused_witness:
  "case encode_value \<lparr> to_text = (\<lambda>_. []), to_writer = (\<lambda>_. Inl []), powi10 = (\<lambda>_. 0), nan_to_f32 = (\<lambda>_. 0) \<rparr>
      ''c'' (Number \<lparr> as_u64_of = Some (2 ^ 63 - 1), as_i64_of = Some (2 ^ 63 - 1), as_f64_of = Some 0x43E0000000000000,
        num_text = ''9223372036854775807'' \<rparr>)
      (ParsedType ''Int64'' ''Int64'' TInt64 False False None None None None None None) of
      Inr bs \<Rightarrow> in_range True 8 (2 ^ 63 - 1) \<and> length bs = 8 \<and> int_of_bytes True bs = 2 ^ 63 - 1
    | Inl e \<Rightarrow> \<not> in_range True 8 (2 ^ 63 - 1)"
proof (rule integers_exact_or_refused)
  have "f64_whole 0x43E0000000000000 = Some (2 ^ 63)" by code_simp
  then show "json_int \<lparr> as_u64_of = Some (2 ^ 63 - 1), as_i64_of = Some (2 ^ 63 - 1), as_f64_of = Some 0x43E0000000000000,
      num_text = ''9223372036854775807'' \<rparr> (2 ^ 63 - 1)"
    by (simp add: json_int_def)
qed (simp_all add: int_width_def)

section \<open>Enum members\<close>

text \<open>
  A member name of a nullable enum is not found.  The member list is cut from the declared type
  between its first and its last parenthesis; under a \<open>Nullable\<close> wrapper the first piece still
  carries \<open>Enum8(\<close>, so the first member is refused, while the same name of the bare enum resolves.
\<close>

theorem nullable_enum_member_lost:
  "enum_discriminant (Str ''a'') (''Enum8('' @ [CHR 0x27] @ ''a'' @ [CHR 0x27] @ '' = 1)'') col = Inr 1 \<and>
    enum_discriminant (Str ''a'') (''Nullable(Enum8('' @ [CHR 0x27] @ ''a'' @ [CHR 0x27] @ '' = 1))'') col =
      Inl (enc_err col ''enum string not found in type definition'')"
  by (rule conjI; code_simp)

end
