(* ===== verification/BlockEncode.thy ===== *)
theory BlockEncode
  imports WireIO ColumnTypes
begin

text \<open>
  The columnar encoder of native INSERT blocks, src/src/native/encode.rs: it cuts every row's
  RowBinary bytes into one cell per column, and writes each column's cells in native layout.
  A slice of a row is the list of its bytes; a position is an index into the row.
\<close>

definition DBMS_MIN_PROTOCOL_VERSION_WITH_CUSTOM_SERIALIZATION :: u64 where
  "DBMS_MIN_PROTOCOL_VERSION_WITH_CUSTOM_SERIALIZATION = 54454"

definition HAS_ADDITIONAL_KEYS :: u64 where
  "HAS_ADDITIONAL_KEYS = push_bit 9 1"

record ColumnSchema =
  cs_name :: string
  cs_type_name :: string
  cs_col_type :: ColumnType

definition from_headers :: "(string \<times> string) list \<Rightarrow> ColumnSchema list result" where
  "from_headers headers =
    each_result (\<lambda>(name, type_name).
      case parse type_name of
        None \<Rightarrow> Inl (BadResponse (InsertUnsupportedColumn type_name name))
      | Some col_type \<Rightarrow>
          Inr \<lparr> cs_name = name, cs_type_name = type_name, cs_col_type = col_type \<rparr>) headers"

section \<open>Walking one RowBinary value\<close>

definition rb_truncated :: error where
  "rb_truncated = BadResponse InsertRowTruncated"

definition checked_add :: "nat \<Rightarrow> nat \<Rightarrow> nat option" where
  "checked_add a b = (if a + b < 2 ^ 64 then Some (a + b) else None)"

definition rb_read_varuint :: "byte list \<Rightarrow> nat \<Rightarrow> (u64 \<times> nat) result" where
  "rb_read_varuint data pos =
    (if pos \<le> length data then
       (case get_var_uint (drop pos data) of
          Inl NotEnoughData \<Rightarrow> Inl rb_truncated
        | other \<Rightarrow> other)
     else Inl rb_truncated)"

text \<open>The bounds check the fixed-width and string arms share: \<open>end\<close> is the checked new position.\<close>

definition rb_jump :: "byte list \<Rightarrow> nat option \<Rightarrow> nat result" where
  "rb_jump data e =
    (case e of None \<Rightarrow> Inl rb_truncated
     | Some e' \<Rightarrow> if e' > length data then Inl rb_truncated else Inr e')"

function (sequential) rb_advance :: "byte list \<Rightarrow> ColumnType \<Rightarrow> nat \<Rightarrow> nat result" where
  "rb_advance data col_type pos =
    (case fixed_size col_type of
       Some width \<Rightarrow> rb_jump data (checked_add pos width)
     | None \<Rightarrow>
        (if col_type \<in> {String, Json, NewJson} then
           tri (rb_read_varuint data pos) (\<lambda>(len, hdr).
             rb_jump data (Option.bind (checked_add pos hdr) (\<lambda>p. checked_add p (unat len))))
         else case col_type of
           Nullable inner \<Rightarrow>
             (if pos \<ge> length data then Inl rb_truncated
              else if data ! pos = 0 then rb_advance data inner (pos + 1) else Inr (pos + 1))
         | LowCardinality inner \<Rightarrow> rb_advance data inner pos
         | Array inner \<Rightarrow>
             tri (rb_read_varuint data pos) (\<lambda>(count, hdr).
               repeat_result (unat count) (rb_advance data inner) (pos + hdr))
         | Tuple flds \<Rightarrow> fold_result (rb_advance data) flds pos
         | Map key_type val_type \<Rightarrow>
             tri (rb_read_varuint data pos) (\<lambda>(count, hdr).
               repeat_result (unat count)
                 (\<lambda>p. tri (rb_advance data key_type p) (rb_advance data val_type)) (pos + hdr))
         | unsupported \<Rightarrow> Inl (BadResponse (InsertUnsupportedType unsupported))))"
  by pat_completeness auto
termination rb_advance
  by (relation "measure (\<lambda>(data, col_type, pos). size col_type)")
     (auto simp: less_Suc_eq_le size_list_estimation')

declare rb_advance.simps [simp del]

text \<open>\<open>rb_advance\<close> at \<open>start\<close>, with the slice it passed over.\<close>

definition rb_slice :: "byte list \<Rightarrow> ColumnType \<Rightarrow> nat \<Rightarrow> (byte list \<times> nat) result" where
  "rb_slice data col_type start =
    tri (rb_advance data col_type start) (\<lambda>pos. Inr (take (pos - start) (drop start data), pos))"

function (sequential) rb_write_default :: "ColumnType \<Rightarrow> byte list" where
  "rb_write_default col_type =
    (case fixed_size col_type of
       Some width \<Rightarrow> replicate width 0
     | None \<Rightarrow>
        (case col_type of
           LowCardinality inner \<Rightarrow> rb_write_default inner
         | _ \<Rightarrow> put_var_uint 0))"
  by pat_completeness auto
termination rb_write_default
  by (relation "measure size") auto

declare rb_write_default.simps [simp del]

section \<open>Serialisation prefixes\<close>

function (sequential) write_col_prefixes :: "ColumnType \<Rightarrow> byte list" where
  "write_col_prefixes col_type =
    (case col_type of
       LowCardinality inner \<Rightarrow> le_bytes 8 1
     | Nullable inner \<Rightarrow> write_col_prefixes inner
     | Array inner \<Rightarrow> write_col_prefixes inner
     | SimpleAggregateFunction inner \<Rightarrow> write_col_prefixes inner
     | Tuple flds \<Rightarrow> concat (map write_col_prefixes flds)
     | Map key v \<Rightarrow> write_col_prefixes key @ write_col_prefixes v
     | _ \<Rightarrow> [])"
  by pat_completeness auto
termination write_col_prefixes
  by (relation "measure size") (auto simp: less_Suc_eq_le size_list_estimation')

declare write_col_prefixes.simps [simp del]

section \<open>Column values\<close>

text \<open>The dictionary type of \<open>LowCardinality(inner)\<close> and whether \<open>inner\<close> is nullable.\<close>

definition lc_dict_type :: "ColumnType \<Rightarrow> ColumnType" where
  "lc_dict_type inner = (case inner of Nullable t_inner \<Rightarrow> t_inner | _ \<Rightarrow> inner)"

definition lc_nullable :: "ColumnType \<Rightarrow> bool" where
  "lc_nullable inner = (case inner of Nullable t_inner \<Rightarrow> True | _ \<Rightarrow> False)"

text \<open>The dictionary key of a cell; \<open>None\<close> is NULL.\<close>

definition lc_key :: "bool \<Rightarrow> byte list \<Rightarrow> byte list option" where
  "lc_key is_nullable_inner v =
    (if is_nullable_inner then
       (case v of [] \<Rightarrow> None | b # rest \<Rightarrow> if b = 1 then None else Some rest)
     else Some v)"

text \<open>
  The loop over the cells that builds the dictionary, with the \<open>seen\<close> hash map and the index of
  every cell so far.
\<close>

fun lc_index_loop ::
  "bool \<Rightarrow> byte list list \<Rightarrow> byte list list \<Rightarrow> (byte list \<rightharpoonup> nat) \<Rightarrow> nat list \<Rightarrow>
    (byte list list \<times> nat list) result" where
  "lc_index_loop nullable [] dict seen indices = Inr (dict, indices)"
| "lc_index_loop nullable (v # vs) dict seen indices =
    (case lc_key nullable v of
       None \<Rightarrow> lc_index_loop nullable vs dict seen (indices @ [0])
     | Some bytes \<Rightarrow>
        (if length dict \<ge> 2 ^ 32 then Inl (BadResponse InsertDictionaryTooLarge)
         else case seen bytes of
           Some idx \<Rightarrow> lc_index_loop nullable vs dict seen (indices @ [idx])
         | None \<Rightarrow>
             lc_index_loop nullable vs (dict @ [bytes]) (seen(bytes \<mapsto> length dict))
               (indices @ [length dict])))"

definition lc_index :: "ColumnType \<Rightarrow> byte list list \<Rightarrow> (byte list list \<times> nat list) result" where
  "lc_index inner values =
    (if lc_nullable inner then
       (let default_val = rb_write_default (lc_dict_type inner)
        in lc_index_loop True values [default_val] (Map.empty(default_val \<mapsto> 0)) [])
     else lc_index_loop False values [] Map.empty [])"

text \<open>The narrowest index width for a dictionary: its code in the flags word and its bytes.\<close>

definition lc_index_width :: "nat \<Rightarrow> u64 \<times> nat" where
  "lc_index_width n = (if n \<le> 0x100 then (0, 1) else if n \<le> 0x10000 then (1, 2) else (2, 4))"

text \<open>The elements of one array cell, and the keys and values of one map cell.\<close>

primrec rb_slices :: "nat \<Rightarrow> byte list \<Rightarrow> ColumnType \<Rightarrow> nat \<Rightarrow> byte list list result" where
  "rb_slices 0 v inner pos = Inr []"
| "rb_slices (Suc n) v inner pos =
    tri (rb_slice v inner pos) (\<lambda>(cell, pos').
      tri (rb_slices n v inner pos') (\<lambda>cells. Inr (cell # cells)))"

primrec rb_pairs ::
  "nat \<Rightarrow> byte list \<Rightarrow> ColumnType \<Rightarrow> ColumnType \<Rightarrow> nat \<Rightarrow> (byte list \<times> byte list) list result" where
  "rb_pairs 0 v key_type val_type pos = Inr []"
| "rb_pairs (Suc n) v key_type val_type pos =
    tri (rb_slice v key_type pos) (\<lambda>(k, pos1).
      tri (rb_slice v val_type pos1) (\<lambda>(x, pos2).
        tri (rb_pairs n v key_type val_type pos2) (\<lambda>ps. Inr ((k, x) # ps))))"

text \<open>The cells of one tuple value, or of one row: a slice per type, and the position reached.\<close>

primrec rb_fields :: "byte list \<Rightarrow> ColumnType list \<Rightarrow> nat \<Rightarrow> (byte list list \<times> nat) result" where
  "rb_fields v [] pos = Inr ([], pos)"
| "rb_fields v (t # ts) pos =
    tri (rb_slice v t pos) (\<lambda>(cell, pos').
      tri (rb_fields v ts pos') (\<lambda>(cells, e). Inr (cell # cells, e)))"

text \<open>Running sums of the element counts, wrapping at 64 bits.\<close>

fun cumulative :: "u64 \<Rightarrow> u64 list \<Rightarrow> u64 list" where
  "cumulative cum [] = []"
| "cumulative cum (c # cs) = (cum + c) # cumulative (cum + c) cs"

definition put_offsets :: "u64 list \<Rightarrow> byte list" where
  "put_offsets offs = concat (map (\<lambda>off. le_bytes 8 (unat off)) offs)"

text \<open>Column \<open>i\<close> of a list of rows.\<close>

definition column_of :: "nat \<Rightarrow> 'a list list \<Rightarrow> 'a list" where
  "column_of i rows = map (\<lambda>r. r ! i) rows"

definition columns_of :: "nat \<Rightarrow> 'a list list \<Rightarrow> 'a list list" where
  "columns_of n rows = map (\<lambda>i. column_of i rows) [0..<n]"

lemma size_lc_dict_type: "size (lc_dict_type inner) \<le> size inner"
  by (cases inner) (auto simp: lc_dict_type_def)

function (sequential) write_col_values :: "byte list list \<Rightarrow> ColumnType \<Rightarrow> byte list result" where
  "write_col_values values col_type =
    (if fixed_size col_type \<noteq> None \<or> col_type \<in> {String, Json, NewJson} then Inr (concat values)
     else case col_type of
       Nullable inner \<Rightarrow>
         tri (each_result (\<lambda>v. case v of
                [] \<Rightarrow> Inl rb_truncated
              | flag # rest \<Rightarrow> Inr (flag, if flag = 0 then rest else rb_write_default inner)) values)
           (\<lambda>slots. tri (write_col_values (map snd slots) inner)
             (\<lambda>bytes. Inr (map fst slots @ bytes)))
     | LowCardinality inner \<Rightarrow>
         tri (lc_index inner values) (\<lambda>(dict, indices).
           let (index_type, index_bytes) = lc_index_width (length dict)
           in tri (write_col_values dict (lc_dict_type inner)) (\<lambda>bytes.
                Inr (le_bytes 8 (unat (HAS_ADDITIONAL_KEYS OR index_type)) @
                     le_bytes 8 (length dict) @ bytes @
                     le_bytes 8 (length indices) @
                     concat (map (\<lambda>idx. take index_bytes (le_bytes 4 idx)) indices))))
     | Array inner \<Rightarrow>
         tri (each_result (\<lambda>v. tri (rb_read_varuint v 0) (\<lambda>(count, pos).
                tri (rb_slices (unat count) v inner pos) (\<lambda>elems. Inr (count, elems)))) values)
           (\<lambda>rows. tri (write_col_values (concat (map snd rows)) inner)
             (\<lambda>bytes. Inr (put_offsets (cumulative 0 (map fst rows)) @ bytes)))
     | Map key_type val_type \<Rightarrow>
         tri (each_result (\<lambda>v. tri (rb_read_varuint v 0) (\<lambda>(count, pos).
                tri (rb_pairs (unat count) v key_type val_type pos) (\<lambda>ps. Inr (count, ps)))) values)
           (\<lambda>rows. tri (write_col_values (map fst (concat (map snd rows))) key_type) (\<lambda>keys.
             tri (write_col_values (map snd (concat (map snd rows))) val_type) (\<lambda>vals.
               Inr (put_offsets (cumulative 0 (map fst rows)) @ keys @ vals))))
     | Tuple flds \<Rightarrow>
         tri (each_result (\<lambda>v. tri (rb_fields v flds 0) (\<lambda>(cells, e). Inr cells)) values)
           (\<lambda>rows. tri (each_result (\<lambda>(cells, t). write_col_values cells t)
                              (zip (columns_of (length flds) rows) flds))
             (\<lambda>outs. Inr (concat outs)))
     | unsupported \<Rightarrow> Inl (BadResponse (InsertUnsupportedType unsupported)))"
  by pat_completeness auto
termination write_col_values
  by (relation "measure (\<lambda>(values, col_type). size col_type)")
     (auto simp: less_Suc_eq_le size_list_estimation' size_lc_dict_type dest: set_zip_rightD)

declare write_col_values.simps [simp del]

section \<open>Blocks\<close>

text \<open>Pass 1: the cells of one row, refusing bytes past the declared columns.\<close>

definition row_cells :: "ColumnType list \<Rightarrow> byte list \<Rightarrow> byte list list result" where
  "row_cells types row =
    tri (rb_fields row types 0) (\<lambda>(cells, pos).
      if pos \<noteq> length row
      then Inl (BadResponse (InsertTrailingBytes (length row - pos) (length types)))
      else Inr cells)"

text \<open>Pass 2: one column's name, declared type, serialization flag, prefixes and values.\<close>

definition encode_column :: "bool \<Rightarrow> ColumnSchema \<Rightarrow> byte list list \<Rightarrow> byte list result" where
  "encode_column has_custom_ser col cells =
    (let type_name = (if cs_col_type col \<in> {NewJson, Json} then ''String'' else cs_type_name col)
     in tri (write_col_values cells (cs_col_type col)) (\<lambda>bytes.
          Inr (put_string (as_bytes (cs_name col)) @ put_string (as_bytes type_name) @
               (if has_custom_ser then [0] else []) @
               write_col_prefixes (cs_col_type col) @ bytes)))"

definition encode_columns :: "byte list list \<Rightarrow> ColumnSchema list \<Rightarrow> u64 \<Rightarrow> byte list result" where
  "encode_columns rows columns revision =
    (let has_custom_ser = revision \<ge> DBMS_MIN_PROTOCOL_VERSION_WITH_CUSTOM_SERIALIZATION
     in if columns = [] \<or> rows = [] then Inr []
        else tri (each_result (row_cells (map cs_col_type columns)) rows) (\<lambda>cells.
          tri (each_result (\<lambda>(col, column). encode_column has_custom_ser col column)
                 (zip columns (columns_of (length columns) cells))) (\<lambda>outs.
            Inr (concat outs))))"

end
