(* ===== verification/ColumnReader.thy ===== *)
theory ColumnReader
  imports RowBinaryJson
begin

text \<open>
  The native column reader of src/src/native/columns.rs: every column of a block is read from the
  stream and handed on as one RowBinary cell per row.

  The source counts the nesting depth upwards and refuses to descend past 32; here the readers of
  nested columns are the argument \<open>rd\<close> of each column reader, and \<open>read_column_at\<close> recurses on the
  levels that are left, 33 of them at depth 0.
\<close>

type_synonym ColumnData = "byte list list"
type_synonym col_reader = "ColumnType \<Rightarrow> nat \<Rightarrow> ColumnData rd"

definition MAX_READ_DEPTH :: nat where "MAX_READ_DEPTH = 32"
definition MAX_VARIANT_TYPES :: nat where "MAX_VARIANT_TYPES = 255"
definition MAX_WIRE_TYPES :: nat where "MAX_WIRE_TYPES = 254"
definition MAX_JSON_PATHS :: nat where "MAX_JSON_PATHS = 65536"
definition NULL_DISCRIMINATOR :: nat where "NULL_DISCRIMINATOR = 255"
definition VARIANT_MODE_BASIC :: nat where "VARIANT_MODE_BASIC = 0"
definition JSON_SERIALIZATION_STRING :: nat where "JSON_SERIALIZATION_STRING = 1"
definition DYNAMIC_FLATTENED :: nat where "DYNAMIC_FLATTENED = 3"
definition SHARED_VARIANT :: string where "SHARED_VARIANT = ''SharedVariant''"

abbreviation bad :: "reason \<Rightarrow> 'a rd" where
  "bad r \<equiv> rfail (BadResponse r)"

section \<open>UTF-8\<close>

text \<open>
  \<open>String::from_utf8\<close>: well-formed UTF-8, without overlong forms, surrogates or code points past
  \<open>U+10FFFF\<close>.
\<close>

definition utf8_cont :: "byte \<Rightarrow> bool" where
  "utf8_cont b \<longleftrightarrow> 0x80 \<le> unat b \<and> unat b \<le> 0xBF"

fun utf8_valid :: "byte list \<Rightarrow> bool" where
  "utf8_valid [] = True"
| "utf8_valid (a # rest) =
    (let x = unat a in
     if x < 0x80 then utf8_valid rest
     else if 0xC2 \<le> x \<and> x \<le> 0xDF then
       (case rest of b # r \<Rightarrow> utf8_cont b \<and> utf8_valid r | _ \<Rightarrow> False)
     else if 0xE0 \<le> x \<and> x \<le> 0xEF then
       (case rest of b # c # r \<Rightarrow>
          utf8_cont b \<and> utf8_cont c \<and> (x = 0xE0 \<longrightarrow> 0xA0 \<le> unat b) \<and> (x = 0xED \<longrightarrow> unat b \<le> 0x9F) \<and>
          utf8_valid r
        | _ \<Rightarrow> False)
     else if 0xF0 \<le> x \<and> x \<le> 0xF4 then
       (case rest of b # c # d # r \<Rightarrow>
          utf8_cont b \<and> utf8_cont c \<and> utf8_cont d \<and> (x = 0xF0 \<longrightarrow> 0x90 \<le> unat b) \<and>
          (x = 0xF4 \<longrightarrow> unat b \<le> 0x8F) \<and> utf8_valid r
        | _ \<Rightarrow> False)
     else False)"

definition read_utf8_string :: "string rd" where
  "read_utf8_string =
    rbind read_string (\<lambda>bytes. if utf8_valid bytes then rret (as_string bytes) else bad InvalidUtf8)"

section \<open>Simple columns\<close>

definition read_fixed_column :: "nat \<Rightarrow> nat \<Rightarrow> ColumnData rd" where
  "read_fixed_column n width = read_times n (read_exact_grown width)"

definition rowbinary_string :: "byte list \<Rightarrow> byte list" where
  "rowbinary_string bytes = put_string bytes"

definition read_string_column :: "nat \<Rightarrow> ColumnData rd" where
  "read_string_column n = read_times n (rbind read_string (\<lambda>s. rret (rowbinary_string s)))"

definition read_point_column :: "nat \<Rightarrow> ColumnData rd" where
  "read_point_column n =
    rbind (read_fixed_column n 8) (\<lambda>x_col. rbind (read_fixed_column n 8) (\<lambda>y_col.
      rret (map2 (@) x_col y_col)))"

definition read_index :: "nat \<Rightarrow> nat rd" where
  "read_index width = (if width \<in> {1, 2, 4, 8} then read_le width else bad (BadIndexWidth width))"

section \<open>Nullable and LowCardinality\<close>

definition nullable_cell :: "byte \<Rightarrow> byte list \<Rightarrow> byte list" where
  "nullable_cell flag v = (if flag \<noteq> 0 then [1] else 0 # v)"

definition read_nullable_column :: "col_reader \<Rightarrow> nat \<Rightarrow> ColumnType \<Rightarrow> ColumnData rd" where
  "read_nullable_column rd n inner =
    rbind (read_exact_grown n) (\<lambda>null_flags.
      rbind (rd inner n) (\<lambda>inner_data. rret (map2 nullable_cell null_flags inner_data)))"

text \<open>One row of a dictionary-coded column.\<close>

definition lc_cell :: "bool \<Rightarrow> ColumnData \<Rightarrow> nat \<Rightarrow> byte list result" where
  "lc_cell is_nullable_inner dict idx =
    (let entry = (if idx < length dict then Inr (dict ! idx)
                  else Inl (BadResponse (IndexOutOfRange idx (length dict))))
     in if is_nullable_inner then
          (if idx = 0 then Inr [1] else tri entry (\<lambda>v. Inr (0 # v)))
        else entry)"

definition lc_index_bytes :: "nat \<Rightarrow> nat result" where
  "lc_index_bytes index_type =
    (if index_type = 0 then Inr 1 else if index_type = 1 then Inr 2 else if index_type = 2 then Inr 4
     else if index_type = 3 then Inr 8 else Inl (BadResponse (UnknownIndexType index_type)))"

text \<open>The dictionary type under \<open>LowCardinality\<close>, shared by the readers.\<close>

definition dict_type_of :: "ColumnType \<Rightarrow> ColumnType \<times> bool" where
  "dict_type_of inner = (case inner of Nullable t \<Rightarrow> (t, True) | _ \<Rightarrow> (inner, False))"

definition read_low_cardinality_column :: "col_reader \<Rightarrow> nat \<Rightarrow> ColumnType \<Rightarrow> ColumnData rd" where
  "read_low_cardinality_column rd n inner =
    rbind (read_le 8) (\<lambda>state.
      let index_type = state mod 4;
          has_global_dict = odd (state div 0x100);
          has_additional_keys = odd (state div 0x200);
          (dict_type, is_nullable_inner) = dict_type_of inner
      in if has_global_dict then bad GlobalDictionary
         else if \<not> has_additional_keys then bad NoDictionaryFlag
         else
      rbind (read_le 8) (\<lambda>additional_keys_size.
      rbind (rd dict_type additional_keys_size) (\<lambda>dict.
      rbind (read_le 8) (\<lambda>num_indices.
        if num_indices \<noteq> n then bad (IndexCountMismatch num_indices n)
        else
      rbind (rlift (lc_index_bytes index_type)) (\<lambda>index_bytes.
        read_times n (rbind (read_index index_bytes) (\<lambda>idx. rlift (lc_cell is_nullable_inner dict idx))))))))"

section \<open>Array, Tuple and Map\<close>

definition read_offsets :: "nat \<Rightarrow> nat list rd" where
  "read_offsets n = read_times n (read_le 8)"

definition last_or_0 :: "nat list \<Rightarrow> nat" where
  "last_or_0 offsets = (if offsets = [] then 0 else last offsets)"

definition checked_span :: "nat \<Rightarrow> nat \<Rightarrow> nat \<Rightarrow> string \<Rightarrow> nat result" where
  "checked_span e prev available what =
    (if e < prev \<or> e > available then Inl (BadResponse (OffsetOutside what e prev available)) else Inr e)"

text \<open>The loop that cuts the packed elements at the offsets, one length-prefixed cell per row.\<close>

fun cut_rows :: "string \<Rightarrow> byte list list \<Rightarrow> nat \<Rightarrow> nat list \<Rightarrow> ColumnData result" where
  "cut_rows what elems prev [] = Inr []"
| "cut_rows what elems prev (e # es) =
    tri (checked_span e prev (length elems) what) (\<lambda>e'.
      tri (cut_rows what elems e' es) (\<lambda>rows.
        Inr ((put_var_uint (of_nat (e' - prev)) @ concat (take (e' - prev) (drop prev elems))) # rows)))"

definition read_array_column :: "col_reader \<Rightarrow> nat \<Rightarrow> ColumnType \<Rightarrow> ColumnData rd" where
  "read_array_column rd n inner =
    rbind (read_offsets n) (\<lambda>offsets.
    rbind (rd inner (last_or_0 offsets)) (\<lambda>all_values.
      rlift (cut_rows ''Array'' all_values 0 offsets)))"

text \<open>Every row is extended by its cell of the field; rows past the field's data stay as they are.\<close>

fun append_cells :: "ColumnData \<Rightarrow> ColumnData \<Rightarrow> ColumnData" where
  "append_cells (row # rows) (cell # cells) = (row @ cell) # append_cells rows cells"
| "append_cells rows _ = rows"

definition read_tuple_column :: "col_reader \<Rightarrow> nat \<Rightarrow> ColumnType list \<Rightarrow> ColumnData rd" where
  "read_tuple_column rd n flds =
    rbind (read_each (\<lambda>t. rd t n) flds) (\<lambda>cols.
      rret (foldl append_cells (replicate n []) cols))"

text \<open>
  The map reader pairs the key and value columns up to the shorter one; an entry is its key's bytes
  followed by its value's.
\<close>

definition read_map_column :: "col_reader \<Rightarrow> nat \<Rightarrow> ColumnType \<Rightarrow> ColumnType \<Rightarrow> ColumnData rd" where
  "read_map_column rd n key_type val_type =
    rbind (read_offsets n) (\<lambda>offsets.
    rbind (rd key_type (last_or_0 offsets)) (\<lambda>keys.
    rbind (rd val_type (last_or_0 offsets)) (\<lambda>vals.
      rlift (cut_rows ''Map'' (map2 (@) keys vals) 0 offsets))))"

section \<open>Variant\<close>

definition read_variant_mode :: "unit rd" where
  "read_variant_mode =
    rbind (read_le 8) (\<lambda>mode.
      if mode \<noteq> VARIANT_MODE_BASIC then bad (VariantModeUnsupported mode) else rret ())"

text \<open>How many rows each of \<open>k\<close> sub-columns owns.\<close>

definition type_counts :: "nat \<Rightarrow> nat list \<Rightarrow> nat list" where
  "type_counts k discriminators = map (\<lambda>i. length (filter (\<lambda>d. d = i) discriminators)) [0..<k]"

definition read_sub_columns :: "col_reader \<Rightarrow> ColumnType list \<Rightarrow> nat list \<Rightarrow> ColumnData list rd" where
  "read_sub_columns rd types counts = read_each (\<lambda>(t, c). rd t c) (zip types counts)"

text \<open>\<open>slice::get\<close>\<close>

definition get :: "'a list \<Rightarrow> nat \<Rightarrow> 'a option" where
  "get xs i = (if i < length xs then Some (xs ! i) else None)"

text \<open>
  The loop over the discriminators of a \<open>Variant\<close> or \<open>Dynamic\<close> column: a cursor per type, and the
  JSON text of each row.  The values of a spilled type render as null.
\<close>

fun variant_rows ::
  "nat \<Rightarrow> bool \<Rightarrow> (nat \<Rightarrow> bool) \<Rightarrow> ColumnType list \<Rightarrow> ColumnData list \<Rightarrow> nat list \<Rightarrow> nat list \<Rightarrow> ColumnData" where
  "variant_rows k null255 spilled types vals cursors [] = []"
| "variant_rows k null255 spilled types vals cursors (d # ds) =
    (if (null255 \<and> d = NULL_DISCRIMINATOR) \<or> d \<ge> k
     then rowbinary_string json_null # variant_rows k null255 spilled types vals cursors ds
     else rowbinary_string
            (if spilled d then json_null else cell_to_json (get (vals ! d) (cursors ! d)) (types ! d))
          # variant_rows k null255 spilled types vals (cursors[d := cursors ! d + 1]) ds)"

definition read_variant_column :: "col_reader \<Rightarrow> nat \<Rightarrow> ColumnType list \<Rightarrow> ColumnData rd" where
  "read_variant_column rd n variant_types =
    (let k = length variant_types
     in if k > MAX_VARIANT_TYPES then bad (TooManyVariantArms k)
        else
        rbind (read_exact_grown n) (\<lambda>raw.
          let discriminators = map unat raw
          in rbind (read_sub_columns rd variant_types (type_counts k discriminators)) (\<lambda>type_values.
               rret (variant_rows k True (\<lambda>_. False) variant_types type_values (replicate k 0)
                 discriminators))))"

section \<open>JSON and Dynamic\<close>

definition read_capped_count :: "nat \<Rightarrow> string \<Rightarrow> nat rd" where
  "read_capped_count cap what =
    rbind read_var_uint (\<lambda>raw.
      if unat raw > cap then bad (CountAboveCap what (unat raw) cap) else rret (unat raw))"

definition wire_type :: "string \<Rightarrow> ColumnType result" where
  "wire_type name =
    (if name = SHARED_VARIANT then Inr String
     else case parse name of None \<Rightarrow> Inl (BadResponse (UnsupportedNestedType name)) | Some t \<Rightarrow> Inr t)"

text \<open>\<open>Vec<String>::sort\<close>: by bytes, lexicographically.\<close>

definition string_key :: "string \<Rightarrow> nat list" where
  "string_key s = map of_char s"

fun key_le :: "nat list \<Rightarrow> nat list \<Rightarrow> bool" where
  "key_le [] ys = True"
| "key_le (x # xs) [] = False"
| "key_le (x # xs) (y # ys) = (x < y \<or> x = y \<and> key_le xs ys)"

fun insert_name :: "string \<Rightarrow> string list \<Rightarrow> string list" where
  "insert_name x [] = [x]"
| "insert_name x (y # ys) =
    (if key_le (string_key x) (string_key y) then x # y # ys else y # insert_name x ys)"

definition sort_names :: "string list \<Rightarrow> string list" where
  "sort_names names = foldr insert_name names []"

text \<open>The type list of a \<open>Dynamic\<close> in the v1 and v2 formats: the prefix and the data phase.\<close>

definition read_dynamic_v1v2_prefix :: "bool \<Rightarrow> string list rd" where
  "read_dynamic_v1v2_prefix has_max_types =
    rbind (if has_max_types then rbind read_var_uint (\<lambda>_. rret ()) else rret ()) (\<lambda>_.
    rbind (read_capped_count MAX_WIRE_TYPES ''Dynamic type'') (\<lambda>total_types.
    rbind (read_times total_types read_utf8_string) (\<lambda>type_names.
    rbind read_variant_mode (\<lambda>_.
      rret (sort_names (type_names @ [SHARED_VARIANT]))))))"

definition read_dynamic_v1v2_body :: "col_reader \<Rightarrow> nat \<Rightarrow> string list \<Rightarrow> ColumnData rd" where
  "read_dynamic_v1v2_body rd n type_names =
    rbind (rlift (each_result wire_type type_names)) (\<lambda>col_types.
      let k = length col_types
      in rbind (read_exact_grown n) (\<lambda>raw.
        let discriminators = map unat raw
        in rbind (read_sub_columns rd col_types (type_counts k discriminators)) (\<lambda>type_values.
             rret (variant_rows k True (\<lambda>d. type_names ! d = SHARED_VARIANT) col_types type_values
               (replicate k 0) discriminators))))"

definition read_dynamic_v1v2_column :: "col_reader \<Rightarrow> nat \<Rightarrow> bool \<Rightarrow> ColumnData rd" where
  "read_dynamic_v1v2_column rd n has_max_types =
    rbind (read_dynamic_v1v2_prefix has_max_types) (read_dynamic_v1v2_body rd n)"

definition index_width :: "nat \<Rightarrow> nat" where
  "index_width slots =
    (if slots \<le> 255 then 1 else if slots \<le> 65535 then 2 else if slots < 2 ^ 32 then 4 else 8)"

definition read_discriminators :: "nat \<Rightarrow> nat \<Rightarrow> nat \<Rightarrow> (nat list \<times> nat list) rd" where
  "read_discriminators n slots width =
    rbind (read_times n (read_index width)) (\<lambda>ds. rret (ds, type_counts slots ds))"

definition read_flat_wire_types :: "ColumnType list rd" where
  "read_flat_wire_types =
    rbind (read_capped_count MAX_VARIANT_TYPES ''Dynamic type'') (\<lambda>count.
      read_times count (rbind read_utf8_string (\<lambda>name. rlift (wire_type name))))"

definition read_dynamic_flattened_column :: "col_reader \<Rightarrow> nat \<Rightarrow> ColumnData rd" where
  "read_dynamic_flattened_column rd n =
    rbind read_flat_wire_types (\<lambda>col_types.
      let total_types = length col_types
      in rbind (read_discriminators n total_types (index_width total_types)) (\<lambda>(ds, counts).
           rbind (read_sub_columns rd col_types counts) (\<lambda>type_values.
             rret (variant_rows total_types False (\<lambda>_. False) col_types type_values
               (replicate total_types 0) ds))))"

definition read_dynamic_column :: "col_reader \<Rightarrow> nat \<Rightarrow> ColumnData rd" where
  "read_dynamic_column rd n =
    rbind (read_le 8) (\<lambda>version.
      if version = 1 then read_dynamic_v1v2_column rd n True
      else if version = 2 then read_dynamic_v1v2_column rd n False
      else if version = 3 then read_dynamic_flattened_column rd n
      else bad (DynamicVersionUnsupported version))"

subsection \<open>Path-based objects\<close>

text \<open>
  What the data phase of one path left: its types with their names, its discriminators and the
  values of each type.
\<close>

record json_path =
  jp_name :: string
  jp_types :: "ColumnType list"
  jp_spilled :: "nat list"
  jp_discs :: "nat list"
  jp_values :: "ColumnData list"

text \<open>
  One row of the object: for every path in order the discriminator of this row; an absent value adds
  no key, a spilled one moves its cursor only.
\<close>

fun object_members ::
  "nat \<Rightarrow> bool \<Rightarrow> json_path list \<Rightarrow> nat list list \<Rightarrow> byte list list \<times> nat list list" where
  "object_members row_i null255 (p # ps) (cur # curs) =
    (let disc = jp_discs p ! row_i; (ms, curs') = object_members row_i null255 ps curs
     in if (null255 \<and> disc = NULL_DISCRIMINATOR) \<or> disc \<ge> length (jp_types p) then (ms, cur # curs')
        else let cur' = cur[disc := cur ! disc + 1]
             in if disc \<in> set (jp_spilled p) then (ms, cur' # curs')
                else ((json_quote_bytes (as_bytes (jp_name p)) @ [0x3A] @
                       cell_to_json (get (jp_values p ! disc) (cur ! disc)) (jp_types p ! disc)) # ms,
                      cur' # curs'))"
| "object_members row_i null255 _ _ = ([], [])"

fun object_rows :: "bool \<Rightarrow> json_path list \<Rightarrow> nat list list \<Rightarrow> nat list \<Rightarrow> ColumnData" where
  "object_rows null255 paths curs [] = []"
| "object_rows null255 paths curs (row_i # rows) =
    (let (ms, curs') = object_members row_i null255 paths curs
     in rowbinary_string ([0x7B] @ json_commas ms @ [0x7D]) # object_rows null255 paths curs' rows)"

definition render_objects :: "nat \<Rightarrow> bool \<Rightarrow> json_path list \<Rightarrow> ColumnData" where
  "render_objects n null255 paths =
    object_rows null255 paths (map (\<lambda>p. replicate (length (jp_types p)) 0) paths) [0..<n]"

text \<open>One path's type list in the v2 format.\<close>

definition read_v2_path_types :: "string \<Rightarrow> (string \<times> ColumnType) list rd" where
  "read_v2_path_types path_name =
    rbind (read_le 8) (\<lambda>dyn_version.
    rbind (if dyn_version = 1 then rbind read_var_uint (\<lambda>_. rret ())
           else if dyn_version \<noteq> 2 then bad (JsonPathDynamicVersion dyn_version path_name)
           else rret ()) (\<lambda>_.
    rbind (read_capped_count MAX_WIRE_TYPES ''Dynamic type'') (\<lambda>num_types.
    rbind (read_times num_types read_utf8_string) (\<lambda>type_names.
    rbind read_variant_mode (\<lambda>_.
      rlift (each_result (\<lambda>name. tri (wire_type name) (\<lambda>ct. Inr (name, ct)))
        (sort_names (type_names @ [SHARED_VARIANT]))))))))"

definition read_v2_path_data ::
  "col_reader \<Rightarrow> nat \<Rightarrow> string \<times> (string \<times> ColumnType) list \<Rightarrow> json_path rd" where
  "read_v2_path_data rd n = (\<lambda>(path_name, types).
    rbind (read_exact_grown n) (\<lambda>raw.
      let discriminators = map unat raw; col_types = map snd types
      in rbind (read_sub_columns rd col_types (type_counts (length types) discriminators)) (\<lambda>vals.
           rret \<lparr> jp_name = path_name, jp_types = col_types,
                  jp_spilled = filter (\<lambda>i. fst (types ! i) = SHARED_VARIANT) [0..<length types],
                  jp_discs = discriminators, jp_values = vals \<rparr>)))"

definition read_json_object_v2_column :: "col_reader \<Rightarrow> nat \<Rightarrow> ColumnData rd" where
  "read_json_object_v2_column rd n =
    rbind (read_capped_count MAX_JSON_PATHS ''JSON dynamic path'') (\<lambda>num_paths.
    rbind (read_times num_paths read_utf8_string) (\<lambda>path_names.
    rbind (read_each read_v2_path_types path_names) (\<lambda>path_types.
    rbind (read_each (read_v2_path_data rd n) (zip path_names path_types)) (\<lambda>paths.
    rbind (read_offsets n) (\<lambda>shared_offsets.
    rbind (rd String (last_or_0 shared_offsets)) (\<lambda>_.
    rbind (rd String (last_or_0 shared_offsets)) (\<lambda>_.
      rret (render_objects n True paths))))))))"

definition read_flat_path_types :: "ColumnType list rd" where
  "read_flat_path_types =
    rbind (read_le 8) (\<lambda>dyn_version.
      if dyn_version \<noteq> DYNAMIC_FLATTENED then bad (JsonFlatDynamicVersion dyn_version)
      else read_flat_wire_types)"

definition read_flat_path_data :: "col_reader \<Rightarrow> nat \<Rightarrow> string \<times> ColumnType list \<Rightarrow> json_path rd" where
  "read_flat_path_data rd n = (\<lambda>(path_name, col_types).
    let total_types = length col_types
    in rbind (read_discriminators n total_types (index_width total_types)) (\<lambda>(ds, counts).
         rbind (read_sub_columns rd col_types counts) (\<lambda>vals.
           rret \<lparr> jp_name = path_name, jp_types = col_types, jp_spilled = [], jp_discs = ds,
                  jp_values = vals \<rparr>)))"

definition read_json_object_flattened_column :: "col_reader \<Rightarrow> nat \<Rightarrow> ColumnData rd" where
  "read_json_object_flattened_column rd n =
    rbind (read_capped_count MAX_JSON_PATHS ''JSON dynamic path'') (\<lambda>num_paths.
    rbind (read_times num_paths read_utf8_string) (\<lambda>path_names.
    rbind (read_times num_paths read_flat_path_types) (\<lambda>path_types.
    rbind (read_each (read_flat_path_data rd n) (zip path_names path_types)) (\<lambda>paths.
      rret (render_objects n False paths)))))"

definition read_json_body_at :: "col_reader \<Rightarrow> nat \<Rightarrow> nat \<Rightarrow> ColumnData rd" where
  "read_json_body_at rd n version =
    (if version = JSON_SERIALIZATION_STRING then read_string_column n
     else if version = 2 then read_json_object_v2_column rd n
     else if version = 3 then read_json_object_flattened_column rd n
     else bad (JsonVersionUnsupported version))"

definition read_json_column :: "col_reader \<Rightarrow> nat \<Rightarrow> ColumnData rd" where
  "read_json_column rd n = rbind (read_le 8) (read_json_body_at rd n)"

section \<open>The dispatcher\<close>

definition read_column_body :: "col_reader \<Rightarrow> col_reader" where
  "read_column_body rd col_type n =
    (case col_type of
       Point \<Rightarrow> read_point_column n
     | String \<Rightarrow> read_string_column n
     | Json \<Rightarrow> read_string_column n
     | Nullable inner \<Rightarrow> read_nullable_column rd n inner
     | LowCardinality inner \<Rightarrow> read_low_cardinality_column rd n inner
     | SimpleAggregateFunction inner \<Rightarrow> rd inner n
     | Array inner \<Rightarrow> read_array_column rd n inner
     | Tuple flds \<Rightarrow> read_tuple_column rd n flds
     | Map key_type val_type \<Rightarrow> read_map_column rd n key_type val_type
     | Variant variant_types \<Rightarrow> read_variant_column rd n variant_types
     | NewJson \<Rightarrow> read_json_column rd n
     | DynamicType \<Rightarrow> read_dynamic_column rd n
     | _ \<Rightarrow> (case fixed_size col_type of
               Some width \<Rightarrow> read_fixed_column n width
             | None \<Rightarrow> bad (NoFixedWidth col_type)))"

primrec read_column_at :: "nat \<Rightarrow> col_reader" where
  "read_column_at 0 col_type num_rows = bad NestingTooDeep"
| "read_column_at (Suc levels) col_type num_rows =
    (if levels = MAX_READ_DEPTH \<and> num_rows = 0 then rret []
     else read_column_body (read_column_at levels) col_type num_rows)"

definition read_column_data :: "ColumnType \<Rightarrow> nat \<Rightarrow> ColumnData rd" where
  "read_column_data col_type num_rows = read_column_at (MAX_READ_DEPTH + 1) col_type num_rows"

definition read_json_body :: "nat \<Rightarrow> nat \<Rightarrow> ColumnData rd" where
  "read_json_body n version = read_json_body_at (read_column_at MAX_READ_DEPTH) n version"

section \<open>Row counts\<close>

lemma append_cells_length [simp]: "length (append_cells rows cells) = length rows"
  by (induction rows cells rule: append_cells.induct) auto

lemma foldl_append_cells_length [simp]: "length (foldl append_cells rows cols) = length rows"
  by (induction cols arbitrary: rows) auto

lemma variant_rows_length [simp]: "length (variant_rows k nl sp types vals cursors ds) = length ds"
  by (induction ds arbitrary: cursors) auto

lemma object_rows_length [simp]: "length (object_rows nl paths curs rows) = length rows"
  by (induction rows arbitrary: curs) (auto split: prod.splits)

lemma cut_rows_length: "cut_rows what elems prev es = Inr rows \<Longrightarrow> length rows = length es"
  by (induction es arbitrary: prev rows) (auto simp: tri_eq_Inr)

lemma read_string_column_length: "read_string_column n s = Inr (rows, s') \<Longrightarrow> length rows = n"
  by (auto simp: read_string_column_def dest: read_times_length)

lemma read_fixed_column_length: "read_fixed_column n w s = Inr (rows, s') \<Longrightarrow> length rows = n"
  by (auto simp: read_fixed_column_def dest: read_times_length)

lemma read_offsets_length: "read_offsets n s = Inr (offs, s') \<Longrightarrow> length offs = n"
  by (auto simp: read_offsets_def dest: read_times_length)

lemma read_exact_grown_length: "read_exact_grown n s = Inr (bs, s') \<Longrightarrow> length bs = n"
  by (auto simp: read_exact_eq_Inr)

lemma read_nullable_column_length:
  assumes "\<And>t m u rows u'. rd t m u = Inr (rows, u') \<Longrightarrow> length rows = m"
    and "read_nullable_column rd n inner s = Inr (rows, s')"
  shows "length rows = n"
  using assms by (auto simp: read_nullable_column_def rbind_eq_Inr read_exact_eq_Inr)

lemma read_low_cardinality_column_length:
  "read_low_cardinality_column rd n inner s = Inr (rows, s') \<Longrightarrow> length rows = n"
  by (cases "dict_type_of inner")
     (auto simp: read_low_cardinality_column_def rbind_eq_Inr Let_def split: if_splits
      dest: read_times_length)

lemma read_array_column_length: "read_array_column rd n inner s = Inr (rows, s') \<Longrightarrow> length rows = n"
  by (auto simp: read_array_column_def rbind_eq_Inr dest!: cut_rows_length read_offsets_length)

lemma read_map_column_length: "read_map_column rd n k v s = Inr (rows, s') \<Longrightarrow> length rows = n"
  by (auto simp: read_map_column_def rbind_eq_Inr dest!: cut_rows_length read_offsets_length)

lemma read_tuple_column_length: "read_tuple_column rd n flds s = Inr (rows, s') \<Longrightarrow> length rows = n"
  by (auto simp: read_tuple_column_def rbind_eq_Inr)

lemma read_variant_column_length: "read_variant_column rd n ts s = Inr (rows, s') \<Longrightarrow> length rows = n"
  by (auto simp: read_variant_column_def rbind_eq_Inr read_exact_eq_Inr Let_def split: if_splits)

lemma read_dynamic_v1v2_body_length:
  "read_dynamic_v1v2_body rd n names s = Inr (rows, s') \<Longrightarrow> length rows = n"
  by (auto simp: read_dynamic_v1v2_body_def rbind_eq_Inr read_exact_eq_Inr Let_def)

lemma read_dynamic_column_length: "read_dynamic_column rd n s = Inr (rows, s') \<Longrightarrow> length rows = n"
  by (auto simp: read_dynamic_column_def read_dynamic_v1v2_column_def read_dynamic_flattened_column_def
      read_discriminators_def rbind_eq_Inr Let_def split: if_splits
      dest: read_times_length read_dynamic_v1v2_body_length)

lemma read_json_body_at_length: "read_json_body_at rd n version s = Inr (rows, s') \<Longrightarrow> length rows = n"
  by (auto simp: read_json_body_at_def read_json_object_v2_column_def
      read_json_object_flattened_column_def render_objects_def rbind_eq_Inr split: if_splits
      dest: read_string_column_length)

lemma read_point_column_length: "read_point_column n s = Inr (rows, s') \<Longrightarrow> length rows = n"
  by (auto simp: read_point_column_def rbind_eq_Inr dest!: read_fixed_column_length)

lemma read_column_at_length:
  "read_column_at levels t n s = Inr (rows, s') \<Longrightarrow> length rows = n"
proof (induction levels arbitrary: t n s rows s')
  case (Suc levels)
  have null_len: "read_nullable_column (read_column_at levels) m u v = Inr (rs, v') \<Longrightarrow> length rs = m"
    for m u v rs v'
    using read_nullable_column_length [of "read_column_at levels"] Suc.IH by blast
  show ?case
    using Suc.prems Suc.IH [of _ n s]
    by (cases t)
       (auto simp: read_column_body_def read_json_column_def rbind_eq_Inr split: if_splits option.splits
        dest: null_len read_low_cardinality_column_length read_array_column_length read_map_column_length
          read_tuple_column_length read_variant_column_length read_dynamic_column_length
          read_json_body_at_length read_point_column_length read_fixed_column_length
          read_string_column_length)
qed simp

lemma read_column_at_pos:
  "0 < l \<Longrightarrow> l \<noteq> Suc MAX_READ_DEPTH \<or> n \<noteq> 0 \<Longrightarrow>
    read_column_at l t n = read_column_body (read_column_at (l - 1)) t n"
  by (cases l) auto

text \<open>
  Whatever the bytes on the wire, a column that is read successfully has exactly the declared
  number of rows, for every column type and nesting.
\<close>

theorem read_column_data_rows:
  assumes "read_column_data t n s = Inr (rows, rest)"
  shows "length rows = n"
  using assms unfolding read_column_data_def by (rule read_column_at_length)

theorem read_column_data_rows_witness:
  "length [[0, 5], [1], [0, 7 :: byte]] = 3"
proof (rule read_column_data_rows)
  show "read_column_data (Nullable UInt8) 3 [0, 1, 0, 5, 0, 7] = Inr ([[0, 5], [1], [0, 7]], [])"
    by (simp add: read_column_data_def read_column_at_pos MAX_READ_DEPTH_def read_column_body_def
        read_nullable_column_def read_fixed_column_def fixed_size_def rbind_def read_exact_def
        nullable_cell_def eval_nat_numeral)
qed

fun nest_aggregate :: "nat \<Rightarrow> ColumnType \<Rightarrow> ColumnType" where
  "nest_aggregate 0 t = t"
| "nest_aggregate (Suc n) t = SimpleAggregateFunction (nest_aggregate n t)"

lemma read_column_at_nested:
  "l \<le> MAX_READ_DEPTH \<or> 0 < rows \<Longrightarrow> l \<le> Suc MAX_READ_DEPTH \<Longrightarrow>
    read_column_at l (nest_aggregate d t) rows =
    (if d < l then read_column_at (l - d) t rows else bad NestingTooDeep)"
proof (induction d arbitrary: l)
  case 0
  then show ?case by (cases l) auto
next
  case (Suc d)
  show ?case
  proof (cases l)
    case (Suc m)
    then have "read_column_at l (nest_aggregate (Suc d) t) rows = read_column_at m (nest_aggregate d t) rows"
      using Suc.prems by (auto simp: read_column_body_def)
    then show ?thesis using Suc Suc.prems Suc.IH [of m] by auto
  qed auto
qed

text \<open>
  Descent is bounded: a column behind \<open>d\<close> transparent wrappers is read as the wrapped column
  while \<open>d\<close> is at most 32, and refused with the nesting error beyond that, whatever the bytes.
\<close>

theorem read_column_nesting:
  assumes "0 < rows"
  shows "read_column_data (nest_aggregate d t) rows =
    (if d \<le> MAX_READ_DEPTH then read_column_at (Suc MAX_READ_DEPTH - d) t rows
     else rfail (BadResponse NestingTooDeep))"
  using assms read_column_at_nested [of "Suc MAX_READ_DEPTH" rows d t]
  by (auto simp: read_column_data_def)

theorem read_column_nesting_witness:
  "read_column_data (nest_aggregate 33 UInt8) 1 [7] = Inl (BadResponse NestingTooDeep)"
  using read_column_nesting [of 1 33 UInt8] by (simp add: MAX_READ_DEPTH_def)

end
