(* ===== verification/Sparse.thy ===== *)
theory Sparse
  imports WireIO
begin

text \<open>
  Sparse serialization, src/src/native/sparse.rs: the positions of a column's non-default values,
  read as a run of group sizes closed by the end-of-granule flag.
\<close>

definition END_OF_GRANULE_FLAG :: u64 where
  "END_OF_GRANULE_FLAG = push_bit 62 1"

record SparseDeserializeState =
  num_trailing_defaults :: u64
  has_value_after_defaults :: bool

definition sparse_default :: SparseDeserializeState where
  "sparse_default = \<lparr> num_trailing_defaults = 0, has_value_after_defaults = False \<rparr>"

text \<open>
  The loop of \<open>read_sparse_offsets\<close>: \<open>cur\<close> is \<open>current_position\<close>, a \<open>u64\<close> whose additions wrap as
  they do in a release build.
\<close>

function read_sparse_loop ::
  "nat \<Rightarrow> nat list \<Rightarrow> u64 \<Rightarrow> SparseDeserializeState \<Rightarrow> (nat list \<times> SparseDeserializeState) rd" where
  "read_sparse_loop num_rows offsets cur st s =
    (case read_var_uint s of
       Inl e \<Rightarrow> Inl e
     | Inr (group_size, s') \<Rightarrow>
        (let is_end_of_granule = group_size AND END_OF_GRANULE_FLAG \<noteq> 0;
             actual_group_size = group_size AND NOT END_OF_GRANULE_FLAG;
             cur' = cur + actual_group_size
         in if is_end_of_granule then
              Inr ((offsets,
                    if unat cur' > num_rows
                    then st \<lparr> num_trailing_defaults := cur' - of_nat num_rows \<rparr> else st), s')
            else if unat cur' < num_rows then
              read_sparse_loop num_rows (offsets @ [unat cur']) (cur' + 1) st s'
            else
              read_sparse_loop num_rows offsets cur' (st \<lparr> has_value_after_defaults := True \<rparr>) s'))"
  by pat_completeness auto
termination read_sparse_loop
  by (relation "measure (\<lambda>(num_rows, offsets, cur, st, s). length s)")
     (auto simp: read_var_uint_def dest: read_var_uint_loop_consumes)

declare read_sparse_loop.simps [simp del]

definition read_sparse_offsets ::
  "nat \<Rightarrow> SparseDeserializeState \<Rightarrow> (nat list \<times> SparseDeserializeState) rd" where
  "read_sparse_offsets num_rows st =
    (let (cur, st1) = (if num_trailing_defaults st > 0
                       then (num_trailing_defaults st, st \<lparr> num_trailing_defaults := 0 \<rparr>)
                       else (0, st));
         (offsets, cur', st2) =
           (if has_value_after_defaults st1
            then (if unat cur < num_rows then [unat cur] else [], cur + 1,
                  st1 \<lparr> has_value_after_defaults := False \<rparr>)
            else ([], cur, st1))
     in read_sparse_loop num_rows offsets cur' st2)"

section \<open>A reference writer\<close>

text \<open>
  The format as the server writes it: before each non-default value the number of defaults, then
  the number of trailing defaults with the flag.  The argument is the column as a list of
  \<open>is_default\<close> bits, \<open>n\<close> the defaults seen since the last value.
\<close>

fun sparse_groups :: "nat \<Rightarrow> bool list \<Rightarrow> u64 list" where
  "sparse_groups n [] = [of_nat n OR END_OF_GRANULE_FLAG]"
| "sparse_groups n (True # ds) = sparse_groups (n + 1) ds"
| "sparse_groups n (False # ds) = of_nat n # sparse_groups 0 ds"

definition sparse_encode :: "bool list \<Rightarrow> byte list" where
  "sparse_encode ds = concat (map put_var_uint (sparse_groups 0 ds))"

text \<open>The positions of the \<open>False\<close> entries, the first entry at position \<open>i\<close>.\<close>

fun value_positions :: "nat \<Rightarrow> bool list \<Rightarrow> nat list" where
  "value_positions i [] = []"
| "value_positions i (d # ds) = (if d then value_positions (i + 1) ds else i # value_positions (i + 1) ds)"

lemma flag_split:
  assumes "unat w < 2 ^ 62"
  shows "w AND END_OF_GRANULE_FLAG = 0" "w AND NOT END_OF_GRANULE_FLAG = w"
    "(w OR END_OF_GRANULE_FLAG) AND END_OF_GRANULE_FLAG \<noteq> 0"
    "(w OR END_OF_GRANULE_FLAG) AND NOT END_OF_GRANULE_FLAG = w"
proof -
  have "\<not> bit (unat w) 62" using assms by (simp add: bit_iff_odd)
  then have b: "\<not> bit w 62" by (simp add: bit_unsigned_iff)
  have f: "bit END_OF_GRANULE_FLAG n \<longleftrightarrow> n = 62" for n
    unfolding END_OF_GRANULE_FLAG_def bit_push_bit_iff bit_1_iff by auto
  show "w AND END_OF_GRANULE_FLAG = 0"
    using b by (intro bit_eqI) (auto simp: bit_and_iff f)
  show "w AND NOT END_OF_GRANULE_FLAG = w" "(w OR END_OF_GRANULE_FLAG) AND NOT END_OF_GRANULE_FLAG = w"
    using b by (auto intro!: bit_eqI simp: bit_and_iff bit_or_iff bit_not_iff f)
  have "bit ((w OR END_OF_GRANULE_FLAG) AND END_OF_GRANULE_FLAG) 62"
    by (simp add: bit_and_iff bit_or_iff f)
  then show "(w OR END_OF_GRANULE_FLAG) AND END_OF_GRANULE_FLAG \<noteq> 0" by auto
qed

lemma END_OF_GRANULE_FLAG_eq: "END_OF_GRANULE_FLAG = 0x4000000000000000"
  by (simp add: END_OF_GRANULE_FLAG_def)

lemma END_OF_GRANULE_FLAG_nz [simp]: "END_OF_GRANULE_FLAG \<noteq> 0"
  by (simp add: END_OF_GRANULE_FLAG_eq)

lemma read_sparse_loop_put:
  "read_sparse_loop rows offs cur st (put_var_uint g @ s) =
    (let cur' = cur + (g AND NOT END_OF_GRANULE_FLAG)
     in if g AND END_OF_GRANULE_FLAG \<noteq> 0 then
          Inr ((offs, if unat cur' > rows
                      then st \<lparr> num_trailing_defaults := cur' - of_nat rows \<rparr> else st), s)
        else if unat cur' < rows then read_sparse_loop rows (offs @ [unat cur']) (cur' + 1) st s
        else read_sparse_loop rows offs cur' (st \<lparr> has_value_after_defaults := True \<rparr>) s)"
  by (subst read_sparse_loop.simps) (simp add: varuint.dec_enc Let_def)

lemma read_sparse_loop_encode:
  assumes "unat cur = i - n" "n \<le> i" "i + length ds = rows" "rows < 2 ^ 62"
  shows "read_sparse_loop rows offs cur st (concat (map put_var_uint (sparse_groups n ds)) @ rest) =
    Inr ((offs @ value_positions i ds, st), rest)"
  using assms
proof (induction n ds arbitrary: i cur offs rule: sparse_groups.induct)
  case (1 n)
  have u: "unat (of_nat n :: u64) = n" "unat (cur + of_nat n) = i"
    using 1 by (simp_all add: unat_word_ariths unat_of_nat)
  with 1 show ?case by (simp add: read_sparse_loop_put flag_split Let_def)
next
  case (2 n ds)
  then show ?case by simp
next
  case (3 n ds)
  have u: "unat (of_nat n :: u64) = n" "unat (cur + of_nat n) = i"
    using 3 by (simp_all add: unat_word_ariths unat_of_nat)
  moreover have "unat (cur + of_nat n + 1) = i + 1"
    using 3 u by (simp add: unat_word_ariths)
  ultimately show ?case using 3 by (simp add: read_sparse_loop_put flag_split Let_def)
qed

lemma read_sparse_loop_bounds:
  "read_sparse_loop rows offs cur st s = Inr ((offs', st'), s') \<Longrightarrow>
    \<forall>i\<in>set offs. i < rows \<Longrightarrow> \<forall>i\<in>set offs'. i < rows"
proof (induction rows offs cur st s rule: read_sparse_loop.induct)
  case (1 rows offs cur st s)
  show ?case
  proof (cases "read_var_uint s")
    case (Inl e)
    with 1(3) show ?thesis by (simp add: read_sparse_loop.simps [of rows offs cur st s])
  next
    case (Inr r)
    then obtain g t where r: "read_var_uint s = Inr (g, t)" by (cases r) simp
    note IH = 1(1,2) [OF r refl refl refl refl]
    let ?cur = "cur + (g AND NOT END_OF_GRANULE_FLAG)"
    consider (fin) "g AND END_OF_GRANULE_FLAG \<noteq> 0"
      | (val) "g AND END_OF_GRANULE_FLAG = 0" "unat ?cur < rows"
      | (out) "g AND END_OF_GRANULE_FLAG = 0" "\<not> unat ?cur < rows" by blast
    then show ?thesis
    proof cases
      case fin
      then show ?thesis
        using 1(3,4) by (simp add: read_sparse_loop.simps [of rows offs cur st s] r Let_def)
    next
      case val
      then have "read_sparse_loop rows (offs @ [unat ?cur]) (?cur + 1) st t = Inr ((offs', st'), s')"
        using 1(3) by (simp add: read_sparse_loop.simps [of rows offs cur st s] r Let_def)
      then show ?thesis using IH(1) val 1(4) by simp
    next
      case out
      then have "read_sparse_loop rows offs ?cur (st \<lparr> has_value_after_defaults := True \<rparr>) t =
          Inr ((offs', st'), s')"
        using 1(3) by (simp add: read_sparse_loop.simps [of rows offs cur st s] r Let_def)
      then show ?thesis using IH(2) out 1(4) by simp
    qed
  qed
qed

text \<open>
  C32: every position the sparse reader returns lies inside the block, whatever the stream holds and
  whatever state an earlier read left behind, so the expansion never indexes past its rows.
\<close>

theorem sparse_offsets_in_range:
  assumes "read_sparse_offsets rows st s = Inr ((offs, st'), rest)"
  shows "\<forall>i\<in>set offs. i < rows"
proof -
  obtain offs0 cur st0 where "read_sparse_loop rows offs0 cur st0 s = Inr ((offs, st'), rest)"
    "\<forall>i\<in>set offs0. i < rows"
    using assms by (auto simp: read_sparse_offsets_def Let_def split: if_splits)
  then show ?thesis by (rule read_sparse_loop_bounds)
qed

theorem sparse_offsets_in_range_witness:
  "\<exists>a b st rest. read_sparse_offsets 8 sparse_default (concat (map put_var_uint [2, 1, 3 OR END_OF_GRANULE_FLAG])) =
      Inr (([a, b], st), rest) \<and> a < 8 \<and> b < 8"
proof -
  have "read_sparse_offsets 8 sparse_default
      (concat (map put_var_uint [2, 1, 3 OR END_OF_GRANULE_FLAG])) =
    Inr (([2, 4], sparse_default), [])" by code_simp
  with sparse_offsets_in_range [OF this] show ?thesis by auto
qed

lemma sparse_positions:
  assumes "length ds < 2 ^ 62"
  shows "read_sparse_offsets (length ds) sparse_default (sparse_encode ds @ rest) =
    Inr ((value_positions 0 ds, sparse_default), rest)"
  using read_sparse_loop_encode [of 0 0 0 ds "length ds" "[]" sparse_default rest] assms
  by (simp add: read_sparse_offsets_def sparse_encode_def sparse_default_def)

text \<open>
  The reader is inverse to the sparse format: for a column of fewer than \<open>2 ^ 62\<close> rows written
  with its group sizes and the end-of-granule flag, it returns exactly the positions of the
  non-default rows, in order, leaves nothing pending and stops at the end of the offsets.
\<close>

theorem sparse_offsets_roundtrip:
  assumes "length ds < 2 ^ 62"
  shows "read_sparse_offsets (length ds) sparse_default (sparse_encode ds @ rest) =
    Inr ((value_positions 0 ds, sparse_default), rest)"
  using assms by (rule sparse_positions)

theorem sparse_offsets_roundtrip_witness:
  "read_sparse_offsets (length [True, True, False, True, False, True, True, True]) sparse_default
      (sparse_encode [True, True, False, True, False, True, True, True] @ [0x05, 0x03]) =
    Inr ((value_positions 0 [True, True, False, True, False, True, True, True], sparse_default),
      [0x05, 0x03]) \<and>
   value_positions 0 [True, True, False, True, False, True, True, True] = [2, 4]"
  using sparse_offsets_roundtrip [of "[True, True, False, True, False, True, True, True]"] by simp

text \<open>
  The unchecked addition to the current position wraps: a stream of legal varints makes the
  reader return the same position twice, so the positions are not strictly increasing.
\<close>

theorem sparse_offsets_wrap:
  "read_sparse_offsets 4 sparse_default
      (concat (map put_var_uint
        [0, 2 ^ 63 + (2 ^ 62 - 1), 2 ^ 62 - 1, 1, END_OF_GRANULE_FLAG])) =
    Inr (([0, 0], sparse_default \<lparr> has_value_after_defaults := True \<rparr>), [])"
  using read_sparse_loop_put [where g = "0x4000000000000000" and s = "[]"]
  by (simp add: read_sparse_offsets_def sparse_default_def read_sparse_loop_put END_OF_GRANULE_FLAG_eq)

end
