(* ===== verification/BlockDecode.thy ===== *)
theory BlockDecode
  imports BlockEncode ColumnReader Sparse
begin

text \<open>
  The native block decoder, src/src/native/decode.rs: typed columns, sparse columns expanded to their
  full length, serialisation prefixes ahead of the data, and the typed access to a decoded column.

  Unsigned values are \<open>nat\<close>, signed values \<open>int\<close>, floats their bit patterns.  The nesting depth is
  modelled as in \<open>ColumnReader\<close>.  The iterator over the dynamic headers is the list that is left.
  \<open>server_revision\<close> is only passed on by the column decoders and is left out there.
\<close>

datatype (plugins only: code size) DecodedColumn =
    DUInt8 "byte list"
  | DUInt16 "nat list" | DUInt32 "nat list" | DUInt64 "nat list"
  | DInt8 "int list" | DInt16 "int list" | DInt32 "int list" | DInt64 "int list"
  | DInt128 "int list" | DUInt128 "nat list"
  | DInt256 "byte list list" | DUInt256 "byte list list"
  | DFloat32 "nat list" | DFloat64 "nat list"
  | DDecimal32 nat nat "int list" | DDecimal64 nat nat "int list"
  | DDecimal128 nat nat "int list" | DDecimal256 nat nat "byte list list"
  | DString "byte list list"
  | DJson "byte list list"
  | DFixedString nat "byte list"
  | DDate "nat list" | DDate32 "int list" | DDateTime "nat list"
  | DDateTime64 nat "string option" "int list"
  | DUuid "byte list list" | DIpv4 "nat list" | DIpv6 "byte list list"
  | DNullable "byte list" DecodedColumn
  | DArray "nat list" DecodedColumn
  | DLowCardinality DecodedColumn DecodedColumn bool
  | DTuple "DecodedColumn list"
  | DMap "nat list" DecodedColumn DecodedColumn
  | DUnsupported ColumnType

definition MAX_DECODE_DEPTH :: nat where "MAX_DECODE_DEPTH = 32"
definition MAX_BLOCK_ROWS :: nat where "MAX_BLOCK_ROWS = 2 ^ 28"
definition MAX_BLOCK_COLUMNS :: nat where "MAX_BLOCK_COLUMNS = 2 ^ 16"

definition refused :: "string \<Rightarrow> nat \<Rightarrow> nat \<Rightarrow> error" where
  "refused what got cap = BadResponse (BlockRefused what got cap)"

section \<open>Bulk reads\<close>

definition chunks_exact :: "nat \<Rightarrow> byte list \<Rightarrow> byte list list" where
  "chunks_exact w bs = map (\<lambda>i. take w (drop (i * w) bs)) [0..<length bs div w]"

text \<open>\<open>read_le_column\<close> at width \<open>w\<close>, \<open>f\<close> the conversion of one little-endian slice.\<close>

definition read_le_column :: "nat \<Rightarrow> (byte list \<Rightarrow> 'a) \<Rightarrow> nat \<Rightarrow> 'a list rd" where
  "read_le_column w f n =
    (if n * w \<ge> 2 ^ 64 then bad NumericLengthOverflow
     else rbind (read_exact_grown (n * w)) (\<lambda>raw. rret (map f (chunks_exact w raw))))"

definition read_u256_column :: "nat \<Rightarrow> byte list list rd" where
  "read_u256_column n =
    (if n * 32 \<ge> 2 ^ 64 then bad Wide256LengthOverflow
     else rbind (read_exact_grown (n * 32)) (\<lambda>raw. rret (chunks_exact 32 raw)))"

abbreviation read_unsigned :: "nat \<Rightarrow> nat \<Rightarrow> nat list rd" where
  "read_unsigned w \<equiv> read_le_column w le_val"

abbreviation read_signed :: "nat \<Rightarrow> nat \<Rightarrow> int list rd" where
  "read_signed w \<equiv> read_le_column w le_signed"

definition wrap :: "('a \<Rightarrow> 'b) \<Rightarrow> 'a rd \<Rightarrow> 'b rd" where
  "wrap f m = rbind m (\<lambda>x. rret (f x))"

section \<open>Decoded columns\<close>

fun row_count :: "DecodedColumn \<Rightarrow> nat" where
  "row_count (DUInt8 v) = length v"
| "row_count (DUInt16 v) = length v" | "row_count (DUInt32 v) = length v" | "row_count (DUInt64 v) = length v"
| "row_count (DInt8 v) = length v" | "row_count (DInt16 v) = length v"
| "row_count (DInt32 v) = length v" | "row_count (DInt64 v) = length v"
| "row_count (DInt128 v) = length v" | "row_count (DUInt128 v) = length v"
| "row_count (DInt256 v) = length v" | "row_count (DUInt256 v) = length v"
| "row_count (DFloat32 v) = length v" | "row_count (DFloat64 v) = length v"
| "row_count (DDecimal32 p s v) = length v" | "row_count (DDecimal64 p s v) = length v"
| "row_count (DDecimal128 p s v) = length v" | "row_count (DDecimal256 p s v) = length v"
| "row_count (DString v) = length v" | "row_count (DJson v) = length v"
| "row_count (DFixedString width bytes) = (if width = 0 then 0 else length bytes div width)"
| "row_count (DDate v) = length v" | "row_count (DDate32 v) = length v" | "row_count (DDateTime v) = length v"
| "row_count (DDateTime64 p z v) = length v"
| "row_count (DUuid v) = length v" | "row_count (DIpv4 v) = length v" | "row_count (DIpv6 v) = length v"
| "row_count (DNullable msk child) = length msk"
| "row_count (DArray offsets child) = length offsets"
| "row_count (DLowCardinality dict indices nl) = row_count indices"
| "row_count (DTuple flds) = (case flds of [] \<Rightarrow> 0 | f # _ \<Rightarrow> row_count f)"
| "row_count (DMap offsets keys vals) = length offsets"
| "row_count (DUnsupported t) = 0"

definition type_label :: "DecodedColumn \<Rightarrow> string" where
  "type_label c = (case c of
     DNullable m ch \<Rightarrow> ''a Nullable column''
   | DArray os ch \<Rightarrow> ''an Array column''
   | DLowCardinality d i nl \<Rightarrow> ''a LowCardinality column''
   | DTuple fs \<Rightarrow> ''a Tuple column''
   | DMap os ks vs \<Rightarrow> ''a Map column''
   | DUnsupported t \<Rightarrow> ''an unsupported column''
   | _ \<Rightarrow> ''this column'')"

text \<open>The loop of \<open>scatter_values\<close>; the callers have checked every position against the row count.\<close>

fun scatter_loop :: "'a list \<Rightarrow> 'a list \<Rightarrow> nat list \<Rightarrow> 'a list" where
  "scatter_loop buf (v # vs) (row # rows) = scatter_loop (buf[row := v]) vs rows"
| "scatter_loop buf _ _ = buf"

definition scatter_values :: "'a list \<Rightarrow> nat list \<Rightarrow> nat \<Rightarrow> 'a \<Rightarrow> 'a list" where
  "scatter_values vals positions num_rows dflt = scatter_loop (replicate num_rows dflt) vals positions"

text \<open>\<open>copy_from_slice\<close> of value \<open>i\<close> into slot \<open>row\<close> of a buffer of fixed-width values.\<close>

definition copy_slot :: "nat \<Rightarrow> byte list \<Rightarrow> nat \<Rightarrow> nat \<Rightarrow> byte list \<Rightarrow> byte list" where
  "copy_slot width bytes i row buf =
    take (row * width) buf @ take width (drop (i * width) bytes) @ drop (row * width + width) buf"

fun scatter_fixed :: "nat \<Rightarrow> byte list \<Rightarrow> nat \<Rightarrow> nat list \<Rightarrow> byte list \<Rightarrow> byte list" where
  "scatter_fixed width bytes i [] buf = buf"
| "scatter_fixed width bytes i (row # rows) buf =
    scatter_fixed width bytes (i + 1) rows (copy_slot width bytes i row buf)"

definition expand_sparse :: "DecodedColumn \<Rightarrow> nat list \<Rightarrow> nat \<Rightarrow> DecodedColumn result" where
  "expand_sparse col positions num_rows =
    (if row_count col \<noteq> length positions
     then Inl (BadResponse (SparseCountMismatch (row_count col) (length positions)))
     else case find (\<lambda>p. p \<ge> num_rows) positions of
       Some past \<Rightarrow> Inl (BadResponse (SparsePositionPast past num_rows))
     | None \<Rightarrow>
        (case col of
           DUInt8 v \<Rightarrow> Inr (DUInt8 (scatter_values v positions num_rows 0))
         | DUInt16 v \<Rightarrow> Inr (DUInt16 (scatter_values v positions num_rows 0))
         | DUInt32 v \<Rightarrow> Inr (DUInt32 (scatter_values v positions num_rows 0))
         | DUInt64 v \<Rightarrow> Inr (DUInt64 (scatter_values v positions num_rows 0))
         | DInt8 v \<Rightarrow> Inr (DInt8 (scatter_values v positions num_rows 0))
         | DInt16 v \<Rightarrow> Inr (DInt16 (scatter_values v positions num_rows 0))
         | DInt32 v \<Rightarrow> Inr (DInt32 (scatter_values v positions num_rows 0))
         | DInt64 v \<Rightarrow> Inr (DInt64 (scatter_values v positions num_rows 0))
         | DInt128 v \<Rightarrow> Inr (DInt128 (scatter_values v positions num_rows 0))
         | DUInt128 v \<Rightarrow> Inr (DUInt128 (scatter_values v positions num_rows 0))
         | DInt256 v \<Rightarrow> Inr (DInt256 (scatter_values v positions num_rows (replicate 32 0)))
         | DUInt256 v \<Rightarrow> Inr (DUInt256 (scatter_values v positions num_rows (replicate 32 0)))
         | DFloat32 v \<Rightarrow> Inr (DFloat32 (scatter_values v positions num_rows 0))
         | DFloat64 v \<Rightarrow> Inr (DFloat64 (scatter_values v positions num_rows 0))
         | DString v \<Rightarrow> Inr (DString (scatter_values v positions num_rows []))
         | DJson v \<Rightarrow> Inr (DJson (scatter_values v positions num_rows []))
         | DDate v \<Rightarrow> Inr (DDate (scatter_values v positions num_rows 0))
         | DDate32 v \<Rightarrow> Inr (DDate32 (scatter_values v positions num_rows 0))
         | DDateTime v \<Rightarrow> Inr (DDateTime (scatter_values v positions num_rows 0))
         | DIpv4 v \<Rightarrow> Inr (DIpv4 (scatter_values v positions num_rows 0))
         | DUuid v \<Rightarrow> Inr (DUuid (scatter_values v positions num_rows (replicate 16 0)))
         | DIpv6 v \<Rightarrow> Inr (DIpv6 (scatter_values v positions num_rows (replicate 16 0)))
         | DDecimal32 p s v \<Rightarrow> Inr (DDecimal32 p s (scatter_values v positions num_rows 0))
         | DDecimal64 p s v \<Rightarrow> Inr (DDecimal64 p s (scatter_values v positions num_rows 0))
         | DDecimal128 p s v \<Rightarrow> Inr (DDecimal128 p s (scatter_values v positions num_rows 0))
         | DDecimal256 p s v \<Rightarrow> Inr (DDecimal256 p s (scatter_values v positions num_rows (replicate 32 0)))
         | DDateTime64 p z v \<Rightarrow> Inr (DDateTime64 p z (scatter_values v positions num_rows 0))
         | DFixedString width bytes \<Rightarrow>
             (if num_rows * width \<ge> 2 ^ 64 then Inl (BadResponse SparseFixedStringOverflow)
              else Inr (DFixedString width
                     (scatter_fixed width bytes 0 positions (replicate (num_rows * width) 0))))
         | other \<Rightarrow> Inl (BadResponse (CannotBeSparse (type_label other)))))"

section \<open>Block header pieces\<close>

definition read_block_info :: "unit rd" where
  "read_block_info =
    rbind read_var_uint (\<lambda>field1.
      if field1 \<noteq> 1 then bad (BlockInfoFieldOne (unat field1)) else
    rbind (read_le 1) (\<lambda>is_overflows.
    rbind read_var_uint (\<lambda>field2.
      if field2 \<noteq> 2 then bad (BlockInfoFieldTwo (unat field2)) else
    rbind (read_le 4) (\<lambda>bucket_num.
    rbind read_var_uint (\<lambda>terminator.
      if terminator \<noteq> 0 then bad (BlockInfoTerminator (unat terminator)) else rret ())))))"

definition read_serialization_kind :: "string \<Rightarrow> bool rd" where
  "read_serialization_kind name =
    rbind (read_le 1) (\<lambda>flag.
      if flag = 0 then rret False
      else if flag \<noteq> 1 then bad (CustomSerializationFlag name flag)
      else rbind (read_le 1) (\<lambda>kind.
        if kind = 0 then rret False
        else if kind = 1 then rret True
        else if kind = 2 then bad (UnsupportedSerialization name ''Detached'')
        else if kind = 3 then bad (UnsupportedSerialization name ''Detached over Sparse'')
        else if kind = 4 then bad (UnsupportedSerialization name ''Replicated'')
        else if kind = 5 then
          rbind read_var_uint (\<lambda>num_kinds.
            if unat num_kinds > MAX_BLOCK_COLUMNS
            then rfail (refused ''serialization kinds'' (unat num_kinds) MAX_BLOCK_COLUMNS)
            else rbind (read_times (unat num_kinds) (read_le 1)) (\<lambda>_.
              bad (UnsupportedSerialization name ''a combination'')))
        else bad (UnknownSerializationKind name kind)))"

section \<open>Prefixes\<close>

type_synonym headers = "string list list"

definition decode_prefixes_body :: "(ColumnType \<Rightarrow> headers rd) \<Rightarrow> ColumnType \<Rightarrow> headers rd" where
  "decode_prefixes_body rd col_type =
    (case col_type of
       LowCardinality inner \<Rightarrow> rbind (read_le 8) (\<lambda>version. rret [])
     | Variant variant_types \<Rightarrow>
         rbind read_variant_mode (\<lambda>_. wrap concat (read_each rd variant_types))
     | Nullable inner \<Rightarrow> rd inner
     | Array inner \<Rightarrow> rd inner
     | SimpleAggregateFunction inner \<Rightarrow> rd inner
     | Tuple flds \<Rightarrow> wrap concat (read_each rd flds)
     | Map key v \<Rightarrow> rbind (rd key) (\<lambda>hk. rbind (rd v) (\<lambda>hv. rret (hk @ hv)))
     | DynamicType \<Rightarrow>
         rbind (read_le 8) (\<lambda>version.
           if version = 1 then wrap (\<lambda>h. [h]) (read_dynamic_v1v2_prefix True)
           else if version = 2 then wrap (\<lambda>h. [h]) (read_dynamic_v1v2_prefix False)
           else bad (DecodeDynamicVersion version))
     | _ \<Rightarrow> rret [])"

primrec decode_prefixes :: "nat \<Rightarrow> ColumnType \<Rightarrow> headers rd" where
  "decode_prefixes 0 col_type = bad DecodeNestingTooDeep"
| "decode_prefixes (Suc levels) col_type = decode_prefixes_body (decode_prefixes levels) col_type"

section \<open>Columns\<close>

function (sequential) empty_column :: "ColumnType \<Rightarrow> DecodedColumn" where
  "empty_column t = (case t of
     UInt8 \<Rightarrow> DUInt8 []
   | Int8 \<Rightarrow> DInt8 [] | Enum8 \<Rightarrow> DInt8 []
   | UInt16 \<Rightarrow> DUInt16 []
   | Int16 \<Rightarrow> DInt16 [] | Enum16 \<Rightarrow> DInt16 []
   | UInt32 \<Rightarrow> DUInt32 [] | Int32 \<Rightarrow> DInt32 [] | UInt64 \<Rightarrow> DUInt64 [] | Int64 \<Rightarrow> DInt64 []
   | Int128 \<Rightarrow> DInt128 [] | UInt128 \<Rightarrow> DUInt128 [] | Int256 \<Rightarrow> DInt256 [] | UInt256 \<Rightarrow> DUInt256 []
   | Float32 \<Rightarrow> DFloat32 [] | Float64 \<Rightarrow> DFloat64 []
   | Decimal32 p s \<Rightarrow> DDecimal32 p s [] | Decimal64 p s \<Rightarrow> DDecimal64 p s []
   | Decimal128 p s \<Rightarrow> DDecimal128 p s [] | Decimal256 p s \<Rightarrow> DDecimal256 p s []
   | String \<Rightarrow> DString []
   | Json \<Rightarrow> DJson [] | NewJson \<Rightarrow> DJson [] | Variant ts \<Rightarrow> DJson [] | DynamicType \<Rightarrow> DJson []
   | FixedString width \<Rightarrow> DFixedString width []
   | Date \<Rightarrow> DDate [] | Date32 \<Rightarrow> DDate32 [] | DateTime \<Rightarrow> DDateTime []
   | DateTime64 p z \<Rightarrow> DDateTime64 p z []
   | Uuid \<Rightarrow> DUuid [] | IPv4 \<Rightarrow> DIpv4 [] | IPv6 \<Rightarrow> DIpv6 []
   | Nullable inner \<Rightarrow> DNullable [] (empty_column inner)
   | Array inner \<Rightarrow> DArray [] (empty_column inner)
   | Map k v \<Rightarrow> DMap [] (empty_column k) (empty_column v)
   | Tuple flds \<Rightarrow> DTuple (map empty_column flds)
   | LowCardinality inner \<Rightarrow>
       DLowCardinality (empty_column (lc_dict_type inner)) (DUInt8 []) (lc_nullable inner)
   | SimpleAggregateFunction inner \<Rightarrow> empty_column inner
   | other \<Rightarrow> DUnsupported other)"
  by pat_completeness auto
termination empty_column
  by (relation "measure size") (auto simp: less_Suc_eq_le size_list_estimation' size_lc_dict_type)

declare empty_column.simps [simp del]

text \<open>The slice \<open>cell[header..end]\<close> of a length-prefixed cell.\<close>

definition unwrap_json_cell :: "byte list \<Rightarrow> byte list result" where
  "unwrap_json_cell cell =
    tri (get_var_uint cell) (\<lambda>(len, header).
      case checked_add header (unat len) of
        None \<Rightarrow> Inl (BadResponse JsonCellOverrun)
      | Some e \<Rightarrow> if e \<le> length cell then Inr (take (e - header) (drop header cell))
                  else Inl (BadResponse JsonCellOverrun))"

definition unwrap_json_cells :: "ColumnData \<Rightarrow> byte list list result" where
  "unwrap_json_cells cells = each_result unwrap_json_cell cells"

text \<open>\<open>n\<close> cumulative offsets, each at least its predecessor.\<close>

primrec read_monotonic :: "string \<Rightarrow> nat \<Rightarrow> nat \<Rightarrow> nat list rd" where
  "read_monotonic what prev 0 = rret []"
| "read_monotonic what prev (Suc n) =
    rbind (read_le 8) (\<lambda>e.
      if e < prev then bad (OffsetsNotMonotonic what)
      else rbind (read_monotonic what e n) (\<lambda>es. rret (e # es)))"

type_synonym dec = "ColumnType \<Rightarrow> nat \<Rightarrow> headers \<Rightarrow> (DecodedColumn \<times> headers) rd"

definition lc_indices :: "nat \<Rightarrow> nat \<Rightarrow> DecodedColumn rd" where
  "lc_indices index_type n =
    (if index_type = 0 then wrap DUInt8 (read_exact_grown n)
     else if index_type = 1 then wrap DUInt16 (read_unsigned 2 n)
     else if index_type = 2 then wrap DUInt32 (read_unsigned 4 n)
     else if index_type = 3 then wrap DUInt64 (read_unsigned 8 n)
     else bad (DecodeIndexType index_type))"

definition decode_low_cardinality :: "dec \<Rightarrow> ColumnType \<Rightarrow> nat \<Rightarrow> headers \<Rightarrow> (DecodedColumn \<times> headers) rd" where
  "decode_low_cardinality rd inner n hs =
    rbind (read_le 8) (\<lambda>flags.
      let index_type = flags mod 4;
          has_global_dict = odd (flags div 0x100);
          has_additional_keys = odd (flags div 0x200);
          (dict_type, is_nullable_inner) = dict_type_of inner
      in if has_global_dict then bad DecodeGlobalDictionary
         else if \<not> has_additional_keys then bad DecodeNoDictionaryFlag
         else
      rbind (read_le 8) (\<lambda>additional_keys_size.
      rbind (rd dict_type additional_keys_size hs) (\<lambda>(combined, hs').
      rbind (read_le 8) (\<lambda>num_indices.
        if num_indices \<noteq> n then bad (DecodeIndexCount num_indices n)
        else
      rbind (lc_indices index_type n) (\<lambda>indices.
        rret (DLowCardinality combined indices is_nullable_inner, hs'))))))"

text \<open>The fields of a tuple, the headers threaded through them.\<close>

fun decode_fields :: "dec \<Rightarrow> ColumnType list \<Rightarrow> nat \<Rightarrow> headers \<Rightarrow> (DecodedColumn list \<times> headers) rd" where
  "decode_fields rd [] n hs = rret ([], hs)"
| "decode_fields rd (t # ts) n hs =
    rbind (rd t n hs) (\<lambda>(c, hs1). rbind (decode_fields rd ts n hs1) (\<lambda>(cs, hs2). rret (c # cs, hs2)))"

text \<open>The arms that read a column of values and nothing else.\<close>

definition decode_flat :: "ColumnType \<Rightarrow> nat \<Rightarrow> DecodedColumn rd option" where
  "decode_flat t n = (case t of
     UInt8 \<Rightarrow> Some (wrap DUInt8 (read_exact_grown n))
   | Int8 \<Rightarrow> Some (wrap (\<lambda>raw. DInt8 (map (\<lambda>b. le_signed [b]) raw)) (read_exact_grown n))
   | Enum8 \<Rightarrow> Some (wrap (\<lambda>raw. DInt8 (map (\<lambda>b. le_signed [b]) raw)) (read_exact_grown n))
   | UInt16 \<Rightarrow> Some (wrap DUInt16 (read_unsigned 2 n))
   | Int16 \<Rightarrow> Some (wrap DInt16 (read_signed 2 n))
   | Enum16 \<Rightarrow> Some (wrap DInt16 (read_signed 2 n))
   | UInt32 \<Rightarrow> Some (wrap DUInt32 (read_unsigned 4 n))
   | Int32 \<Rightarrow> Some (wrap DInt32 (read_signed 4 n))
   | UInt64 \<Rightarrow> Some (wrap DUInt64 (read_unsigned 8 n))
   | Int64 \<Rightarrow> Some (wrap DInt64 (read_signed 8 n))
   | Int128 \<Rightarrow> Some (wrap DInt128 (read_signed 16 n))
   | UInt128 \<Rightarrow> Some (wrap DUInt128 (read_unsigned 16 n))
   | Int256 \<Rightarrow> Some (wrap DInt256 (read_u256_column n))
   | UInt256 \<Rightarrow> Some (wrap DUInt256 (read_u256_column n))
   | Float32 \<Rightarrow> Some (wrap DFloat32 (read_unsigned 4 n))
   | Float64 \<Rightarrow> Some (wrap DFloat64 (read_unsigned 8 n))
   | Decimal32 p s \<Rightarrow> Some (wrap (DDecimal32 p s) (read_signed 4 n))
   | Decimal64 p s \<Rightarrow> Some (wrap (DDecimal64 p s) (read_signed 8 n))
   | Decimal128 p s \<Rightarrow> Some (wrap (DDecimal128 p s) (read_signed 16 n))
   | Decimal256 p s \<Rightarrow> Some (wrap (DDecimal256 p s) (read_u256_column n))
   | String \<Rightarrow> Some (wrap DString (read_times n read_string))
   | Json \<Rightarrow> Some (wrap DJson (read_times n read_string))
   | FixedString width \<Rightarrow>
       Some (if width * n \<ge> 2 ^ 64 then bad FixedStringLengthOverflow
             else wrap (DFixedString width) (read_exact_grown (width * n)))
   | Date \<Rightarrow> Some (wrap DDate (read_unsigned 2 n))
   | Date32 \<Rightarrow> Some (wrap DDate32 (read_signed 4 n))
   | DateTime \<Rightarrow> Some (wrap DDateTime (read_unsigned 4 n))
   | DateTime64 p z \<Rightarrow> Some (wrap (DDateTime64 p z) (read_signed 8 n))
   | Uuid \<Rightarrow> Some (wrap DUuid (read_times n (read_exact 16)))
   | IPv4 \<Rightarrow> Some (wrap DIpv4 (read_unsigned 4 n))
   | IPv6 \<Rightarrow> Some (wrap DIpv6 (read_times n (read_exact 16)))
   | _ \<Rightarrow> None)"

text \<open>\<open>levels\<close> is what is left below this column: a nested reader of \<open>columns.rs\<close> gets it as its depth.\<close>

definition decode_body :: "nat \<Rightarrow> dec \<Rightarrow> dec" where
  "decode_body levels rd t n hs =
    (case decode_flat t n of
       Some m \<Rightarrow> wrap (\<lambda>c. (c, hs)) m
     | None \<Rightarrow>
       (case t of
          Nullable inner \<Rightarrow>
            rbind (read_exact_grown n) (\<lambda>msk.
            rbind (rd inner n hs) (\<lambda>(child, hs'). rret (DNullable msk child, hs')))
        | Array inner \<Rightarrow>
            rbind (read_monotonic ''Array'' 0 n) (\<lambda>offsets.
            rbind (rd inner (last_or_0 offsets) hs) (\<lambda>(child, hs'). rret (DArray offsets child, hs')))
        | Tuple flds \<Rightarrow>
            rbind (decode_fields rd flds n hs) (\<lambda>(decoded_fields, hs'). rret (DTuple decoded_fields, hs'))
        | Map key_type val_type \<Rightarrow>
            rbind (read_monotonic ''Map'' 0 n) (\<lambda>offsets.
            rbind (rd key_type (last_or_0 offsets) hs) (\<lambda>(keys, hs1).
            rbind (rd val_type (last_or_0 offsets) hs1) (\<lambda>(vals, hs2). rret (DMap offsets keys vals, hs2))))
        | LowCardinality inner \<Rightarrow> decode_low_cardinality rd inner n hs
        | SimpleAggregateFunction inner \<Rightarrow> rd inner n hs
        | NewJson \<Rightarrow>
            rbind (read_le 8) (\<lambda>version.
              if version = JSON_SERIALIZATION_STRING
              then wrap (\<lambda>buf. (DJson buf, hs)) (read_times n read_string)
              else rbind (read_json_body n version) (\<lambda>cells.
                rbind (rlift (unwrap_json_cells cells)) (\<lambda>docs. rret (DJson docs, hs))))
        | Variant ts \<Rightarrow>
            rbind (read_column_data t n) (\<lambda>cells.
            rbind (rlift (unwrap_json_cells cells)) (\<lambda>docs. rret (DJson docs, hs)))
        | DynamicType \<Rightarrow>
            (case hs of [] \<Rightarrow> bad DynamicWithoutPrefix
             | header # hs' \<Rightarrow>
                rbind (read_dynamic_v1v2_body (read_column_at (levels - 1)) n header) (\<lambda>cells.
                rbind (rlift (unwrap_json_cells cells)) (\<lambda>docs. rret (DJson docs, hs'))))
        | other \<Rightarrow> rbind (read_column_data other n) (\<lambda>consumed. rret (DUnsupported other, hs))))"

primrec decode_column :: "nat \<Rightarrow> dec" where
  "decode_column 0 t n hs = bad DecodeNestingTooDeep"
| "decode_column (Suc levels) t n hs =
    (if levels = MAX_DECODE_DEPTH \<and> n = 0 then rret (empty_column t, hs)
     else decode_body levels (decode_column levels) t n hs)"

section \<open>Blocks\<close>

record DecodedBlock =
  db_columns :: "DecodedColumn list"
  db_schema :: "(string \<times> string) list"
  db_num_rows :: nat

text \<open>One column of a block: its header, its prefixes and its data, sparse or dense.\<close>

definition decode_block_column :: "nat \<Rightarrow> bool \<Rightarrow> ((string \<times> string) \<times> DecodedColumn) rd" where
  "decode_block_column num_rows has_custom_ser =
    rbind read_utf8_string (\<lambda>name.
    rbind read_utf8_string (\<lambda>type_name.
    rbind (if has_custom_ser then read_serialization_kind name else rret False) (\<lambda>sparse.
      case parse type_name of
        None \<Rightarrow> bad (UnknownColumnType type_name name)
      | Some ct \<Rightarrow>
          rbind (if num_rows > 0 then decode_prefixes (MAX_DECODE_DEPTH + 1) ct else rret []) (\<lambda>hs.
          rbind (if sparse \<and> num_rows > 0 then
                   rbind (read_sparse_offsets num_rows sparse_default) (\<lambda>(positions, _).
                   rbind (decode_column (MAX_DECODE_DEPTH + 1) ct (length positions) hs) (\<lambda>(dense, _).
                     rlift (expand_sparse dense positions num_rows)))
                 else wrap fst (decode_column (MAX_DECODE_DEPTH + 1) ct num_rows hs)) (\<lambda>col.
            rret ((name, type_name), col))))))"

definition decode_block :: "u64 \<Rightarrow> u64 \<Rightarrow> u64 \<Rightarrow> DecodedBlock rd" where
  "decode_block num_columns num_rows server_revision =
    (let has_custom_ser = server_revision \<ge> DBMS_MIN_PROTOCOL_VERSION_WITH_CUSTOM_SERIALIZATION
     in if unat num_columns > MAX_BLOCK_COLUMNS
        then rfail (refused ''columns'' (unat num_columns) MAX_BLOCK_COLUMNS)
        else if unat num_rows > MAX_BLOCK_ROWS
        then rfail (refused ''rows'' (unat num_rows) MAX_BLOCK_ROWS)
        else rbind (read_times (unat num_columns) (decode_block_column (unat num_rows) has_custom_ser)) (\<lambda>cols.
          rret \<lparr> db_columns = map snd cols, db_schema = map fst cols, db_num_rows = unat num_rows \<rparr>))"

section \<open>Typed access\<close>

fun position :: "('a \<Rightarrow> bool) \<Rightarrow> 'a list \<Rightarrow> nat option" where
  "position p [] = None"
| "position p (x # xs) = (if p x then Some 0 else map_option Suc (position p xs))"

definition block_column :: "DecodedBlock \<Rightarrow> string \<Rightarrow> DecodedColumn option" where
  "block_column b name = Option.bind (position (\<lambda>(n, _). n = name) (db_schema b)) (get (db_columns b))"

type_synonym 'a from_column = "DecodedColumn \<Rightarrow> string \<Rightarrow> string \<Rightarrow> 'a list result"

definition column_as :: "'a from_column \<Rightarrow> DecodedBlock \<Rightarrow> string \<Rightarrow> 'a list result" where
  "column_as from_col b name =
    (if db_schema b = [] then Inr []
     else case position (\<lambda>(n, _). n = name) (db_schema b) of
       None \<Rightarrow> Inl (SchemaMismatch (''native: block declares no column '' @ [CHR 0x27] @ name @ [CHR 0x27]))
     | Some i \<Rightarrow>
        (case get (db_columns b) i of
           Some col \<Rightarrow> from_col col name (snd (db_schema b ! i))
         | None \<Rightarrow> Inr []))"

definition wrong_type :: "string \<Rightarrow> string \<Rightarrow> string \<Rightarrow> error" where
  "wrong_type name type_name expected =
    SchemaMismatch (''native: column '' @ [CHR 0x27] @ name @ [CHR 0x27] @ '' is '' @ type_name @
      '', which does not read as '' @ expected)"

definition from_column_string :: "string from_column" where
  "from_column_string c name ty = (case c of
     DString vs \<Rightarrow> each_result (\<lambda>v. if utf8_valid v then Inr (as_string v) else Inl InvalidUtf8Encoding) vs
   | DJson vs \<Rightarrow> each_result (\<lambda>v. if utf8_valid v then Inr (as_string v) else Inl InvalidUtf8Encoding) vs
   | _ \<Rightarrow> Inl (wrong_type name ty ''String''))"

definition from_column_bytes :: "byte list from_column" where
  "from_column_bytes c name ty = (case c of
     DString vs \<Rightarrow> Inr vs | DJson vs \<Rightarrow> Inr vs | _ \<Rightarrow> Inl (wrong_type name ty ''String''))"

definition from_column_u8 :: "byte from_column" where
  "from_column_u8 c name ty = (case c of DUInt8 v \<Rightarrow> Inr v | _ \<Rightarrow> Inl (wrong_type name ty ''UInt8''))"

definition from_column_u16 :: "nat from_column" where
  "from_column_u16 c name ty = (case c of
     DUInt16 v \<Rightarrow> Inr v | DDate v \<Rightarrow> Inr v | _ \<Rightarrow> Inl (wrong_type name ty ''UInt16''))"

definition from_column_u32 :: "nat from_column" where
  "from_column_u32 c name ty = (case c of
     DUInt32 v \<Rightarrow> Inr v | DDateTime v \<Rightarrow> Inr v | DIpv4 v \<Rightarrow> Inr v
   | _ \<Rightarrow> Inl (wrong_type name ty ''UInt32''))"

definition from_column_u64 :: "nat from_column" where
  "from_column_u64 c name ty = (case c of DUInt64 v \<Rightarrow> Inr v | _ \<Rightarrow> Inl (wrong_type name ty ''UInt64''))"

definition from_column_u128 :: "nat from_column" where
  "from_column_u128 c name ty = (case c of DUInt128 v \<Rightarrow> Inr v | _ \<Rightarrow> Inl (wrong_type name ty ''UInt128''))"

definition from_column_i8 :: "int from_column" where
  "from_column_i8 c name ty = (case c of DInt8 v \<Rightarrow> Inr v | _ \<Rightarrow> Inl (wrong_type name ty ''Int8''))"

definition from_column_i16 :: "int from_column" where
  "from_column_i16 c name ty = (case c of DInt16 v \<Rightarrow> Inr v | _ \<Rightarrow> Inl (wrong_type name ty ''Int16''))"

definition from_column_i32 :: "int from_column" where
  "from_column_i32 c name ty = (case c of
     DInt32 v \<Rightarrow> Inr v | DDate32 v \<Rightarrow> Inr v | DDecimal32 p s v \<Rightarrow> Inr v
   | _ \<Rightarrow> Inl (wrong_type name ty ''Int32''))"

definition from_column_i64 :: "int from_column" where
  "from_column_i64 c name ty = (case c of
     DInt64 v \<Rightarrow> Inr v | DDateTime64 p z v \<Rightarrow> Inr v | DDecimal64 p s v \<Rightarrow> Inr v
   | _ \<Rightarrow> Inl (wrong_type name ty ''Int64''))"

definition from_column_i128 :: "int from_column" where
  "from_column_i128 c name ty = (case c of
     DInt128 v \<Rightarrow> Inr v | DDecimal128 p s v \<Rightarrow> Inr v | _ \<Rightarrow> Inl (wrong_type name ty ''Int128''))"

definition from_column_f32 :: "nat from_column" where
  "from_column_f32 c name ty = (case c of DFloat32 v \<Rightarrow> Inr v | _ \<Rightarrow> Inl (wrong_type name ty ''Float32''))"

definition from_column_f64 :: "nat from_column" where
  "from_column_f64 c name ty = (case c of DFloat64 v \<Rightarrow> Inr v | _ \<Rightarrow> Inl (wrong_type name ty ''Float64''))"

definition from_column_b32 :: "byte list from_column" where
  "from_column_b32 c name ty = (case c of
     DInt256 v \<Rightarrow> Inr v | DUInt256 v \<Rightarrow> Inr v | DDecimal256 p s v \<Rightarrow> Inr v
   | _ \<Rightarrow> Inl (wrong_type name ty ''a 256-bit column''))"

definition from_column_b16 :: "byte list from_column" where
  "from_column_b16 c name ty = (case c of
     DUuid v \<Rightarrow> Inr v | DIpv6 v \<Rightarrow> Inr v | _ \<Rightarrow> Inl (wrong_type name ty ''a 16-byte column''))"

definition from_column_bool :: "bool from_column" where
  "from_column_bool c name ty = (case c of
     DUInt8 v \<Rightarrow> Inr (map (\<lambda>b. b \<noteq> 0) v) | _ \<Rightarrow> Inl (wrong_type name ty ''Bool''))"

definition from_column_option :: "'a from_column \<Rightarrow> 'a option from_column" where
  "from_column_option from_col c name ty = (case c of
     DNullable msk child \<Rightarrow>
       tri (from_col child name ty) (\<lambda>vals.
         Inr (map2 (\<lambda>is_null v. if is_null = 0 then Some v else None) msk vals))
   | _ \<Rightarrow> Inl (wrong_type name ty ''a Nullable column''))"

end
