(* ===== verification/Protocol.thy ===== *)
theory Protocol
  imports BlockDecode
begin

text \<open>
  The packets of the TCP protocol: constants, packet ids and payloads of src/src/tcp/protocol.rs, the
  client info block of tcp/client_info.rs, and the client's packet writers of tcp/writer.rs.  A writer
  is the list of bytes it hands to the socket.
\<close>

section \<open>Revisions and identifiers\<close>

definition DBMS_MIN_REVISION_WITH_TEMPORARY_TABLES :: u64 where
  "DBMS_MIN_REVISION_WITH_TEMPORARY_TABLES = 50264"

definition DBMS_MIN_REVISION_WITH_TOTAL_ROWS_IN_PROGRESS :: u64 where
  "DBMS_MIN_REVISION_WITH_TOTAL_ROWS_IN_PROGRESS = 51554"

definition DBMS_MIN_REVISION_WITH_BLOCK_INFO :: u64 where
  "DBMS_MIN_REVISION_WITH_BLOCK_INFO = 51903"

definition DBMS_MIN_REVISION_WITH_CLIENT_INFO :: u64 where
  "DBMS_MIN_REVISION_WITH_CLIENT_INFO = 54032"

definition DBMS_MIN_REVISION_WITH_SERVER_TIMEZONE :: u64 where
  "DBMS_MIN_REVISION_WITH_SERVER_TIMEZONE = 54058"

definition DBMS_MIN_REVISION_WITH_QUOTA_KEY_IN_CLIENT_INFO :: u64 where
  "DBMS_MIN_REVISION_WITH_QUOTA_KEY_IN_CLIENT_INFO = 54060"

definition DBMS_MIN_REVISION_WITH_SERVER_DISPLAY_NAME :: u64 where
  "DBMS_MIN_REVISION_WITH_SERVER_DISPLAY_NAME = 54372"

definition DBMS_MIN_REVISION_WITH_VERSION_PATCH :: u64 where
  "DBMS_MIN_REVISION_WITH_VERSION_PATCH = 54401"

definition DBMS_MIN_REVISION_WITH_CLIENT_WRITE_INFO :: u64 where
  "DBMS_MIN_REVISION_WITH_CLIENT_WRITE_INFO = 54420"

definition DBMS_MIN_REVISION_WITH_SETTINGS_SERIALIZED_AS_STRINGS :: u64 where
  "DBMS_MIN_REVISION_WITH_SETTINGS_SERIALIZED_AS_STRINGS = 54429"

definition DBMS_MIN_REVISION_WITH_INTERSERVER_SECRET :: u64 where
  "DBMS_MIN_REVISION_WITH_INTERSERVER_SECRET = 54441"

definition DBMS_MIN_REVISION_WITH_OPENTELEMETRY :: u64 where
  "DBMS_MIN_REVISION_WITH_OPENTELEMETRY = 54442"

definition DBMS_MIN_PROTOCOL_VERSION_WITH_DISTRIBUTED_DEPTH :: u64 where
  "DBMS_MIN_PROTOCOL_VERSION_WITH_DISTRIBUTED_DEPTH = 54448"

definition DBMS_MIN_PROTOCOL_VERSION_WITH_INITIAL_QUERY_START_TIME :: u64 where
  "DBMS_MIN_PROTOCOL_VERSION_WITH_INITIAL_QUERY_START_TIME = 54449"

definition DBMS_MIN_PROTOCOL_VERSION_WITH_PARALLEL_REPLICAS :: u64 where
  "DBMS_MIN_PROTOCOL_VERSION_WITH_PARALLEL_REPLICAS = 54453"

definition DBMS_MIN_PROTOCOL_VERSION_WITH_ADDENDUM :: u64 where
  "DBMS_MIN_PROTOCOL_VERSION_WITH_ADDENDUM = 54458"

definition DBMS_MIN_PROTOCOL_VERSION_WITH_PARAMETERS :: u64 where
  "DBMS_MIN_PROTOCOL_VERSION_WITH_PARAMETERS = 54459"

definition DBMS_MIN_PROTOCOL_VERSION_WITH_SERVER_QUERY_TIME_IN_PROGRESS :: u64 where
  "DBMS_MIN_PROTOCOL_VERSION_WITH_SERVER_QUERY_TIME_IN_PROGRESS = 54460"

definition DBMS_MIN_PROTOCOL_VERSION_WITH_PASSWORD_COMPLEXITY_RULES :: u64 where
  "DBMS_MIN_PROTOCOL_VERSION_WITH_PASSWORD_COMPLEXITY_RULES = 54461"

definition DBMS_MIN_REVISION_WITH_INTERSERVER_SECRET_V2 :: u64 where
  "DBMS_MIN_REVISION_WITH_INTERSERVER_SECRET_V2 = 54462"

definition DBMS_MIN_PROTOCOL_VERSION_WITH_TOTAL_BYTES_IN_PROGRESS :: u64 where
  "DBMS_MIN_PROTOCOL_VERSION_WITH_TOTAL_BYTES_IN_PROGRESS = 54463"

definition DBMS_MIN_REVISION_WITH_ROWS_BEFORE_AGGREGATION :: u64 where
  "DBMS_MIN_REVISION_WITH_ROWS_BEFORE_AGGREGATION = 54469"

definition DBMS_MIN_PROTOCOL_VERSION_WITH_CHUNKED_PACKETS :: u64 where
  "DBMS_MIN_PROTOCOL_VERSION_WITH_CHUNKED_PACKETS = 54470"

definition DBMS_MIN_REVISION_WITH_VERSIONED_PARALLEL_REPLICAS_PROTOCOL :: u64 where
  "DBMS_MIN_REVISION_WITH_VERSIONED_PARALLEL_REPLICAS_PROTOCOL = 54471"

definition DBMS_MIN_PROTOCOL_VERSION_WITH_INTERSERVER_EXTERNALLY_GRANTED_ROLES :: u64 where
  "DBMS_MIN_PROTOCOL_VERSION_WITH_INTERSERVER_EXTERNALLY_GRANTED_ROLES = 54472"

definition DBMS_MIN_REVISION_WITH_V2_DYNAMIC_AND_JSON_SERIALIZATION :: u64 where
  "DBMS_MIN_REVISION_WITH_V2_DYNAMIC_AND_JSON_SERIALIZATION = 54473"

definition DBMS_TCP_PROTOCOL_VERSION :: u64 where
  "DBMS_TCP_PROTOCOL_VERSION = DBMS_MIN_REVISION_WITH_V2_DYNAMIC_AND_JSON_SERIALIZATION"

definition TCP_EXCEPTION_STACK_TRACE_CAP :: nat where
  "TCP_EXCEPTION_STACK_TRACE_CAP = 2 ^ 20"

definition TCP_EXCEPTION_MESSAGE_CAP :: nat where
  "TCP_EXCEPTION_MESSAGE_CAP = 64 * 1024"

lemmas revision_defs =
  DBMS_MIN_REVISION_WITH_TEMPORARY_TABLES_def DBMS_MIN_REVISION_WITH_TOTAL_ROWS_IN_PROGRESS_def
  DBMS_MIN_REVISION_WITH_BLOCK_INFO_def DBMS_MIN_REVISION_WITH_CLIENT_INFO_def
  DBMS_MIN_REVISION_WITH_SERVER_TIMEZONE_def DBMS_MIN_REVISION_WITH_QUOTA_KEY_IN_CLIENT_INFO_def
  DBMS_MIN_REVISION_WITH_SERVER_DISPLAY_NAME_def DBMS_MIN_REVISION_WITH_VERSION_PATCH_def
  DBMS_MIN_REVISION_WITH_CLIENT_WRITE_INFO_def DBMS_MIN_REVISION_WITH_SETTINGS_SERIALIZED_AS_STRINGS_def
  DBMS_MIN_REVISION_WITH_INTERSERVER_SECRET_def DBMS_MIN_REVISION_WITH_OPENTELEMETRY_def
  DBMS_MIN_PROTOCOL_VERSION_WITH_DISTRIBUTED_DEPTH_def
  DBMS_MIN_PROTOCOL_VERSION_WITH_INITIAL_QUERY_START_TIME_def
  DBMS_MIN_PROTOCOL_VERSION_WITH_PARALLEL_REPLICAS_def DBMS_MIN_PROTOCOL_VERSION_WITH_ADDENDUM_def
  DBMS_MIN_PROTOCOL_VERSION_WITH_PARAMETERS_def
  DBMS_MIN_PROTOCOL_VERSION_WITH_SERVER_QUERY_TIME_IN_PROGRESS_def
  DBMS_MIN_PROTOCOL_VERSION_WITH_PASSWORD_COMPLEXITY_RULES_def
  DBMS_MIN_REVISION_WITH_INTERSERVER_SECRET_V2_def
  DBMS_MIN_PROTOCOL_VERSION_WITH_TOTAL_BYTES_IN_PROGRESS_def
  DBMS_MIN_REVISION_WITH_ROWS_BEFORE_AGGREGATION_def DBMS_MIN_PROTOCOL_VERSION_WITH_CHUNKED_PACKETS_def
  DBMS_MIN_REVISION_WITH_VERSIONED_PARALLEL_REPLICAS_PROTOCOL_def
  DBMS_MIN_PROTOCOL_VERSION_WITH_INTERSERVER_EXTERNALLY_GRANTED_ROLES_def
  DBMS_MIN_REVISION_WITH_V2_DYNAMIC_AND_JSON_SERIALIZATION_def DBMS_TCP_PROTOCOL_VERSION_def
  DBMS_MIN_PROTOCOL_VERSION_WITH_CUSTOM_SERIALIZATION_def

datatype ClientPacketId = ClientHello | ClientQuery | ClientData | ClientCancel | ClientPing

text \<open>The cast \<open>as u64\<close> of a client packet id.\<close>

definition client_id :: "ClientPacketId \<Rightarrow> u64" where
  "client_id p = (case p of ClientHello \<Rightarrow> 0 | ClientQuery \<Rightarrow> 1 | ClientData \<Rightarrow> 2 | ClientCancel \<Rightarrow> 3 | ClientPing \<Rightarrow> 4)"

datatype ServerPacketId =
    SpHello | SpData | SpException | SpProgress | SpPong | SpEndOfStream | SpProfileInfo | SpTotals
  | SpExtremes | SpLog | SpTableColumns | SpProfileEvents | SpTimezoneUpdate

definition from_u64 :: "u64 \<Rightarrow> ServerPacketId result" where
  "from_u64 i =
    (if i = 0 then Inr SpHello else if i = 1 then Inr SpData else if i = 2 then Inr SpException
     else if i = 3 then Inr SpProgress else if i = 4 then Inr SpPong else if i = 5 then Inr SpEndOfStream
     else if i = 6 then Inr SpProfileInfo else if i = 7 then Inr SpTotals else if i = 8 then Inr SpExtremes
     else if i = 10 then Inr SpLog else if i = 11 then Inr SpTableColumns
     else if i = 14 then Inr SpProfileEvents else if i = 17 then Inr SpTimezoneUpdate
     else Inl (BadResponse (UnknownServerPacket (unat i))))"

definition QueryProcessingStage_Complete :: u64 where
  "QueryProcessingStage_Complete = 2"

section \<open>Payloads\<close>

record ServerHello =
  sh_server_name :: string
  sh_version :: "u64 \<times> u64 \<times> u64"
  sh_revision :: u64
  sh_timezone :: "string option"
  sh_display_name :: "string option"

record Exception =
  ex_code :: int
  ex_name :: string
  ex_message :: string
  ex_stack_trace :: string

record Progress =
  pr_rows_read :: u64
  pr_bytes_read :: u64
  pr_total_rows_to_read :: u64
  pr_written_rows :: u64
  pr_written_bytes :: u64

record ProfileInfo =
  pi_rows :: u64
  pi_blocks :: u64
  pi_bytes :: u64
  pi_applied_limit :: bool
  pi_rows_before_limit :: u64

record TableColumns =
  tc_external_table_name :: string
  tc_columns_definition :: string

text \<open>\<open>str::is_char_boundary\<close> and the loop that steps back to one.\<close>

definition is_char_boundary :: "string \<Rightarrow> nat \<Rightarrow> bool" where
  "is_char_boundary s i \<longleftrightarrow>
    i = 0 \<or> i = length s \<or> i < length s \<and> \<not> utf8_cont (as_bytes s ! i)"

fun boundary_below :: "string \<Rightarrow> nat \<Rightarrow> nat" where
  "boundary_below s e = (if e > 0 \<and> \<not> is_char_boundary s e then boundary_below s (e - 1) else e)"

declare boundary_below.simps [simp del]

definition truncate_on_char_boundary :: "nat \<Rightarrow> string \<Rightarrow> string" where
  "truncate_on_char_boundary cap s = (if length s \<le> cap then s else take (boundary_below s cap) s)"

definition into_error :: "Exception \<Rightarrow> error" where
  "into_error e =
    (let message = (if length (ex_message e) > TCP_EXCEPTION_MESSAGE_CAP
           then truncate_on_char_boundary TCP_EXCEPTION_MESSAGE_CAP (ex_message e) else ex_message e);
         stack_trace = (if length (ex_stack_trace e) > TCP_EXCEPTION_STACK_TRACE_CAP
           then truncate_on_char_boundary TCP_EXCEPTION_STACK_TRACE_CAP (ex_stack_trace e) else ex_stack_trace e)
     in ServerException (ex_code e) (if ex_name e = [] then None else Some (ex_name e)) message
          (if stack_trace = [] then None else Some stack_trace))"

section \<open>Client info\<close>

definition QUERY_KIND_INITIAL_QUERY :: nat where "QUERY_KIND_INITIAL_QUERY = 1"

definition INTERFACE_TYPE_TCP :: nat where "INTERFACE_TYPE_TCP = 1"

record ClientInfo =
  ci_query_kind :: nat
  ci_initial_user :: string
  ci_initial_query_id :: string
  ci_initial_address :: string
  ci_os_user :: string
  ci_client_hostname :: string
  ci_client_name :: string
  ci_client_version_major :: u64
  ci_client_version_minor :: u64
  ci_client_version_patch :: u64
  ci_client_revision :: u64
  ci_interface :: nat
  ci_quota_key :: string
  ci_distributed_depth :: u64

definition for_initial_query :: "string \<Rightarrow> u64 \<Rightarrow> u64 \<Rightarrow> u64 \<Rightarrow> string \<Rightarrow> ClientInfo" where
  "for_initial_query client_name major minor sr quota =
    \<lparr> ci_query_kind = QUERY_KIND_INITIAL_QUERY, ci_initial_user = [], ci_initial_query_id = [],
      ci_initial_address = ''[::ffff:127.0.0.1]:0'', ci_os_user = [], ci_client_hostname = [],
      ci_client_name = client_name, ci_client_version_major = major, ci_client_version_minor = minor,
      ci_client_version_patch = 0, ci_client_revision = sr, ci_interface = INTERFACE_TYPE_TCP,
      ci_quota_key = quota, ci_distributed_depth = 0 \<rparr>"

text \<open>\<open>write_string(s.as_bytes())\<close>, and a field that is on the wire when \<open>c\<close> holds.\<close>

abbreviation put_text :: "string \<Rightarrow> byte list" where
  "put_text s \<equiv> put_string (as_bytes s)"

abbreviation gated :: "bool \<Rightarrow> byte list \<Rightarrow> byte list" where
  "gated c bs \<equiv> (if c then bs else [])"

definition write_to :: "ClientInfo \<Rightarrow> u64 \<Rightarrow> byte list" where
  "write_to i sr =
    le_bytes 1 (ci_query_kind i) @
    put_text (ci_initial_user i) @ put_text (ci_initial_query_id i) @ put_text (ci_initial_address i) @
    gated (sr \<ge> DBMS_MIN_PROTOCOL_VERSION_WITH_INITIAL_QUERY_START_TIME) (le_bytes 8 0) @
    le_bytes 1 (ci_interface i) @
    put_text (ci_os_user i) @ put_text (ci_client_hostname i) @ put_text (ci_client_name i) @
    put_var_uint (ci_client_version_major i) @ put_var_uint (ci_client_version_minor i) @
    put_var_uint (ci_client_revision i) @
    gated (sr \<ge> DBMS_MIN_REVISION_WITH_QUOTA_KEY_IN_CLIENT_INFO) (put_text (ci_quota_key i)) @
    gated (sr \<ge> DBMS_MIN_PROTOCOL_VERSION_WITH_DISTRIBUTED_DEPTH) (put_var_uint (ci_distributed_depth i)) @
    gated (sr \<ge> DBMS_MIN_REVISION_WITH_VERSION_PATCH) (put_var_uint (ci_client_version_patch i)) @
    gated (sr \<ge> DBMS_MIN_REVISION_WITH_OPENTELEMETRY) (le_bytes 1 0) @
    gated (sr \<ge> DBMS_MIN_PROTOCOL_VERSION_WITH_PARALLEL_REPLICAS) (put_var_uint 0 @ put_var_uint 0 @ put_var_uint 0)"

section \<open>Client packets\<close>

definition CLIENT_NAME :: string where "CLIENT_NAME = ''ClickHouse rust-client''"

text \<open>The version of the build, as the two environment strings the source parses.\<close>

record build_version =
  CLIENT_VERSION_MAJOR_STR :: string
  CLIENT_VERSION_MINOR_STR :: string

definition client_version_major :: "build_version \<Rightarrow> u64" where
  "client_version_major b =
    (case parse_unsigned (2 ^ 64 - 1) (CLIENT_VERSION_MAJOR_STR b) of Some n \<Rightarrow> of_nat n | None \<Rightarrow> 0)"

definition client_version_minor :: "build_version \<Rightarrow> u64" where
  "client_version_minor b =
    (case parse_unsigned (2 ^ 64 - 1) (CLIENT_VERSION_MINOR_STR b) of Some n \<Rightarrow> of_nat n | None \<Rightarrow> 0)"

definition SETTING_FLAG_CUSTOM :: u64 where "SETTING_FLAG_CUSTOM = 2"

definition send_hello :: "build_version \<Rightarrow> string \<Rightarrow> string \<Rightarrow> string \<Rightarrow> byte list" where
  "send_hello b database user password =
    put_var_uint (client_id ClientHello) @ put_text CLIENT_NAME @
    put_var_uint (client_version_major b) @ put_var_uint (client_version_minor b) @
    put_var_uint DBMS_TCP_PROTOCOL_VERSION @ put_text database @ put_text user @ put_text password"

definition send_addendum :: "u64 \<Rightarrow> string \<Rightarrow> byte list" where
  "send_addendum server_revision quota_key =
    (let effective = min server_revision DBMS_TCP_PROTOCOL_VERSION
     in gated (effective \<ge> DBMS_MIN_PROTOCOL_VERSION_WITH_ADDENDUM) (put_text quota_key) @
        gated (effective \<ge> DBMS_MIN_PROTOCOL_VERSION_WITH_CHUNKED_PACKETS)
          (put_text ''notchunked'' @ put_text ''notchunked'') @
        gated (effective \<ge> DBMS_MIN_REVISION_WITH_VERSIONED_PARALLEL_REPLICAS_PROTOCOL) (put_var_uint 0))"

text \<open>The \<open>(name, flags, value)\<close> triples of settings and parameters.\<close>

definition put_triples :: "u64 \<Rightarrow> (string \<times> string) list \<Rightarrow> byte list" where
  "put_triples flags kvs = concat (map (\<lambda>(k, v). put_text k @ put_var_uint flags @ put_text v) kvs)"

text \<open>
  \<open>send_query\<close> gives up in the middle when the server's revision cannot carry settings or parameters; the bytes
  before that point are already with the writer.
\<close>

definition send_query ::
    "u64 \<Rightarrow> string \<Rightarrow> string \<Rightarrow> (string \<times> string) list \<Rightarrow> (string \<times> string) list \<Rightarrow> ClientInfo \<Rightarrow> byte list \<times> unit result" where
  "send_query sr query_id query extra_settings params info =
    (let up_to_info = put_var_uint (client_id ClientQuery) @ put_text query_id @
           gated (sr \<ge> DBMS_MIN_REVISION_WITH_CLIENT_INFO) (write_to info sr)
     in if \<not> sr \<ge> DBMS_MIN_REVISION_WITH_SETTINGS_SERIALIZED_AS_STRINGS \<and> extra_settings \<noteq> [] then
       (up_to_info, Inl (OtherText
         ''tcp: cannot send query settings to server older than 20.1.2.4 (revision 54429); upgrade the server or drop the settings''))
     else let up_to_query = up_to_info @
           gated (sr \<ge> DBMS_MIN_REVISION_WITH_SETTINGS_SERIALIZED_AS_STRINGS) (put_triples 0 extra_settings) @
           put_text [] @
           gated (min sr DBMS_TCP_PROTOCOL_VERSION \<ge> DBMS_MIN_PROTOCOL_VERSION_WITH_INTERSERVER_EXTERNALLY_GRANTED_ROLES)
             (put_text []) @
           gated (sr \<ge> DBMS_MIN_REVISION_WITH_INTERSERVER_SECRET) (put_text []) @
           put_var_uint QueryProcessingStage_Complete @ put_var_uint 0 @ put_text query
     in if \<not> sr \<ge> DBMS_MIN_PROTOCOL_VERSION_WITH_PARAMETERS \<and> params \<noteq> [] then
       (up_to_query, Inl (OtherText
         ''tcp: server revision predates bound query parameters (revision 54459); upgrade the server or inline the values''))
     else (up_to_query @
         gated (sr \<ge> DBMS_MIN_PROTOCOL_VERSION_WITH_PARAMETERS) (put_triples SETTING_FLAG_CUSTOM params @ put_text []),
       Inr ()))"

definition block_info :: "byte list" where
  "block_info = put_var_uint 1 @ le_bytes 1 0 @ put_var_uint 2 @ le_bytes 4 (2 ^ 32 - 1) @ put_var_uint 0"

definition send_data_block :: "u64 \<Rightarrow> string \<Rightarrow> byte list \<Rightarrow> u64 \<Rightarrow> u64 \<Rightarrow> byte list" where
  "send_data_block sr table_name column_bytes num_columns num_rows =
    put_var_uint (client_id ClientData) @
    gated (sr \<ge> DBMS_MIN_REVISION_WITH_TEMPORARY_TABLES) (put_text table_name) @
    gated (sr \<ge> DBMS_MIN_REVISION_WITH_BLOCK_INFO) block_info @
    put_var_uint num_columns @ put_var_uint num_rows @ column_bytes"

definition send_empty_block :: "u64 \<Rightarrow> byte list" where
  "send_empty_block sr = send_data_block sr [] [] 0 0"

definition send_cancel :: "byte list" where
  "send_cancel = put_var_uint (client_id ClientCancel)"

definition send_ping :: "byte list" where
  "send_ping = put_var_uint (client_id ClientPing)"

end
