(* ===== verification/PacketReader.thy ===== *)
theory PacketReader
  imports Protocol
begin

text \<open>
  The server packet decoders of src/src/tcp/reader.rs and the handshake of tcp/handshake.rs.
\<close>

definition READER_MAX_BLOCK_COLUMNS :: nat where "READER_MAX_BLOCK_COLUMNS = 16384"

definition MAX_PASSWORD_COMPLEXITY_RULES :: nat where "MAX_PASSWORD_COMPLEXITY_RULES = 256"

datatype ServerPacket =
    PkData "string option" u64 u64 "(string \<times> string) list"
  | PkDataBlock DecodedBlock
  | PkException Exception
  | PkProgress Progress
  | PkProfileInfo ProfileInfo
  | PkPong
  | PkEndOfStream
  | PkLog
  | PkTableColumns TableColumns
  | PkProfileEvents
  | PkTimezoneUpdate string

text \<open>A field read when the gate \<open>c\<close> is open, and its value when it is not on the wire.\<close>

definition read_gated :: "bool \<Rightarrow> 'a \<Rightarrow> 'a rd \<Rightarrow> 'a rd" where
  "read_gated c absent m = (if c then m else rret absent)"

definition read_i32 :: "int rd" where
  "read_i32 = rbind (read_le 4) (\<lambda>n. rret (if n < 2 ^ 31 then int n else int n - 2 ^ 32))"

definition read_exception :: "Exception rd" where
  "read_exception =
    rbind read_i32 (\<lambda>code.
    rbind read_utf8_string (\<lambda>name.
    rbind read_utf8_string (\<lambda>message.
    rbind read_utf8_string (\<lambda>stack_trace0.
      let stack_trace = (if length stack_trace0 > TCP_EXCEPTION_STACK_TRACE_CAP
            then truncate_on_char_boundary TCP_EXCEPTION_STACK_TRACE_CAP stack_trace0 else stack_trace0)
      in rbind (read_le 1) (\<lambda>obsolete_has_nested.
        rret \<lparr> ex_code = code, ex_name = name, ex_message = message, ex_stack_trace = stack_trace \<rparr>)))))"

definition packet_code :: "ServerPacketId \<Rightarrow> nat" where
  "packet_code i = (case i of SpHello \<Rightarrow> 0 | SpData \<Rightarrow> 1 | SpException \<Rightarrow> 2 | SpProgress \<Rightarrow> 3 | SpPong \<Rightarrow> 4
     | SpEndOfStream \<Rightarrow> 5 | SpProfileInfo \<Rightarrow> 6 | SpTotals \<Rightarrow> 7 | SpExtremes \<Rightarrow> 8 | SpLog \<Rightarrow> 10
     | SpTableColumns \<Rightarrow> 11 | SpProfileEvents \<Rightarrow> 14 | SpTimezoneUpdate \<Rightarrow> 17)"

text \<open>The body of a server Hello, behind its id.\<close>

definition read_hello_body :: "ServerHello rd" where
  "read_hello_body =
    rbind read_utf8_string (\<lambda>server_name.
    rbind read_var_uint (\<lambda>major.
    rbind read_var_uint (\<lambda>minor.
    rbind read_var_uint (\<lambda>revision.
      let effective = min revision DBMS_TCP_PROTOCOL_VERSION in
    rbind (read_gated (effective \<ge> DBMS_MIN_REVISION_WITH_VERSIONED_PARALLEL_REPLICAS_PROTOCOL) 0 read_var_uint) (\<lambda>_.
    rbind (read_gated (effective \<ge> DBMS_MIN_REVISION_WITH_SERVER_TIMEZONE) None
             (rbind read_utf8_string (\<lambda>s. rret (Some s)))) (\<lambda>timezone.
    rbind (read_gated (effective \<ge> DBMS_MIN_REVISION_WITH_SERVER_DISPLAY_NAME) None
             (rbind read_utf8_string (\<lambda>s. rret (Some s)))) (\<lambda>display_name.
    rbind (read_gated (effective \<ge> DBMS_MIN_REVISION_WITH_VERSION_PATCH) 0 read_var_uint) (\<lambda>patch.
    rbind (read_gated (effective \<ge> DBMS_MIN_PROTOCOL_VERSION_WITH_CHUNKED_PACKETS) ()
             (rbind read_utf8_string (\<lambda>_. rbind read_utf8_string (\<lambda>_. rret ())))) (\<lambda>_.
    rbind (read_gated (effective \<ge> DBMS_MIN_PROTOCOL_VERSION_WITH_PASSWORD_COMPLEXITY_RULES) ()
             (rbind read_var_uint (\<lambda>rules.
               if unat rules > MAX_PASSWORD_COMPLEXITY_RULES
               then rfail (BadResponse (TooManyComplexityRules (unat rules)))
               else rbind (read_times (unat rules)
                      (rbind read_utf8_string (\<lambda>_. rbind read_utf8_string (\<lambda>_. rret ())))) (\<lambda>_. rret ())))) (\<lambda>_.
    rbind (read_gated (effective \<ge> DBMS_MIN_REVISION_WITH_INTERSERVER_SECRET_V2) []
             (read_exact 8)) (\<lambda>_.
      rret \<lparr> sh_server_name = server_name, sh_version = (major, minor, patch), sh_revision = revision,
             sh_timezone = timezone, sh_display_name = display_name \<rparr>)))))))))))"

definition read_hello :: "ServerHello rd" where
  "read_hello =
    rbind read_var_uint (\<lambda>packet_type.
    rbind (rlift (from_u64 packet_type)) (\<lambda>id.
      case id of
        SpHello \<Rightarrow> read_hello_body
      | SpException \<Rightarrow> rbind read_exception (\<lambda>exc. rfail (into_error exc))
      | other \<Rightarrow> rfail (BadResponse (UnexpectedHandshakePacket (packet_code other)))))"

definition read_progress :: "u64 \<Rightarrow> Progress rd" where
  "read_progress server_revision =
    (let effective = min server_revision DBMS_TCP_PROTOCOL_VERSION in
    rbind read_var_uint (\<lambda>rows_read.
    rbind read_var_uint (\<lambda>bytes_read.
    rbind (read_gated (effective \<ge> DBMS_MIN_REVISION_WITH_TOTAL_ROWS_IN_PROGRESS) 0 read_var_uint) (\<lambda>total_rows.
    rbind (read_gated (effective \<ge> DBMS_MIN_PROTOCOL_VERSION_WITH_TOTAL_BYTES_IN_PROGRESS) 0 read_var_uint) (\<lambda>_.
    rbind (read_gated (effective \<ge> DBMS_MIN_REVISION_WITH_CLIENT_WRITE_INFO) (0, 0)
             (rbind read_var_uint (\<lambda>wr. rbind read_var_uint (\<lambda>wb. rret (wr, wb))))) (\<lambda>(written_rows, written_bytes).
    rbind (read_gated (effective \<ge> DBMS_MIN_PROTOCOL_VERSION_WITH_SERVER_QUERY_TIME_IN_PROGRESS) 0 read_var_uint) (\<lambda>_.
      rret \<lparr> pr_rows_read = rows_read, pr_bytes_read = bytes_read, pr_total_rows_to_read = total_rows,
             pr_written_rows = written_rows, pr_written_bytes = written_bytes \<rparr>)))))))"

definition read_profile_info :: "u64 \<Rightarrow> ProfileInfo rd" where
  "read_profile_info server_revision =
    rbind read_var_uint (\<lambda>rows.
    rbind read_var_uint (\<lambda>blocks.
    rbind read_var_uint (\<lambda>bytes.
    rbind (read_le 1) (\<lambda>applied_limit.
    rbind read_var_uint (\<lambda>rows_before_limit.
    rbind (read_le 1) (\<lambda>_.
    rbind (read_gated (min server_revision DBMS_TCP_PROTOCOL_VERSION \<ge> DBMS_MIN_REVISION_WITH_ROWS_BEFORE_AGGREGATION) ()
             (rbind (read_le 1) (\<lambda>_. rbind read_var_uint (\<lambda>_. rret ())))) (\<lambda>_.
      rret \<lparr> pi_rows = rows, pi_blocks = blocks, pi_bytes = bytes, pi_applied_limit = (applied_limit \<noteq> 0),
             pi_rows_before_limit = rows_before_limit \<rparr>)))))))"

definition read_table_columns :: "TableColumns rd" where
  "read_table_columns =
    rbind read_utf8_string (\<lambda>external_table_name.
    rbind read_utf8_string (\<lambda>columns_definition.
      rret \<lparr> tc_external_table_name = external_table_name, tc_columns_definition = columns_definition \<rparr>))"

definition read_data_block_header :: "u64 \<Rightarrow> (string option \<times> u64 \<times> u64) rd" where
  "read_data_block_header server_revision =
    rbind (read_gated (server_revision \<ge> DBMS_MIN_REVISION_WITH_TEMPORARY_TABLES) None
             (rbind read_utf8_string (\<lambda>s. rret (Some s)))) (\<lambda>table_name.
    rbind (read_gated (server_revision \<ge> DBMS_MIN_REVISION_WITH_BLOCK_INFO) () read_block_info) (\<lambda>_.
    rbind read_var_uint (\<lambda>num_columns.
      if unat num_columns > READER_MAX_BLOCK_COLUMNS
      then rfail (BadResponse (HeaderTooManyColumns (unat num_columns)))
      else rbind read_var_uint (\<lambda>num_rows. rret (table_name, num_columns, num_rows)))))"

definition read_schema_column :: "bool \<Rightarrow> (string \<times> string) rd" where
  "read_schema_column has_custom_ser =
    rbind read_utf8_string (\<lambda>name.
    rbind read_utf8_string (\<lambda>type_name.
    rbind (read_gated has_custom_ser 0 (read_le 1)) (\<lambda>flag.
      if flag \<noteq> 0 then rfail (BadResponse (SchemaSerializationFlag name flag)) else rret (name, type_name))))"

definition read_empty_data_block_schema :: "u64 \<Rightarrow> u64 \<Rightarrow> (string \<times> string) list rd" where
  "read_empty_data_block_schema num_columns server_revision =
    read_times (unat num_columns)
      (read_schema_column (server_revision \<ge> DBMS_MIN_PROTOCOL_VERSION_WITH_CUSTOM_SERIALIZATION))"

definition consume_telemetry_block :: "u64 \<Rightarrow> unit rd" where
  "consume_telemetry_block server_revision =
    rbind (read_data_block_header server_revision) (\<lambda>(tag, num_columns, num_rows).
      if num_rows = 0
      then rbind (read_empty_data_block_schema num_columns server_revision) (\<lambda>_. rret ())
      else rbind (decode_block num_columns num_rows server_revision) (\<lambda>_. rret ()))"

definition read_packet :: "u64 \<Rightarrow> ServerPacket rd" where
  "read_packet server_revision =
    rbind read_var_uint (\<lambda>packet_type.
    rbind (rlift (from_u64 packet_type)) (\<lambda>id.
      if id = SpData \<or> id = SpTotals \<or> id = SpExtremes then
        rbind (read_data_block_header server_revision) (\<lambda>(table_name, num_columns, num_rows).
          if num_rows = 0
          then rbind (read_empty_data_block_schema num_columns server_revision) (\<lambda>columns.
                 rret (PkData table_name num_columns num_rows columns))
          else rbind (decode_block num_columns num_rows server_revision) (\<lambda>block. rret (PkDataBlock block)))
      else case id of
        SpException \<Rightarrow> rbind read_exception (\<lambda>e. rret (PkException e))
      | SpProgress \<Rightarrow> rbind (read_progress server_revision) (\<lambda>p. rret (PkProgress p))
      | SpProfileInfo \<Rightarrow> rbind (read_profile_info server_revision) (\<lambda>p. rret (PkProfileInfo p))
      | SpPong \<Rightarrow> rret PkPong
      | SpEndOfStream \<Rightarrow> rret PkEndOfStream
      | SpLog \<Rightarrow> rbind (consume_telemetry_block server_revision) (\<lambda>_. rret PkLog)
      | SpTableColumns \<Rightarrow> rbind read_table_columns (\<lambda>t. rret (PkTableColumns t))
      | SpProfileEvents \<Rightarrow> rbind (consume_telemetry_block server_revision) (\<lambda>_. rret PkProfileEvents)
      | SpTimezoneUpdate \<Rightarrow> rbind read_utf8_string (\<lambda>s. rret (PkTimezoneUpdate s))
      | other \<Rightarrow> rfail (BadResponse (UnexpectedMidStream (packet_code other)))))"

section \<open>Handshake\<close>

record HandshakeConfig =
  hc_database :: string
  hc_user :: string
  hc_password :: string
  hc_quota_key :: string

definition handshake_default :: HandshakeConfig where
  "handshake_default = \<lparr> hc_database = ''default'', hc_user = ''default'', hc_password = [], hc_quota_key = [] \<rparr>"

text \<open>
  The exchange on one stream: the bytes written before the server's answer is read, and the outcome
  with the bytes written after it.
\<close>

definition handshake :: "build_version \<Rightarrow> HandshakeConfig \<Rightarrow> byte list \<Rightarrow> byte list \<times> (ServerHello \<times> byte list \<times> byte list) result" where
  "handshake b cfg incoming =
    (send_hello b (hc_database cfg) (hc_user cfg) (hc_password cfg),
     tri (read_hello incoming) (\<lambda>(hello, rest).
       Inr (hello, send_addendum (sh_revision hello) (hc_quota_key cfg), rest)))"

end
