(* ===== verification/Truncation.thy ===== *)
theory Truncation
  imports PacketReader
begin

text \<open>
  Cutting text at a byte cap: the result of \<open>truncate_on_char_boundary\<close> (src/src/tcp/protocol.rs) is the longest
  prefix under the cap that is still UTF-8, and the server's exception text is bounded by it.
\<close>

section \<open>Characters of a valid text\<close>

lemma utf8_head:
  assumes "utf8_valid (a # rest)"
  shows "\<exists>c r. a # rest = c @ r \<and> c \<noteq> [] \<and> length c \<le> 4 \<and> \<not> utf8_cont (hd c) \<and> (\<forall>b\<in>set (tl c). utf8_cont b) \<and>
    utf8_valid r \<and> (\<forall>t. utf8_valid t \<longrightarrow> utf8_valid (c @ t))"
proof -
  let ?x = "unat a"
  have lead: "\<not> utf8_cont a" using assms by (auto simp: utf8_cont_def Let_def split: if_splits)
  consider (one) "?x < 0x80" | (two) "\<not> ?x < 0x80" "0xC2 \<le> ?x \<and> ?x \<le> 0xDF"
    | (three) "\<not> ?x < 0x80" "\<not> (0xC2 \<le> ?x \<and> ?x \<le> 0xDF)" "0xE0 \<le> ?x \<and> ?x \<le> 0xEF"
    | (four) "\<not> ?x < 0x80" "\<not> (0xC2 \<le> ?x \<and> ?x \<le> 0xDF)" "\<not> (0xE0 \<le> ?x \<and> ?x \<le> 0xEF)" "0xF0 \<le> ?x \<and> ?x \<le> 0xF4"
    using assms unfolding utf8_valid.simps Let_def by argo
  then show ?thesis
  proof cases
    case one
    then show ?thesis using assms lead by - (rule exI [of _ "[a]"], rule exI [of _ rest], simp add: Let_def)
  next
    case two
    then obtain b r where "rest = b # r" using assms by (cases rest) auto
    then show ?thesis using assms lead two by - (rule exI [of _ "[a, b]"], rule exI [of _ r], simp add: Let_def)
  next
    case three
    then obtain b c r where "rest = b # c # r"
      using assms by (cases rest; cases "tl rest") (auto simp: Let_def)
    then show ?thesis using assms lead three by - (rule exI [of _ "[a, b, c]"], rule exI [of _ r], simp add: Let_def)
  next
    case four
    then obtain b c d r where "rest = b # c # d # r"
      using assms by (cases rest; cases "tl rest"; cases "tl (tl rest)") (auto simp: Let_def)
    then show ?thesis using assms lead four by - (rule exI [of _ "[a, b, c, d]"], rule exI [of _ r], simp add: Let_def)
  qed
qed

lemma utf8_chars [consumes 1, case_names Nil Char]:
  assumes "utf8_valid bs" and "P []"
    and "\<And>c r. c \<noteq> [] \<Longrightarrow> length c \<le> 4 \<Longrightarrow> \<not> utf8_cont (hd c) \<Longrightarrow> \<forall>b\<in>set (tl c). utf8_cont b \<Longrightarrow> utf8_valid r \<Longrightarrow>
      \<forall>t. utf8_valid t \<longrightarrow> utf8_valid (c @ t) \<Longrightarrow> P r \<Longrightarrow> P (c @ r)"
  shows "P bs"
  using assms(1)
proof (induction bs rule: length_induct)
  case (1 bs)
  show ?case
  proof (cases bs)
    case (Cons a rest)
    from utf8_head [OF 1(2) [unfolded Cons]] obtain c r where
      cr: "bs = c @ r" "c \<noteq> []" "length c \<le> 4" "\<not> utf8_cont (hd c)" "\<forall>b\<in>set (tl c). utf8_cont b" "utf8_valid r"
        "\<forall>t. utf8_valid t \<longrightarrow> utf8_valid (c @ t)" unfolding Cons by metis
    then have "P r" using 1(1) by simp
    with cr show ?thesis using assms(3) by simp
  qed (use assms(2) in simp)
qed

text \<open>A position of a byte string where a character starts, or its end.\<close>

definition char_start :: "byte list \<Rightarrow> nat \<Rightarrow> bool" where
  "char_start bs i \<longleftrightarrow> i = length bs \<or> i < length bs \<and> \<not> utf8_cont (bs ! i)"

lemma char_start_append: "char_start r i \<Longrightarrow> char_start (c @ r) (length c + i)"
  by (auto simp: char_start_def)

lemma utf8_cut: "utf8_valid bs \<Longrightarrow> char_start bs i \<Longrightarrow> utf8_valid (take i bs)"
proof (induction arbitrary: i rule: utf8_chars)
  case (Char c r)
  show ?case
  proof (cases "i < length c")
    case True
    have "i = 0"
    proof (rule ccontr)
      assume "i \<noteq> 0"
      then have "c ! i \<in> set (tl c)" using True by (metis Nitpick.size_list_simp(2) length_tl nth_mem nth_tl diff_Suc_1 Char(1) Suc_less_eq not0_implies_Suc)
      then show False using Char True by (auto simp: char_start_def nth_append)
    qed
    then show ?thesis by simp
  next
    case False
    then have "char_start r (i - length c)" using Char.prems by (auto simp: char_start_def nth_append)
    then show ?thesis using Char False by simp
  qed
qed simp

lemma utf8_start: "utf8_valid bs \<Longrightarrow> char_start bs 0"
  by (induction rule: utf8_chars) (auto simp: char_start_def hd_append nth_append hd_conv_nth)

lemma utf8_start_near:
  "utf8_valid bs \<Longrightarrow> i \<le> length bs \<Longrightarrow> \<exists>j. j \<le> i \<and> i < j + 4 \<and> char_start bs j"
proof (induction arbitrary: i rule: utf8_chars)
  case Nil
  then show ?case by (simp add: char_start_def)
next
  case (Char c r)
  show ?case
  proof (cases "i < length c")
    case True
    have "utf8_valid (c @ r)" using Char by simp
    then show ?thesis using True Char(2) utf8_start by (intro exI [of _ 0]) auto
  next
    case False
    then have "i - length c \<le> length r" using Char.prems by simp
    from Char.IH [OF this] obtain j where "j \<le> i - length c" "i - length c < j + 4" "char_start r j" by blast
    then show ?thesis using False char_start_append [of r j c] by (intro exI [of _ "length c + j"]) auto
  qed
qed

section \<open>Truncation\<close>

lemma boundary_below_greatest:
  "boundary_below s e \<le> e \<and> is_char_boundary s (boundary_below s e) \<and>
    (\<forall>j\<le>e. is_char_boundary s j \<longrightarrow> j \<le> boundary_below s e)"
proof (induction e)
  case 0
  show ?case by (simp add: boundary_below.simps [of s 0] is_char_boundary_def)
next
  case (Suc e)
  show ?case
  proof (cases "is_char_boundary s (Suc e)")
    case False
    then have "boundary_below s (Suc e) = boundary_below s e" by (simp add: boundary_below.simps [of s "Suc e"])
    then show ?thesis using Suc False by (auto simp: le_Suc_eq)
  qed (simp add: boundary_below.simps [of s "Suc e"])
qed

lemma boundary_char_start:
  "utf8_valid (as_bytes s) \<Longrightarrow> i \<le> length s \<Longrightarrow> is_char_boundary s i \<longleftrightarrow> char_start (as_bytes s) i"
  using utf8_start [of "as_bytes s"] by (auto simp: is_char_boundary_def char_start_def)

lemma as_bytes_take: "as_bytes (take n s) = take n (as_bytes s)"
  by (simp add: as_bytes_def take_map)

lemma truncated:
  assumes "utf8_valid (as_bytes s)"
  shows "prefix (truncate_on_char_boundary cap s) s" "length (truncate_on_char_boundary cap s) \<le> cap"
    "utf8_valid (as_bytes (truncate_on_char_boundary cap s))"
    "min cap (length s) < length (truncate_on_char_boundary cap s) + 4"
proof -
  let ?t = "truncate_on_char_boundary cap s" and ?b = "boundary_below s cap"
  show "prefix ?t s" by (simp add: truncate_on_char_boundary_def take_is_prefix)
  show "length ?t \<le> cap" using boundary_below_greatest [of s cap] by (simp add: truncate_on_char_boundary_def)
  have b: "?b \<le> cap" "is_char_boundary s ?b" "\<forall>j\<le>cap. is_char_boundary s j \<longrightarrow> j \<le> ?b"
    using boundary_below_greatest [of s cap] by auto
  show "utf8_valid (as_bytes ?t)"
    using assms b boundary_char_start [OF assms, of ?b]
    by (auto simp: truncate_on_char_boundary_def as_bytes_take intro: utf8_cut)
  show "min cap (length s) < length ?t + 4"
  proof (cases "length s \<le> cap")
    case False
    then obtain j where "j \<le> cap" "cap < j + 4" "char_start (as_bytes s) j"
      using utf8_start_near [OF assms, of cap] by auto
    then show ?thesis using b False boundary_char_start [OF assms, of j] by (auto simp: truncate_on_char_boundary_def)
  qed (simp add: truncate_on_char_boundary_def)
qed

text \<open>
  Text cut at a byte cap stays text: for a valid UTF-8 string the result is a prefix of it, no longer than the
  cap, valid UTF-8, and falls short of the cap (or of the whole string) by at most three bytes; so the message and
  the stack trace of a server exception reach the application bounded and valid.
\<close>

theorem exception_text_bounded:
  assumes "utf8_valid (as_bytes (ex_message e))" "utf8_valid (as_bytes (ex_stack_trace e))"
  shows "\<exists>name m t. into_error e = ServerException (ex_code e) name m (if t = [] then None else Some t) \<and>
    prefix m (ex_message e) \<and> length m \<le> TCP_EXCEPTION_MESSAGE_CAP \<and> utf8_valid (as_bytes m) \<and>
    min TCP_EXCEPTION_MESSAGE_CAP (length (ex_message e)) < length m + 4 \<and>
    prefix t (ex_stack_trace e) \<and> length t \<le> TCP_EXCEPTION_STACK_TRACE_CAP \<and> utf8_valid (as_bytes t) \<and>
    min TCP_EXCEPTION_STACK_TRACE_CAP (length (ex_stack_trace e)) < length t + 4"
proof -
  have cut: "(if length s > cap then truncate_on_char_boundary cap s else s) = truncate_on_char_boundary cap s" for cap s
    by (simp add: truncate_on_char_boundary_def)
  show ?thesis
    unfolding into_error_def Let_def cut
    by (intro exI conjI; (rule truncated [OF assms(1)] truncated [OF assms(2)] refl)?)
qed

theorem exception_text_bounded_witness:
  "\<exists>name m t. into_error \<lparr> ex_code = 60, ex_name = ''DB::Exception'', ex_message = ''Unknown table'', ex_stack_trace = [] \<rparr> =
      ServerException 60 name m (if t = [] then None else Some t) \<and>
    prefix m ''Unknown table'' \<and> length m \<le> TCP_EXCEPTION_MESSAGE_CAP \<and> utf8_valid (as_bytes m) \<and>
    min TCP_EXCEPTION_MESSAGE_CAP (length ''Unknown table'') < length m + 4 \<and>
    prefix t [] \<and> length t \<le> TCP_EXCEPTION_STACK_TRACE_CAP \<and> utf8_valid (as_bytes t) \<and>
    min TCP_EXCEPTION_STACK_TRACE_CAP 0 < length t + 4"
  using exception_text_bounded [of "\<lparr> ex_code = 60, ex_name = ''DB::Exception'', ex_message = ''Unknown table'', ex_stack_trace = [] \<rparr>"]
  by (simp add: as_bytes_def)

end
