(* ===== verification/SchemaCache.thy ===== *)
theory SchemaCache
  imports DynEncode
begin

text \<open>
  Schemas of dynamic inserts, src/src/dynamic/schema.rs: the columns of a table as \<open>system.columns\<close> reports them, and
  the cache that keeps them for a while.  Times are nanoseconds on a clock that does not go back.  The lock around the
  cache is only held for one lookup or update, so the operations happen one after the other.
\<close>

section \<open>Schemas\<close>

record DynamicSchema =
  ds_table :: string
  ds_columns :: "ColumnDef list"
  ds_column_index :: "string \<rightharpoonup> nat"

text \<open>Collecting into a hash map keeps the last position of a repeated name.\<close>

definition from_columns :: "string \<Rightarrow> ColumnDef list \<Rightarrow> DynamicSchema" where
  "from_columns tab columns =
    \<lparr> ds_table = tab, ds_columns = columns,
      ds_column_index = map_of (rev (map (\<lambda>(i, c). (cd_name c, i)) (enumerate 0 columns))) \<rparr>"

definition column_named :: "DynamicSchema \<Rightarrow> string \<Rightarrow> ColumnDef option" where
  "column_named s name = map_option (\<lambda>i. ds_columns s ! i) (ds_column_index s name)"

definition required_columns :: "DynamicSchema \<Rightarrow> ColumnDef list" where
  "required_columns s = filter (\<lambda>c. \<not> cd_has_default c) (ds_columns s)"

definition optional_columns :: "DynamicSchema \<Rightarrow> ColumnDef list" where
  "optional_columns s = filter cd_has_default (ds_columns s)"

definition schema_len :: "DynamicSchema \<Rightarrow> nat" where
  "schema_len s = length (ds_columns s)"

definition schema_is_empty :: "DynamicSchema \<Rightarrow> bool" where
  "schema_is_empty s \<longleftrightarrow> ds_columns s = []"

definition has_json_columns :: "DynamicSchema \<Rightarrow> bool" where
  "has_json_columns s \<longleftrightarrow> (\<exists>c\<in>set (ds_columns s). pt_tag (cd_ty c) = TJSON)"

text \<open>The escaper of identifiers is the HTTP client's; a literal is its output between other delimiters.\<close>

definition quote_literal :: "(string \<Rightarrow> string) \<Rightarrow> string \<Rightarrow> string" where
  "quote_literal sql_escape_identifier s =
    (let escaped = sql_escape_identifier s in [CHR 0x27] @ take (length escaped - 2) (drop 1 escaped) @ [CHR 0x27])"

definition system_columns_sql :: "(string \<Rightarrow> string) \<Rightarrow> string \<Rightarrow> string \<Rightarrow> string" where
  "system_columns_sql sql_escape_identifier database tab =
    ''SELECT name, type AS col_type, default_kind FROM system.columns WHERE database = '' @
    quote_literal sql_escape_identifier database @ '' AND table = '' @ quote_literal sql_escape_identifier tab @
    '' ORDER BY position''"

definition schema_from_system_columns :: "string \<Rightarrow> (string \<times> string \<times> string) list \<Rightarrow> DynamicSchema dres" where
  "schema_from_system_columns full_table rows =
    (let columns = map (\<lambda>(name, col_type, default_kind). with_default_kind name col_type default_kind) rows
     in if columns = [] then Inl (EmptySchema full_table) else Inr (from_columns full_table columns))"

text \<open>\<open>query\<close> is what the HTTP client answers to the statement: its rows, or the text of its error.\<close>

definition fetch_dynamic_schema ::
    "(string \<Rightarrow> string) \<Rightarrow> (string \<Rightarrow> string + (string \<times> string \<times> string) list) \<Rightarrow> string \<Rightarrow> string \<Rightarrow> DynamicSchema dres" where
  "fetch_dynamic_schema sql_escape_identifier query database tab =
    (let full_table = database @ ''.'' @ tab in
     case query (system_columns_sql sql_escape_identifier database tab) of
       Inl e \<Rightarrow> Inl (SchemaFetch full_table e)
     | Inr rows \<Rightarrow> schema_from_system_columns full_table rows)"

lemma indexed_names: "fst ` set (map (\<lambda>(i, c). (cd_name c, i)) (enumerate n columns)) = cd_name ` set columns"
  by (induction columns arbitrary: n) auto

lemma column_index_position:
  assumes "ds_column_index (from_columns tab columns) name = Some i"
  shows "i < length columns \<and> cd_name (columns ! i) = name"
proof -
  from assms have "(name, i) \<in> set (map (\<lambda>(i, c). (cd_name c, i)) (enumerate 0 columns))"
    unfolding from_columns_def by (simp del: set_map) (metis map_of_SomeD set_rev)
  then show ?thesis by (auto simp: in_set_enumerate_eq)
qed

text \<open>
  A column is found by its name exactly when the table has one, and what is found has that name; no index of the
  lookup table lies outside the columns.
\<close>

theorem column_lookup:
  "(case column_named (from_columns tab columns) name of
      Some c \<Rightarrow> c \<in> set columns \<and> cd_name c = name
    | None \<Rightarrow> name \<notin> cd_name ` set columns)"
proof (cases "ds_column_index (from_columns tab columns) name")
  case None
  then have "name \<notin> fst ` set (map (\<lambda>(i, c). (cd_name c, i)) (enumerate 0 columns))"
    by (simp add: from_columns_def map_of_eq_None_iff del: set_map)
  then have "name \<notin> cd_name ` set columns" by (simp only: indexed_names not_False_eq_True)
  then show ?thesis using None by (simp add: column_named_def)
next
  case (Some i)
  with column_index_position [OF Some] show ?thesis by (simp add: column_named_def from_columns_def)
qed

section \<open>The cache\<close>

record CacheEntry =
  ce_schema :: DynamicSchema
  ce_fetched_at :: nat

record DynamicSchemaCache =
  sc_inner :: "string \<rightharpoonup> CacheEntry"
  sc_ttl :: nat

definition cache_new :: "nat \<Rightarrow> DynamicSchemaCache" where
  "cache_new ttl = \<lparr> sc_inner = Map.empty, sc_ttl = ttl \<rparr>"

definition cache_get :: "nat \<Rightarrow> DynamicSchemaCache \<Rightarrow> string \<Rightarrow> DynamicSchema option" where
  "cache_get now c tab =
    Option.bind (sc_inner c tab) (\<lambda>e. if now - ce_fetched_at e < sc_ttl c then Some (ce_schema e) else None)"

definition cache_insert :: "nat \<Rightarrow> string \<Rightarrow> DynamicSchema \<Rightarrow> DynamicSchemaCache \<Rightarrow> DynamicSchemaCache" where
  "cache_insert now tab s c = c\<lparr> sc_inner := (sc_inner c)(tab \<mapsto> \<lparr> ce_schema = s, ce_fetched_at = now \<rparr>) \<rparr>"

definition invalidate :: "string \<Rightarrow> DynamicSchemaCache \<Rightarrow> DynamicSchemaCache" where
  "invalidate tab c = c\<lparr> sc_inner := (sc_inner c)(tab := None) \<rparr>"

definition invalidate_all :: "DynamicSchemaCache \<Rightarrow> DynamicSchemaCache" where
  "invalidate_all c = c\<lparr> sc_inner := Map.empty \<rparr>"

section \<open>What the cache promises\<close>

text \<open>What an insert relies on: a lookup sees the last schema stored for the table while it is fresh, and no forgotten one.\<close>

locale schema_store =
  fixes lookup :: "nat \<Rightarrow> 'c \<Rightarrow> 'k \<Rightarrow> 'v option"
    and store :: "nat \<Rightarrow> 'k \<Rightarrow> 'v \<Rightarrow> 'c \<Rightarrow> 'c"
    and forget :: "'k \<Rightarrow> 'c \<Rightarrow> 'c"
    and ttl :: "'c \<Rightarrow> nat"
  assumes lookup_store: "lookup now (store ago k v c) k' = (if k' = k then (if now - ago < ttl c then Some v else None) else lookup now c k')"
    and lookup_forget: "lookup now (forget k c) k' = (if k' = k then None else lookup now c k')"
    and ttl_store: "ttl (store ago k v c) = ttl c"
    and ttl_forget: "ttl (forget k c) = ttl c"
begin

lemma stored: "0 < ttl c \<Longrightarrow> lookup now (store now k v c) k = Some v"
  by (simp add: lookup_store)

lemma stored_until: "lookup now (store ago k v c) k = Some v \<longleftrightarrow> now - ago < ttl c"
  by (simp add: lookup_store)

lemma replaced: "0 < ttl c \<Longrightarrow> lookup now (store now k v (forget k c)) k = Some v"
  by (simp add: stored ttl_forget)

lemma others_kept: "k' \<noteq> k \<Longrightarrow> lookup now (store ago k v (forget k c)) k' = lookup now c k'"
  by (simp add: lookup_store lookup_forget)

end

interpretation cache: schema_store cache_get cache_insert invalidate sc_ttl
  by unfold_locales (simp_all add: cache_get_def cache_insert_def invalidate_def)

text \<open>A history of the cache, latest first.\<close>

datatype cache_op = Inserted nat string DynamicSchema | Invalidated string | InvalidatedAll

fun replay :: "nat \<Rightarrow> cache_op list \<Rightarrow> DynamicSchemaCache" where
  "replay ttl [] = cache_new ttl"
| "replay ttl (Inserted now tab s # ops) = cache_insert now tab s (replay ttl ops)"
| "replay ttl (Invalidated tab # ops) = invalidate tab (replay ttl ops)"
| "replay ttl (InvalidatedAll # ops) = invalidate_all (replay ttl ops)"

definition concerns :: "string \<Rightarrow> cache_op \<Rightarrow> bool" where
  "concerns tab op = (case op of Inserted _ t _ \<Rightarrow> t = tab | Invalidated t \<Rightarrow> t = tab | InvalidatedAll \<Rightarrow> True)"

lemma find_first: "find P xs = Some x \<longleftrightarrow> (\<exists>ys zs. xs = ys @ x # zs \<and> P x \<and> (\<forall>y\<in>set ys. \<not> P y))"
proof
  show "find P xs = Some x \<Longrightarrow> \<exists>ys zs. xs = ys @ x # zs \<and> P x \<and> (\<forall>y\<in>set ys. \<not> P y)"
  proof (induction xs)
    case (Cons a xs)
    show ?case
    proof (cases "P a")
      case True
      with Cons.prems show ?thesis by (intro exI [of _ "[]"] exI [of _ xs]) simp
    next
      case False
      with Cons obtain ys zs where "xs = ys @ x # zs" "P x" "\<forall>y\<in>set ys. \<not> P y" by auto
      with False show ?thesis by (intro exI [of _ "a # ys"] exI [of _ zs]) simp
    qed
  qed simp
  have "find P (ys @ x # zs) = Some x" if "P x" "\<forall>y\<in>set ys. \<not> P y" for ys zs
    using that by (induction ys) auto
  then show "\<exists>ys zs. xs = ys @ x # zs \<and> P x \<and> (\<forall>y\<in>set ys. \<not> P y) \<Longrightarrow> find P xs = Some x" by auto
qed

lemma replay_ttl [simp]: "sc_ttl (replay ttl ops) = ttl"
  by (induction ttl ops rule: replay.induct) (simp_all add: cache_new_def cache_insert_def invalidate_def invalidate_all_def)

lemma replay_entry:
  "sc_inner (replay ttl ops) tab =
    (case find (concerns tab) ops of
       Some (Inserted now t s) \<Rightarrow> Some \<lparr> ce_schema = s, ce_fetched_at = now \<rparr>
     | _ \<Rightarrow> None)"
  by (induction ttl ops rule: replay.induct)
     (simp_all add: cache_new_def cache_insert_def invalidate_def invalidate_all_def concerns_def)

text \<open>
  C37: the cache answers from the last thing it was told about a table.  Whatever was inserted and invalidated before, a
  lookup returns a schema exactly when the latest operation that concerns the table inserted that schema, less than
  the time to live ago; a table that was invalidated since, alone or with all others, is never answered from the
  cache, however often other tables were refreshed.
\<close>

theorem cache_answers_latest:
  "cache_get now (replay ttl ops) tab = Some s \<longleftrightarrow>
    (\<exists>newer older ago. ops = newer @ Inserted ago tab s # older \<and> (\<forall>op\<in>set newer. \<not> concerns tab op) \<and>
      now - ago < ttl)"
proof -
  have "cache_get now (replay ttl ops) tab = Some s \<longleftrightarrow>
      (\<exists>ago t. find (concerns tab) ops = Some (Inserted ago t s) \<and> now - ago < ttl)"
    unfolding cache_get_def replay_entry by (auto split: option.splits cache_op.splits if_splits)
  also have "\<dots> \<longleftrightarrow> (\<exists>ago. find (concerns tab) ops = Some (Inserted ago tab s) \<and> now - ago < ttl)"
    by (auto simp: find_first concerns_def)
  also have "\<dots> \<longleftrightarrow> (\<exists>newer older ago. ops = newer @ Inserted ago tab s # older \<and> (\<forall>op\<in>set newer. \<not> concerns tab op) \<and> now - ago < ttl)"
    by (auto simp: find_first concerns_def)
  finally show ?thesis .
qed

definition id_schema :: DynamicSchema where
  "id_schema = from_columns ''db.t'' [with_default_kind ''id'' ''UInt64'' []]"

theorem cache_answers_latest_witness:
  "cache_get 150 (replay 100 [Invalidated ''db.u'', Inserted 90 ''db.t'' id_schema, InvalidatedAll]) ''db.t'' = Some id_schema \<and>
   cache_get 190 (replay 100 [Inserted 90 ''db.t'' id_schema]) ''db.t'' \<noteq> Some id_schema"
proof -
  have "[Invalidated ''db.u'', Inserted 90 ''db.t'' id_schema, InvalidatedAll] =
      [Invalidated ''db.u''] @ Inserted 90 ''db.t'' id_schema # [InvalidatedAll]" "\<forall>op\<in>set [Invalidated ''db.u'']. \<not> concerns ''db.t'' op"
    by (simp_all add: concerns_def)
  then have "cache_get 150 (replay 100 [Invalidated ''db.u'', Inserted 90 ''db.t'' id_schema, InvalidatedAll]) ''db.t'' = Some id_schema"
    unfolding cache_answers_latest by (intro exI conjI) (assumption | simp)+
  moreover have "cache_get 190 (replay 100 [Inserted 90 ''db.t'' id_schema]) ''db.t'' \<noteq> Some id_schema"
    unfolding cache_answers_latest by (auto simp: Cons_eq_append_conv)
  ultimately show ?thesis by blast
qed

end
