(* ===== verification/TypeNames.thy ===== *)
theory TypeNames
  imports ColumnTypes
begin

text \<open>
  The reference printer of column types and the round trip through the parser of
  src/src/native/columns.rs: a printed name passes the parser's scanners as one argument, is fixed
  by trimming, has the parenthesis depth of its type, and falls into the arm of its constructor.
\<close>

section \<open>Printing a type back\<close>

text \<open>
  The reference printer: the name the server gives a column type.  It is the left inverse the parser
  is checked against; parts the enum does not keep (enum members, the aggregate's name, a
  \<open>Time64\<close> precision) are printed as a fixed representative.
\<close>

fun join_args :: "string list \<Rightarrow> string" where
  "join_args [] = []"
| "join_args [a] = a"
| "join_args (a # b # as) = a @ '', '' @ join_args (b # as)"

definition apply_name :: "string \<Rightarrow> string \<Rightarrow> string" where
  "apply_name name arg = name @ ''('' @ arg @ '')''"

fun type_name :: "ColumnType \<Rightarrow> string" where
  "type_name UInt8 = ''UInt8''" | "type_name UInt16 = ''UInt16''" | "type_name UInt32 = ''UInt32''"
| "type_name UInt64 = ''UInt64''" | "type_name Int8 = ''Int8''" | "type_name Int16 = ''Int16''"
| "type_name Int32 = ''Int32''" | "type_name Int64 = ''Int64''" | "type_name Int128 = ''Int128''"
| "type_name UInt128 = ''UInt128''" | "type_name Int256 = ''Int256''" | "type_name UInt256 = ''UInt256''"
| "type_name Float32 = ''Float32''" | "type_name Float64 = ''Float64''" | "type_name BFloat16 = ''BFloat16''"
| "type_name (Decimal32 p s) = apply_name ''Decimal'' (show_nat p @ '', '' @ show_nat s)"
| "type_name (Decimal64 p s) = apply_name ''Decimal'' (show_nat p @ '', '' @ show_nat s)"
| "type_name (Decimal128 p s) = apply_name ''Decimal'' (show_nat p @ '', '' @ show_nat s)"
| "type_name (Decimal256 p s) = apply_name ''Decimal'' (show_nat p @ '', '' @ show_nat s)"
| "type_name String = ''String''"
| "type_name (FixedString n) = apply_name ''FixedString'' (show_nat n)"
| "type_name Uuid = ''UUID''" | "type_name IPv4 = ''IPv4''" | "type_name IPv6 = ''IPv6''"
| "type_name Date = ''Date''" | "type_name Date32 = ''Date32''" | "type_name DateTime = ''DateTime''"
| "type_name (DateTime64 p z) = apply_name ''DateTime64''
    (case z of None \<Rightarrow> show_nat p | Some tz \<Rightarrow> show_nat p @ '', '' @ [CHR 0x27] @ tz @ [CHR 0x27])"
| "type_name Time = ''Time''" | "type_name Time64 = apply_name ''Time64'' ''3''"
| "type_name (Nullable t) = apply_name ''Nullable'' (type_name t)"
| "type_name (LowCardinality t) = apply_name ''LowCardinality'' (type_name t)"
| "type_name Enum8 = apply_name ''Enum8'' []" | "type_name Enum16 = apply_name ''Enum16'' []"
| "type_name (SimpleAggregateFunction t) = apply_name ''SimpleAggregateFunction'' (''any, '' @ type_name t)"
| "type_name (Array t) = apply_name ''Array'' (type_name t)"
| "type_name (Tuple ts) = apply_name ''Tuple'' (join_args (map type_name ts))"
| "type_name (Map k v) = apply_name ''Map'' (type_name k @ '', '' @ type_name v)"
| "type_name Json = apply_name ''Object'' ([CHR 0x27] @ ''json'' @ [CHR 0x27])"
| "type_name Point = ''Point''"
| "type_name (Variant ts) = apply_name ''Variant'' (join_args (map type_name ts))"
| "type_name NewJson = ''JSON''" | "type_name DynamicType = ''Dynamic''"

text \<open>Parameters in the ranges a type name can carry, and a field in every tuple and variant.\<close>

definition wf_timezone :: "string \<Rightarrow> bool" where
  "wf_timezone tz \<longleftrightarrow> tz \<noteq> [] \<and> (\<forall>c\<in>set tz. c \<notin> {CHR 0x27, CHR ''('', CHR '')'', CHR '',''})"

fun wf_type :: "ColumnType \<Rightarrow> bool" where
  "wf_type (Decimal32 p s) = (p \<le> 9 \<and> s \<le> 255)"
| "wf_type (Decimal64 p s) = (9 < p \<and> p \<le> 18 \<and> s \<le> 255)"
| "wf_type (Decimal128 p s) = (18 < p \<and> p \<le> 38 \<and> s \<le> 255)"
| "wf_type (Decimal256 p s) = (38 < p \<and> p \<le> 255 \<and> s \<le> 255)"
| "wf_type (FixedString n) = (n < 2 ^ 64)"
| "wf_type (DateTime64 p z) = (p \<le> 255 \<and> (case z of None \<Rightarrow> True | Some tz \<Rightarrow> wf_timezone tz))"
| "wf_type (Nullable t) = wf_type t"
| "wf_type (LowCardinality t) = wf_type t"
| "wf_type (SimpleAggregateFunction t) = wf_type t"
| "wf_type (Array t) = wf_type t"
| "wf_type (Tuple ts) = (ts \<noteq> [] \<and> (\<forall>t\<in>set ts. wf_type t))"
| "wf_type (Map k v) = (wf_type k \<and> wf_type v)"
| "wf_type (Variant ts) = (ts \<noteq> [] \<and> (\<forall>t\<in>set ts. wf_type t))"
| "wf_type _ = True"

fun type_depth :: "ColumnType \<Rightarrow> nat" where
  "type_depth (Decimal32 p s) = 1"
| "type_depth (Decimal64 p s) = 1"
| "type_depth (Decimal128 p s) = 1"
| "type_depth (Decimal256 p s) = 1"
| "type_depth (FixedString n) = 1"
| "type_depth (DateTime64 p z) = 1"
| "type_depth Time64 = 1"
| "type_depth Enum8 = 1"
| "type_depth Enum16 = 1"
| "type_depth Json = 1"
| "type_depth (Nullable t) = 1 + type_depth t"
| "type_depth (LowCardinality t) = 1 + type_depth t"
| "type_depth (SimpleAggregateFunction t) = 1 + type_depth t"
| "type_depth (Array t) = 1 + type_depth t"
| "type_depth (Tuple ts) = 1 + foldr max (map type_depth ts) 0"
| "type_depth (Map k v) = 1 + max (type_depth k) (type_depth v)"
| "type_depth (Variant ts) = 1 + foldr max (map type_depth ts) 0"
| "type_depth _ = 0"

section \<open>Trimming and numbers\<close>


lemma strip_seqs_id:
  assumes "\<And>w. w \<in> set seqs \<Longrightarrow> w \<noteq> [] \<Longrightarrow> \<not> prefix w s"
  shows "strip_seqs seqs s = s"
proof -
  have "find (\<lambda>w. w \<noteq> [] \<and> prefix w s) seqs = None"
    using assms by (auto simp: find_None_iff)
  then show ?thesis by (subst strip_seqs.simps) simp
qed

text \<open>Names start and end with a visible ASCII character, which no white space character does.\<close>

definition visible :: "char \<Rightarrow> bool" where
  "visible c \<longleftrightarrow> 33 \<le> (of_char c :: nat) \<and> (of_char c :: nat) < 128"

lemma ws_seqs_ends:
  "w \<in> set ws_seqs \<Longrightarrow> w \<noteq> [] \<and> \<not> visible (hd w) \<and> \<not> visible (last w)"
  by (auto simp: ws_seqs_def visible_def)

lemma hd_prefix: "prefix w s \<Longrightarrow> w \<noteq> [] \<Longrightarrow> hd w = hd s"
  by (auto simp: prefix_def)

lemma trim_visible:
  assumes "s \<noteq> []" "visible (hd s)" "visible (last s)"
  shows "trim s = s"
proof -
  have "strip_seqs ws_seqs s = s"
  proof (rule strip_seqs_id)
    fix w assume "w \<in> set ws_seqs" "w \<noteq> []"
    then show "\<not> prefix w s" using hd_prefix [of w s] ws_seqs_ends [of w] assms(2) by auto
  qed
  moreover have "strip_seqs (map rev ws_seqs) (rev s) = rev s"
  proof (rule strip_seqs_id)
    fix w assume "w \<in> set (map rev ws_seqs)" "w \<noteq> []"
    then have "\<not> visible (hd w)" using ws_seqs_ends [of "rev w"] by (auto simp: last_rev)
    moreover have "hd (rev s) = last s" using assms(1) by (simp add: hd_rev)
    ultimately show "\<not> prefix w (rev s)" using hd_prefix [of w "rev s"] \<open>w \<noteq> []\<close> assms(3) by auto
  qed
  ultimately show ?thesis by (simp add: trim_def trim_start_def trim_end_def)
qed

lemma digit_visible: "d < 10 \<Longrightarrow> visible (digit_char d)"
  by (simp add: visible_def of_char_digit_char)

lemma digits_val_append: "digits_val acc (xs @ ys) = Option.bind (digits_val acc xs) (\<lambda>a. digits_val a ys)"
  by (induction xs arbitrary: acc) (auto simp: Option.bind_assoc)

lemma digit_val_digit_char: "d < 10 \<Longrightarrow> digit_val (digit_char d) = Some d"
  by (simp add: digit_val_def of_char_digit_char)

lemma digits_val_show_nat: "digits_val 0 (show_nat n) = Some n"
proof (induction n rule: show_nat.induct)
  case (1 n)
  show ?case
    by (subst show_nat.simps) (simp add: digits_val_append 1 digit_val_digit_char)
qed

lemma digit_char_neq:
  assumes "d < 10"
  shows "digit_char d \<noteq> CHR ''+''" "digit_char d \<noteq> CHR ''(''" "digit_char d \<noteq> CHR '')''" "digit_char d \<noteq> CHR '',''"
  using of_char_digit_char [OF assms] by auto

lemma parse_unsigned_show_nat: "n \<le> m \<Longrightarrow> parse_unsigned m (show_nat n) = Some n"
proof -
  assume "n \<le> m"
  have "\<not> prefix ''+'' (show_nat n)"
    using show_nat_digits [of "CHR ''+''" n] digit_char_neq(1) by (auto simp: prefix_def) metis
  then show ?thesis using \<open>n \<le> m\<close>
    by (simp add: parse_unsigned_def strip_prefix_def digits_val_show_nat)
qed

lemma trim_show_nat: "trim (show_nat n) = show_nat n"
proof (rule trim_visible)
  show "visible (hd (show_nat n))" "visible (last (show_nat n))"
    using show_nat_digits digit_visible by (metis hd_in_set last_in_set show_nat_nonempty)+
qed simp


section \<open>Scanning a printed name\<close>

text \<open>
  A string is closed when the scanners of the parser pass over it at every nesting depth, and open
  when they do so inside parentheses, where its commas do not count.
\<close>

definition closed :: "string \<Rightarrow> bool" where
  "closed s \<longleftrightarrow> (\<forall>d cur res r.
    split_type_args_loop d cur res (s @ r) = split_type_args_loop d (cur @ s) res r)"

definition inside :: "string \<Rightarrow> bool" where
  "inside s \<longleftrightarrow> (\<forall>d cur res r.
    split_type_args_loop (Suc d) cur res (s @ r) = split_type_args_loop (Suc d) (cur @ s) res r)"

definition plain :: "string \<Rightarrow> bool" where
  "plain s \<longleftrightarrow> (\<forall>c\<in>set s. c \<notin> {CHR ''('', CHR '')'', CHR '',''})"

lemma plain_closed: "plain s \<Longrightarrow> closed s"
proof -
  have "plain s \<Longrightarrow> split_type_args_loop d cur res (s @ r) = split_type_args_loop d (cur @ s) res r"
    for d cur res r
    by (induction s arbitrary: cur) (auto simp: plain_def)
  then show "plain s \<Longrightarrow> closed s" by (simp add: closed_def)
qed

lemma closed_inside: "closed s \<Longrightarrow> inside s"
  by (simp add: closed_def inside_def)

lemma inside_append: "inside s \<Longrightarrow> inside t \<Longrightarrow> inside (s @ t)"
  by (simp add: inside_def)

lemma inside_comma: "inside ('', '')"
  by (simp add: inside_def)

lemma inside_join: "\<forall>a\<in>set as. inside a \<Longrightarrow> inside (join_args as)"
  by (induction as rule: join_args.induct)
     (auto simp: inside_append inside_comma simp del: append_Cons, simp add: inside_def)

lemma closed_apply_name: "plain name \<Longrightarrow> inside a \<Longrightarrow> closed (apply_name name a)"
  using plain_closed [of name] by (simp add: closed_def inside_def apply_name_def)

lemma plain_show_nat: "plain (show_nat n)"
  unfolding plain_def
proof
  fix c assume "c \<in> set (show_nat n)"
  then obtain d where "d < 10" "c = digit_char d" using show_nat_digits by blast
  then show "c \<notin> {CHR ''('', CHR '')'', CHR '',''}" using digit_char_neq [of d] by simp
qed

definition deep :: "nat \<Rightarrow> string \<Rightarrow> bool" where
  "deep n s \<longleftrightarrow> (\<forall>d m r. d \<le> m \<longrightarrow>
    max_paren_depth_loop d m (s @ r) = max_paren_depth_loop d (max m (d + n)) r)"

lemma plain_deep: "plain s \<Longrightarrow> deep 0 s"
proof -
  have "plain s \<Longrightarrow> max_paren_depth_loop d m (s @ r) = max_paren_depth_loop d m r" for d m r
    by (induction s) (auto simp: plain_def)
  then show "plain s \<Longrightarrow> deep 0 s" by (simp add: deep_def max_absorb1)
qed

lemma deep_append: "deep a s \<Longrightarrow> deep b t \<Longrightarrow> deep (max a b) (s @ t)"
  unfolding deep_def by (simp add: max.assoc nat_add_max_right le_max_iff_disj)

lemma deep_comma: "deep 0 '', ''"
  by (simp add: deep_def max_absorb1)

lemma deep_comma_append: "deep a s \<Longrightarrow> deep b t \<Longrightarrow> deep (max a b) (s @ '', '' @ t)"
  using deep_append [OF _ deep_append [OF deep_comma], of a s b t] by simp

lemma deep_join: "\<forall>a\<in>set as. deep (f a) (g a) \<Longrightarrow>
    deep (foldr max (map f as) 0) (join_args (map g as))"
proof (induction as)
  case (Cons a as)
  then show ?case
    by (cases as) (simp_all add: deep_comma_append del: append_Cons)
qed (simp add: deep_def max_absorb1)

lemma deep_apply_name: "plain name \<Longrightarrow> deep n a \<Longrightarrow> deep (1 + n) (apply_name name a)"
  using plain_deep [of name] unfolding deep_def apply_name_def by (simp add: max_def)

text \<open>A printed name: closed, of a known depth, and fixed by \<open>trim\<close>.\<close>

definition printed :: "nat \<Rightarrow> string \<Rightarrow> bool" where
  "printed n s \<longleftrightarrow> closed s \<and> deep n s \<and> s \<noteq> [] \<and> visible (hd s) \<and> visible (last s)"

lemma printed_plain: "plain s \<Longrightarrow> s \<noteq> [] \<Longrightarrow> visible (hd s) \<Longrightarrow> visible (last s) \<Longrightarrow> printed 0 s"
  by (simp add: printed_def plain_closed plain_deep)

lemma printed_apply:
  "plain name \<Longrightarrow> name \<noteq> [] \<Longrightarrow> visible (hd name) \<Longrightarrow> inside a \<Longrightarrow> deep n a \<Longrightarrow>
    printed (Suc n) (apply_name name a)"
  using deep_apply_name [of name n a]
  by (simp add: printed_def closed_apply_name) (simp add: apply_name_def visible_def)

lemma printed_inside: "printed n s \<Longrightarrow> inside s"
  by (simp add: printed_def closed_inside)

lemma printed_deep: "printed n s \<Longrightarrow> deep n s"
  by (simp add: printed_def)

lemma printed_trim: "printed n s \<Longrightarrow> trim s = s"
  by (simp add: printed_def trim_visible)

lemmas plain_inside = plain_closed [THEN closed_inside]

lemma inside_pair: "inside s \<Longrightarrow> inside t \<Longrightarrow> inside (s @ '', '' @ t)"
  using inside_append inside_comma by blast

lemma deep_pair0: "deep 0 s \<Longrightarrow> deep n t \<Longrightarrow> deep n (s @ '', '' @ t)"
  using deep_comma_append [of 0 s n t] by simp

lemma printed_show_nat: "printed 0 (show_nat n)"
proof (rule printed_plain)
  show "visible (hd (show_nat n))" "visible (last (show_nat n))"
    using show_nat_digits digit_visible by (metis hd_in_set last_in_set show_nat_nonempty)+
qed (simp_all add: plain_show_nat)

lemma printed_quoted: "wf_timezone tz \<Longrightarrow> printed 0 ([CHR 0x27] @ tz @ [CHR 0x27])"
  by (rule printed_plain) (auto simp: wf_timezone_def plain_def visible_def)

lemma printed_unary:
  "printed n x \<Longrightarrow> plain name \<Longrightarrow> name \<noteq> [] \<Longrightarrow> visible (hd name) \<Longrightarrow>
    printed (Suc n) (apply_name name x)"
  by (simp add: printed_apply printed_inside printed_deep)

lemma printed_binary:
  "printed n x \<Longrightarrow> printed m y \<Longrightarrow> plain name \<Longrightarrow> name \<noteq> [] \<Longrightarrow> visible (hd name) \<Longrightarrow>
    printed (Suc (max n m)) (apply_name name (x @ '', '' @ y))"
  by (intro printed_apply inside_pair deep_comma_append) (auto dest: printed_inside printed_deep)

lemma printed_apply_list:
  assumes "\<forall>t\<in>set ts. printed (f t) (g t)" "plain name" "name \<noteq> []" "visible (hd name)"
  shows "printed (Suc (foldr max (map f ts) 0)) (apply_name name (join_args (map g ts)))"
proof (rule printed_apply)
  show "inside (join_args (map g ts))" using assms(1) by (intro inside_join) (auto dest: printed_inside)
  show "deep (foldr max (map f ts) 0) (join_args (map g ts))"
    using assms(1) by (intro deep_join) (auto dest: printed_deep)
qed (use assms in auto)

lemma printed_decimal: "printed (Suc 0) (apply_name ''Decimal'' (show_nat p @ '', '' @ show_nat s))"
  using printed_binary [OF printed_show_nat printed_show_nat, of "''Decimal''" p s] by (simp add: plain_def visible_def)

lemma printed_empty: "plain name \<Longrightarrow> name \<noteq> [] \<Longrightarrow> visible (hd name) \<Longrightarrow> printed (Suc 0) (apply_name name [])"
  by (rule printed_apply) (simp_all add: inside_def deep_def max_absorb1)

lemma printed_type_name: "wf_type t \<Longrightarrow> printed (type_depth t) (type_name t)"
proof (induction t)
  case (DateTime64 p z)
  then show ?case
    using printed_unary [OF printed_show_nat, of "''DateTime64''" p]
      printed_binary [OF printed_show_nat printed_quoted, of _ "''DateTime64''" p]
    by (cases z) (simp_all add: plain_def visible_def)
next
  case (SimpleAggregateFunction t)
  have "printed 0 ''any''" by (rule printed_plain) (simp_all add: plain_def visible_def)
  with SimpleAggregateFunction show ?case
    using printed_binary [of 0 "''any''" "type_depth t" "type_name t" "''SimpleAggregateFunction''"]
    by (simp add: plain_def visible_def)
next
  case (Map k v)
  then show ?case
    using printed_binary [of "type_depth k" "type_name k" "type_depth v" "type_name v" "''Map''"]
    by (simp add: plain_def visible_def)
next
  case Time64
  have "printed 0 ''3''" by (rule printed_plain) (simp_all add: plain_def visible_def)
  then show ?case by (simp add: printed_unary plain_def visible_def)
next
  case Json
  have "printed 0 ([CHR 0x27] @ ''json'' @ [CHR 0x27])"
    by (rule printed_plain) (simp_all add: plain_def visible_def)
  then show ?case by (simp add: printed_unary plain_def visible_def)
qed (simp_all add: printed_decimal [simplified] printed_empty printed_plain printed_unary printed_apply_list printed_show_nat plain_def visible_def)

section \<open>Parsing a printed name\<close>

lemma trim_space: "trim (CHR '' '' # s) = trim s"
proof -
  have "find (\<lambda>w. w \<noteq> [] \<and> prefix w (CHR '' '' # s)) ws_seqs = Some '' ''"
    by (simp add: ws_seqs_def)
  then show ?thesis
    unfolding trim_def trim_start_def by (subst strip_seqs.simps) simp
qed

lemma split_join_loop:
  assumes "\<forall>a\<in>set as. printed (f a) a" "cur = [] \<or> cur = '' ''" "as \<noteq> []"
  shows "split_type_args_loop 0 cur res (join_args as) = res @ as"
  using assms
proof (induction as arbitrary: cur res rule: join_args.induct)
  case (2 a)
  then have "closed a" by (simp add: printed_def)
  then have "split_type_args_loop 0 cur res (a @ []) = split_type_args_loop 0 (cur @ a) res []"
    unfolding closed_def by (elim allE)
  moreover have "trim (cur @ a) = a" "a \<noteq> []" using 2 by (auto simp: trim_space printed_trim printed_def)
  ultimately show ?case by simp
next
  case (3 a b as)
  let ?r = "'', '' @ join_args (b # as)"
  have "split_type_args_loop 0 cur res (a @ ?r) = split_type_args_loop 0 (cur @ a) res ?r"
    using 3(2) unfolding printed_def closed_def by auto
  moreover have "trim (cur @ a) = a" using 3 by (auto simp: trim_space printed_trim)
  ultimately show ?case using 3(1) [of "'' ''" "res @ [a]"] 3(2) by simp
qed simp

lemma split_join: "\<forall>a\<in>set as. printed (f a) a \<Longrightarrow> as \<noteq> [] \<Longrightarrow> split_type_args (join_args as) = as"
  using split_join_loop [of as f "[]" "[]"] by (simp add: split_type_args_def)

lemma max_paren_depth_printed: "printed n s \<Longrightarrow> max_paren_depth s = n"
  unfolding printed_def deep_def max_paren_depth_def
  by (metis add_0 append_Nil2 max_0L max_paren_depth_loop.simps(1) order_refl)

lemma strip_suffix_snoc [simp]: "strip_suffix [c] (x @ [c]) = Some x"
  by (simp add: strip_suffix_def)

lemmas head_simps = apply_name_def strip_outer_def strip_prefix_def

lemma classify_apply:
  assumes "max_paren_depth (apply_name name x) \<le> MAX_TYPE_PARSE_DEPTH"
  shows "name = ''Nullable'' \<Longrightarrow> classify (apply_name name x) = ArmNullable x"
    "name = ''LowCardinality'' \<Longrightarrow> classify (apply_name name x) = ArmLowCardinality x"
    "name = ''FixedString'' \<Longrightarrow> classify (apply_name name x) = Done (map_option FixedString (parse_usize x))"
    "name = ''DateTime64'' \<Longrightarrow> classify (apply_name name x) = Done (Some (parse_datetime64 x))"
    "name = ''Time64'' \<Longrightarrow> classify (apply_name name x) = Done (Some Time64)"
    "name = ''Decimal'' \<Longrightarrow> classify (apply_name name x) = Done (parse_decimal x)"
    "name = ''Enum8'' \<Longrightarrow> classify (apply_name name x) = Done (Some Enum8)"
    "name = ''Enum16'' \<Longrightarrow> classify (apply_name name x) = Done (Some Enum16)"
    "name = ''Array'' \<Longrightarrow> classify (apply_name name x) = ArmArray x"
    "name = ''Tuple'' \<Longrightarrow> classify (apply_name name x) = ArmTuple (split_type_args x)"
    "name = ''Map'' \<Longrightarrow> classify (apply_name name x) =
      (case split_type_args x of [a0, a1] \<Rightarrow> ArmMap a0 a1 | _ \<Rightarrow> Done None)"
    "name = ''Variant'' \<Longrightarrow> classify (apply_name name x) = ArmVariant (split_type_args x)"
  using assms unfolding classify_def classify_tail_def
  by (simp_all add: head_simps)


lemma split_pair: "printed n a \<Longrightarrow> printed m b \<Longrightarrow> split_type_args (a @ '', '' @ b) = [a, b]"
  using split_join [of "[a, b]" "\<lambda>x. if x = a then n else m"] by (simp split: if_splits)

lemma split_single: "printed n a \<Longrightarrow> split_type_args a = [a]"
  using split_join [of "[a]" "\<lambda>_. n"] by simp

lemma parse_decimal_show:
  "p \<le> 255 \<Longrightarrow> s \<le> 255 \<Longrightarrow> parse_decimal (show_nat p @ '', '' @ show_nat s) =
    Some (if p \<le> 9 then Decimal32 p s else if p \<le> 18 then Decimal64 p s
          else if p \<le> 38 then Decimal128 p s else Decimal256 p s)"
  using split_pair [OF printed_show_nat printed_show_nat, of p s]
  by (simp add: parse_decimal_def trim_show_nat parse_unsigned_show_nat)

lemma trim_matches_quoted: "wf_timezone tz \<Longrightarrow> trim_matches (CHR 0x27) ([CHR 0x27] @ tz @ [CHR 0x27]) = tz"
proof -
  assume tz: "wf_timezone tz"
  then have "hd tz \<noteq> CHR 0x27" "last tz \<noteq> CHR 0x27"
    unfolding wf_timezone_def by (metis hd_in_set last_in_set insertI1)+
  then have "dropWhile (\<lambda>x. x = CHR 0x27) tz = tz" "dropWhile (\<lambda>x. x = CHR 0x27) (rev tz) = rev tz"
    by (simp_all add: dropWhile_eq_self_iff hd_rev)
  moreover have "dropWhile (\<lambda>x. x = CHR 0x27) (tz @ [CHR 0x27]) = dropWhile (\<lambda>x. x = CHR 0x27) tz @ [CHR 0x27]"
    using tz by (intro dropWhile_append1 [of "hd tz"]) (auto simp: wf_timezone_def)
  ultimately show ?thesis by (simp add: trim_matches_def)
qed

lemma parse_datetime64_show:
  "p \<le> 255 \<Longrightarrow> parse_datetime64 (show_nat p) = DateTime64 p None"
  "p \<le> 255 \<Longrightarrow> wf_timezone tz \<Longrightarrow>
    parse_datetime64 (show_nat p @ '', '' @ ([CHR 0x27] @ tz @ [CHR 0x27])) = DateTime64 p (Some tz)"
  subgoal
    by (simp add: parse_datetime64_def split_single [OF printed_show_nat] trim_show_nat
        parse_unsigned_show_nat)
  subgoal
    unfolding parse_datetime64_def split_pair [OF printed_show_nat printed_quoted]
    using printed_trim [OF printed_quoted, of tz] trim_matches_quoted [of tz]
    by (simp add: trim_show_nat parse_unsigned_show_nat wf_timezone_def)
  done

lemma classify_simple_aggregate:
  assumes "max_paren_depth (apply_name ''SimpleAggregateFunction'' (''any, '' @ x)) \<le> MAX_TYPE_PARSE_DEPTH"
    and "x \<noteq> []" "visible (hd x)"
  shows "classify (apply_name ''SimpleAggregateFunction'' (''any, '' @ x)) = ArmSimpleAggregate x"
proof -
  have "trim (x @ '')'') = x @ '')''" using assms by (intro trim_visible) (auto simp: visible_def)
  then show ?thesis
    using assms(1) unfolding classify_def classify_tail_def
    by (simp add: head_simps find_first_comma_at_depth0_def trim_space)
qed

lemma collect_some_all: "\<forall>x\<in>set xs. f (g x) = Some x \<Longrightarrow> collect_some f (map g xs) = xs"
  by (induction xs) (auto simp: collect_some_def)

lemma type_depth_list: "t \<in> set ts \<Longrightarrow> type_depth t \<le> foldr max (map type_depth ts) 0"
  by (induction ts) auto

lemma classify_atoms:
  "t \<in> {UInt8, UInt16, UInt32, UInt64, Int8, Int16, Int32, Int64, Int128, UInt128, Int256, UInt256,
    Float32, Float64, BFloat16, String, Uuid, IPv4, IPv6, Date, Date32, DateTime, Time,
    Json, Point, NewJson, DynamicType} \<Longrightarrow> classify (type_name t) = Done (Some t)"
  unfolding insert_iff
  by (elim disjE; simp add: classify_def classify_tail_def head_simps max_paren_depth_def
       parse_simple_def MAX_TYPE_PARSE_DEPTH_def)

lemma parse_atoms:
  assumes "t \<in> {UInt8, UInt16, UInt32, UInt64, Int8, Int16, Int32, Int64, Int128, UInt128, Int256, UInt256,
    Float32, Float64, BFloat16, String, Uuid, IPv4, IPv6, Date, Date32, DateTime, Time,
    Json, Point, NewJson, DynamicType}" 
  shows "parse (type_name t) = Some t"
proof -
  have "wf_type t" using assms by auto
  then show ?thesis using printed_trim [OF printed_type_name] classify_atoms [OF assms]
    by (subst parse.simps) simp
qed

lemma depth_printed:
  "wf_type t \<Longrightarrow> type_depth t \<le> MAX_TYPE_PARSE_DEPTH \<Longrightarrow> max_paren_depth (type_name t) \<le> MAX_TYPE_PARSE_DEPTH"
  by (simp add: max_paren_depth_printed [OF printed_type_name])

lemma parse_type_name_unfold:
  assumes "wf_type t" "classify (type_name t) = arm"
  shows "parse (type_name t) =
    (case arm of
       Done r \<Rightarrow> r
     | ArmNullable inner \<Rightarrow> map_option Nullable (parse inner)
     | ArmLowCardinality inner \<Rightarrow> map_option LowCardinality (parse inner)
     | ArmArray inner_str \<Rightarrow> map_option Array (parse inner_str)
     | ArmTuple arg_strings \<Rightarrow>
        (let fields = collect_some parse arg_strings
         in if fields \<noteq> [] \<and> length fields = length arg_strings then Some (Tuple fields) else None)
     | ArmMap a0 a1 \<Rightarrow>
        (case parse a0 of None \<Rightarrow> None
         | Some k \<Rightarrow> (case parse a1 of None \<Rightarrow> None | Some v \<Rightarrow> Some (Map k v)))
     | ArmSimpleAggregate inner_str \<Rightarrow> map_option SimpleAggregateFunction (parse inner_str)
     | ArmVariant arg_strings \<Rightarrow>
        (let fields = collect_some parse arg_strings
         in if fields \<noteq> [] \<and> length fields = length arg_strings then Some (Variant fields) else None))"
  using assms printed_trim [OF printed_type_name [OF assms(1)]] by (subst parse.simps) simp

lemma fields_roundtrip:
  assumes "\<And>t. t \<in> set ts \<Longrightarrow> wf_type t \<Longrightarrow> type_depth t \<le> MAX_TYPE_PARSE_DEPTH \<Longrightarrow>
      parse (type_name t) = Some t"
    and "ts \<noteq> []" "\<forall>t\<in>set ts. wf_type t" "foldr max (map type_depth ts) 0 < MAX_TYPE_PARSE_DEPTH"
  shows "collect_some parse (split_type_args (join_args (map type_name ts))) = ts"
    "length (split_type_args (join_args (map type_name ts))) = length ts"
proof -
  have "\<forall>a\<in>set (map type_name ts). printed (max_paren_depth a) a"
    using assms(3) printed_type_name max_paren_depth_printed by fastforce
  then have s: "split_type_args (join_args (map type_name ts)) = map type_name ts"
    using assms(2) by (intro split_join) simp_all
  moreover have "\<forall>t\<in>set ts. parse (type_name t) = Some t"
  proof
    fix t assume t: "t \<in> set ts"
    with assms(4) type_depth_list [OF t] have "type_depth t \<le> MAX_TYPE_PARSE_DEPTH" by simp
    with t assms(1,3) show "parse (type_name t) = Some t" by simp
  qed
  ultimately show "collect_some parse (split_type_args (join_args (map type_name ts))) = ts"
    "length (split_type_args (join_args (map type_name ts))) = length ts"
    by (simp_all add: collect_some_all)
qed

lemma parse_printed_decimal:
  assumes "wf_type t" "type_depth t \<le> MAX_TYPE_PARSE_DEPTH" "t \<in> {Decimal32 p s, Decimal64 p s, Decimal128 p s, Decimal256 p s}"
  shows "parse (type_name t) = Some t"
  using assms classify_apply(6) [OF _ refl] depth_printed [OF assms(1,2)] parse_decimal_show [of p s]
  by (subst parse_type_name_unfold) auto

lemma parse_printed_parameter:
  assumes "wf_type t" "type_depth t \<le> MAX_TYPE_PARSE_DEPTH" "t \<in> {DateTime64 p z, FixedString n, Time64, Enum8, Enum16}"
  shows "parse (type_name t) = Some t"
  using assms depth_printed [OF assms(1,2)] classify_apply(3-5,7,8) [OF _ refl] parse_datetime64_show [of p]
    parse_unsigned_show_nat [of n "2 ^ 64 - 1"]
  by (subst parse_type_name_unfold) (auto split: option.splits)

lemma parse_printed_wrapper:
  assumes "wf_type t" "type_depth t \<le> MAX_TYPE_PARSE_DEPTH" "t \<in> {Nullable u, LowCardinality u, Array u}" "parse (type_name u) = Some u"
  shows "parse (type_name t) = Some t"
  using assms depth_printed [OF assms(1,2)] classify_apply(1,2,9) [OF _ refl]
  by (subst parse_type_name_unfold) auto

lemma parse_printed_leaf:
  assumes "wf_type t" "type_depth t \<le> MAX_TYPE_PARSE_DEPTH"
    and "\<exists>p s z n. t \<in> {Decimal32 p s, Decimal64 p s, Decimal128 p s, Decimal256 p s, DateTime64 p z, FixedString n, Time64, Enum8, Enum16}"
  shows "parse (type_name t) = Some t"
  using assms(3) parse_printed_decimal [OF assms(1,2)] parse_printed_parameter [OF assms(1,2)] by blast

lemma parse_printed_name:
  "wf_type t \<Longrightarrow> type_depth t \<le> MAX_TYPE_PARSE_DEPTH \<Longrightarrow> parse (type_name t) = Some t"
proof (induction t)
  case (Tuple ts)
  then show ?case
    using classify_apply(10) [OF _ refl] depth_printed [OF Tuple(2,3)] fields_roundtrip [OF Tuple(1)]
    by (subst parse_type_name_unfold) auto
next
  case (Variant ts)
  then show ?case
    using classify_apply(12) [OF _ refl] depth_printed [OF Variant(2,3)] fields_roundtrip [OF Variant(1)]
    by (subst parse_type_name_unfold) auto
next
  case (Map k v)
  then show ?case
    using classify_apply(11) [OF _ refl] depth_printed [OF Map(3,4)]
      split_pair [OF printed_type_name printed_type_name, of k v]
    by (subst parse_type_name_unfold) auto
next
  case (SimpleAggregateFunction t)
  then have "printed (type_depth t) (type_name t)" by (simp add: printed_type_name)
  then show ?case
    using classify_simple_aggregate [of "type_name t"] depth_printed [OF SimpleAggregateFunction(2,3)]
      SimpleAggregateFunction
    by (subst parse_type_name_unfold) (auto simp: printed_def)
next
  case (Nullable t)
  then show ?case using parse_printed_wrapper [of "Nullable t" t] by simp
next
  case (LowCardinality t)
  then show ?case using parse_printed_wrapper [of "LowCardinality t" t] by simp
next
  case (Array t)
  then show ?case using parse_printed_wrapper [of "Array t" t] by simp
qed ((rule parse_printed_leaf, assumption, assumption, fast) | (rule parse_atoms, simp))+

section \<open>Properties\<close>

text \<open>
  C25: the type parser is a left inverse of the printed type names: every type with parameters in
  range, nested at most 32 parentheses deep, is read back from the name the server gives it.
\<close>

theorem parse_type_name:
  assumes "wf_type t" "type_depth t \<le> MAX_TYPE_PARSE_DEPTH"
  shows "parse (type_name t) = Some t"
  using assms by (rule parse_printed_name)

theorem parse_type_name_witness:
  "parse ''Map(String, Array(Nullable(Decimal(18, 4))))'' =
    Some (Map String (Array (Nullable (Decimal64 18 4)))) \<and>
   parse (type_name (Tuple [DateTime64 3 (Some ''UTC''), LowCardinality (FixedString 16)])) =
    Some (Tuple [DateTime64 3 (Some ''UTC''), LowCardinality (FixedString 16)])"
proof
  have "type_name (Map String (Array (Nullable (Decimal64 18 4)))) =
      ''Map(String, Array(Nullable(Decimal(18, 4))))''" by code_simp
  then show "parse ''Map(String, Array(Nullable(Decimal(18, 4))))'' =
      Some (Map String (Array (Nullable (Decimal64 18 4))))"
    using parse_type_name [of "Map String (Array (Nullable (Decimal64 18 4)))"]
    by (simp add: MAX_TYPE_PARSE_DEPTH_def)
  show "parse (type_name (Tuple [DateTime64 3 (Some ''UTC''), LowCardinality (FixedString 16)])) =
      Some (Tuple [DateTime64 3 (Some ''UTC''), LowCardinality (FixedString 16)])"
    by (rule parse_type_name) (simp_all add: MAX_TYPE_PARSE_DEPTH_def wf_timezone_def)
qed

text \<open>
  A name of parenthesis depth one that nests \<open>n\<close> wrappers: an aggregate with an empty argument
  list, a comma, and the same again.
\<close>

fun aggregate_chain :: "nat \<Rightarrow> string" where
  "aggregate_chain 0 = ''UInt8''"
| "aggregate_chain (Suc n) = ''SimpleAggregateFunction(),'' @ aggregate_chain n"

fun aggregate_nest :: "nat \<Rightarrow> ColumnType" where
  "aggregate_nest 0 = UInt8"
| "aggregate_nest (Suc n) = SimpleAggregateFunction (aggregate_nest n)"

lemma aggregate_chain_nonempty [simp]: "aggregate_chain n \<noteq> []"
  by (cases n) auto

lemma aggregate_chain_last: "last (aggregate_chain n) = CHR ''8''"
  by (induction n) auto

lemma trim_aggregate_chain: "trim (aggregate_chain n) = aggregate_chain n"
  by (rule trim_visible) (cases n; simp add: visible_def aggregate_chain_last)+

lemma max_paren_depth_aggregate_chain: "max_paren_depth (aggregate_chain n) \<le> 1"
proof -
  have "m \<le> 1 \<Longrightarrow> max_paren_depth_loop 0 m (aggregate_chain n) \<le> 1" for m
    by (induction n arbitrary: m) simp_all
  then show ?thesis by (simp add: max_paren_depth_def)
qed

lemma classify_aggregate_chain:
  "classify (aggregate_chain (Suc n)) = ArmSimpleAggregate (aggregate_chain n)"
proof -
  have "\<not> suffix '')'' (aggregate_chain n)"
    using aggregate_chain_last [of n] by (auto simp: suffix_def)
  then show ?thesis
    using max_paren_depth_aggregate_chain [of "Suc n"] unfolding classify_def classify_tail_def
    by (simp add: head_simps find_first_comma_at_depth0_def strip_suffix_def trim_aggregate_chain
        MAX_TYPE_PARSE_DEPTH_def)
qed

text \<open>
  Parenthesis depth does not bound the recursion of the parser: for every \<open>n\<close> there is a name
  of parenthesis depth at most one that the parser accepts as \<open>n\<close> nested wrappers.
\<close>

theorem parse_depth_unbounded:
  "max_paren_depth (aggregate_chain n) \<le> 1 \<and>
   parse (aggregate_chain n) = Some (aggregate_nest n) \<and> type_depth (aggregate_nest n) = n"
proof -
  have "parse (aggregate_chain n) = Some (aggregate_nest n)"
  proof (induction n)
    case 0
    show ?case using parse_atoms [of UInt8] by simp
  next
    case (Suc n)
    then show ?case
      by (subst parse.simps) (simp add: trim_aggregate_chain classify_aggregate_chain del: aggregate_chain.simps)
  qed
  moreover have "type_depth (aggregate_nest n) = n" by (induction n) simp_all
  ultimately show ?thesis using max_paren_depth_aggregate_chain [of n] by simp
qed

end
