(* ===== verification/Actor.thy ===== *)
theory Actor
  imports PacketReader
begin

text \<open>
  The connection actor of src/src/tcp/connection_actor.rs: the task that owns the write half of one connection and
  answers commands one at a time, the reader sub-task that feeds it, and the command loop of src/src/worker.rs.

  What the environment does while a handler waits is a list of events, in the order the waits see them.  A wait
  takes the first event it watches and passes over those it does not; a socket write takes the event in front of
  it when that event is a failing write, and succeeds otherwise.  A handler that still waits when the list ends has
  not returned: its value is None.  That includes a stream whose cursor neither reads on nor goes away: the send of
  the next frame then never completes, no wait sees a further event, and the list ends there.
\<close>

section \<open>State\<close>

datatype ActorState = Idle | InsertActive

text \<open>
  \<open>ac_wire\<close> stands for the buffered writer: the bytes handed to it so far, in order.  What the socket has been given is
  always a prefix of them, the whole of them after a write that succeeded, which ends with a flush.  After a write
  that broke off, or a statement refused before its flush, the rest may still be in the buffer; closing the
  writer may flush it.
\<close>

record actor =
  ac_state :: ActorState
  ac_poisoned :: bool
  ac_wire :: "byte list"
  ac_revision :: u64
  ac_read_timeout :: "nat option"
  ac_quota_key :: string
  ac_build :: build_version

datatype ReaderMessage = Packet ServerPacket | ReaderError error

datatype event =
    CallerGone
  | IdleFired
  | Message "ReaderMessage option"
  | NothingQueued
  | DrainElapsed
  | WriteFails nat error
  | WriteStalls nat

type_synonym 'r act = "actor \<Rightarrow> event list \<Rightarrow> ('r \<times> actor \<times> event list) option"

definition aret :: "'r \<Rightarrow> 'r act" where
  "aret x a es = Some (x, a, es)"

definition abind :: "'r act \<Rightarrow> ('r \<Rightarrow> 's act) \<Rightarrow> 's act" where
  "abind m f a es = (case m a es of None \<Rightarrow> None | Some (x, a', es') \<Rightarrow> f x a' es')"

definition poison :: "unit act" where
  "poison a es = Some ((), a\<lparr> ac_poisoned := True \<rparr>, es)"

definition set_state :: "ActorState \<Rightarrow> unit act" where
  "set_state s a es = Some ((), a\<lparr> ac_state := s \<rparr>, es)"

text \<open>Poison, then answer with an error.\<close>

definition poisoned_with :: "error \<Rightarrow> ('e result) act" where
  "poisoned_with e = abind poison (\<lambda>_. aret (Inl e))"

definition MAX_INSERT_BLOCK_BYTES :: nat where
  "MAX_INSERT_BLOCK_BYTES = 512 * 1024 * 1024"

text \<open>
  One packet written and flushed.  A write that fails or stalls has handed over a prefix of the packet; under the
  deadline of \<open>bounded_io\<close> a stall ends with \<open>TimedOut\<close>, without one it never ends.
\<close>

definition bounded_io :: "bool \<Rightarrow> byte list \<Rightarrow> unit result act" where
  "bounded_io limited bytes a es =
    (case es of
       WriteFails k e # es' \<Rightarrow> Some (Inl e, a\<lparr> ac_wire := ac_wire a @ take k bytes \<rparr>, es')
     | WriteStalls k # es' \<Rightarrow>
         if limited \<and> ac_read_timeout a \<noteq> None
         then Some (Inl TimedOut, a\<lparr> ac_wire := ac_wire a @ take k bytes \<rparr>, es') else None
     | _ \<Rightarrow> Some (Inr (), a\<lparr> ac_wire := ac_wire a @ bytes \<rparr>, es))"

abbreviation write_packet :: "byte list \<Rightarrow> unit result act" where
  "write_packet \<equiv> bounded_io False"

definition idle_timed_out :: "actor \<Rightarrow> error option \<times> actor" where
  "idle_timed_out a = (case ac_read_timeout a of None \<Rightarrow> (None, a) | Some _ \<Rightarrow> (Some TimedOut, a\<lparr> ac_poisoned := True \<rparr>))"

definition client_info_for :: "actor \<Rightarrow> string \<Rightarrow> ClientInfo" where
  "client_info_for a query_id =
    (let info = for_initial_query CLIENT_NAME (client_version_major (ac_build a)) (client_version_minor (ac_build a))
           (ac_revision a) (ac_quota_key a)
     in info\<lparr> ci_initial_query_id := ci_initial_query_id info @ query_id \<rparr>)"

type_synonym kvs = "(string \<times> string) list"

text \<open>A statement the revision cannot carry is refused half-way, with what was written of it left in the buffer.\<close>

definition issue_query :: "string \<Rightarrow> string \<Rightarrow> kvs \<Rightarrow> kvs \<Rightarrow> unit result act" where
  "issue_query query_id query extra_settings params a =
    (let (bytes, refusal) = send_query (ac_revision a) query_id query extra_settings params (client_info_for a query_id)
     in abind (write_packet bytes) (\<lambda>r.
          case r of Inl e \<Rightarrow> aret (Inl e)
          | Inr _ \<Rightarrow> (case refusal of Inl e \<Rightarrow> aret (Inl e)
              | Inr _ \<Rightarrow> write_packet (send_empty_block (ac_revision a)))) a)"

section \<open>Draining and cancelling\<close>

fun drain_to_end_of_stream :: "unit result act" where
  "drain_to_end_of_stream a [] = None"
| "drain_to_end_of_stream a (ev # es) =
    (case ev of
       Message (Some (Packet p)) \<Rightarrow>
         (case p of PkEndOfStream \<Rightarrow> Some (Inr (), a, es)
          | PkException exc \<Rightarrow> Some (Inl (into_error exc), a, es)
          | _ \<Rightarrow> drain_to_end_of_stream a es)
     | Message (Some (ReaderError e)) \<Rightarrow> poisoned_with e a es
     | Message None \<Rightarrow> poisoned_with (Custom ''tcp: reader sub-task exited mid-drain'') a es
     | DrainElapsed \<Rightarrow> poisoned_with (Custom ''tcp: drain to EndOfStream exceeded 30s timeout'') a es
     | _ \<Rightarrow> drain_to_end_of_stream a es)"

definition cancel_and_drain :: "unit act" where
  "cancel_and_drain = abind (write_packet send_cancel) (\<lambda>r.
    case r of Inl _ \<Rightarrow> poison | Inr _ \<Rightarrow> abind drain_to_end_of_stream (\<lambda>_. aret ()))"

section \<open>Commands\<close>

fun ping_loop :: "unit result act" where
  "ping_loop a [] = None"
| "ping_loop a (ev # es) =
    (case ev of
       IdleFired \<Rightarrow> (case idle_timed_out a of (Some e, a') \<Rightarrow> Some (Inl e, a', es) | (None, a') \<Rightarrow> ping_loop a' es)
     | Message (Some (Packet p)) \<Rightarrow>
         (case p of PkPong \<Rightarrow> Some (Inr (), a, es)
          | PkException exc \<Rightarrow> Some (Inl (into_error exc), a, es)
          | _ \<Rightarrow> ping_loop a es)
     | Message (Some (ReaderError e)) \<Rightarrow> poisoned_with e a es
     | Message None \<Rightarrow> poisoned_with (Custom ''tcp: reader sub-task exited mid-ping'') a es
     | _ \<Rightarrow> ping_loop a es)"

definition do_ping :: "unit result act" where
  "do_ping = abind (write_packet send_ping) (\<lambda>r. case r of Inl e \<Rightarrow> poisoned_with e | Inr _ \<Rightarrow> ping_loop)"

text \<open>The answer to a statement is what the reply channel carries: nothing, when its caller has left.\<close>

fun query_loop :: "unit result option act" where
  "query_loop a [] = None"
| "query_loop a (ev # es) =
    (case ev of
       CallerGone \<Rightarrow> abind cancel_and_drain (\<lambda>_. aret None) a es
     | IdleFired \<Rightarrow> (case idle_timed_out a of (Some e, a') \<Rightarrow> Some (Some (Inl e), a', es) | (None, a') \<Rightarrow> query_loop a' es)
     | Message (Some (Packet p)) \<Rightarrow>
         (case p of PkEndOfStream \<Rightarrow> Some (Some (Inr ()), a, es)
          | PkException exc \<Rightarrow> Some (Some (Inl (into_error exc)), a, es)
          | _ \<Rightarrow> query_loop a es)
     | Message (Some (ReaderError e)) \<Rightarrow> abind (poisoned_with e) (\<lambda>r. aret (Some r)) a es
     | Message None \<Rightarrow> abind (poisoned_with (Custom ''tcp: reader sub-task exited mid-query'')) (\<lambda>r. aret (Some r)) a es
     | _ \<Rightarrow> query_loop a es)"

definition do_execute_query :: "string \<Rightarrow> string \<Rightarrow> kvs \<Rightarrow> kvs \<Rightarrow> unit result option act" where
  "do_execute_query query_id query extra_settings params =
    abind (issue_query query_id query extra_settings params) (\<lambda>r.
      case r of Inl e \<Rightarrow> abind (poisoned_with e) (\<lambda>x. aret (Some x)) | Inr _ \<Rightarrow> query_loop)"

fun begin_loop :: "kvs result act" where
  "begin_loop a [] = None"
| "begin_loop a (ev # es) =
    (case ev of
       IdleFired \<Rightarrow> (case idle_timed_out a of (Some e, a') \<Rightarrow> Some (Inl e, a', es) | (None, a') \<Rightarrow> begin_loop a' es)
     | Message (Some (Packet p)) \<Rightarrow>
         (case p of PkData table_name num_columns num_rows columns \<Rightarrow> Some (Inr columns, a, es)
          | PkDataBlock block \<Rightarrow> poisoned_with (BadResponse (PayloadBeforeSchema (db_num_rows block))) a es
          | PkException exc \<Rightarrow> Some (Inl (into_error exc), a, es)
          | PkEndOfStream \<Rightarrow> Some (Inl (BadResponse EndBeforeSchema), a, es)
          | _ \<Rightarrow> begin_loop a es)
     | Message (Some (ReaderError e)) \<Rightarrow> poisoned_with e a es
     | Message None \<Rightarrow> poisoned_with (Custom ''tcp: reader sub-task exited mid begin_insert'') a es
     | _ \<Rightarrow> begin_loop a es)"

definition do_begin_insert :: "string \<Rightarrow> string \<Rightarrow> kvs \<Rightarrow> kvs \<Rightarrow> kvs result act" where
  "do_begin_insert query_id query extra_settings params =
    abind (issue_query query_id query extra_settings params) (\<lambda>r.
      case r of Inl e \<Rightarrow> poisoned_with e | Inr _ \<Rightarrow> begin_loop)"

text \<open>The queued packets, without waiting: an answer that ends the session, or None when nothing is left.\<close>

fun drain_queued :: "error option act" where
  "drain_queued a (Message m # es) =
    (case m of
       Some (Packet p) \<Rightarrow>
         (case p of PkException exc \<Rightarrow> Some (Some (into_error exc), a\<lparr> ac_state := Idle \<rparr>, es) | _ \<Rightarrow> drain_queued a es)
     | Some (ReaderError e) \<Rightarrow> Some (Some e, a\<lparr> ac_poisoned := True, ac_state := Idle \<rparr>, es)
     | None \<Rightarrow> Some (Some (Custom ''tcp: reader sub-task exited mid-INSERT''), a\<lparr> ac_poisoned := True, ac_state := Idle \<rparr>, es))"
| "drain_queued a (NothingQueued # es) = Some (None, a, es)"
| "drain_queued a es = Some (None, a, es)"

definition do_send_insert_block :: "byte list \<Rightarrow> u64 \<Rightarrow> u64 \<Rightarrow> unit result act" where
  "do_send_insert_block column_bytes num_columns num_rows a =
    (if length column_bytes > MAX_INSERT_BLOCK_BYTES
     then aret (Inl (Custom (''tcp: INSERT block of '' @ show_nat (length column_bytes) @ '' bytes exceeds the '' @
            show_nat MAX_INSERT_BLOCK_BYTES @ '' byte cap; split the batch into smaller blocks''))) a
     else abind drain_queued (\<lambda>rejected.
       case rejected of Some e \<Rightarrow> aret (Inl e)
       | None \<Rightarrow> abind (bounded_io True (send_data_block (ac_revision a) [] column_bytes num_columns num_rows)) (\<lambda>result.
           case result of Inl e \<Rightarrow> abind poison (\<lambda>_. abind (set_state Idle) (\<lambda>_. aret result)) | Inr _ \<Rightarrow> aret result)) a)"

definition do_finish_insert :: "unit result act" where
  "do_finish_insert a =
    abind (bounded_io True (send_empty_block (ac_revision a))) (\<lambda>r.
      case r of Inl e \<Rightarrow> poisoned_with e | Inr _ \<Rightarrow> drain_to_end_of_stream) a"

text \<open>
  The frames that reach the cursor.  A send finds the receiver gone when that is the next thing to happen; the last
  frame is sent whether or not anybody takes it.
\<close>

fun stream_loop :: "ServerPacket result list act" where
  "stream_loop a [] = None"
| "stream_loop a (ev # es) =
    (case ev of
       CallerGone \<Rightarrow> abind cancel_and_drain (\<lambda>_. aret []) a es
     | IdleFired \<Rightarrow> (case idle_timed_out a of (Some e, a') \<Rightarrow> Some ([Inl e], a', es) | (None, a') \<Rightarrow> stream_loop a' es)
     | Message (Some (Packet p)) \<Rightarrow>
         (case p of PkEndOfStream \<Rightarrow> Some ([Inr PkEndOfStream], a, es)
          | PkException exc \<Rightarrow> Some ([Inl (into_error exc)], a, es)
          | PkPong \<Rightarrow> stream_loop a es
          | PkLog \<Rightarrow> stream_loop a es
          | PkProfileEvents \<Rightarrow> stream_loop a es
          | _ \<Rightarrow> (case es of
                CallerGone # es' \<Rightarrow> abind cancel_and_drain (\<lambda>_. aret []) a es'
              | _ \<Rightarrow> map_option (\<lambda>(frames, r). (Inr p # frames, r)) (stream_loop a es)))
     | Message (Some (ReaderError e)) \<Rightarrow> abind poison (\<lambda>_. aret [Inl e]) a es
     | Message None \<Rightarrow> abind poison (\<lambda>_. aret [Inl (Custom ''tcp: reader sub-task exited mid-stream'')]) a es
     | _ \<Rightarrow> stream_loop a es)"

definition do_execute_stream :: "string \<Rightarrow> string \<Rightarrow> kvs \<Rightarrow> kvs \<Rightarrow> ServerPacket result list act" where
  "do_execute_stream query_id query extra_settings params =
    abind (issue_query query_id query extra_settings params) (\<lambda>r.
      case r of Inl e \<Rightarrow> abind poison (\<lambda>_. aret [Inl e]) | Inr _ \<Rightarrow> stream_loop)"

section \<open>The command handler\<close>

datatype ConnectionCmd =
    Ping
  | ExecuteQuery string string kvs kvs
  | BeginInsert string string kvs kvs
  | SendInsertBlock "byte list" u64 u64
  | FinishInsert
  | ExecuteStream string string kvs kvs

text \<open>What goes into the command's reply channel.\<close>

datatype reply =
    Answer "unit result"
  | Columns "kvs result"
  | Frames "ServerPacket result list"
  | NoAnswer

definition refusal :: error where
  "refusal = Transient ''tcp: connection is poisoned; command not sent''"

definition reject_poisoned :: "ConnectionCmd \<Rightarrow> reply" where
  "reject_poisoned cmd = (case cmd of
     BeginInsert _ _ _ _ \<Rightarrow> Columns (Inl refusal)
   | ExecuteStream _ _ _ _ \<Rightarrow> Frames [Inl refusal]
   | _ \<Rightarrow> Answer (Inl refusal))"

definition continues_insert :: "ConnectionCmd \<Rightarrow> bool" where
  "continues_insert cmd = (case cmd of SendInsertBlock _ _ _ \<Rightarrow> True | FinishInsert \<Rightarrow> True | _ \<Rightarrow> False)"

definition busy :: error where "busy = Custom ''tcp: actor busy in INSERT''"

definition no_insert :: error where "no_insert = Custom ''tcp: no INSERT session active''"

definition handle :: "ConnectionCmd \<Rightarrow> reply act" where
  "handle cmd a =
    (if ac_poisoned a \<and> \<not> continues_insert cmd then aret (reject_poisoned cmd) a
     else case (ac_state a, cmd) of
       (InsertActive, Ping) \<Rightarrow> aret (Answer (Inl busy)) a
     | (InsertActive, ExecuteQuery _ _ _ _) \<Rightarrow> aret (Answer (Inl busy)) a
     | (InsertActive, BeginInsert _ _ _ _) \<Rightarrow> aret (Columns (Inl (Custom ''tcp: actor already in INSERT''))) a
     | (InsertActive, ExecuteStream _ _ _ _) \<Rightarrow> aret (Frames [Inl busy]) a
     | (Idle, SendInsertBlock _ _ _) \<Rightarrow> aret (Answer (Inl no_insert)) a
     | (Idle, FinishInsert) \<Rightarrow> aret (Answer (Inl no_insert)) a
     | (Idle, Ping) \<Rightarrow> abind do_ping (\<lambda>r. aret (Answer r)) a
     | (Idle, ExecuteQuery query_id query extra_settings params) \<Rightarrow>
         abind (do_execute_query query_id query extra_settings params) (\<lambda>r.
           aret (case r of None \<Rightarrow> NoAnswer | Some x \<Rightarrow> Answer x)) a
     | (Idle, BeginInsert query_id query extra_settings params) \<Rightarrow>
         abind (do_begin_insert query_id query extra_settings params) (\<lambda>r.
           case r of Inl _ \<Rightarrow> aret (Columns r) | Inr _ \<Rightarrow> abind (set_state InsertActive) (\<lambda>_. aret (Columns r))) a
     | (InsertActive, SendInsertBlock column_bytes num_columns num_rows) \<Rightarrow>
         abind (do_send_insert_block column_bytes num_columns num_rows) (\<lambda>r. aret (Answer r)) a
     | (InsertActive, FinishInsert) \<Rightarrow>
         abind do_finish_insert (\<lambda>r. abind (set_state Idle) (\<lambda>_. aret (Answer r))) a
     | (Idle, ExecuteStream query_id query extra_settings params) \<Rightarrow>
         abind (do_execute_stream query_id query extra_settings params) (\<lambda>fs. aret (Frames fs)) a)"

text \<open>A freshly spawned actor.\<close>

definition spawn_with_config :: "build_version \<Rightarrow> u64 \<Rightarrow> nat option \<Rightarrow> string \<Rightarrow> actor" where
  "spawn_with_config build revision timeout quota =
    \<lparr> ac_state = Idle, ac_poisoned = False, ac_wire = [], ac_revision = revision, ac_read_timeout = timeout,
      ac_quota_key = quota, ac_build = build \<rparr>"

section \<open>The reader sub-task and the command loop\<close>

text \<open>
  The first \<open>n\<close> messages of the reader over the bytes the server sends, and whether it has poisoned the handle.  An actor
  that closes its receiver after \<open>n\<close> messages ends the task silently there.
\<close>

primrec reader_loop :: "nat \<Rightarrow> u64 \<Rightarrow> byte list \<Rightarrow> ReaderMessage list \<times> bool" where
  "reader_loop 0 sr bytes = ([], False)"
| "reader_loop (Suc n) sr bytes =
    (case read_packet sr bytes of
       Inl e \<Rightarrow> ([ReaderError e], True)
     | Inr (pkt, rest) \<Rightarrow> (let (ms, p) = reader_loop n sr rest in (Packet pkt # ms, p)))"

text \<open>
  \<open>run\<close> of worker.rs with the handlers of its worker: commands in turn until the shutdown signal, or until every
  sender is gone, and then the shutdown hook.
\<close>

datatype 'c NextEvent = Command 'c | IdleTick | Shutdown

fun run :: "('c \<Rightarrow> 's \<Rightarrow> 's option) \<Rightarrow> ('s \<Rightarrow> 's option) \<Rightarrow> ('s \<Rightarrow> 's option) \<Rightarrow> 'c NextEvent list \<Rightarrow> 's \<Rightarrow> 's option" where
  "run handler on_idle on_shutdown [] s = on_shutdown s"
| "run handler on_idle on_shutdown (Command c # inputs) s =
    Option.bind (handler c s) (run handler on_idle on_shutdown inputs)"
| "run handler on_idle on_shutdown (IdleTick # inputs) s =
    Option.bind (on_idle s) (run handler on_idle on_shutdown inputs)"
| "run handler on_idle on_shutdown (Shutdown # inputs) s = on_shutdown s"

end
