(* ===== verification/Pool.thy ===== *)
theory Pool
  imports Actor
begin

text \<open>
  Acquiring a connection: the retriability of errors (src/src/error.rs, dynamic/error.rs, tcp/retry.rs), the retry
  loop, and the manager behind the pool (tcp/pool.rs, tcp/connect.rs) with its failover over endpoints and its
  decision to reuse a connection.  Durations are nanoseconds.  The pool itself (deadpool) and the backoff loop
  (backon) are other crates: what they do enters as arguments.
\<close>

section \<open>Retriability\<close>

definition is_retriable_code :: "int \<Rightarrow> bool" where
  "is_retriable_code code \<longleftrightarrow>
    code \<in> {159, 160, 202, 209, 210, 236, 241, 252, 279, 290, 319, 364, 384, 439, 473, 659, 904, 999}"

definition dynamic_is_retriable :: "dynamic_error \<Rightarrow> bool" where
  "dynamic_is_retriable e \<longleftrightarrow> (case e of Transport _ _ \<Rightarrow> True | SchemaFetch _ _ \<Rightarrow> True | DynSchemaMismatch _ _ \<Rightarrow> True
     | EmptySchema _ \<Rightarrow> True | _ \<Rightarrow> False)"

definition is_retriable :: "error \<Rightarrow> bool" where
  "is_retriable e \<longleftrightarrow> (case e of Network _ \<Rightarrow> True | TimedOut \<Rightarrow> True | Transient _ \<Rightarrow> True | Connect _ \<Rightarrow> True
     | ServerException code _ _ _ \<Rightarrow> is_retriable_code code
     | Dynamic d \<Rightarrow> dynamic_is_retriable d
     | _ \<Rightarrow> False)"

definition is_transient_io_kind :: "io_kind \<Rightarrow> bool" where
  "is_transient_io_kind k \<longleftrightarrow> k \<in> {ConnectionRefused, ConnectionReset, ConnectionAborted, NotConnected, BrokenPipe,
     TimedOutKind, Interrupted, UnexpectedEof, AddrNotAvailable, HostUnreachable, NetworkUnreachable, NetworkDown}"

definition is_retriable_transport :: "error \<Rightarrow> bool" where
  "is_retriable_transport e \<longleftrightarrow>
    (if is_retriable e then True else case e of OtherIo k \<Rightarrow> is_transient_io_kind k | _ \<Rightarrow> False)"

text \<open>An error of the pool: its manager's, or one of the pool's own with its text.\<close>

datatype PoolError = Backend error | PoolCondition string

definition map_pool_error :: "PoolError \<Rightarrow> error" where
  "map_pool_error e = (case e of Backend err \<Rightarrow> err | PoolCondition other \<Rightarrow> Transient (''tcp pool: '' @ other))"

section \<open>Retry\<close>

record RetryPolicy =
  rp_max_attempts :: nat
  rp_initial_backoff :: nat
  rp_max_backoff :: nat

definition retry_default :: RetryPolicy where
  "retry_default = \<lparr> rp_max_attempts = 3, rp_initial_backoff = 100 * 10 ^ 6, rp_max_backoff = 2 * 10 ^ 9 \<rparr>"

text \<open>The builder of a backoff schedule, as far as it is set.\<close>

record ExponentialBuilder =
  eb_min_delay :: nat
  eb_max_delay :: nat
  eb_max_times :: nat
  eb_jitter :: bool

definition schedule :: "RetryPolicy \<Rightarrow> ExponentialBuilder" where
  "schedule p = \<lparr> eb_min_delay = rp_initial_backoff p, eb_max_delay = rp_max_backoff p,
    eb_max_times = rp_max_attempts p - 1, eb_jitter = True \<rparr>"

text \<open>
  An operation is its outcome at each attempt; running it gives an outcome and the number of attempts made.  The
  first argument is the library's retry loop: schedule, predicate, operation.
\<close>

type_synonym 'a retry_loop = "ExponentialBuilder \<Rightarrow> (error \<Rightarrow> bool) \<Rightarrow> (nat \<Rightarrow> 'a result) \<Rightarrow> 'a result \<times> nat"

definition retry_with :: "'a retry_loop \<Rightarrow> RetryPolicy option \<Rightarrow> (nat \<Rightarrow> 'a result) \<Rightarrow> 'a result \<times> nat" where
  "retry_with backon retry attempt_once =
    (case retry of
       Some policy \<Rightarrow>
         if rp_max_attempts policy > 1 then backon (schedule policy) is_retriable_transport attempt_once
         else (attempt_once 0, 1)
     | None \<Rightarrow> (attempt_once 0, 1))"

definition run_with_retry ::
    "'a retry_loop \<Rightarrow> (nat \<Rightarrow> PoolError + 'c) \<Rightarrow> RetryPolicy option \<Rightarrow> (nat \<Rightarrow> 'c \<Rightarrow> 'a result) \<Rightarrow> 'a result \<times> nat" where
  "run_with_retry backon acquire retry op =
    retry_with backon retry (\<lambda>i. case acquire i of Inl e \<Rightarrow> Inl (map_pool_error e) | Inr conn \<Rightarrow> op i conn)"

section \<open>Manager\<close>

definition DEFAULT_MAX_SIZE :: nat where "DEFAULT_MAX_SIZE = 8"
definition DEFAULT_ACQUIRE_TIMEOUT :: nat where "DEFAULT_ACQUIRE_TIMEOUT = 30 * 10 ^ 9"
definition DEFAULT_CREATE_TIMEOUT :: nat where "DEFAULT_CREATE_TIMEOUT = 10 * 10 ^ 9"
definition DEFAULT_RECYCLE_TIMEOUT :: nat where "DEFAULT_RECYCLE_TIMEOUT = 5 * 10 ^ 9"
definition MIN_ENDPOINT_SLICE :: nat where "MIN_ENDPOINT_SLICE = 10 ^ 9"

record PoolConfig =
  pc_max_size :: nat
  pc_acquire_timeout :: "nat option"
  pc_create_timeout :: "nat option"
  pc_recycle_timeout :: "nat option"
  pc_max_lifetime :: "nat option"
  pc_read_timeout :: "nat option"

definition pool_default :: PoolConfig where
  "pool_default = \<lparr> pc_max_size = DEFAULT_MAX_SIZE, pc_acquire_timeout = Some DEFAULT_ACQUIRE_TIMEOUT,
    pc_create_timeout = Some DEFAULT_CREATE_TIMEOUT, pc_recycle_timeout = Some DEFAULT_RECYCLE_TIMEOUT,
    pc_max_lifetime = None, pc_read_timeout = None \<rparr>"

text \<open>The trust of a TLS connection is the other library's, of type \<open>'t\<close>.\<close>

datatype ConnectKindConfig = PlainConfig | TlsConfig string

datatype 't ConnectKind = Plain | Tls string 't | TlsFailClosed

datatype 't TcpTls = NotConfigured | Resolved 't | ConfiguredButFailed

record 't TcpConnectionManager =
  tm_endpoints :: "string list"
  tm_next :: u64
  tm_kind :: "'t ConnectKind"
  tm_config :: HandshakeConfig
  tm_max_lifetime :: "nat option"
  tm_read_timeout :: "nat option"
  tm_create_timeout :: "nat option"

text \<open>
  What \<open>build_pool\<close> hands to the pool: the manager, the size and the waits.  An empty endpoint list is the panic of
  the assertion, here None; \<open>default_trust\<close> is the resolution of the default anchors.
\<close>

record 't pool_setup =
  ps_manager :: "'t TcpConnectionManager"
  ps_max_size :: nat
  ps_wait_timeout :: "nat option"
  ps_create_timeout :: "nat option"
  ps_recycle_timeout :: "nat option"

definition build_pool ::
    "'t result \<Rightarrow> string list \<Rightarrow> ConnectKindConfig \<Rightarrow> HandshakeConfig \<Rightarrow> PoolConfig \<Rightarrow> 't TcpTls \<Rightarrow> 't pool_setup result option" where
  "build_pool default_trust endpoints kind config pool_cfg tls =
    (if endpoints = [] then None else Some (
     tri (case kind of
            PlainConfig \<Rightarrow> Inr Plain
          | TlsConfig server_name \<Rightarrow>
              (case tls of
                 Resolved trust \<Rightarrow> Inr (Tls server_name trust)
               | NotConfigured \<Rightarrow> tri default_trust (\<lambda>trust. Inr (Tls server_name trust))
               | ConfiguredButFailed \<Rightarrow> Inr TlsFailClosed)) (\<lambda>kind'.
     Inr \<lparr> ps_manager = \<lparr> tm_endpoints = endpoints, tm_next = 0, tm_kind = kind', tm_config = config,
             tm_max_lifetime = pc_max_lifetime pool_cfg, tm_read_timeout = pc_read_timeout pool_cfg,
             tm_create_timeout = pc_create_timeout pool_cfg \<rparr>,
           ps_max_size = pc_max_size pool_cfg, ps_wait_timeout = pc_acquire_timeout pool_cfg,
           ps_create_timeout = None, ps_recycle_timeout = pc_recycle_timeout pool_cfg \<rparr>)))"

text \<open>Opening a stream: the two ways to connect and the exchange on the stream are arguments.\<close>

definition open_handshaken ::
    "('a \<Rightarrow> 's result) \<Rightarrow> ('a \<Rightarrow> string \<Rightarrow> 't \<Rightarrow> 's result) \<Rightarrow> ('s \<Rightarrow> HandshakeConfig \<Rightarrow> ServerHello result) \<Rightarrow>
     'a \<Rightarrow> 't ConnectKind \<Rightarrow> HandshakeConfig \<Rightarrow> ('s \<times> ServerHello) result" where
  "open_handshaken connect_plain connect_tls exchange addr kind cfg =
    tri (case kind of
           Plain \<Rightarrow> connect_plain addr
         | Tls server_name config \<Rightarrow> connect_tls addr server_name config
         | TlsFailClosed \<Rightarrow> Inl (Custom
             ''tcp: TLS trust was configured but could not be resolved; refusing to connect with default trust''))
      (\<lambda>stream. tri (exchange stream cfg) (\<lambda>hello. Inr (stream, hello)))"

definition connect_endpoint ::
    "(string \<Rightarrow> string + 'a list) \<Rightarrow> (string \<Rightarrow> string) \<Rightarrow>
     ('a \<Rightarrow> 't ConnectKind \<Rightarrow> HandshakeConfig \<Rightarrow> ('s \<times> ServerHello) result) \<Rightarrow> build_version \<Rightarrow>
     't TcpConnectionManager \<Rightarrow> string \<Rightarrow> ('s \<times> actor) result" where
  "connect_endpoint lookup_host quoted open_stream build m endpoint =
    (case lookup_host endpoint of
        Inl e \<Rightarrow> Inl (Connect (''tcp: cannot resolve '' @ quoted endpoint @ '': '' @ e))
      | Inr [] \<Rightarrow> Inl (Connect (''tcp: '' @ quoted endpoint @ '' resolved to no addresses''))
      | Inr (addr # _) \<Rightarrow> tri (open_stream addr (tm_kind m) (tm_config m)) (\<lambda>(stream, hello).
          Inr (stream, spawn_with_config build (sh_revision hello) (tm_read_timeout m) (hc_quota_key (tm_config m)))))"

definition endpoint_slice :: "nat \<Rightarrow> nat \<Rightarrow> nat" where
  "endpoint_slice remaining endpoints_left =
    (let divisor = max endpoints_left 1;
         share = remaining div (if divisor < 2 ^ 32 then divisor else 2 ^ 32 - 1)
     in min (max share MIN_ENDPOINT_SLICE) remaining)"

text \<open>
  An attempt at an endpoint ends after a time with an outcome, or stays silent.  The walk over the endpoints carries
  the time already spent and the last error; it has no value when an attempt without a deadline stays silent.
\<close>

datatype 'h attempt = Answers nat "'h result" | Silent

definition timeout :: "nat \<Rightarrow> error \<Rightarrow> 'h attempt \<Rightarrow> 'h result \<times> nat" where
  "timeout slc late a = (case a of Answers t r \<Rightarrow> if t \<le> slc then (r, t) else (Inl late, slc) | Silent \<Rightarrow> (Inl late, slc))"

fun create_loop ::
    "(string \<Rightarrow> nat \<Rightarrow> string) \<Rightarrow> nat option \<Rightarrow> (string \<Rightarrow> 'h attempt) \<Rightarrow> string list \<Rightarrow> nat \<Rightarrow> error option \<Rightarrow> ('h result \<times> nat) option" where
  "create_loop late_text create_timeout attempt [] elapsed last_err =
    Some (Inl (case last_err of Some e \<Rightarrow> e
      | None \<Rightarrow> Connect ''tcp: create timeout spent before any endpoint was tried''), elapsed)"
| "create_loop late_text create_timeout attempt (endpoint # rest) elapsed last_err =
    (case create_timeout of
       Some budget \<Rightarrow>
         (let remaining = budget - elapsed in
          if remaining = 0 then create_loop late_text create_timeout attempt [] elapsed last_err
          else let slc = endpoint_slice remaining (Suc (length rest)) in
            (case timeout slc (Connect (late_text endpoint slc)) (attempt endpoint) of
               (Inr h, t) \<Rightarrow> Some (Inr h, elapsed + t)
             | (Inl e, t) \<Rightarrow> create_loop late_text create_timeout attempt rest (elapsed + t) (Some e)))
     | None \<Rightarrow>
         (case attempt endpoint of
            Silent \<Rightarrow> None
          | Answers t (Inr h) \<Rightarrow> Some (Inr h, elapsed + t)
          | Answers t (Inl e) \<Rightarrow> create_loop late_text create_timeout attempt rest (elapsed + t) (Some e)))"

definition create ::
    "(string \<Rightarrow> nat \<Rightarrow> string) \<Rightarrow> (string \<Rightarrow> 'h attempt) \<Rightarrow> 't TcpConnectionManager \<Rightarrow> (('h result \<times> nat) option) \<times> 't TcpConnectionManager" where
  "create late_text attempt m =
    (let n = length (tm_endpoints m) in
     if n = 0 then (Some (Inl (Connect ''tcp: no endpoints configured for this pool''), 0), m)
     else let start = unat (tm_next m) mod n in
       (create_loop late_text (tm_create_timeout m) attempt (rotate start (tm_endpoints m)) 0 None,
        m\<lparr> tm_next := tm_next m + 1 \<rparr>))"

definition recycle_refusal :: "nat option \<Rightarrow> nat \<Rightarrow> bool \<Rightarrow> string option" where
  "recycle_refusal max_lifetime created_elapsed is_alive =
    (if (case max_lifetime of None \<Rightarrow> False | Some mx \<Rightarrow> created_elapsed \<ge> mx) then Some ''connection exceeded max_lifetime''
     else if \<not> is_alive then Some ''connection poisoned'' else None)"

section \<open>Failover\<close>

lemma slice_le: "endpoint_slice remaining left \<le> remaining"
  by (simp add: endpoint_slice_def Let_def)

lemma timeout_le: "timeout slc late a = (r, t) \<Longrightarrow> t \<le> slc"
  by (auto simp: timeout_def split: attempt.splits if_splits)

lemma create_loop_bounded:
  "elapsed \<le> budget \<Longrightarrow>
    \<exists>r t. create_loop late_text (Some budget) attempt es elapsed last_err = Some (r, t) \<and> t \<le> budget"
proof (induction es arbitrary: elapsed last_err)
  case (Cons e es)
  let ?slc = "endpoint_slice (budget - elapsed) (Suc (length es))"
  obtain r t where rt: "timeout ?slc (Connect (late_text e ?slc)) (attempt e) = (r, t)" by fastforce
  have "elapsed + t \<le> budget" using timeout_le [OF rt] slice_le [of "budget - elapsed" "Suc (length es)"] Cons.prems by linarith
  then show ?case using Cons.IH [of "elapsed + t"] rt Cons.prems by (cases r) (auto simp: Let_def)
qed simp

text \<open>The share of an endpoint is at least an even part of the whole budget, while the parts are a second or more.\<close>

lemma even_share:
  assumes "budget * Suc left \<le> n * remaining" "Suc left \<le> n" "n < 2 ^ 32" "n * MIN_ENDPOINT_SLICE \<le> budget"
  shows "budget div n \<le> endpoint_slice remaining (Suc left)"
    and "budget * left \<le> n * (remaining - endpoint_slice remaining (Suc left))"
proof -
  let ?q = "remaining div Suc left"
  have n: "0 < n" using assms(2) by simp
  have "budget div n \<le> ?q"
  proof -
    have "n * ((budget div n) * Suc left) \<le> budget * Suc left"
      unfolding mult.assoc [symmetric] by (rule mult_le_mono1) simp
    then have "n * ((budget div n) * Suc left) \<le> n * remaining" using assms(1) by (rule le_trans)
    then have "(budget div n) * Suc left \<le> remaining" using n by (metis mult_le_cancel1)
    then show ?thesis by (simp only: less_eq_div_iff_mult_less_eq [OF zero_less_Suc])
  qed
  moreover have "MIN_ENDPOINT_SLICE \<le> budget div n" using assms(4) n by (simp add: less_eq_div_iff_mult_less_eq mult.commute)
  moreover have "?q \<le> remaining" by simp
  ultimately have slc: "endpoint_slice remaining (Suc left) = ?q"
    using assms(2,3) by (simp add: endpoint_slice_def Let_def max_absorb1 min_absorb1)
  with \<open>budget div n \<le> ?q\<close> show "budget div n \<le> endpoint_slice remaining (Suc left)" by simp
  have "?q * Suc left \<le> remaining" by (rule div_times_less_eq_dividend)
  then have "remaining * left \<le> (remaining - ?q) * Suc left" by (simp add: algebra_simps diff_mult_distrib)
  then have "n * (remaining * left) \<le> n * ((remaining - ?q) * Suc left)" by (rule mult_le_mono2)
  moreover have "budget * Suc left * left \<le> n * remaining * left" using assms(1) by (rule mult_le_mono1)
  ultimately have "(budget * left) * Suc left \<le> (n * (remaining - ?q)) * Suc left"
    by (metis le_trans mult.assoc mult.commute)
  then have "budget * left \<le> n * (remaining - ?q)" by (metis mult_le_cancel2 zero_less_Suc)
  then show "budget * left \<le> n * (remaining - endpoint_slice remaining (Suc left))" by (simp add: slc)
qed

lemma create_loop_live:
  assumes "e \<in> set es" "attempt e = Answers t (Inr h)" "t \<le> budget div n" "n < 2 ^ 32" "n * MIN_ENDPOINT_SLICE \<le> budget" "0 < n"
    and "length es \<le> n" "elapsed \<le> budget" "budget * length es \<le> n * (budget - elapsed)"
  shows "\<exists>g k. create_loop late_text (Some budget) attempt es elapsed last_err = Some (Inr g, k) \<and>
    k \<le> budget \<and> (\<exists>f\<in>set es. \<exists>u. attempt f = Answers u (Inr g))"
  using assms(1,7-9)
proof (induction es arbitrary: elapsed last_err)
  case (Cons f es)
  let ?slc = "endpoint_slice (budget - elapsed) (Suc (length es))"
  have share: "budget div n \<le> ?slc" "budget * length es \<le> n * (budget - elapsed - ?slc)"
    using even_share [OF _ _ assms(4,5), of "length es" "budget - elapsed"] Cons.prems by simp_all
  have "0 < budget" using assms(5,6) by (auto simp: MIN_ENDPOINT_SLICE_def)
  then have left: "budget - elapsed \<noteq> 0" using Cons.prems(4) assms(6) by (auto simp: mult_eq_0_iff)
  obtain r u where ru: "timeout ?slc (Connect (late_text f ?slc)) (attempt f) = (r, u)" by fastforce
  have u: "u \<le> ?slc" "elapsed + u \<le> budget"
    using timeout_le [OF ru] slice_le [of "budget - elapsed" "Suc (length es)"] Cons.prems by linarith+
  show ?case
  proof (cases r)
    case (Inr g)
    then have "\<exists>u. attempt f = Answers u (Inr g)" using ru by (auto simp: timeout_def split: attempt.splits if_splits)
    then show ?thesis using ru Inr left u by (auto simp: Let_def)
  next
    case (Inl err)
    then have "f \<noteq> e" using ru assms(2,3) share(1) by (auto simp: timeout_def split: if_splits)
    then have "e \<in> set es" using Cons.prems(1) by simp
    have "n * (budget - elapsed - ?slc) \<le> n * (budget - (elapsed + u))"
      by (rule mult_le_mono2) (use u(1) in linarith)
    then have "budget * length es \<le> n * (budget - (elapsed + u))" using share(2) by (rule order_trans [rotated])
    from Cons.IH [OF \<open>e \<in> set es\<close> _ u(2) this, of "Some err"] Cons.prems(2) obtain g k where
      "create_loop late_text (Some budget) attempt es (elapsed + u) (Some err) = Some (Inr g, k)" "k \<le> budget"
      "\<exists>f\<in>set es. \<exists>u. attempt f = Answers u (Inr g)" by auto
    then show ?thesis using ru Inl left by (auto simp: Let_def)
  qed
qed simp

text \<open>
  C20: a dead or silent endpoint costs time, never the connection.  Opening a connection always ends within the create
  budget, whatever the endpoints do.  With a budget of at least a second for each of them, if any endpoint connects
  within an even share of the budget then a connection is opened, wherever in the list that endpoint stands and
  whichever one the walk starts from; and the next call starts one endpoint further on.
\<close>

theorem failover_finds_live_endpoint:
  assumes "tm_create_timeout m = Some budget" "tm_endpoints m \<noteq> []"
  shows "(\<exists>r k. fst (create late_text attempt m) = Some (r, k) \<and> k \<le> budget) \<and>
    snd (create late_text attempt m) = m\<lparr> tm_next := tm_next m + 1 \<rparr> \<and>
    (length (tm_endpoints m) < 2 ^ 32 \<and> length (tm_endpoints m) * MIN_ENDPOINT_SLICE \<le> budget \<and>
      (\<exists>e\<in>set (tm_endpoints m). \<exists>t h. attempt e = Answers t (Inr h) \<and> t \<le> budget div length (tm_endpoints m)) \<longrightarrow>
     (\<exists>g k. fst (create late_text attempt m) = Some (Inr g, k) \<and>
       (\<exists>f\<in>set (tm_endpoints m). \<exists>u. attempt f = Answers u (Inr g))))"
proof -
  let ?n = "length (tm_endpoints m)" and ?es = "rotate (unat (tm_next m) mod length (tm_endpoints m)) (tm_endpoints m)"
  have c: "create late_text attempt m = (create_loop late_text (Some budget) attempt ?es 0 None, m\<lparr> tm_next := tm_next m + 1 \<rparr>)"
    using assms by (simp add: create_def Let_def)
  have "\<exists>g k. create_loop late_text (Some budget) attempt ?es 0 None = Some (Inr g, k) \<and> k \<le> budget \<and>
      (\<exists>f\<in>set ?es. \<exists>u. attempt f = Answers u (Inr g))"
    if "?n < 2 ^ 32" "?n * MIN_ENDPOINT_SLICE \<le> budget" "e \<in> set (tm_endpoints m)" "attempt e = Answers t (Inr h)" "t \<le> budget div ?n"
    for e t h
    using that assms(2) by (intro create_loop_live [of e ?es attempt t h budget ?n]) (simp_all add: mult.commute)
  then show ?thesis unfolding c using create_loop_bounded [of 0 budget late_text attempt ?es None] by fastforce
qed

definition two_hosts :: "string TcpConnectionManager" where
  "two_hosts = \<lparr> tm_endpoints = [''a:9000'', ''b:9000''], tm_next = 0, tm_kind = Plain, tm_config = handshake_default,
    tm_max_lifetime = None, tm_read_timeout = None, tm_create_timeout = Some DEFAULT_CREATE_TIMEOUT \<rparr>"

definition second_answers :: "string \<Rightarrow> nat attempt" where
  "second_answers e = (if e = ''b:9000'' then Answers 1000000 (Inr 7) else Silent)"

theorem failover_finds_live_endpoint_witness:
  "(\<exists>r k. fst (create (\<lambda>e s. e) second_answers two_hosts) = Some (r, k) \<and> k \<le> DEFAULT_CREATE_TIMEOUT) \<and>
   snd (create (\<lambda>e s. e) second_answers two_hosts) = two_hosts\<lparr> tm_next := tm_next two_hosts + 1 \<rparr> \<and>
   (\<exists>g k. fst (create (\<lambda>e s. e) second_answers two_hosts) = Some (Inr g, k) \<and>
     (\<exists>f\<in>set (tm_endpoints two_hosts). \<exists>u. second_answers f = Answers u (Inr g)))"
proof -
  have "tm_create_timeout two_hosts = Some DEFAULT_CREATE_TIMEOUT" "tm_endpoints two_hosts \<noteq> []" by (simp_all add: two_hosts_def)
  note found = failover_finds_live_endpoint [OF this, of "\<lambda>e s. e" second_answers]
  have n: "length (tm_endpoints two_hosts) = 2" by (simp add: two_hosts_def)
  have "''b:9000'' \<in> set (tm_endpoints two_hosts)" "second_answers ''b:9000'' = Answers 1000000 (Inr 7)"
    "1000000 \<le> DEFAULT_CREATE_TIMEOUT div length (tm_endpoints two_hosts)"
    unfolding n by (simp_all add: two_hosts_def second_answers_def DEFAULT_CREATE_TIMEOUT_def)
  then have "\<exists>e\<in>set (tm_endpoints two_hosts). \<exists>t h. second_answers e = Answers t (Inr h) \<and>
      t \<le> DEFAULT_CREATE_TIMEOUT div length (tm_endpoints two_hosts)" by blast
  moreover have "length (tm_endpoints two_hosts) < 2 ^ 32" "length (tm_endpoints two_hosts) * MIN_ENDPOINT_SLICE \<le> DEFAULT_CREATE_TIMEOUT"
    unfolding n by (simp_all add: MIN_ENDPOINT_SLICE_def DEFAULT_CREATE_TIMEOUT_def)
  ultimately show ?thesis using found by blast
qed

section \<open>Trust\<close>

text \<open>
  C35: a connection is never opened with less trust than was asked for.  A pool asked for TLS is set up for TLS with
  the trust that was given, the default trust when none was, or refuses every connection when the given trust could
  not be resolved: whatever the ways to connect would do, no attempt of such a pool reaches them, and no TLS pool
  connects in plain text.
\<close>

theorem tls_fails_closed:
  assumes "build_pool default_trust endpoints (TlsConfig server_name) config pool_cfg tls = Some (Inr built)"
  shows "(tls = ConfiguredButFailed \<longrightarrow>
      (\<exists>e. open_handshaken connect_plain connect_tls exchange addr (tm_kind (ps_manager built)) cfg = Inl e)) \<and>
    (tls = Resolved trust \<longrightarrow> tm_kind (ps_manager built) = Tls server_name trust) \<and>
    (tls = NotConfigured \<longrightarrow> (\<exists>trust. default_trust = Inr trust \<and> tm_kind (ps_manager built) = Tls server_name trust)) \<and>
    open_handshaken connect_plain connect_tls exchange addr (tm_kind (ps_manager built)) cfg =
      open_handshaken other_plain connect_tls exchange addr (tm_kind (ps_manager built)) cfg"
  using assms by (cases tls; cases default_trust) (auto simp: build_pool_def open_handshaken_def split: if_splits)

theorem tls_fails_closed_witness:
  "(\<exists>built e. build_pool (Inr (0 :: nat)) [''a:9440''] (TlsConfig ''a'') handshake_default pool_default ConfiguredButFailed =
      Some (Inr built) \<and>
    open_handshaken (\<lambda>addr. Inr ''plain'') (\<lambda>addr name trust. Inr ''tls'') (\<lambda>s c. Inl TimedOut) (1 :: nat)
      (tm_kind (ps_manager built)) handshake_default = Inl e)"
proof -
  obtain built where b: "build_pool (Inr (0 :: nat)) [''a:9440''] (TlsConfig ''a'') handshake_default pool_default ConfiguredButFailed =
      Some (Inr built)" by (simp add: build_pool_def)
  from tls_fails_closed [OF b, of "\<lambda>addr. Inr ''plain''" "\<lambda>addr name trust. Inr ''tls''" "\<lambda>s c. Inl TimedOut" "1 :: nat" handshake_default]
  show ?thesis using b by blast
qed

section \<open>Attempts\<close>

text \<open>
  What the documentation of the retry loop promises: it calls the operation, and again while the last outcome is an
  error the predicate holds of and fewer than the scheduled number of retries have been made.
\<close>

definition retries_as_documented :: "'a retry_loop \<Rightarrow> bool" where
  "retries_as_documented backon \<longleftrightarrow> (\<forall>b again attempt. \<exists>k. backon b again attempt = (attempt k, Suc k) \<and> k \<le> eb_max_times b \<and>
    (\<forall>i<k. \<exists>e. attempt i = Inl e \<and> again e) \<and>
    (k = eb_max_times b \<or> (\<forall>e. attempt k = Inl e \<longrightarrow> \<not> again e)))"

lemma retries_outcome:
  assumes "retries_as_documented backon"
    and that: "outcome = (\<lambda>i. case acquire i of Inl e \<Rightarrow> Inl (map_pool_error e) | Inr conn \<Rightarrow> op i conn)"
  shows "\<exists>k. run_with_retry backon acquire retry op = (outcome k, Suc k) \<and>
    Suc k \<le> (case retry of None \<Rightarrow> 1 | Some p \<Rightarrow> max 1 (rp_max_attempts p)) \<and>
    (\<forall>i<k. \<exists>e. outcome i = Inl e \<and> is_retriable_transport e) \<and>
    (Suc k < (case retry of None \<Rightarrow> 1 | Some p \<Rightarrow> max 1 (rp_max_attempts p)) \<longrightarrow>
      (\<exists>x. outcome k = Inr x) \<or> (\<exists>e. outcome k = Inl e \<and> \<not> is_retriable_transport e))"
proof (cases "\<exists>p. retry = Some p \<and> 1 < rp_max_attempts p")
  case True
  then obtain p where p: "retry = Some p" "1 < rp_max_attempts p" by blast
  from assms(1) obtain k where "backon (schedule p) is_retriable_transport outcome = (outcome k, Suc k)"
    "k \<le> rp_max_attempts p - 1" "\<forall>i<k. \<exists>e. outcome i = Inl e \<and> is_retriable_transport e"
    "k = rp_max_attempts p - 1 \<or> (\<forall>e. outcome k = Inl e \<longrightarrow> \<not> is_retriable_transport e)"
    unfolding retries_as_documented_def schedule_def by (metis ExponentialBuilder.select_convs(3))
  then show ?thesis using p unfolding run_with_retry_def retry_with_def that [symmetric]
    by (intro exI [of _ k]) (cases "outcome k"; auto)
next
  case False
  then have "run_with_retry backon acquire retry op = (outcome 0, 1)"
    unfolding run_with_retry_def retry_with_def that [symmetric] by (cases retry) auto
  then show ?thesis using False by (intro exI [of _ 0]) (cases retry; auto)
qed

text \<open>
  An operation is repeated only where that may help.  At most as many attempts are made as the policy allows, one
  when there is none; every attempt but the last failed in a way a fresh connection may mend; the outcome is that of
  the last attempt, unchanged; and the attempts stop early only at a success or at an error that a repetition would
  not mend.  A failure to acquire a connection counts like a failure of the operation.
\<close>

theorem retries_bounded:
  assumes "retries_as_documented backon"
    and that: "outcome = (\<lambda>i. case acquire i of Inl e \<Rightarrow> Inl (map_pool_error e) | Inr conn \<Rightarrow> op i conn)"
  shows "\<exists>k. run_with_retry backon acquire retry op = (outcome k, Suc k) \<and>
    Suc k \<le> (case retry of None \<Rightarrow> 1 | Some p \<Rightarrow> max 1 (rp_max_attempts p)) \<and>
    (\<forall>i<k. \<exists>e. outcome i = Inl e \<and> is_retriable_transport e) \<and>
    (Suc k < (case retry of None \<Rightarrow> 1 | Some p \<Rightarrow> max 1 (rp_max_attempts p)) \<longrightarrow>
      (\<exists>x. outcome k = Inr x) \<or> (\<exists>e. outcome k = Inl e \<and> \<not> is_retriable_transport e))"
  using assms by (rule retries_outcome)

text \<open>The documented loop, spelled out.\<close>

fun retry_from :: "nat \<Rightarrow> (error \<Rightarrow> bool) \<Rightarrow> (nat \<Rightarrow> 'a result) \<Rightarrow> nat \<Rightarrow> 'a result \<times> nat" where
  "retry_from 0 again attempt i = (attempt i, Suc i)"
| "retry_from (Suc n) again attempt i =
    (case attempt i of Inl e \<Rightarrow> if again e then retry_from n again attempt (Suc i) else (Inl e, Suc i) | Inr x \<Rightarrow> (Inr x, Suc i))"

lemma retry_from_documented:
  "\<exists>k. retry_from n again attempt i = (attempt k, Suc k) \<and> i \<le> k \<and> k \<le> i + n \<and>
    (\<forall>j. i \<le> j \<and> j < k \<longrightarrow> (\<exists>e. attempt j = Inl e \<and> again e)) \<and>
    (k = i + n \<or> (\<forall>e. attempt k = Inl e \<longrightarrow> \<not> again e))"
proof (induction n arbitrary: i)
  case (Suc n)
  show ?case
  proof (cases "\<exists>e. attempt i = Inl e \<and> again e")
    case True
    from Suc [of "Suc i"] obtain k where k: "retry_from n again attempt (Suc i) = (attempt k, Suc k)" "Suc i \<le> k" "k \<le> Suc i + n"
      "\<forall>j. Suc i \<le> j \<and> j < k \<longrightarrow> (\<exists>e. attempt j = Inl e \<and> again e)" "k = Suc i + n \<or> (\<forall>e. attempt k = Inl e \<longrightarrow> \<not> again e)" by auto
    have "\<exists>e. attempt j = Inl e \<and> again e" if "i \<le> j \<and> j < k" for j using that k(4) True by (cases "j = i") auto
    moreover have "retry_from (Suc n) again attempt i = (attempt k, Suc k)" using True k(1) by auto
    ultimately show ?thesis using k(2,3,5) by (intro exI [of _ k]) auto
  next
    case False
    then show ?thesis by (intro exI [of _ i]) (auto split: sum.splits)
  qed
qed auto

definition documented_backon :: "'a retry_loop" where
  "documented_backon b again attempt = retry_from (eb_max_times b) again attempt 0"

lemma documented_backon_ok: "retries_as_documented documented_backon"
  unfolding retries_as_documented_def documented_backon_def using retry_from_documented [where i = 0] by (metis add_0 le0)

definition flaky :: "nat \<Rightarrow> nat \<Rightarrow> nat result" where
  "flaky i conn = (if i < 2 then Inl TimedOut else Inr conn)"

theorem retries_bounded_witness:
  "\<exists>k. run_with_retry documented_backon (\<lambda>i. Inr 7) (Some retry_default) flaky = (flaky k 7, Suc k) \<and> Suc k \<le> 3"
  using retries_bounded [OF documented_backon_ok refl, where acquire = "\<lambda>i. Inr 7" and op = flaky and retry = "Some retry_default"]
  by (simp add: retry_default_def) blast

end
