(* ===== verification/Exceptions.thy ===== *)
theory Exceptions
  imports DynEncode TypeNames Pool
begin

text \<open>
  Server exceptions as text, src/src/ext.rs: the parser that reads the code, the name, the message and the stack trace
  back out of the body of a rejected HTTP request.
\<close>

record parsed_exception =
  px_code :: int
  px_name :: "string option"
  px_message :: string
  px_stack_trace :: "string option"

text \<open>The searches of the standard library's string type.\<close>

definition find_sub :: "string \<Rightarrow> string \<Rightarrow> nat option" where
  "find_sub pat s = find (\<lambda>i. prefix pat (drop i s)) [0..<Suc (length s)]"

definition rfind_sub :: "string \<Rightarrow> string \<Rightarrow> nat option" where
  "rfind_sub pat s = find (\<lambda>i. prefix pat (drop i s)) (rev [0..<Suc (length s)])"

definition contains :: "string \<Rightarrow> string \<Rightarrow> bool" where
  "contains pat s \<longleftrightarrow> find_sub pat s \<noteq> None"

definition trim_end_matches :: "string \<Rightarrow> string \<Rightarrow> string" where
  "trim_end_matches cs s = rev (dropWhile (\<lambda>c. c \<in> set cs) (rev s))"

definition shouty :: "string \<Rightarrow> bool" where
  "shouty s \<longleftrightarrow> list_all (\<lambda>c. 65 \<le> (of_char c :: nat) \<and> (of_char c :: nat) \<le> 90 \<or> 48 \<le> (of_char c :: nat) \<and> (of_char c :: nat) \<le> 57 \<or>
    c = CHR ''_'') s"

text \<open>The body after its code: marker, version, name tag and stack trace are cut off in this order.\<close>

definition after_marker :: "string \<Rightarrow> string" where
  "after_marker body = (case find_sub ''Exception: '' body of Some i \<Rightarrow> trim (drop (i + 11) body) | None \<Rightarrow> trim body)"

definition without_version :: "string \<Rightarrow> string" where
  "without_version s = (case rfind_sub ''(version '' s of Some i \<Rightarrow> trim_end_matches '' .,'' (take i s) | None \<Rightarrow> s)"

definition split_name :: "string \<Rightarrow> string \<times> string option" where
  "split_name s =
    (case Option.bind (strip_suffix '')'' s) (rfind_sub ''('') of
       Some k \<Rightarrow>
         (let candidate = take (length s - 1 - (k + 1)) (drop (k + 1) s)
          in if candidate \<noteq> [] \<and> shouty candidate then (trim_end_matches '': .,'' (take k s), Some candidate) else (s, None))
     | None \<Rightarrow> (s, None))"

definition split_trace :: "string \<Rightarrow> string \<times> string option" where
  "split_trace s =
    (case find_sub ''Stack trace:'' s of
       Some i \<Rightarrow> (trim_end (take i s), Some (trim (drop (i + 12) s)))
     | None \<Rightarrow> (trim s, None))"

definition parse_exception :: "string \<Rightarrow> parsed_exception option" where
  "parse_exception body =
    (case parse_i32 (trim body) of
       Some code \<Rightarrow> Some \<lparr> px_code = code, px_name = None, px_message = [], px_stack_trace = None \<rparr>
     | None \<Rightarrow>
         Option.bind (strip_prefix ''Code: '' body) (\<lambda>r.
         Option.bind (case split_first (CHR ''.'') r of (c, Some _) \<Rightarrow> Some (trim c) | _ \<Rightarrow> None) (\<lambda>c.
         Option.bind (parse_i32 c) (\<lambda>code.
           let (without_name, name) = split_name (without_version (after_marker body));
               (message, stack_trace) = split_trace without_name
           in if message = [] then None
              else Some \<lparr> px_code = code, px_name = name, px_message = message, px_stack_trace = stack_trace \<rparr>))))"

definition exception_is_retriable :: "parsed_exception \<Rightarrow> bool" where
  "exception_is_retriable x \<longleftrightarrow> is_retriable_code (px_code x)"

section \<open>Searching\<close>

lemma find_sub_eq:
  assumes "i \<le> length s" "prefix pat (drop i s)" "\<And>j. j < i \<Longrightarrow> \<not> prefix pat (drop j s)"
  shows "find_sub pat s = Some i"
  unfolding find_sub_def find_Some_iff using assms
  by (intro exI [of _ i]) (auto simp del: upt_Suc simp: nth_upt)

lemma find_sub_none: "(\<And>j. j \<le> length s \<Longrightarrow> \<not> prefix pat (drop j s)) \<Longrightarrow> find_sub pat s = None"
  unfolding find_sub_def find_None_iff by (auto simp del: upt_Suc)

lemma rfind_sub_eq:
  assumes "i \<le> length s" "prefix pat (drop i s)" "\<And>j. i < j \<Longrightarrow> j \<le> length s \<Longrightarrow> \<not> prefix pat (drop j s)"
  shows "rfind_sub pat s = Some i"
  unfolding rfind_sub_def find_Some_iff using assms
  by (intro exI [of _ "length s - i"]) (auto simp del: upt_Suc simp: rev_nth nth_upt)

lemma no_head: "c \<notin> set s \<Longrightarrow> \<not> prefix (c # pat) (drop j s)"
  by (metis in_set_dropD list.set_intros(1) prefix_imp_subseq set_mono_prefix subsetD)

text \<open>A pattern that begins with a character its text does not hold is found where it is put.\<close>

lemma find_marker:
  assumes "hd pat \<notin> set u" "pat \<noteq> []"
  shows "find_sub pat (u @ pat @ v) = Some (length u)"
proof (rule find_sub_eq)
  fix j assume "j < length u"
  then have "hd (drop j (u @ pat @ v)) \<in> set u" by (simp add: hd_append hd_drop_conv_nth)
  then show "\<not> prefix pat (drop j (u @ pat @ v))" using assms by (metis hd_append2 prefixE)
qed simp_all

lemma rfind_paren:
  assumes "CHR ''('' \<notin> set v"
  shows "rfind_sub ''('' (u @ CHR ''('' # v) = Some (length u)"
proof (rule rfind_sub_eq)
  fix j assume j: "length u < j" "j \<le> length (u @ CHR ''('' # v)"
  then have "drop j (u @ CHR ''('' # v) = drop (j - length u - 1) v" by (cases "j - length u") (auto simp: drop_Cons')
  then show "\<not> prefix ''('' (drop j (u @ CHR ''('' # v))" using no_head [OF assms] by simp
qed simp_all

lemma take_length_append: "take (length u) (u @ v) = u"
  by simp

lemma trim_end_matches_keep:
  assumes "s \<noteq> []" "last s \<notin> set cs" "\<forall>c\<in>set t. c \<in> set cs"
  shows "trim_end_matches cs (s @ t) = s"
proof -
  have "dropWhile (\<lambda>c. c \<in> set cs) (rev (s @ t)) = dropWhile (\<lambda>c. c \<in> set cs) (rev s)"
    unfolding rev_append using assms(3) by (intro dropWhile_append2) simp
  also have "\<dots> = rev s" using assms(1,2) by (cases "rev s") (auto simp: last_rev [symmetric])
  finally show ?thesis by (simp add: trim_end_matches_def)
qed

lemma rfind_version:
  assumes "\<not> contains ''(version '' v"
  shows "rfind_sub ''(version '' (u @ ''(version '' @ v) = Some (length u)"
proof (rule rfind_sub_eq)
  fix j assume j: "length u < j" "j \<le> length (u @ ''(version '' @ v)"
  define k where "k = j - length u - 1"
  have "drop j (u @ ''(version '' @ v) = drop k (''version '' @ v)" using j by (simp add: k_def drop_Cons')
  moreover have "\<not> prefix ''(version '' (drop k (''version '' @ v))"
  proof (cases "k < 8")
    case True
    then have "k \<in> {0, 1, 2, 3, 4, 5, 6, 7}" by auto
    then show ?thesis by auto
  next
    case False
    have "find_sub ''(version '' v = None" using assms by (simp add: contains_def)
    then have "\<not> prefix ''(version '' (drop i v)" if "i \<le> length v" for i
      using that unfolding find_sub_def find_None_iff by (auto simp del: upt_Suc)
    moreover have "drop k (''version '' @ v) = drop (k - 8) v"
      using False drop_append [of k "''version ''" v] by (simp add: eval_nat_numeral)
    moreover have "k - 8 \<le> length v" using j by (simp add: k_def)
    ultimately show ?thesis by simp
  qed
  ultimately show "\<not> prefix ''(version '' (drop j (u @ ''(version '' @ v))" by simp
qed simp_all

section \<open>Reading an exception back\<close>

text \<open>The text a server sends for an exception.\<close>

definition exception_body :: "int \<Rightarrow> string \<Rightarrow> string \<Rightarrow> string \<Rightarrow> string \<Rightarrow> string \<Rightarrow> string" where
  "exception_body code kind msg punct name version =
    ''Code: '' @ show_int code @ ''. DB::'' @ kind @ ''Exception: '' @ msg @ punct @ '' ('' @ name @ '') (version '' @ version @ '')''"

lemma show_int_chars: "c \<in> set (show_int i) \<Longrightarrow> c = CHR ''-'' \<or> (\<exists>d<10. c = digit_char d)"
  by (auto simp: show_int_def dest: show_nat_digits split: if_splits)

lemma digit_char_not: "d < 10 \<Longrightarrow> digit_char d \<noteq> CHR ''.'' \<and> digit_char d \<noteq> CHR ''E'' \<and> digit_char d \<noteq> CHR ''-''"
  using of_char_digit_char [of d] by auto

lemma show_int_not: "CHR ''.'' \<notin> set (show_int i)" "CHR ''E'' \<notin> set (show_int i)"
  using show_int_chars [of _ i] digit_char_not by fastforce+

lemma parse_i32_show_int:
  assumes "- (2 ^ 31) \<le> i" "i < 2 ^ 31"
  shows "parse_i32 (trim (show_int i)) = Some i"
proof -
  have head: "show_nat n \<noteq> [] \<and> hd (show_nat n) \<noteq> CHR ''-'' \<and> hd (show_nat n) \<noteq> CHR ''+''" for n
    using show_nat_digits [OF hd_in_set [OF show_nat_nonempty]] digit_char_not digit_char_neq(1) by (metis show_nat_nonempty)
  have nat: "split_sign (show_nat n) = (False, show_nat n)" for n
    using head [of n] by (cases "show_nat n") (auto simp: split_sign_def)
  have "trim (show_int i) = show_int i"
  proof (rule trim_visible)
    have "visible c" if "c \<in> set (show_int i)" for c
      using show_int_chars [OF that] digit_visible by (auto simp: visible_def)
    moreover show n: "show_int i \<noteq> []" by (simp add: show_int_def)
    ultimately show "visible (hd (show_int i))" "visible (last (show_int i))" by simp_all
  qed
  moreover have "split_sign (CHR ''-'' # ds) = (True, ds)" for ds by (simp add: split_sign_def)
  ultimately show ?thesis using assms
    by (auto simp: show_int_def parse_signed_def nat digits_val_show_nat)
qed

lemma split_first_at: "c \<notin> set u \<Longrightarrow> split_first c (u @ c # v) = (u, Some v)"
  by (induction u) auto

lemma marker_cut:
  assumes "CHR ''E'' \<notin> set kind" "tail \<noteq> []" "visible (hd tail)" "visible (last tail)"
  shows "after_marker ((''Code: '' @ show_int code @ ''. DB::'' @ kind) @ ''Exception: '' @ tail) = tail"
proof -
  define u where "u = ''Code: '' @ show_int code @ ''. DB::'' @ kind"
  have "find_sub ''Exception: '' (u @ ''Exception: '' @ tail) = Some (length u)"
    by (rule find_marker) (simp_all add: u_def show_int_not assms(1))
  moreover have "drop (length u + 11) (u @ ''Exception: '' @ tail) = tail" by simp
  moreover have "trim tail = tail" using assms(2-4) by (rule trim_visible)
  ultimately show ?thesis by (simp only: after_marker_def option.case u_def [symmetric])
qed

lemma version_cut:
  assumes "\<not> contains ''(version '' (version @ '')'')" "s \<noteq> []" "last s \<notin> set '' .,''"
  shows "without_version (s @ '' (version '' @ version @ '')'') = s"
proof -
  have "rfind_sub ''(version '' ((s @ '' '') @ ''(version '' @ version @ '')'') = Some (length (s @ '' ''))"
    by (rule rfind_version [OF assms(1)])
  moreover have "trim_end_matches '' .,'' (s @ '' '') = s" by (rule trim_end_matches_keep) (use assms in simp_all)
  ultimately show ?thesis by (simp add: without_version_def)
qed

lemma name_cut:
  assumes "shouty name" "name \<noteq> []" "msg \<noteq> []" "visible (last msg)" "last msg \<notin> set '':.,''" "\<forall>c\<in>set punct. c \<in> set '':.,''"
  shows "split_name (msg @ punct @ '' ('' @ name @ '')'') = (msg, Some name)"
proof -
  have "CHR ''('' \<notin> set name" using assms(1) by (auto simp: shouty_def list_all_iff)
  then have "rfind_sub ''('' ((msg @ punct @ '' '') @ CHR ''('' # name) = Some (length (msg @ punct @ '' ''))" by (rule rfind_paren)
  moreover have "strip_suffix '')'' (msg @ punct @ '' ('' @ name @ '')'') = Some (msg @ punct @ '' ('' @ name)"
    by (simp add: strip_suffix_def suffix_def)
  moreover have "trim_end_matches '': .,'' (msg @ punct @ '' '') = msg"
  proof (rule trim_end_matches_keep [OF assms(3)])
    have "\<not> visible (CHR '' '')" by (simp add: visible_def)
    then have "last msg \<noteq> CHR '' ''" using assms(4) by metis
    then show "last msg \<notin> set '': .,''" using assms(5) by simp
    show "\<forall>c\<in>set (punct @ '' ''). c \<in> set '': .,''" using assms(6) by auto
  qed
  ultimately show ?thesis using assms(1,2) by (simp add: split_name_def)
qed

lemma parse_exception_body:
  assumes "- (2 ^ 31) \<le> code" "code < 2 ^ 31" "CHR ''E'' \<notin> set kind" "name \<noteq> []" "shouty name"
    and "msg \<noteq> []" "visible (hd msg)" "visible (last msg)" "last msg \<notin> set '':.,''" "\<forall>c\<in>set punct. c \<in> set '':.,''"
    and "\<not> contains ''Stack trace:'' msg" "\<not> contains ''(version '' (version @ '')'')"
  shows "parse_exception (exception_body code kind msg punct name version) =
    Some \<lparr> px_code = code, px_name = Some name, px_message = msg, px_stack_trace = None \<rparr>"
proof -
  let ?tail = "msg @ punct @ '' ('' @ name @ '') (version '' @ version @ '')''"
  let ?body = "exception_body code kind msg punct name version"
  have "trim ?body = ?body" by (rule trim_visible) (simp_all add: exception_body_def visible_def)
  moreover have "parse_i32 ?body = None" by (simp add: exception_body_def parse_signed_def split_sign_def digit_val_def)
  moreover have "after_marker ?body = ?tail"
    using marker_cut [OF assms(3), of ?tail code] assms(6,7) by (simp add: exception_body_def visible_def)
  moreover have "without_version ?tail = msg @ punct @ '' ('' @ name @ '')''"
    using version_cut [OF assms(12), of "msg @ punct @ '' ('' @ name @ '')''"] by simp
  moreover have "split_name (msg @ punct @ '' ('' @ name @ '')'') = (msg, Some name)"
    by (rule name_cut [OF assms(5,4,6,8-10)])
  moreover have "split_trace msg = (msg, None)"
    using assms(6-8,11) trim_visible [of msg] by (simp add: split_trace_def contains_def)
  moreover obtain r where "strip_prefix ''Code: '' ?body = Some (show_int code @ CHR ''.'' # r)"
    by (simp add: exception_body_def strip_prefix_def)
  ultimately show ?thesis using assms(6) parse_i32_show_int [OF assms(1,2)]
    by (simp add: parse_exception_def split_first_at show_int_not)
qed

text \<open>
  An exception's text is read back.  A body of the form the server writes, of whatever exception class, gives the
  code, the name tag and the message without the marker, the version and the punctuation before the tag, for every
  code of 32 bits.
\<close>

theorem exception_body_parses:
  assumes "- (2 ^ 31) \<le> code" "code < 2 ^ 31" "CHR ''E'' \<notin> set kind" "name \<noteq> []" "shouty name"
    and "msg \<noteq> []" "visible (hd msg)" "visible (last msg)" "last msg \<notin> set '':.,''" "\<forall>c\<in>set punct. c \<in> set '':.,''"
    and "\<not> contains ''Stack trace:'' msg" "\<not> contains ''(version '' (version @ '')'')"
  shows "parse_exception (exception_body code kind msg punct name version) =
    Some \<lparr> px_code = code, px_name = Some name, px_message = msg, px_stack_trace = None \<rparr>"
  using assms by (rule parse_exception_body)

theorem exception_body_parses_witness:
  "parse_exception (exception_body 469 [] ''Constraint violated'' ''.'' ''VIOLATED_CONSTRAINT'' ''26.2.4.23 (official build)'') =
    Some \<lparr> px_code = 469, px_name = Some ''VIOLATED_CONSTRAINT'', px_message = ''Constraint violated'', px_stack_trace = None \<rparr>"
  by (rule exception_body_parses)
     (simp_all add: shouty_def visible_def contains_def find_sub_def upt_rec)

end
