(* ===== verification/ActorInvariant.thy ===== *)
theory ActorInvariant
  imports Actor
begin

text \<open>
  What every run of the connection actor keeps: the bytes handed to the writer are the whole packets of the commands
  handled, in the order the protocol allows, and a write that breaks off in the middle is the last thing ever handed
  over.
\<close>

section \<open>Invariants of runs\<close>

text \<open>A property that every step keeps holds along every run.\<close>

locale kept_by =
  fixes step :: "'s \<Rightarrow> 's \<Rightarrow> bool"
    and inv :: "'s \<Rightarrow> bool"
  assumes step_keeps: "inv s \<Longrightarrow> step s t \<Longrightarrow> inv t"
begin

lemma run_keeps: "step\<^sup>*\<^sup>* s t \<Longrightarrow> inv s \<Longrightarrow> inv t"
  by (induction rule: rtranclp_induct) (auto intro: step_keeps)

lemma run_prefix_keeps:
  assumes "step\<^sup>*\<^sup>* s u" "step\<^sup>*\<^sup>* u t" "inv s"
  shows "inv u \<and> inv t"
  using run_keeps [OF assms(1,3)] run_keeps [OF assms(2)] by blast

end

text \<open>
  The connection as a transition system: a command is handled, whatever the environment does meanwhile, or somebody
  else (the reader sub-task, a holder of the handle) sets the poison flag.
\<close>

definition actor_step :: "actor \<Rightarrow> actor \<Rightarrow> bool" where
  "actor_step a a' \<longleftrightarrow>
    (\<exists>cmd es r es'. handle cmd a es = Some (r, a', es')) \<or> a' = a\<lparr> ac_poisoned := True \<rparr>"

section \<open>What a handler does to the actor\<close>

lemma abind_eq_Some:
  "abind m f a es = Some r \<longleftrightarrow> (\<exists>x a' es'. m a es = Some (x, a', es') \<and> f x a' es' = Some r)"
  by (auto simp: abind_def split: option.splits)

lemma aret_eq_Some: "aret x a es = Some r \<longleftrightarrow> r = (x, a, es)"
  by (auto simp: aret_def)

lemma poisoned_with_eq_Some: "poisoned_with e a es = Some r \<longleftrightarrow> r = (Inl e, a\<lparr> ac_poisoned := True \<rparr>, es)"
  by (auto simp: poisoned_with_def abind_eq_Some poison_def aret_def)

lemmas act_eqs = abind_eq_Some aret_eq_Some poisoned_with_eq_Some poison_def set_state_def

definition same_config :: "actor \<Rightarrow> actor \<Rightarrow> bool" where
  "same_config a a' \<longleftrightarrow> ac_revision a' = ac_revision a \<and> ac_read_timeout a' = ac_read_timeout a \<and>
    ac_quota_key a' = ac_quota_key a \<and> ac_build a' = ac_build a"

text \<open>The actor has sent \<open>w\<close>; it may have been poisoned on the way.\<close>

definition sent :: "byte list \<Rightarrow> actor \<Rightarrow> actor \<Rightarrow> bool" where
  "sent w a a' \<longleftrightarrow> ac_wire a' = ac_wire a @ w \<and> ac_state a' = ac_state a \<and> (ac_poisoned a \<longrightarrow> ac_poisoned a') \<and>
    same_config a a'"

text \<open>The write of \<open>w\<close> broke off somewhere.\<close>

definition tore :: "byte list \<Rightarrow> actor \<Rightarrow> actor \<Rightarrow> bool" where
  "tore w a a' \<longleftrightarrow> (\<exists>part. prefix part w \<and> ac_wire a' = ac_wire a @ part) \<and> ac_state a' = ac_state a \<and> ac_poisoned a' \<and>
    same_config a a'"

lemma same_config_simps [simp]:
  "same_config a a" "same_config a (a\<lparr> ac_poisoned := p \<rparr>)" "same_config a (a\<lparr> ac_wire := w \<rparr>)"
  "same_config a (a\<lparr> ac_state := st \<rparr>)" "same_config a (a\<lparr> ac_poisoned := p, ac_state := st \<rparr>)"
  "same_config a (a\<lparr> ac_wire := w, ac_poisoned := p \<rparr>)"
  by (simp_all add: same_config_def)

lemma same_config_trans: "same_config a b \<Longrightarrow> same_config b c \<Longrightarrow> same_config a c"
  by (simp add: same_config_def)

lemma sent_refl [simp]: "sent [] a a" "sent [] a (a\<lparr> ac_poisoned := True \<rparr>)"
  by (simp_all add: sent_def)

lemma sent_trans: "sent u a b \<Longrightarrow> sent v b c \<Longrightarrow> sent (u @ v) a c"
  by (simp add: sent_def same_config_def)

lemma sent_tore: "sent u a b \<Longrightarrow> tore v b c \<Longrightarrow> tore (u @ v) a c"
  by (auto simp: sent_def tore_def same_config_def)

lemma bounded_io_cases:
  assumes "bounded_io limited bytes a es = Some (r, a', es')"
  shows "(r = Inr () \<and> a' = a\<lparr> ac_wire := ac_wire a @ bytes \<rparr> \<and> es' = es) \<or>
    (\<exists>e w. r = Inl e \<and> a' = a\<lparr> ac_wire := ac_wire a @ w \<rparr> \<and> prefix w bytes)"
  using assms by (auto simp: bounded_io_def take_is_prefix split: list.splits event.splits if_splits)

lemma idle_cases:
  "idle_timed_out a = (None, a) \<and> ac_read_timeout a = None \<or>
   idle_timed_out a = (Some TimedOut, a\<lparr> ac_poisoned := True \<rparr>) \<and> ac_read_timeout a \<noteq> None"
  by (auto simp: idle_timed_out_def split: option.splits)

lemma drain_sent: "drain_to_end_of_stream a es = Some (r, a', es') \<Longrightarrow> sent [] a a'"
  by (induction a es rule: drain_to_end_of_stream.induct)
    (auto simp: poisoned_with_eq_Some split: event.splits option.splits ReaderMessage.splits ServerPacket.splits)

lemma ping_loop_sent: "ping_loop a es = Some (r, a', es') \<Longrightarrow> sent [] a a'"
proof (induction a es rule: ping_loop.induct)
  case (2 a ev es)
  then show ?case using idle_cases [of a]
    by (auto simp: poisoned_with_eq_Some split: event.splits option.splits ReaderMessage.splits ServerPacket.splits)
qed simp

lemma begin_loop_sent: "begin_loop a es = Some (r, a', es') \<Longrightarrow> sent [] a a'"
proof (induction a es rule: begin_loop.induct)
  case (2 a ev es)
  then show ?case using idle_cases [of a]
    by (auto simp: poisoned_with_eq_Some split: event.splits option.splits ReaderMessage.splits ServerPacket.splits)
qed simp

lemma cancel_sent:
  assumes "cancel_and_drain a es = Some (r, a', es')"
  shows "sent send_cancel a a' \<or> tore send_cancel a a'"
proof -
  from assms obtain x b fs where w: "write_packet send_cancel a es = Some (x, b, fs)"
    and k: "(case x of Inl _ \<Rightarrow> poison | Inr _ \<Rightarrow> abind drain_to_end_of_stream (\<lambda>_. aret ())) b fs = Some (r, a', es')"
    by (auto simp: cancel_and_drain_def abind_eq_Some)
  show ?thesis
  proof (cases x)
    case (Inl e)
    then show ?thesis using bounded_io_cases [OF w] k by (auto simp: poison_def tore_def)
  next
    case (Inr u)
    then have "sent send_cancel a b" using bounded_io_cases [OF w] by (auto simp: sent_def)
    moreover have "sent [] b a'" using k Inr by (auto simp: act_eqs dest: drain_sent)
    ultimately show ?thesis using sent_trans [of send_cancel a b "[]" a'] by simp
  qed
qed

lemma query_loop_sent:
  "query_loop a es = Some (r, a', es') \<Longrightarrow> sent [] a a' \<or> sent send_cancel a a' \<or> tore send_cancel a a'"
proof (induction a es rule: query_loop.induct)
  case (2 a ev es)
  then show ?case using idle_cases [of a]
    by (auto simp: act_eqs dest: cancel_sent split: event.splits option.splits ReaderMessage.splits ServerPacket.splits)
qed simp

text \<open>The packets a stream forwards.\<close>

definition forwarded :: "ServerPacket \<Rightarrow> bool" where
  "forwarded p \<longleftrightarrow> (case p of PkEndOfStream \<Rightarrow> False | PkException _ \<Rightarrow> False | PkPong \<Rightarrow> False | PkLog \<Rightarrow> False
     | PkProfileEvents \<Rightarrow> False | _ \<Rightarrow> True)"

lemma stream_forward_gone:
  "forwarded p \<Longrightarrow>
    stream_loop a (Message (Some (Packet p)) # CallerGone # es) = abind cancel_and_drain (\<lambda>_. aret []) a es"
  by (cases p) (simp_all add: forwarded_def)

lemma stream_forward:
  assumes "forwarded p" "\<nexists>es'. es = CallerGone # es'"
  shows "stream_loop a (Message (Some (Packet p)) # es) =
    map_option (\<lambda>(frames, r). (Inr p # frames, r)) (stream_loop a es)"
proof (cases es)
  case Nil
  then show ?thesis using assms(1) by (cases p) (simp_all add: forwarded_def)
next
  case (Cons ev fs)
  then show ?thesis using assms by (cases ev; cases p) (simp_all add: forwarded_def)
qed

lemma stream_loop_sent:
  "stream_loop a es = Some (r, a', es') \<Longrightarrow> sent [] a a' \<or> sent send_cancel a a' \<or> tore send_cancel a a'"
proof (induction es arbitrary: r rule: length_induct)
  case (1 es)
  show ?case
  proof (cases "\<exists>p fs. es = Message (Some (Packet p)) # fs \<and> forwarded p")
    case True
    then obtain p fs where es: "es = Message (Some (Packet p)) # fs" "forwarded p" by blast
    show ?thesis
    proof (cases "\<exists>gs. fs = CallerGone # gs")
      case True
      then show ?thesis using 1(2) es stream_forward_gone [OF es(2)] by (auto simp: act_eqs dest: cancel_sent)
    next
      case False
      have "map_option (\<lambda>(frames, r). (Inr p # frames, r)) (stream_loop a fs) = Some (r, a', es')"
        using 1(2) unfolding es(1) stream_forward [OF es(2) False] .
      then obtain q where "stream_loop a fs = Some (q, a', es')" by auto
      then show ?thesis using 1(1) es by auto
    qed
  next
    case False
    show ?thesis
    proof (cases es)
      case (Cons ev fs)
      have IH: "stream_loop a fs = Some (r, a', es') \<Longrightarrow> sent [] a a' \<or> sent send_cancel a a' \<or> tore send_cancel a a'"
        using 1(1) Cons by auto
      show ?thesis using 1(2) False IH idle_cases [of a] unfolding Cons
        by (auto simp: act_eqs forwarded_def dest: cancel_sent
            split: event.splits option.splits ReaderMessage.splits ServerPacket.splits)
    qed (use 1(2) in simp)
  qed
qed

section \<open>The wire\<close>

text \<open>
  The byte strings a connection may have sent between commands: pings, statements (cancelled or not), and INSERT
  sessions that open with a statement, go on with data blocks and end with the empty block or with the server's
  rejection.
\<close>

inductive session :: "u64 \<Rightarrow> ActorState \<Rightarrow> byte list \<Rightarrow> bool" for sr where
  se_start: "session sr Idle []"
| se_ping: "session sr Idle w \<Longrightarrow> session sr Idle (w @ send_ping)"
| se_query: "session sr Idle w \<Longrightarrow> send_query sr query_id query settings params info = (bytes, Inr ()) \<Longrightarrow>
    session sr Idle (w @ bytes @ send_empty_block sr)"
| se_cancelled: "session sr Idle w \<Longrightarrow> send_query sr query_id query settings params info = (bytes, Inr ()) \<Longrightarrow>
    session sr Idle (w @ bytes @ send_empty_block sr @ send_cancel)"
| se_begin: "session sr Idle w \<Longrightarrow> send_query sr query_id query settings params info = (bytes, Inr ()) \<Longrightarrow>
    session sr InsertActive (w @ bytes @ send_empty_block sr)"
| se_block: "session sr InsertActive w \<Longrightarrow> length body \<le> MAX_INSERT_BLOCK_BYTES \<Longrightarrow>
    session sr InsertActive (w @ send_data_block sr [] body num_columns num_rows)"
| se_finish: "session sr InsertActive w \<Longrightarrow> session sr Idle (w @ send_empty_block sr)"
| se_rejected: "session sr InsertActive w \<Longrightarrow> session sr Idle w"

text \<open>
  The same by command: what a command that ran to its end in a state has sent, and the state it leaves.  A command may
  also send nothing: refused because the connection is poisoned or in the wrong state, or a block over the size cap;
  but an open INSERT never swallows its end.
\<close>

definition statement_of :: "ConnectionCmd \<Rightarrow> (string \<times> string \<times> kvs \<times> kvs) option" where
  "statement_of cmd = (case cmd of
     ExecuteQuery query_id query settings params \<Rightarrow> Some (query_id, query, settings, params)
   | ExecuteStream query_id query settings params \<Rightarrow> Some (query_id, query, settings, params)
   | BeginInsert query_id query settings params \<Rightarrow> Some (query_id, query, settings, params)
   | _ \<Rightarrow> None)"

definition opens_insert :: "ConnectionCmd \<Rightarrow> bool" where
  "opens_insert cmd = (case cmd of BeginInsert _ _ _ _ \<Rightarrow> True | _ \<Rightarrow> False)"

definition may_send_nothing :: "ActorState \<Rightarrow> ConnectionCmd \<Rightarrow> bool" where
  "may_send_nothing st cmd = (case (st, cmd) of
     (InsertActive, FinishInsert) \<Rightarrow> False
   | (InsertActive, SendInsertBlock body _ _) \<Rightarrow> MAX_INSERT_BLOCK_BYTES < length body
   | _ \<Rightarrow> True)"

inductive exchange :: "u64 \<Rightarrow> ActorState \<Rightarrow> ConnectionCmd \<Rightarrow> byte list \<Rightarrow> ActorState \<Rightarrow> bool" for sr where
  ex_nothing: "may_send_nothing st cmd \<Longrightarrow> exchange sr st cmd [] st"
| ex_ping: "exchange sr Idle Ping send_ping Idle"
| ex_statement: "statement_of cmd = Some (query_id, query, settings, params) \<Longrightarrow>
    send_query sr query_id query settings params info = (bytes, Inr ()) \<Longrightarrow> exchange sr Idle cmd (bytes @ send_empty_block sr) Idle"
| ex_cancelled: "statement_of cmd = Some (query_id, query, settings, params) \<Longrightarrow> \<not> opens_insert cmd \<Longrightarrow>
    send_query sr query_id query settings params info = (bytes, Inr ()) \<Longrightarrow>
    exchange sr Idle cmd (bytes @ send_empty_block sr @ send_cancel) Idle"
| ex_begin: "statement_of cmd = Some (query_id, query, settings, params) \<Longrightarrow> opens_insert cmd \<Longrightarrow>
    send_query sr query_id query settings params info = (bytes, Inr ()) \<Longrightarrow>
    exchange sr Idle cmd (bytes @ send_empty_block sr) InsertActive"
| ex_block: "length body \<le> MAX_INSERT_BLOCK_BYTES \<Longrightarrow>
    exchange sr InsertActive (SendInsertBlock body num_columns num_rows) (send_data_block sr [] body num_columns num_rows) InsertActive"
| ex_rejected: "exchange sr InsertActive (SendInsertBlock body num_columns num_rows) [] Idle"
| ex_finish: "exchange sr InsertActive FinishInsert (send_empty_block sr) Idle"

text \<open>The packets of the commands handled so far, one command after the other.\<close>

inductive transcript :: "u64 \<Rightarrow> ConnectionCmd list \<Rightarrow> ActorState \<Rightarrow> byte list \<Rightarrow> bool" for sr where
  tr_start: "transcript sr [] Idle []"
| tr_command: "transcript sr cmds st w \<Longrightarrow> exchange sr st cmd v st' \<Longrightarrow> transcript sr (cmds @ [cmd]) st' (w @ v)"

text \<open>
  The bytes of a command that broke off: a prefix of what it would have sent, or of the packet of a statement the
  revision cannot carry.
\<close>

definition cut_off :: "u64 \<Rightarrow> ActorState \<Rightarrow> ConnectionCmd \<Rightarrow> byte list \<Rightarrow> bool" where
  "cut_off sr st cmd part \<longleftrightarrow> (\<exists>bytes st'. exchange sr st cmd bytes st' \<and> prefix part bytes) \<or>
    (\<exists>query_id query settings params info bytes e. st = Idle \<and> statement_of cmd = Some (query_id, query, settings, params) \<and>
      send_query sr query_id query settings params info = (bytes, Inl e) \<and> prefix part bytes)"

lemma cut_exchange: "exchange sr st cmd bytes st' \<Longrightarrow> prefix part bytes \<Longrightarrow> cut_off sr st cmd part"
  unfolding cut_off_def by blast

lemma cut_refused:
  "statement_of cmd = Some (query_id, query, settings, params) \<Longrightarrow>
    send_query sr query_id query settings params info = (bytes, Inl e) \<Longrightarrow> prefix part bytes \<Longrightarrow> cut_off sr Idle cmd part"
  unfolding cut_off_def by blast

text \<open>What one command does: it runs to its end, or it breaks off and leaves the connection poisoned and idle.\<close>

definition stepped :: "ConnectionCmd \<Rightarrow> actor \<Rightarrow> actor \<Rightarrow> bool" where
  "stepped cmd a a' \<longleftrightarrow> ac_revision a' = ac_revision a \<and> (\<exists>v. ac_wire a' = ac_wire a @ v \<and>
    (exchange (ac_revision a) (ac_state a) cmd v (ac_state a') \<or>
     ac_poisoned a' \<and> ac_state a' = Idle \<and> cut_off (ac_revision a) (ac_state a) cmd v))"

lemma stepped_sent: "sent v a a' \<Longrightarrow> exchange (ac_revision a) (ac_state a) cmd v (ac_state a) \<Longrightarrow> stepped cmd a a'"
  by (auto simp: stepped_def sent_def same_config_def)

lemma stepped_torn:
  "tore v a a' \<Longrightarrow> ac_state a = Idle \<Longrightarrow> exchange (ac_revision a) Idle cmd v st \<Longrightarrow> stepped cmd a a'"
  unfolding stepped_def tore_def same_config_def by (auto dest: cut_exchange)

lemma stepped_nothing: "may_send_nothing (ac_state a) cmd \<Longrightarrow> stepped cmd a a"
  using stepped_sent [OF sent_refl(1)] ex_nothing by blast

lemma sends_nothing: "ac_state a = Idle \<or> \<not> continues_insert cmd \<Longrightarrow> stepped cmd a a"
  by (rule stepped_nothing) (auto simp: may_send_nothing_def continues_insert_def split: ActorState.splits ConnectionCmd.splits)

lemma issue_query_cases:
  assumes "issue_query query_id query settings params a es = Some (r, a', es')"
    and "statement_of cmd = Some (query_id, query, settings, params)"
  shows "(\<exists>bytes info. r = Inr () \<and> send_query (ac_revision a) query_id query settings params info = (bytes, Inr ()) \<and>
      sent (bytes @ send_empty_block (ac_revision a)) a a') \<or>
    (\<exists>e part. r = Inl e \<and> a' = a\<lparr> ac_wire := ac_wire a @ part \<rparr> \<and> cut_off (ac_revision a) Idle cmd part)"
proof -
  let ?info = "client_info_for a query_id" and ?empty = "send_empty_block (ac_revision a)"
  obtain bytes refusal where q: "send_query (ac_revision a) query_id query settings params ?info = (bytes, refusal)" by fastforce
  from assms(1) obtain x b fs where w: "write_packet bytes a es = Some (x, b, fs)"
    and k: "(case x of Inl e \<Rightarrow> aret (Inl e) | Inr _ \<Rightarrow> (case refusal of Inl e \<Rightarrow> aret (Inl e)
      | Inr _ \<Rightarrow> write_packet ?empty)) b fs = Some (r, a', es')"
    by (auto simp: issue_query_def q abind_eq_Some)
  have cut: "cut_off (ac_revision a) Idle cmd part" if "prefix part bytes" for part
  proof (cases refusal)
    case (Inr u)
    then show ?thesis using cut_exchange [OF ex_statement [OF assms(2), of "ac_revision a" ?info bytes], of part] q that by simp
  qed (use q that assms(2) in \<open>auto intro: cut_refused\<close>)
  show ?thesis
  proof (cases "x = Inr () \<and> refusal = Inr ()")
    case True
    then have b: "b = a\<lparr> ac_wire := ac_wire a @ bytes \<rparr>" using bounded_io_cases [OF w] by auto
    have "write_packet ?empty b fs = Some (r, a', es')" using k True by simp
    from bounded_io_cases [OF this] show ?thesis
    proof (elim disjE exE conjE)
      fix e part assume "r = Inl e" "a' = b\<lparr> ac_wire := ac_wire b @ part \<rparr>" "prefix part ?empty"
      moreover from this have "cut_off (ac_revision a) Idle cmd (bytes @ part)"
        using cut_exchange [OF ex_statement [OF assms(2), of "ac_revision a" ?info bytes], of "bytes @ part"] q True by simp
      ultimately show ?thesis by (intro disjI2 exI [of _ e] exI [of _ "bytes @ part"]) (simp add: b)
    qed (use q True b in \<open>auto simp: sent_def same_config_def\<close>)
  next
    case False
    then have "\<exists>e. r = Inl e \<and> a' = b" using k by (auto simp: aret_eq_Some split: sum.splits)
    then show ?thesis using bounded_io_cases [OF w] cut by auto
  qed
qed

section \<open>What each command does to the wire\<close>

lemma do_ping_steps:
  assumes "do_ping a es = Some (r, a', es')" "ac_state a = Idle"
  shows "stepped Ping a a'"
proof -
  from assms(1) obtain x b fs where w: "write_packet send_ping a es = Some (x, b, fs)"
    and k: "(case x of Inl e \<Rightarrow> poisoned_with e | Inr _ \<Rightarrow> ping_loop) b fs = Some (r, a', es')"
    by (auto simp: do_ping_def abind_eq_Some)
  show ?thesis
  proof (cases x)
    case (Inl e)
    then have "tore send_ping a a'" using k bounded_io_cases [OF w] by (auto simp: poisoned_with_eq_Some tore_def)
    then show ?thesis using assms(2) ex_ping by (rule stepped_torn)
  next
    case (Inr u)
    then have "sent [] b a'" "sent send_ping a b" using k ping_loop_sent bounded_io_cases [OF w] by (auto simp: sent_def)
    then have "sent send_ping a a'" using sent_trans by fastforce
    then show ?thesis using assms(2) ex_ping by (intro stepped_sent) simp_all
  qed
qed

text \<open>A statement, for a loop that reads its answer and may cancel.\<close>

lemma issued_steps:
  assumes "issue_query query_id query settings params a es = Some (x, b, fs)" "ac_state a = Idle"
    and "statement_of cmd = Some (query_id, query, settings, params)"
    and "\<And>e. x = Inl e \<Longrightarrow> a' = b\<lparr> ac_poisoned := True \<rparr>"
    and "x = Inr () \<Longrightarrow> sent [] b a' \<or> \<not> opens_insert cmd \<and> (sent send_cancel b a' \<or> tore send_cancel b a')"
  shows "stepped cmd a a'"
  using issue_query_cases [OF assms(1,3)]
proof (elim disjE exE conjE)
  fix e part assume "x = Inl e" "b = a\<lparr> ac_wire := ac_wire a @ part \<rparr>" "cut_off (ac_revision a) Idle cmd part"
  then show ?thesis using assms(2,4) by (simp add: stepped_def)
next
  fix bytes info
  assume x: "x = Inr ()" and q: "send_query (ac_revision a) query_id query settings params info = (bytes, Inr ())"
    and s: "sent (bytes @ send_empty_block (ac_revision a)) a b"
  from assms(5) [OF x] show ?thesis
  proof (elim disjE conjE)
    assume "sent [] b a'"
    from sent_trans [OF s this] show ?thesis using ex_statement [OF assms(3) q] assms(2) by (intro stepped_sent) simp_all
  next
    assume n: "\<not> opens_insert cmd" and "sent send_cancel b a'"
    from sent_trans [OF s this(2)] show ?thesis using ex_cancelled [OF assms(3) n q] assms(2)
      by (intro stepped_sent) simp_all
  next
    assume n: "\<not> opens_insert cmd" and "tore send_cancel b a'"
    from sent_tore [OF s this(2)] show ?thesis using ex_cancelled [OF assms(3) n q] assms(2) by (intro stepped_torn) simp_all
  qed
qed

lemma do_execute_query_steps:
  assumes "do_execute_query query_id query settings params a es = Some (r, a', es')" "ac_state a = Idle"
  shows "stepped (ExecuteQuery query_id query settings params) a a'"
proof -
  from assms(1) obtain x b fs where i: "issue_query query_id query settings params a es = Some (x, b, fs)"
    and k: "(case x of Inl e \<Rightarrow> abind (poisoned_with e) (\<lambda>x. aret (Some x)) | Inr _ \<Rightarrow> query_loop) b fs = Some (r, a', es')"
    by (auto simp: do_execute_query_def abind_eq_Some)
  show ?thesis
    by (rule issued_steps [OF i assms(2)])
      (use k in \<open>auto simp: act_eqs statement_of_def opens_insert_def dest: query_loop_sent\<close>)
qed

lemma do_execute_stream_steps:
  assumes "do_execute_stream query_id query settings params a es = Some (r, a', es')" "ac_state a = Idle"
  shows "stepped (ExecuteStream query_id query settings params) a a'"
proof -
  from assms(1) obtain x b fs where i: "issue_query query_id query settings params a es = Some (x, b, fs)"
    and k: "(case x of Inl e \<Rightarrow> abind poison (\<lambda>_. aret [Inl e]) | Inr _ \<Rightarrow> stream_loop) b fs = Some (r, a', es')"
    by (auto simp: do_execute_stream_def abind_eq_Some)
  show ?thesis
    by (rule issued_steps [OF i assms(2)])
      (use k in \<open>auto simp: act_eqs statement_of_def opens_insert_def dest: stream_loop_sent\<close>)
qed

lemma begin_steps:
  assumes "abind (do_begin_insert query_id query settings params) (\<lambda>r.
      case r of Inl _ \<Rightarrow> aret (Columns r) | Inr _ \<Rightarrow> abind (set_state InsertActive) (\<lambda>_. aret (Columns r))) a es = Some (y, a', es')"
    and "ac_state a = Idle"
  shows "stepped (BeginInsert query_id query settings params) a a'"
proof -
  let ?cmd = "BeginInsert query_id query settings params"
  have cmd: "statement_of ?cmd = Some (query_id, query, settings, params)" "opens_insert ?cmd"
    by (simp_all add: statement_of_def opens_insert_def)
  from assms(1) obtain r c gs where d: "do_begin_insert query_id query settings params a es = Some (r, c, gs)"
    and o: "(case r of Inl _ \<Rightarrow> aret (Columns r) | Inr _ \<Rightarrow> abind (set_state InsertActive) (\<lambda>_. aret (Columns r))) c gs = Some (y, a', es')"
    by (auto simp: abind_eq_Some)
  from d obtain x b fs where i: "issue_query query_id query settings params a es = Some (x, b, fs)"
    and k: "(case x of Inl e \<Rightarrow> poisoned_with e | Inr _ \<Rightarrow> begin_loop) b fs = Some (r, c, gs)"
    by (auto simp: do_begin_insert_def abind_eq_Some)
  show ?thesis
  proof (cases r)
    case (Inl e)
    then have "a' = c" using o by (simp add: aret_eq_Some)
    moreover have "stepped ?cmd a c"
      by (rule issued_steps [OF i assms(2) cmd(1)]) (use k in \<open>auto simp: act_eqs dest: begin_loop_sent\<close>)
    ultimately show ?thesis by simp
  next
    case (Inr columns)
    then have a': "a' = c\<lparr> ac_state := InsertActive \<rparr>" using o by (simp add: act_eqs)
    have x: "x = Inr ()" using k Inr by (cases x) (auto simp: poisoned_with_eq_Some)
    then obtain bytes info where q: "send_query (ac_revision a) query_id query settings params info = (bytes, Inr ())"
      and s: "sent (bytes @ send_empty_block (ac_revision a)) a b"
      using issue_query_cases [OF i cmd(1)] by auto
    moreover have "sent [] b c" using k x by (auto dest: begin_loop_sent)
    ultimately have "sent (bytes @ send_empty_block (ac_revision a)) a c" using sent_trans [OF s] by fastforce
    then show ?thesis using ex_begin [OF cmd q] assms(2) a' by (auto simp: stepped_def sent_def same_config_def)
  qed
qed

lemma drain_queued_cases:
  "drain_queued a es = Some (r, a', es') \<Longrightarrow>
    r = None \<and> a' = a \<or>
    r \<noteq> None \<and> ac_state a' = Idle \<and> ac_wire a' = ac_wire a \<and> (ac_poisoned a \<longrightarrow> ac_poisoned a') \<and> same_config a a'"
proof (induction a es rule: drain_queued.induct)
  case (1 a m es)
  then show ?case by (auto split: option.splits ReaderMessage.splits ServerPacket.splits)
qed auto

lemma do_send_insert_block_steps:
  assumes "do_send_insert_block body num_columns num_rows a es = Some (r, a', es')" "ac_state a = InsertActive"
  shows "stepped (SendInsertBlock body num_columns num_rows) a a'"
proof (cases "length body > MAX_INSERT_BLOCK_BYTES")
  case True
  then have "a' = a" using assms(1) by (simp add: do_send_insert_block_def aret_eq_Some)
  then show ?thesis using True assms(2) stepped_nothing [of a] by (simp add: may_send_nothing_def)
next
  case False
  let ?packet = "send_data_block (ac_revision a) [] body num_columns num_rows"
  have block: "exchange (ac_revision a) InsertActive (SendInsertBlock body num_columns num_rows) ?packet InsertActive"
    using False by (intro ex_block) simp
  from assms(1) False obtain x b fs where d: "drain_queued a es = Some (x, b, fs)"
    and k: "(case x of Some e \<Rightarrow> aret (Inl e)
       | None \<Rightarrow> abind (bounded_io True ?packet) (\<lambda>result.
           case result of Inl e \<Rightarrow> abind poison (\<lambda>_. abind (set_state Idle) (\<lambda>_. aret result)) | Inr _ \<Rightarrow> aret result))
      b fs = Some (r, a', es')"
    by (auto simp: do_send_insert_block_def abind_eq_Some)
  show ?thesis
  proof (cases x)
    case (Some e)
    then show ?thesis using k drain_queued_cases [OF d] ex_rejected [of "ac_revision a" body] assms(2)
      by (auto simp: aret_eq_Some stepped_def same_config_def)
  next
    case None
    then have "b = a" using drain_queued_cases [OF d] by simp
    with k None obtain y c gs where w: "bounded_io True ?packet a fs = Some (y, c, gs)"
      and k: "(case y of Inl e \<Rightarrow> abind poison (\<lambda>_. abind (set_state Idle) (\<lambda>_. aret y)) | Inr _ \<Rightarrow> aret y) c gs = Some (r, a', es')"
      by (auto simp: abind_eq_Some)
    show ?thesis using k bounded_io_cases [OF w] block cut_exchange [OF block] assms(2)
      by (cases y) (auto simp: act_eqs stepped_def)
  qed
qed

lemma do_finish_insert_steps:
  assumes "do_finish_insert a es = Some (r, a', es')" "ac_state a = InsertActive"
  shows "stepped FinishInsert a (a'\<lparr> ac_state := Idle \<rparr>)"
proof -
  from assms(1) obtain x b fs where w: "bounded_io True (send_empty_block (ac_revision a)) a es = Some (x, b, fs)"
    and k: "(case x of Inl e \<Rightarrow> poisoned_with e | Inr _ \<Rightarrow> drain_to_end_of_stream) b fs = Some (r, a', es')"
    by (auto simp: do_finish_insert_def abind_eq_Some)
  show ?thesis
  proof (cases x)
    case (Inl e)
    then show ?thesis using k bounded_io_cases [OF w] cut_exchange [OF ex_finish [of "ac_revision a"]] assms(2)
      by (auto simp: poisoned_with_eq_Some stepped_def)
  next
    case (Inr u)
    then have "sent [] b a'" using k drain_sent by simp
    then show ?thesis using bounded_io_cases [OF w] Inr ex_finish [of "ac_revision a"] assms(2)
      by (auto simp: stepped_def sent_def same_config_def)
  qed
qed

text \<open>A torn connection sends nothing more and stays poisoned.\<close>

lemma torn_silent:
  assumes "handle cmd a es = Some (r, a', es')" "ac_poisoned a" "ac_state a = Idle"
  shows "a' = a"
  using assms
  by (cases cmd) (auto simp: handle_def continues_insert_def aret_eq_Some split: if_splits)

lemma handle_steps:
  assumes "handle cmd a es = Some (r, a', es')"
  shows "stepped cmd a a'"
proof (cases "ac_poisoned a \<and> \<not> continues_insert cmd")
  case True
  then have "a' = a" using assms by (simp add: handle_def aret_eq_Some)
  then show ?thesis using True by (simp add: sends_nothing)
next
  case go: False
  show ?thesis
  proof (cases "ac_state a")
    case Idle
    show ?thesis
    proof (cases cmd)
      case (BeginInsert query_id query settings params)
      then show ?thesis using assms go Idle by (auto simp: handle_def continues_insert_def intro: begin_steps)
    qed (use assms go Idle sends_nothing [of a] in
        \<open>auto simp: handle_def act_eqs dest: do_ping_steps do_execute_query_steps do_execute_stream_steps\<close>)
  next
    case InsertActive
    then show ?thesis using assms go sends_nothing [of a cmd]
      by (cases cmd) (auto simp: handle_def act_eqs continues_insert_def dest: do_send_insert_block_steps do_finish_insert_steps)
  qed
qed

text \<open>The wire is a session's, or the connection is poisoned and idle.\<close>

definition wire_ok :: "u64 \<Rightarrow> actor \<Rightarrow> bool" where
  "wire_ok sr a \<longleftrightarrow> ac_revision a = sr \<and> (session sr (ac_state a) (ac_wire a) \<or> ac_poisoned a \<and> ac_state a = Idle)"

lemma exchange_session: "exchange sr st cmd v st' \<Longrightarrow> session sr st w \<Longrightarrow> session sr st' (w @ v)"
  by (induction rule: exchange.induct) (auto intro: session.intros)

lemma transcript_session: "transcript sr cmds st w \<Longrightarrow> session sr st w"
  by (induction rule: transcript.induct) (auto intro: se_start exchange_session)

lemma handle_ok:
  assumes "handle cmd a es = Some (r, a', es')" "wire_ok sr a"
  shows "wire_ok sr a'"
proof (cases "ac_poisoned a \<and> ac_state a = Idle")
  case True
  then show ?thesis using torn_silent [OF assms(1)] assms(2) by simp
next
  case False
  then show ?thesis using handle_steps [OF assms(1)] assms(2) exchange_session
    by (auto simp: wire_ok_def stepped_def)
qed

lemma poison_ok: "wire_ok sr a \<Longrightarrow> wire_ok sr (a\<lparr> ac_poisoned := True \<rparr>)"
  by (auto simp: wire_ok_def)

interpretation wire: kept_by actor_step "wire_ok sr"
proof unfold_locales
  show "wire_ok sr t" if "wire_ok sr s" "actor_step s t" for s t
    using that(2) unfolding actor_step_def
  proof (elim disjE exE)
    show "wire_ok sr t" if "handle cmd s es = Some (r, t, es')" for cmd es r es'
      using that \<open>wire_ok sr s\<close> by (rule handle_ok)
    show "wire_ok sr t" if "t = s\<lparr> ac_poisoned := True \<rparr>"
      unfolding that using \<open>wire_ok sr s\<close> by (rule poison_ok)
  qed
qed

interpretation torn: kept_by actor_step "\<lambda>a. ac_poisoned a \<and> ac_state a = Idle \<and> ac_wire a = w"
  by unfold_locales (auto simp: actor_step_def dest: torn_silent)

section \<open>Runs with their log\<close>

text \<open>An actor that answers commands one at a time; the flag may be set between two of them.\<close>

inductive answered :: "actor \<Rightarrow> (ConnectionCmd \<times> reply) list \<Rightarrow> actor \<Rightarrow> bool" for a where
  an_start: "answered a [] a"
| an_poison: "answered a l b \<Longrightarrow> answered a l (b\<lparr> ac_poisoned := True \<rparr>)"
| an_command: "answered a l b \<Longrightarrow> handle cmd b es = Some (r, c, es') \<Longrightarrow> answered a (l @ [(cmd, r)]) c"

lemma answered_steps: "answered a l b \<Longrightarrow> actor_step\<^sup>*\<^sup>* a b"
proof (induction rule: answered.induct)
  case (an_poison l b)
  from an_poison.IH show ?case by (rule rtranclp.rtrancl_into_rtrancl) (simp add: actor_step_def)
next
  case (an_command l b cmd es r c es')
  then show ?case by (meson actor_step_def rtranclp.rtrancl_into_rtrancl)
qed simp

text \<open>
  Where a run that handled \<open>cmds\<close> stands: everything handed to the writer is their transcript; or one of them broke
  off, the connection is poisoned and idle since, and nothing followed.
\<close>

definition broke_off :: "u64 \<Rightarrow> ConnectionCmd list \<Rightarrow> actor \<Rightarrow> bool" where
  "broke_off sr cmds a \<longleftrightarrow> ac_poisoned a \<and> ac_state a = Idle \<and>
    (\<exists>before cmd rest st w part. cmds = before @ cmd # rest \<and> transcript sr before st w \<and> cut_off sr st cmd part \<and>
      ac_wire a = w @ part)"

definition wired :: "u64 \<Rightarrow> ConnectionCmd list \<Rightarrow> actor \<Rightarrow> bool" where
  "wired sr cmds a \<longleftrightarrow> transcript sr cmds (ac_state a) (ac_wire a) \<or> broke_off sr cmds a"

lemma broke_off_on: "broke_off sr cmds a \<Longrightarrow> broke_off sr (cmds @ [cmd]) a"
  unfolding broke_off_def by (elim conjE exE) (intro conjI exI; (assumption | simp))

lemma wired_step:
  assumes "wired sr cmds a" "ac_revision a = sr" "handle cmd a es = Some (r, a', es')"
  shows "wired sr (cmds @ [cmd]) a'"
proof (cases "broke_off sr cmds a")
  case True
  then have "a' = a" using torn_silent [OF assms(3)] by (simp add: broke_off_def)
  then show ?thesis using True by (simp add: wired_def broke_off_on)
next
  case False
  then have t: "transcript sr cmds (ac_state a) (ac_wire a)" using assms(1) by (simp add: wired_def)
  from handle_steps [OF assms(3)] obtain v where v: "ac_wire a' = ac_wire a @ v"
    "exchange sr (ac_state a) cmd v (ac_state a') \<or> ac_poisoned a' \<and> ac_state a' = Idle \<and> cut_off sr (ac_state a) cmd v"
    by (auto simp: stepped_def assms(2))
  from v(2) show ?thesis
  proof
    assume "exchange sr (ac_state a) cmd v (ac_state a')"
    from tr_command [OF t this] show ?thesis by (simp add: wired_def v(1))
  next
    assume "ac_poisoned a' \<and> ac_state a' = Idle \<and> cut_off sr (ac_state a) cmd v"
    then have "broke_off sr (cmds @ [cmd]) a'" using t v(1) unfolding broke_off_def by blast
    then show ?thesis by (simp add: wired_def)
  qed
qed

lemma answered_wired:
  assumes "answered (spawn_with_config build revision timeout quota) l a"
  shows "wired revision (map fst l) a \<and> ac_revision a = revision"
  using assms
proof (induction rule: answered.induct)
  case an_start
  show ?case by (simp add: wired_def spawn_with_config_def tr_start)
next
  case (an_poison l b)
  then show ?case by (auto simp: wired_def broke_off_def)
next
  case (an_command l b cmd es r c es')
  then show ?case using wired_step [of revision "map fst l" b cmd es r c es'] handle_steps by (auto simp: stepped_def)
qed

lemma broke_off_last:
  assumes "broke_off sr cmds a" "answered a l a'"
  shows "ac_poisoned a' \<and> ac_wire a' = ac_wire a"
  using torn.run_keeps [OF answered_steps [OF assms(2)], of "ac_wire a"] assms(1) by (simp add: broke_off_def)

text \<open>
  C5: what a connection sends can be parsed by its server.  In every run, whatever commands arrive and however
  writes, reads, timers and callers behave, the bytes handed to the writer so far are the packets of the commands handled,
  whole and in their order: a ping, a statement with its empty block and perhaps a cancel, and inside an INSERT that was
  opened the data blocks and the empty block that ends it; a command that was refused sent nothing.  Or the packets of
  one command were cut off somewhere: before them stands the transcript of the commands before it, the connection is
  poisoned and idle, and no run from there hands over another byte.
\<close>

theorem wire_well_formed:
  assumes "answered (spawn_with_config build revision timeout quota) l a"
  shows "transcript revision (map fst l) (ac_state a) (ac_wire a) \<or>
    ac_poisoned a \<and>
    (\<exists>before cmd rest st w part. map fst l = before @ cmd # rest \<and> transcript revision before st w \<and>
      cut_off revision st cmd part \<and> ac_wire a = w @ part) \<and>
    (\<forall>l' a'. answered a l' a' \<longrightarrow> ac_poisoned a' \<and> ac_wire a' = ac_wire a)"
proof -
  from answered_wired [OF assms]
  consider "transcript revision (map fst l) (ac_state a) (ac_wire a)" | "broke_off revision (map fst l) a"
    by (auto simp: wired_def)
  then show ?thesis
  proof cases
    case 2
    then show ?thesis using broke_off_last [OF 2] by (auto simp: broke_off_def)
  qed blast
qed

definition example_build :: build_version where
  "example_build = \<lparr> CLIENT_VERSION_MAJOR_STR = ''0'', CLIENT_VERSION_MINOR_STR = ''2'' \<rparr>"

definition fresh :: actor where
  "fresh = spawn_with_config example_build 54473 None []"

definition pinged :: actor where
  "pinged = (spawn_with_config example_build 54473 None [])\<lparr> ac_wire := send_ping \<rparr>"

lemma ping_handled: "handle Ping fresh [Message (Some (Packet PkPong))] = Some (Answer (Inr ()), pinged, [])"
  by (simp add: fresh_def handle_def spawn_with_config_def continues_insert_def do_ping_def abind_def bounded_io_def pinged_def aret_def)

lemma ping_run: "answered fresh ([] @ [(Ping, Answer (Inr ()))]) pinged"
  by (rule an_command [OF an_start ping_handled])

theorem wire_well_formed_witness:
  "transcript 54473 [Ping] (ac_state pinged) (ac_wire pinged) \<and> \<not> ac_poisoned pinged"
  using wire_well_formed [OF ping_run [unfolded fresh_def]] by (simp add: pinged_def spawn_with_config_def)

section \<open>Poison\<close>

lemma bounded_io_flag: "bounded_io limited bytes a es = Some (r, a', es') \<Longrightarrow> ac_poisoned a' = ac_poisoned a"
  by (auto dest: bounded_io_cases)

lemma finish_poison_kept:
  assumes "do_finish_insert a es = Some (r, a', es')" "ac_poisoned a"
  shows "ac_poisoned a'"
proof -
  from assms(1) obtain x b fs where w: "bounded_io True (send_empty_block (ac_revision a)) a es = Some (x, b, fs)"
    and k: "(case x of Inl e \<Rightarrow> poisoned_with e | Inr _ \<Rightarrow> drain_to_end_of_stream) b fs = Some (r, a', es')"
    by (auto simp: do_finish_insert_def abind_eq_Some)
  show ?thesis using k bounded_io_flag [OF w] assms(2)
    by (cases x) (auto simp: poisoned_with_eq_Some sent_def dest: drain_sent)
qed

lemma send_poison_kept:
  assumes "do_send_insert_block body num_columns num_rows a es = Some (r, a', es')" "ac_poisoned a"
  shows "ac_poisoned a'"
proof (cases "length body > MAX_INSERT_BLOCK_BYTES")
  case False
  with assms(1) obtain x b fs where d: "drain_queued a es = Some (x, b, fs)"
    and k: "(case x of Some e \<Rightarrow> aret (Inl e)
       | None \<Rightarrow> abind (bounded_io True (send_data_block (ac_revision a) [] body num_columns num_rows)) (\<lambda>result.
           case result of Inl e \<Rightarrow> abind poison (\<lambda>_. abind (set_state Idle) (\<lambda>_. aret result)) | Inr _ \<Rightarrow> aret result))
      b fs = Some (r, a', es')"
    by (auto simp: do_send_insert_block_def abind_eq_Some)
  have "ac_poisoned b" using drain_queued_cases [OF d] assms(2) by auto
  moreover have "(case y of Inl e \<Rightarrow> abind poison (\<lambda>_. abind (set_state Idle) (\<lambda>_. aret y)) | Inr _ \<Rightarrow> aret y) c gs =
      Some (r, a', es') \<Longrightarrow> ac_poisoned c \<Longrightarrow> ac_poisoned a'" for y c gs
    by (cases y) (auto simp: act_eqs)
  ultimately show ?thesis using k
    by (cases x) (auto simp: abind_eq_Some [where a = b] aret_eq_Some dest!: bounded_io_flag)
qed (use assms in \<open>simp add: do_send_insert_block_def aret_eq_Some\<close>)

lemma handle_poison_kept: "handle cmd a es = Some (r, a', es') \<Longrightarrow> ac_poisoned a \<Longrightarrow> ac_poisoned a'"
  by (cases cmd; cases "ac_state a")
     (auto simp: handle_def continues_insert_def act_eqs dest: finish_poison_kept send_poison_kept)

interpretation poison: kept_by actor_step ac_poisoned
  by unfold_locales (auto simp: actor_step_def intro: handle_poison_kept)

text \<open>
  Poison is one-way, and a poisoned connection answers without touching the socket: along every run the flag
  stays set, and any command but the continuation of an open INSERT is refused with a transient error and leaves
  the actor and the packets waiting for it as they were.
\<close>

theorem poison_is_final:
  assumes "actor_step\<^sup>*\<^sup>* a b" "ac_poisoned a"
  shows "ac_poisoned b \<and>
    (continues_insert cmd \<or> (\<exists>reply. handle cmd b es = Some (reply, b, es) \<and>
      reply \<in> {Answer (Inl refusal), Columns (Inl refusal), Frames [Inl refusal]}))"
  using poison.run_keeps [OF assms]
  by (cases cmd) (auto simp: handle_def aret_def continues_insert_def reject_poisoned_def)

theorem poison_is_final_witness:
  "ac_poisoned (pinged\<lparr> ac_poisoned := True \<rparr>) \<and>
   (\<exists>reply. handle Ping (pinged\<lparr> ac_poisoned := True \<rparr>) [Message (Some (Packet PkPong))] =
       Some (reply, pinged\<lparr> ac_poisoned := True \<rparr>, [Message (Some (Packet PkPong))]) \<and>
     reply \<in> {Answer (Inl refusal), Columns (Inl refusal), Frames [Inl refusal]})"
  using poison_is_final [OF rtranclp.rtrancl_refl, of "pinged\<lparr> ac_poisoned := True \<rparr>" Ping]
  by (simp add: continues_insert_def)

end
