(* ===== verification/Cursor.thy ===== *)
theory Cursor
  imports Actor
begin

text \<open>
  The streaming cursor of src/src/tcp/cursor.rs over the frames the connection actor sent; the channel is closed
  behind the last of them.
\<close>

record TcpRawCursor =
  cu_rx :: "ServerPacket result list"
  cu_done :: bool
  cu_saw_eos :: bool

definition from_receiver :: "ServerPacket result list \<Rightarrow> TcpRawCursor" where
  "from_receiver rx = \<lparr> cu_rx = rx, cu_done = False, cu_saw_eos = False \<rparr>"

text \<open>The loop of \<open>next_block\<close>: one frame at a time until a block, the end or an error.\<close>

fun next_frame :: "bool \<Rightarrow> ServerPacket result list \<Rightarrow> DecodedBlock option result \<times> TcpRawCursor" where
  "next_frame saw_eos [] =
    ((if saw_eos then Inr None else Inl (Custom ''tcp: connection actor exited before EndOfStream'')),
     \<lparr> cu_rx = [], cu_done = True, cu_saw_eos = saw_eos \<rparr>)"
| "next_frame saw_eos (f # fs) =
    (case f of
       Inl e \<Rightarrow> (Inl e, \<lparr> cu_rx = fs, cu_done = True, cu_saw_eos = saw_eos \<rparr>)
     | Inr p \<Rightarrow>
         (case p of
            PkEndOfStream \<Rightarrow> (Inr None, \<lparr> cu_rx = fs, cu_done = True, cu_saw_eos = True \<rparr>)
          | PkDataBlock block \<Rightarrow> (Inr (Some block), \<lparr> cu_rx = fs, cu_done = False, cu_saw_eos = saw_eos \<rparr>)
          | PkData table_name num_columns num_rows columns \<Rightarrow>
              (Inr (Some \<lparr> db_columns = [], db_schema = columns, db_num_rows = unat num_rows \<rparr>),
               \<lparr> cu_rx = fs, cu_done = False, cu_saw_eos = saw_eos \<rparr>)
          | _ \<Rightarrow> next_frame saw_eos fs))"

definition next_block :: "TcpRawCursor \<Rightarrow> DecodedBlock option result \<times> TcpRawCursor" where
  "next_block c = (if cu_done c then (Inr None, c) else next_frame (cu_saw_eos c) (cu_rx c))"

lemma next_frame_shrinks:
  "next_frame eos fs = (Inr (Some b), c) \<Longrightarrow> length (cu_rx c) < length fs"
proof (induction eos fs rule: next_frame.induct)
  case (2 eos f fs)
  then show ?case by (cases f) (auto split: ServerPacket.splits intro: less_SucI)
qed (simp split: if_splits)

text \<open>The \<open>while let\<close> of \<open>fetch_blocks\<close> in tcp/query.rs.\<close>

function collect_blocks :: "TcpRawCursor \<Rightarrow> DecodedBlock list result" where
  "collect_blocks c =
    (case next_block c of
       (Inl e, c') \<Rightarrow> Inl e
     | (Inr None, c') \<Rightarrow> Inr []
     | (Inr (Some block), c') \<Rightarrow> tri (collect_blocks c') (\<lambda>blocks. Inr (block # blocks)))"
  by pat_completeness auto

termination
  by (relation "measure (\<lambda>c. length (cu_rx c))")
     (auto simp: next_block_def dest: next_frame_shrinks [OF sym] split: if_splits)

declare collect_blocks.simps [simp del]

definition fetch_blocks :: "ServerPacket result list \<Rightarrow> DecodedBlock list result" where
  "fetch_blocks frames = collect_blocks (from_receiver frames)"

section \<open>What is collected\<close>

text \<open>The block a packet carries, if any.\<close>

definition block_of :: "ServerPacket \<Rightarrow> DecodedBlock option" where
  "block_of p = (case p of PkDataBlock b \<Rightarrow> Some b
     | PkData _ _ num_rows columns \<Rightarrow> Some \<lparr> db_columns = [], db_schema = columns, db_num_rows = unat num_rows \<rparr>
     | _ \<Rightarrow> None)"

lemma collect_step:
  assumes "\<not> cu_done c" "cu_rx c = Inr p # fs" "p \<noteq> PkEndOfStream"
  shows "collect_blocks c =
    (case block_of p of None \<Rightarrow> collect_blocks (c\<lparr> cu_rx := fs \<rparr>)
     | Some b \<Rightarrow> tri (collect_blocks (c\<lparr> cu_rx := fs \<rparr>)) (\<lambda>bs. Inr (b # bs)))"
proof -
  have c: "c\<lparr> cu_rx := fs \<rparr> = \<lparr> cu_rx = fs, cu_done = False, cu_saw_eos = cu_saw_eos c \<rparr>" using assms(1) by simp
  show ?thesis using assms unfolding c
    by (subst collect_blocks.simps) (cases p; simp add: next_block_def block_of_def;
        subst collect_blocks.simps; simp add: next_block_def)
qed

text \<open>The frames of a stream up to its end or its first error, as \<open>collect_blocks\<close> reads them.\<close>

fun blocks_of :: "ServerPacket result list \<Rightarrow> DecodedBlock list result" where
  "blocks_of [] = Inl (Custom ''tcp: connection actor exited before EndOfStream'')"
| "blocks_of (Inl e # fs) = Inl e"
| "blocks_of (Inr p # fs) =
    (if p = PkEndOfStream then Inr [] else
     case block_of p of None \<Rightarrow> blocks_of fs | Some b \<Rightarrow> tri (blocks_of fs) (\<lambda>bs. Inr (b # bs)))"

lemma fetch_blocks_eq: "fetch_blocks fs = blocks_of fs"
proof -
  have "collect_blocks \<lparr> cu_rx = fs, cu_done = False, cu_saw_eos = False \<rparr> = blocks_of fs"
  proof (induction fs rule: blocks_of.induct)
    case (3 p fs)
    show ?case
    proof (cases "p = PkEndOfStream")
      case True
      then show ?thesis by (subst collect_blocks.simps) (simp add: next_block_def)
    next
      case False
      then show ?thesis using 3 collect_step [of "\<lparr> cu_rx = Inr p # fs, cu_done = False, cu_saw_eos = False \<rparr>" p fs]
        by (simp split: option.splits)
    qed
  qed (subst collect_blocks.simps, simp add: next_block_def)+
  then show ?thesis by (simp add: fetch_blocks_def from_receiver_def)
qed

end
