(* ===== verification/Client.thy ===== *)
theory Client
  imports Pool ActorInvariant Cursor
begin

text \<open>
  The client: statements, streams and INSERT sessions over pooled connections (src/src/tcp/client_ext.rs), and
  what a borrower leaves behind in the connection it returns.
\<close>

section \<open>Operations on a pooled connection\<close>

definition DEFAULT_TCP_INSERT_BLOCK_ROWS :: u64 where "DEFAULT_TCP_INSERT_BLOCK_ROWS = 1000000"

definition poison_unless_server_rejected :: "error \<Rightarrow> unit act" where
  "poison_unless_server_rejected e = (case e of ServerException _ _ _ _ \<Rightarrow> aret () | _ \<Rightarrow> poison)"

text \<open>The outcome of one attempt at a statement; none when the caller has left.\<close>

definition query_once :: "string \<Rightarrow> string \<Rightarrow> kvs \<Rightarrow> kvs \<Rightarrow> unit result option act" where
  "query_once query_id query settings params =
    abind (handle (ExecuteQuery query_id query settings params)) (\<lambda>reply.
      case reply of
        Answer (Inl e) \<Rightarrow> abind (poison_unless_server_rejected e) (\<lambda>_. aret (Some (Inl e)))
      | Answer (Inr u) \<Rightarrow> aret (Some (Inr ()))
      | _ \<Rightarrow> aret None)"

text \<open>
  Each attempt acquires a connection and runs the statement on it, with what its environment does then; the task of a
  connection may be gone when the command is handed over.  An attempt that does not return ends the loop without an answer.
\<close>

definition query_attempt ::
    "(nat \<Rightarrow> bool) \<Rightarrow> (nat \<Rightarrow> event list) \<Rightarrow> string \<Rightarrow> string \<Rightarrow> kvs \<Rightarrow> kvs \<Rightarrow> nat \<Rightarrow> actor \<Rightarrow> unit option result" where
  "query_attempt gone events query_id query settings params i conn =
    (if gone i then Inl (Custom ''tcp: connection actor closed'')
     else case query_once query_id query settings params conn (events i) of
       Some (Some r, _, _) \<Rightarrow> map_sum id Some r
     | _ \<Rightarrow> Inr None)"

definition execute_query_via_pool ::
    "unit option retry_loop \<Rightarrow> (nat \<Rightarrow> PoolError + actor) \<Rightarrow> (nat \<Rightarrow> bool) \<Rightarrow> (nat \<Rightarrow> event list) \<Rightarrow>
     string \<Rightarrow> string \<Rightarrow> kvs \<Rightarrow> kvs \<Rightarrow> RetryPolicy option \<Rightarrow> bool \<Rightarrow> unit option result \<times> nat" where
  "execute_query_via_pool backon acquire gone events query_id query settings params retry idempotent =
    (let effective = (if idempotent then retry else None)
     in run_with_retry backon acquire effective (query_attempt gone events query_id query settings params))"

text \<open>
  Issuing a stream hands the command over and returns the cursor over the frames to come, with the connection it
  holds; it fails where the connection's task is gone.  What the actor then sends is what the cursor reads.
\<close>

definition execute_stream_cursor ::
    "bool \<Rightarrow> event list \<Rightarrow> string \<Rightarrow> string \<Rightarrow> kvs \<Rightarrow> kvs \<Rightarrow> actor \<Rightarrow> (TcpRawCursor \<times> actor) option result" where
  "execute_stream_cursor gone events query_id query settings params conn =
    (if gone then Inl (Custom ''tcp: connection actor closed'')
     else case handle (ExecuteStream query_id query settings params) conn events of
       Some (Frames frames, conn', _) \<Rightarrow> Inr (Some (from_receiver frames, conn'))
     | _ \<Rightarrow> Inr None)"

definition execute_stream_via_pool ::
    "(TcpRawCursor \<times> actor) option retry_loop \<Rightarrow> (nat \<Rightarrow> PoolError + actor) \<Rightarrow> (nat \<Rightarrow> bool) \<Rightarrow> (nat \<Rightarrow> event list) \<Rightarrow>
     string \<Rightarrow> string \<Rightarrow> kvs \<Rightarrow> kvs \<Rightarrow> RetryPolicy option \<Rightarrow> (TcpRawCursor \<times> actor) option result \<times> nat" where
  "execute_stream_via_pool backon acquire gone events query_id query settings params retry =
    run_with_retry backon acquire retry (\<lambda>i. execute_stream_cursor (gone i) (events i) query_id query settings params)"

record TcpInsertSession =
  is_settled :: bool
  is_server_columns :: kvs
  is_server_revision :: u64

text \<open>
  \<open>begin_insert\<close> on the handle poisons when its future is dropped: before the actor takes the command or after.
\<close>

datatype drop_point = Kept | DroppedBefore | DroppedAfter

definition begin_insert :: "drop_point \<Rightarrow> string \<Rightarrow> string \<Rightarrow> kvs \<Rightarrow> kvs \<Rightarrow> kvs result option act" where
  "begin_insert d query_id query settings params =
    (let opened = abind (handle (BeginInsert query_id query settings params)) (\<lambda>reply.
           aret (case reply of Columns r \<Rightarrow> Some r | _ \<Rightarrow> None))
     in case d of
       Kept \<Rightarrow> opened
     | DroppedBefore \<Rightarrow> abind poison (\<lambda>_. abind opened (\<lambda>_. aret None))
     | DroppedAfter \<Rightarrow> abind opened (\<lambda>_. abind poison (\<lambda>_. aret None)))"

definition insert_native_via_pool :: "drop_point \<Rightarrow> string \<Rightarrow> string \<Rightarrow> kvs \<Rightarrow> TcpInsertSession result option act" where
  "insert_native_via_pool d query_id sql settings =
    abind (begin_insert d query_id sql settings []) (\<lambda>r a.
      case r of
        None \<Rightarrow> aret None a
      | Some (Inl e) \<Rightarrow> abind (poison_unless_server_rejected e) (\<lambda>_. aret (Some (Inl e))) a
      | Some (Inr cols) \<Rightarrow> aret (Some (Inr \<lparr> is_settled = False, is_server_columns = cols, is_server_revision = ac_revision a \<rparr>)) a)"

definition answer_of :: "string \<Rightarrow> reply \<Rightarrow> unit result" where
  "answer_of what r = (case r of Answer x \<Rightarrow> x | _ \<Rightarrow> Inl (Custom (''tcp: connection actor dropped '' @ what @ '' reply'')))"

definition session_send_block :: "byte list \<Rightarrow> u64 \<Rightarrow> u64 \<Rightarrow> unit result act" where
  "session_send_block column_bytes num_columns num_rows =
    abind (handle (SendInsertBlock column_bytes num_columns num_rows)) (\<lambda>reply.
      case answer_of ''send_insert_block'' reply of
        Inl e \<Rightarrow> abind (poison_unless_server_rejected e) (\<lambda>_. aret (Inl e))
      | Inr _ \<Rightarrow> aret (Inr ()))"

definition session_finish :: "TcpInsertSession \<Rightarrow> (unit result \<times> TcpInsertSession) act" where
  "session_finish s =
    abind (handle FinishInsert) (\<lambda>reply.
      abind (case answer_of ''finish_insert'' reply of Inl e \<Rightarrow> poison_unless_server_rejected e | Inr _ \<Rightarrow> aret ()) (\<lambda>_.
        aret (answer_of ''finish_insert'' reply, s\<lparr> is_settled := True \<rparr>)))"

definition session_abort :: "TcpInsertSession \<Rightarrow> TcpInsertSession act" where
  "session_abort s = abind poison (\<lambda>_. aret (s\<lparr> is_settled := True \<rparr>))"

definition session_drop :: "TcpInsertSession \<Rightarrow> unit act" where
  "session_drop s = (if is_settled s then aret () else poison)"

section \<open>Borrowed connections\<close>

text \<open>
  Everything a borrower may do with a connection before it goes back to the pool.  A borrower may also leave while
  \<open>finish\<close> waits: the session is then dropped unsettled.
\<close>

datatype ending = Finish drop_point | Abort | Abandon

datatype use =
    PingUse
  | QueryUse string string kvs kvs
  | StreamUse string string kvs kvs
  | InsertUse drop_point string string kvs "(byte list \<times> u64 \<times> u64) list" ending

primrec session_blocks :: "(byte list \<times> u64 \<times> u64) list \<Rightarrow> unit act" where
  "session_blocks [] = aret ()"
| "session_blocks (b # bs) =
    abind (session_send_block (fst b) (fst (snd b)) (snd (snd b))) (\<lambda>_. session_blocks bs)"

definition end_session :: "ending \<Rightarrow> TcpInsertSession \<Rightarrow> unit act" where
  "end_session e s = (case e of
     Finish Kept \<Rightarrow> abind (session_finish s) (\<lambda>r. session_drop (snd r))
   | Finish DroppedBefore \<Rightarrow> abind (session_drop s) (\<lambda>_. abind (handle FinishInsert) (\<lambda>_. aret ()))
   | Finish DroppedAfter \<Rightarrow> abind (handle FinishInsert) (\<lambda>_. session_drop s)
   | Abort \<Rightarrow> abind (session_abort s) session_drop
   | Abandon \<Rightarrow> session_drop s)"

definition used :: "use \<Rightarrow> unit act" where
  "used u = (case u of
     PingUse \<Rightarrow> abind (handle Ping) (\<lambda>_. aret ())
   | QueryUse query_id query settings params \<Rightarrow> abind (query_once query_id query settings params) (\<lambda>_. aret ())
   | StreamUse query_id query settings params \<Rightarrow> abind (handle (ExecuteStream query_id query settings params)) (\<lambda>_. aret ())
   | InsertUse d query_id sql settings blocks e \<Rightarrow>
       abind (insert_native_via_pool d query_id sql settings) (\<lambda>r.
         case r of Some (Inr s) \<Rightarrow> abind (session_blocks blocks) (\<lambda>_. end_session e s) | _ \<Rightarrow> aret ()))"

text \<open>
  The connections a pool hands out: fresh ones, and those that came back from a borrower and were not refused then.
  The flag the pool looks at is the connection's when an INSERT comes back; a borrower of any other kind may have left
  while its command still ran, and the flag may then be set after the pool has looked.  The reader may set it at any
  time.
\<close>

definition seen_by_pool :: "use \<Rightarrow> actor \<Rightarrow> bool \<Rightarrow> bool" where
  "seen_by_pool u b seen \<longleftrightarrow> (case u of InsertUse _ _ _ _ _ _ \<Rightarrow> seen = ac_poisoned b | _ \<Rightarrow> seen \<longrightarrow> ac_poisoned b)"

inductive pooled :: "nat option \<Rightarrow> actor \<Rightarrow> bool" for lifetime where
  fresh: "pooled lifetime (spawn_with_config build revision read_timeout quota)"
| reused: "pooled lifetime a \<Longrightarrow> used u a es = Some ((), b, es') \<Longrightarrow> seen_by_pool u b seen \<Longrightarrow>
    recycle_refusal lifetime age (\<not> seen) = None \<Longrightarrow> c = b \<or> c = b\<lparr> ac_poisoned := True \<rparr> \<Longrightarrow> pooled lifetime c"

section \<open>Runs of borrowers\<close>

text \<open>
  What an action does to the actor is compositional in any relation that is: sequences of actions relate as their parts.
\<close>

definition along :: "(actor \<Rightarrow> actor \<Rightarrow> bool) \<Rightarrow> 'r act \<Rightarrow> bool" where
  "along R m \<longleftrightarrow> (\<forall>a es r b es'. m a es = Some (r, b, es') \<longrightarrow> R a b)"

lemma alongD: "along R m \<Longrightarrow> m a es = Some (r, b, es') \<Longrightarrow> R a b"
  unfolding along_def by blast

locale composable =
  fixes R :: "actor \<Rightarrow> actor \<Rightarrow> bool"
  assumes refl: "R a a"
    and trans: "R a b \<Longrightarrow> R b c \<Longrightarrow> R a c"
begin

lemma along_aret: "along R (aret x)"
  by (simp add: along_def aret_def refl)

lemma along_abind: "along R m \<Longrightarrow> (\<And>x. along R (f x)) \<Longrightarrow> along R (abind m f)"
  unfolding along_def abind_eq_Some by (meson trans)

lemma along_abind_state:
  assumes "along R m" "\<And>x a es r b es'. f x a es = Some (r, b, es') \<Longrightarrow> R a b"
  shows "along R (abind m f)"
  by (rule along_abind [OF assms(1)]) (auto simp: along_def intro: assms(2))

lemmas alongs = along_aret along_abind

end

definition same_state :: "actor \<Rightarrow> actor \<Rightarrow> bool" where
  "same_state a b \<longleftrightarrow> ac_state b = ac_state a"

interpretation run: composable "actor_step\<^sup>*\<^sup>*"
  by unfold_locales auto

interpretation stay: composable same_state
  by unfold_locales (auto simp: same_state_def)

lemma poison_runs: "along actor_step\<^sup>*\<^sup>* poison"
  by (auto simp: along_def poison_def actor_step_def intro: r_into_rtranclp)

lemma handle_runs: "along actor_step\<^sup>*\<^sup>* (handle cmd)"
  unfolding along_def actor_step_def by (intro allI impI r_into_rtranclp disjI1 exI)

lemmas runs = run.alongs poison_runs handle_runs

lemma reject_runs: "along actor_step\<^sup>*\<^sup>* (poison_unless_server_rejected e)"
  by (cases e) (simp_all add: poison_unless_server_rejected_def runs)

lemma begin_runs: "along actor_step\<^sup>*\<^sup>* (begin_insert d query_id query settings params)"
  unfolding begin_insert_def Let_def by (cases d) (auto intro!: runs)

lemma insert_runs: "along actor_step\<^sup>*\<^sup>* (insert_native_via_pool d query_id sql settings)"
  unfolding insert_native_via_pool_def
proof (rule run.along_abind_state [OF begin_runs])
  show "actor_step\<^sup>*\<^sup>* a b"
    if "(case x of None \<Rightarrow> aret None a
      | Some (Inl e) \<Rightarrow> abind (poison_unless_server_rejected e) (\<lambda>_. aret (Some (Inl e))) a
      | Some (Inr cols) \<Rightarrow> aret (Some (Inr \<lparr> is_settled = False, is_server_columns = cols, is_server_revision = ac_revision a \<rparr>)) a)
      es = Some (r, b, es')" for x a es r b es'
    using that by (auto simp: act_eqs dest: alongD [OF reject_runs] split: option.splits sum.splits)
qed

lemma blocks_run: "along actor_step\<^sup>*\<^sup>* (session_blocks bs)"
  by (induction bs) (auto simp: session_send_block_def intro!: runs reject_runs split: sum.split)

lemma end_runs: "along actor_step\<^sup>*\<^sup>* (end_session e s)"
  by (auto simp: end_session_def session_abort_def session_drop_def session_finish_def
      intro!: runs reject_runs split: ending.split drop_point.split sum.split)

lemma query_runs: "along actor_step\<^sup>*\<^sup>* (query_once query_id query settings params)"
  unfolding query_once_def by (auto intro!: runs reject_runs split: reply.split sum.split)

lemma used_runs: "along actor_step\<^sup>*\<^sup>* (used u)"
  by (auto simp: used_def intro!: runs query_runs insert_runs blocks_run end_runs split: use.split option.split sum.split)

section \<open>What a borrower leaves behind\<close>

lemma poison_stays: "along same_state poison" "along same_state (poisoned_with e)"
  by (auto simp: along_def poison_def poisoned_with_eq_Some same_state_def)

lemma write_stays: "along same_state (bounded_io limited bytes)"
  by (auto simp: along_def same_state_def dest: bounded_io_cases)

lemma issue_stays: "along same_state (issue_query query_id query settings params)"
  by (auto simp: along_def same_state_def sent_def statement_of_def
      dest!: issue_query_cases [where cmd = "ExecuteQuery query_id query settings params"])

lemma loops_stay: "along same_state ping_loop" "along same_state begin_loop" "along same_state query_loop" "along same_state stream_loop"
  by (auto simp: along_def same_state_def sent_def tore_def
      dest!: ping_loop_sent begin_loop_sent query_loop_sent stream_loop_sent)

lemmas stays = stay.alongs poison_stays write_stays issue_stays loops_stay

lemma do_stay:
  "along same_state do_ping"
  "along same_state (do_execute_query query_id query settings params)"
  "along same_state (do_execute_stream query_id query settings params)"
  "along same_state (do_begin_insert query_id query settings params)"
  by (auto simp: do_ping_def do_execute_query_def do_execute_stream_def do_begin_insert_def intro!: stays split: sum.split)

lemmas do_states = do_stay [THEN alongD, unfolded same_state_def]

lemma handle_stays_idle:
  assumes "handle cmd a es = Some (r, b, es')" "ac_state a = Idle" "\<And>q s k p. cmd \<noteq> BeginInsert q s k p"
  shows "ac_state b = Idle"
  using assms
  by (cases cmd) (auto simp: handle_def act_eqs dest!: do_states split: if_splits)

lemma begin_reply:
  assumes "handle (BeginInsert query_id query settings params) a es = Some (r, b, es')" "ac_state a = Idle"
  shows "\<exists>x. r = Columns x \<and> (\<forall>e. x = Inl e \<longrightarrow> ac_state b = Idle)"
proof (cases "ac_poisoned a")
  case True
  then show ?thesis using assms by (simp add: handle_def continues_insert_def reject_poisoned_def aret_eq_Some)
next
  case False
  with assms obtain x c fs where d: "do_begin_insert query_id query settings params a es = Some (x, c, fs)"
    and k: "(case x of Inl _ \<Rightarrow> aret (Columns x) | Inr _ \<Rightarrow> abind (set_state InsertActive) (\<lambda>_. aret (Columns x))) c fs = Some (r, b, es')"
    by (auto simp: handle_def abind_eq_Some)
  show ?thesis using do_states(4) [OF d] assms(2) k by (cases x) (auto simp: act_eqs)
qed

lemma handle_finish_idle:
  "handle FinishInsert a es = Some (r, b, es') \<Longrightarrow> ac_state b = Idle"
  by (cases "ac_state a") (auto simp: handle_def continues_insert_def act_eqs)

lemma poisoned_along: "along actor_step\<^sup>*\<^sup>* m \<Longrightarrow> m a es = Some (r, b, es') \<Longrightarrow> ac_poisoned a \<Longrightarrow> ac_poisoned b"
  by (rule poison.run_keeps) (rule alongD)

lemma begin_opened:
  assumes "begin_insert d query_id query settings params a es = Some (x, b, es')" "ac_state a = Idle"
  shows "(\<exists>cols. x = Some (Inr cols)) \<or> ac_state b = Idle \<or> ac_poisoned b"
proof (cases d)
  case Kept
  with assms(1) obtain r where "handle (BeginInsert query_id query settings params) a es = Some (r, b, es')"
    and "x = (case r of Columns r \<Rightarrow> Some r | _ \<Rightarrow> None)"
    by (auto simp: begin_insert_def act_eqs)
  moreover from this obtain y where "r = Columns y" "\<forall>e. y = Inl e \<longrightarrow> ac_state b = Idle" using begin_reply assms(2) by blast
  ultimately show ?thesis by (cases y) auto
next
  case DroppedBefore
  with assms(1) obtain r where "handle (BeginInsert query_id query settings params) (a\<lparr> ac_poisoned := True \<rparr>) es = Some (r, b, es')"
    by (auto simp: begin_insert_def act_eqs)
  then show ?thesis using poisoned_along [OF handle_runs] by fastforce
next
  case DroppedAfter
  then show ?thesis using assms(1) by (auto simp: begin_insert_def act_eqs)
qed

lemma insert_opened:
  assumes "insert_native_via_pool d query_id sql settings a es = Some (r, b, es')" "ac_state a = Idle"
  shows "(\<exists>s. r = Some (Inr s)) \<or> ac_state b = Idle \<or> ac_poisoned b"
proof -
  from assms(1) obtain x c fs where c: "begin_insert d query_id sql settings [] a es = Some (x, c, fs)"
    and k: "(case x of None \<Rightarrow> aret None c
        | Some (Inl e) \<Rightarrow> abind (poison_unless_server_rejected e) (\<lambda>_. aret (Some (Inl e))) c
        | Some (Inr cols) \<Rightarrow> aret (Some (Inr \<lparr> is_settled = False, is_server_columns = cols, is_server_revision = ac_revision c \<rparr>)) c) fs =
        Some (r, b, es')"
    by (auto simp: insert_native_via_pool_def abind_eq_Some)
  have "b = c \<or> b = c\<lparr> ac_poisoned := True \<rparr>" if "\<nexists>cols. x = Some (Inr cols)"
    using k that
    by (auto simp: act_eqs poison_unless_server_rejected_def split: option.splits sum.splits error.splits)
  then show ?thesis using begin_opened [OF c assms(2)] k by (cases "\<exists>cols. x = Some (Inr cols)") (auto simp: aret_eq_Some)
qed

lemma insert_unsettled: "insert_native_via_pool d query_id sql settings a es = Some (Some (Inr s), b, es') \<Longrightarrow> \<not> is_settled s"
  unfolding insert_native_via_pool_def abind_eq_Some by (elim exE conjE) (auto simp: act_eqs split: option.splits sum.splits)

lemma end_settles:
  assumes "end_session e s a es = Some (r, b, es')" "\<not> is_settled s"
  shows "ac_state b = Idle \<or> ac_poisoned b"
proof (cases "e = Finish Kept")
  case True
  with assms(1) obtain q c fs where "handle FinishInsert a es = Some (q, c, fs)"
    and "abind (case answer_of ''finish_insert'' q of Inl e \<Rightarrow> poison_unless_server_rejected e | Inr _ \<Rightarrow> aret ()) (\<lambda>_. aret ()) c fs = Some ((), b, es')"
    by (auto simp: end_session_def session_finish_def session_drop_def act_eqs)
  then have "ac_state c = Idle" "b = c \<or> b = c\<lparr> ac_poisoned := True \<rparr>"
    by (auto simp: act_eqs poison_unless_server_rejected_def dest: handle_finish_idle split: sum.splits error.splits)
  then show ?thesis by auto
next
  case False
  show ?thesis
    using assms False
    by (cases e rule: ending.exhaust; (cases "case e of Finish d \<Rightarrow> d | _ \<Rightarrow> Kept")?)
      (auto simp: end_session_def session_drop_def session_abort_def act_eqs dest: handle_finish_idle poisoned_along [OF handle_runs])
qed

lemma query_settles: "query_once query_id query settings params a es = Some (r, b, es') \<Longrightarrow> ac_state a = Idle \<Longrightarrow> ac_state b = Idle"
proof -
  assume "query_once query_id query settings params a es = Some (r, b, es')" "ac_state a = Idle"
  then obtain q c fs where c: "handle (ExecuteQuery query_id query settings params) a es = Some (q, c, fs)"
    and "(case q of Answer (Inl e) \<Rightarrow> abind (poison_unless_server_rejected e) (\<lambda>_. aret (Some (Inl e)))
      | Answer (Inr u) \<Rightarrow> aret (Some (Inr ())) | _ \<Rightarrow> aret None) c fs = Some (r, b, es')"
    by (auto simp: query_once_def abind_eq_Some)
  then have "b = c \<or> b = c\<lparr> ac_poisoned := True \<rparr>"
    by (auto simp: act_eqs poison_unless_server_rejected_def split: reply.splits sum.splits error.splits)
  then show ?thesis using handle_stays_idle [OF c \<open>ac_state a = Idle\<close>] by auto
qed

lemma used_settles:
  assumes "used u a es = Some (r, b, es')" "ac_state a = Idle"
  shows "ac_state b = Idle \<or> ac_poisoned b \<and> (\<exists>d q s k bs e. u = InsertUse d q s k bs e)"
proof (cases u)
  case (InsertUse d query_id sql settings blocks e)
  with assms(1) obtain x c fs where c: "insert_native_via_pool d query_id sql settings a es = Some (x, c, fs)"
    and k: "(case x of Some (Inr s) \<Rightarrow> abind (session_blocks blocks) (\<lambda>_. end_session e s) | _ \<Rightarrow> aret ()) c fs = Some (r, b, es')"
    by (auto simp: used_def abind_eq_Some)
  show ?thesis
  proof (cases "\<exists>s. x = Some (Inr s)")
    case True
    then obtain s where s: "x = Some (Inr s)" by blast
    then have "\<not> is_settled s" using c insert_unsettled by blast
    then show ?thesis using k s InsertUse by (auto simp: abind_eq_Some dest: end_settles)
  next
    case False
    then have "b = c" using k by (auto simp: act_eqs split: option.splits sum.splits)
    then show ?thesis using insert_opened [OF c assms(2)] False InsertUse by auto
  qed
qed (use assms in \<open>auto simp: used_def act_eqs dest: handle_stays_idle query_settles\<close>)

text \<open>
  C8: no borrower inherits another's INSERT.  Whatever the borrowers of a connection did with it, leaving in the middle
  of any of it included, a connection the pool hands out is idle, its wire holds whole packets in protocol order, and
  it serves commands from that state; or it has been poisoned since the pool looked, and refuses every command
  without touching the socket.
\<close>

theorem pooled_connection_usable:
  assumes "pooled lifetime a"
  shows "ac_state a = Idle \<and>
    (session (ac_revision a) Idle (ac_wire a) \<or>
     ac_poisoned a \<and> (\<forall>cmd es. \<exists>reply. handle cmd a es = Some (reply, a, es)))"
proof -
  have "ac_state a = Idle \<and> wire_ok (ac_revision a) a"
    using assms
  proof induction
    case (fresh build revision read_timeout quota)
    show ?case by (simp add: spawn_with_config_def wire_ok_def se_start)
  next
    case (reused a u es b es' seen age c)
    have "wire_ok (ac_revision a) b" using wire.run_keeps alongD [OF used_runs reused.hyps(2)] reused.IH by blast
    then have "wire_ok (ac_revision b) b" by (simp add: wire_ok_def)
    moreover have "ac_state b = Idle"
    proof (rule ccontr)
      assume "ac_state b \<noteq> Idle"
      then have "ac_poisoned b" "\<exists>d q s k bs e. u = InsertUse d q s k bs e"
        using used_settles [OF reused.hyps(2)] reused.IH by auto
      then have seen using reused.hyps(3) by (auto simp: seen_by_pool_def)
      then show False using reused.hyps(4) by (simp add: recycle_refusal_def split: if_splits)
    qed
    ultimately show ?case using reused.hyps(5) poison_ok by auto
  qed
  then show ?thesis
    unfolding wire_ok_def by (auto simp: handle_def aret_def continues_insert_def split: ConnectionCmd.split)
qed

definition after_ping :: actor where
  "after_ping = (spawn_with_config example_build 54473 None [])\<lparr> ac_wire := send_ping \<rparr>"

lemma after_ping_pooled: "pooled (Some 100) after_ping"
proof (rule pooled.reused [OF pooled.fresh])
  show "used PingUse (spawn_with_config example_build 54473 None []) [Message (Some (Packet PkPong))] = Some ((), after_ping, [])"
    by (simp add: used_def handle_def spawn_with_config_def continues_insert_def do_ping_def abind_def bounded_io_def after_ping_def aret_def)
  show "seen_by_pool PingUse after_ping False" by (simp add: seen_by_pool_def)
  show "recycle_refusal (Some 100) 7 (\<not> False) = None" by (simp add: recycle_refusal_def)
qed simp

theorem pooled_connection_usable_witness:
  "ac_state after_ping = Idle \<and> session (ac_revision after_ping) Idle (ac_wire after_ping)"
  using pooled_connection_usable [OF after_ping_pooled] by (simp add: after_ping_def spawn_with_config_def)

end
