(* ===== verification/Builder.thy ===== *)
theory Builder
  imports Pool
begin

text \<open>
  The client's configuration: the trust of a TLS client (src/src/tls.rs), and the builders of tcp/client.rs with the
  two values they keep up to date, the settings sent with every statement and the connection pool.
\<close>

section \<open>Trust\<close>

text \<open>
  What the TLS libraries and the file system provide: the PEM blocks of a file, each a certificate or unusable, or the
  text of the failure to read it; the anchor a certificate gives, if any; the certificates of the operating system;
  the compiled-in anchors; and the client configuration for a list of anchors.
\<close>

record ('c, 'a, 't) tls_env =
  te_pem_file :: "string \<Rightarrow> string + 'c option list"
  te_anchor :: "'c \<Rightarrow> 'a option"
  te_native_certs :: "'c list"
  te_webpki_roots :: "'a list"
  te_config :: "'a list \<Rightarrow> string + 't"

record TlsTrust =
  tt_native_roots :: bool
  tt_webpki_roots :: bool
  tt_extra_roots :: "string list"
  tt_extra_intermediates :: "string list"
  tt_exclusive :: bool

definition trust_default :: TlsTrust where
  "trust_default = \<lparr> tt_native_roots = True, tt_webpki_roots = True, tt_extra_roots = [], tt_extra_intermediates = [],
    tt_exclusive = False \<rparr>"

datatype 't TlsConfigSource = Explicit 't | Trust TlsTrust

definition add_parsable_certificates :: "('c, 'a, 't) tls_env \<Rightarrow> 'a list \<Rightarrow> 'c list \<Rightarrow> 'a list" where
  "add_parsable_certificates env store certs = store @ List.map_filter (te_anchor env) certs"

definition add_pem_file_certs :: "('c, 'a, 't) tls_env \<Rightarrow> 'a list \<Rightarrow> string \<Rightarrow> 'a list result" where
  "add_pem_file_certs env store path =
    (case te_pem_file env path of
       Inl e \<Rightarrow> Inl (Custom (''tls: cannot read CA file '' @ path @ '': '' @ e))
     | Inr blocks \<Rightarrow>
         (let certs = List.map_filter id blocks; store' = add_parsable_certificates env store certs;
              added = length store' - length store
          in if added = 0 then Inl (Custom (''tls: no usable certificates in CA file '' @ path)) else Inr store'))"

fun add_pem_files :: "('c, 'a, 't) tls_env \<Rightarrow> 'a list \<Rightarrow> string list \<Rightarrow> 'a list result" where
  "add_pem_files env store [] = Inr store"
| "add_pem_files env store (path # paths) =
    tri (add_pem_file_certs env store path) (\<lambda>store'. add_pem_files env store' paths)"

definition build_root_store :: "('c, 'a, 't) tls_env \<Rightarrow> TlsTrust \<Rightarrow> 'a list result" where
  "build_root_store env trust =
    tri (if \<not> tt_exclusive trust then
           (let s1 = (if tt_native_roots trust then add_parsable_certificates env [] (te_native_certs env) else [])
            in Inr (if tt_webpki_roots trust then s1 @ te_webpki_roots env else s1))
         else if tt_extra_roots trust = [] \<and> tt_extra_intermediates trust = [] then
           Inl (Custom ''tls: exclusive trust requested but no explicit CA files were supplied'')
         else Inr []) (\<lambda>store.
    tri (add_pem_files env store (tt_extra_roots trust)) (\<lambda>store.
    tri (add_pem_files env store (tt_extra_intermediates trust)) (\<lambda>store.
      if store = [] then Inl (Custom ''tls: resulting trust store is empty (no roots loaded)'') else Inr store)))"

definition build_config_with_roots :: "('c, 'a, 't) tls_env \<Rightarrow> 'a list \<Rightarrow> 't result" where
  "build_config_with_roots env roots =
    (case te_config env roots of Inl e \<Rightarrow> Inl (Custom (''tls: rustls config: '' @ e)) | Inr cfg \<Rightarrow> Inr cfg)"

definition build_client_config :: "('c, 'a, 't) tls_env \<Rightarrow> 't TlsConfigSource \<Rightarrow> 't result" where
  "build_client_config env src =
    (case src of Explicit cfg \<Rightarrow> Inr cfg
     | Trust trust \<Rightarrow> tri (build_root_store env trust) (build_config_with_roots env))"

section \<open>What is trusted\<close>

text \<open>The anchors of a file: those of its usable certificates.\<close>

definition file_anchors :: "('c, 'a, 't) tls_env \<Rightarrow> string \<Rightarrow> 'a set" where
  "file_anchors env path = (case te_pem_file env path of Inl _ \<Rightarrow> {} | Inr blocks \<Rightarrow> {a. \<exists>c. Some c \<in> set blocks \<and> te_anchor env c = Some a})"

lemma set_map_filter': "set (List.map_filter f xs) = {y. \<exists>x\<in>set xs. f x = Some y}"
  by (induction xs) (auto simp: List.map_filter_def)

lemma add_pem_file_anchors:
  assumes "add_pem_file_certs env store path = Inr store'"
  shows "set store' = set store \<union> file_anchors env path" "file_anchors env path \<noteq> {}"
proof -
  from assms obtain blocks where b: "te_pem_file env path = Inr blocks"
    and s: "store' = store @ List.map_filter (te_anchor env) (List.map_filter id blocks)"
    and n: "List.map_filter (te_anchor env) (List.map_filter id blocks) \<noteq> []"
    by (auto simp: add_pem_file_certs_def add_parsable_certificates_def Let_def split: sum.splits if_splits)
  have "set (List.map_filter (te_anchor env) (List.map_filter id blocks)) = file_anchors env path"
    by (auto simp: set_map_filter' file_anchors_def b)
  then show "set store' = set store \<union> file_anchors env path" "file_anchors env path \<noteq> {}"
    using s n by (metis set_append, metis set_empty)
qed

lemma add_pem_files_anchors:
  "add_pem_files env store paths = Inr store' \<Longrightarrow>
    set store' = set store \<union> (\<Union>p\<in>set paths. file_anchors env p) \<and> (\<forall>p\<in>set paths. file_anchors env p \<noteq> {})"
  by (induction paths arbitrary: store) (auto simp: tri_eq_Inr add_pem_file_anchors)

text \<open>The anchors a trust description asks for.\<close>

definition trusted_anchors :: "('c, 'a, 't) tls_env \<Rightarrow> TlsTrust \<Rightarrow> 'a set" where
  "trusted_anchors env trust =
    (if tt_exclusive trust then {} else
      (if tt_native_roots trust then {a. \<exists>c\<in>set (te_native_certs env). te_anchor env c = Some a} else {}) \<union>
      (if tt_webpki_roots trust then set (te_webpki_roots env) else {})) \<union>
    (\<Union>p\<in>set (tt_extra_roots trust @ tt_extra_intermediates trust). file_anchors env p)"

text \<open>
  The trust is exactly what was asked for.  When the trust of a client resolves, its anchors are those of the
  named files, with the operating system's and the compiled-in ones only where they are asked for and trust is not
  exclusive; there is at least one anchor, and every named file gave one, so that a missing or empty file never
  passes silently.  Exclusive trust without a file is refused.
\<close>

theorem trust_is_as_described:
  "(build_root_store env trust = Inr store \<longrightarrow>
     set store = trusted_anchors env trust \<and> store \<noteq> [] \<and>
     (\<forall>p\<in>set (tt_extra_roots trust @ tt_extra_intermediates trust). file_anchors env p \<noteq> {})) \<and>
   (tt_exclusive trust \<and> tt_extra_roots trust @ tt_extra_intermediates trust = [] \<longrightarrow>
     (\<exists>e. build_client_config env (Trust trust) = Inl e))"
proof (intro conjI impI)
  assume "build_root_store env trust = Inr store"
  then obtain s0 s1 where s0: "(if \<not> tt_exclusive trust then
           (let s1 = (if tt_native_roots trust then add_parsable_certificates env [] (te_native_certs env) else [])
            in Inr (if tt_webpki_roots trust then s1 @ te_webpki_roots env else s1))
         else if tt_extra_roots trust = [] \<and> tt_extra_intermediates trust = [] then
           Inl (Custom ''tls: exclusive trust requested but no explicit CA files were supplied'')
         else Inr []) = Inr s0"
    and s: "add_pem_files env s0 (tt_extra_roots trust) = Inr s1" "add_pem_files env s1 (tt_extra_intermediates trust) = Inr store"
    and "store \<noteq> []"
    unfolding build_root_store_def tri_eq_Inr by (elim exE conjE) (auto split: if_splits)
  note files = add_pem_files_anchors [OF s(1)] add_pem_files_anchors [OF s(2)]
  show "set store = trusted_anchors env trust" using files s0
    by (auto simp: trusted_anchors_def add_parsable_certificates_def set_map_filter' Let_def split: if_splits)
  show "store \<noteq> []" by fact
  show "\<forall>p\<in>set (tt_extra_roots trust @ tt_extra_intermediates trust). file_anchors env p \<noteq> {}" using files by auto
qed (auto simp: build_client_config_def build_root_store_def)

definition example_env :: "(nat, nat, nat list) tls_env" where
  "example_env = \<lparr> te_pem_file = (\<lambda>p. if p = ''ca.pem'' then Inr [None, Some 7] else Inl ''not found''),
    te_anchor = (\<lambda>c. if c = 0 then None else Some (c + 100)), te_native_certs = [0, 1], te_webpki_roots = [500],
    te_config = Inr \<rparr>"

definition own_ca :: TlsTrust where
  "own_ca = trust_default\<lparr> tt_extra_roots := [''ca.pem''], tt_exclusive := True \<rparr>"

theorem trust_is_as_described_witness:
  "build_root_store example_env own_ca = Inr [107] \<and> {107} = trusted_anchors example_env own_ca \<and>
   (\<exists>e. build_client_config example_env (Trust (own_ca\<lparr> tt_extra_roots := [] \<rparr>)) = Inl e)"
proof -
  have "build_root_store example_env own_ca = Inr [107]"
    by (simp add: build_root_store_def own_ca_def trust_default_def example_env_def add_pem_file_certs_def
        add_parsable_certificates_def List.map_filter_def)
  then show ?thesis
    using trust_is_as_described [of example_env own_ca "[107]"]
      trust_is_as_described [of example_env "own_ca\<lparr> tt_extra_roots := [] \<rparr>" "[]"]
    by (simp add: own_ca_def trust_default_def)
qed

section \<open>The client\<close>

record TcpClientConfig =
  cc_endpoints :: "string list"
  cc_kind :: ConnectKindConfig
  cc_handshake :: HandshakeConfig
  cc_pool :: PoolConfig
  cc_retry :: "RetryPolicy option"

text \<open>The pool is none until it is first used.\<close>

record 't TcpClient =
  tc_config :: TcpClientConfig
  tc_settings :: "(string \<times> string) list"
  tc_roles :: "string list"
  tc_json_as_string :: bool
  tc_tls :: "'t TlsConfigSource option"
  tc_query_settings :: "(string \<times> string) list"
  tc_pool :: "'t pool_setup option"

definition DATABASE :: string where "DATABASE = ''database''"
definition ROLE :: string where "ROLE = ''role''"
definition JSON_AS_STRING :: string where "JSON_AS_STRING = ''output_format_native_write_json_as_string''"

definition refresh_query_settings :: "'t TcpClient \<Rightarrow> 't TcpClient" where
  "refresh_query_settings c =
    (let out0 = [(DATABASE, hc_database (cc_handshake (tc_config c)))];
         out1 = (if tc_json_as_string c then out0 @ [(JSON_AS_STRING, ''1'')] else out0);
         out2 = out1 @ tc_settings c;
         out3 = out2 @ map (\<lambda>role. (ROLE, role)) (tc_roles c)
     in c\<lparr> tc_query_settings := out3 \<rparr>)"

definition discard_pool :: "'t TcpClient \<Rightarrow> 't TcpClient" where
  "discard_pool c = c\<lparr> tc_pool := None \<rparr>"

definition client_new :: "string \<Rightarrow> 't TcpClient" where
  "client_new addr = refresh_query_settings
    \<lparr> tc_config = \<lparr> cc_endpoints = [addr], cc_kind = PlainConfig, cc_handshake = handshake_default, cc_pool = pool_default, cc_retry = None \<rparr>,
      tc_settings = [], tc_roles = [], tc_json_as_string = True, tc_tls = None, tc_query_settings = [], tc_pool = None \<rparr>"

definition client_new_tls :: "string \<Rightarrow> string \<Rightarrow> 't TcpClient" where
  "client_new_tls addr server_name =
    (let this = client_new addr
     in discard_pool (this\<lparr> tc_config := (tc_config this)\<lparr> cc_kind := TlsConfig server_name \<rparr> \<rparr>))"

text \<open>The builders, one value for each; an empty list of addresses is refused by an assertion.\<close>

datatype 't builder =
    WithAddrs "string list"
  | WithDatabase string
  | WithUser string
  | WithPassword string
  | WithQuotaKey string
  | WithSetting string string
  | WithJsonAsString bool
  | WithRoles "string list"
  | WithRetry "RetryPolicy option"
  | WithPoolSize nat
  | WithPoolAcquireTimeout "nat option"
  | WithPoolCreateTimeout "nat option"
  | WithPoolMaxLifetime "nat option"
  | WithReadTimeout "nat option"
  | WithTlsConfig 't
  | WithTlsTrust TlsTrust

definition set_config :: "(TcpClientConfig \<Rightarrow> TcpClientConfig) \<Rightarrow> 't TcpClient \<Rightarrow> 't TcpClient" where
  "set_config f c = c\<lparr> tc_config := f (tc_config c) \<rparr>"

definition set_handshake :: "(HandshakeConfig \<Rightarrow> HandshakeConfig) \<Rightarrow> 't TcpClient \<Rightarrow> 't TcpClient" where
  "set_handshake f = set_config (\<lambda>cfg. cfg\<lparr> cc_handshake := f (cc_handshake cfg) \<rparr>)"

definition set_pool :: "(PoolConfig \<Rightarrow> PoolConfig) \<Rightarrow> 't TcpClient \<Rightarrow> 't TcpClient" where
  "set_pool f = set_config (\<lambda>cfg. cfg\<lparr> cc_pool := f (cc_pool cfg) \<rparr>)"

fun build_step :: "'t builder \<Rightarrow> 't TcpClient \<Rightarrow> 't TcpClient option" where
  "build_step (WithAddrs endpoints) c =
    (if endpoints = [] then None else Some (discard_pool (set_config (\<lambda>cfg. cfg\<lparr> cc_endpoints := endpoints \<rparr>) c)))"
| "build_step (WithDatabase database) c =
    Some (discard_pool (refresh_query_settings (set_handshake (\<lambda>h. h\<lparr> hc_database := database \<rparr>) c)))"
| "build_step (WithUser user) c = Some (discard_pool (set_handshake (\<lambda>h. h\<lparr> hc_user := user \<rparr>) c))"
| "build_step (WithPassword password) c = Some (discard_pool (set_handshake (\<lambda>h. h\<lparr> hc_password := password \<rparr>) c))"
| "build_step (WithQuotaKey quota_key) c = Some (discard_pool (set_handshake (\<lambda>h. h\<lparr> hc_quota_key := quota_key \<rparr>) c))"
| "build_step (WithSetting name val) c = Some (refresh_query_settings (c\<lparr> tc_settings := tc_settings c @ [(name, val)] \<rparr>))"
| "build_step (WithJsonAsString on) c = Some (refresh_query_settings (c\<lparr> tc_json_as_string := on \<rparr>))"
| "build_step (WithRoles roles) c = Some (refresh_query_settings (c\<lparr> tc_roles := roles \<rparr>))"
| "build_step (WithRetry retry) c = Some (set_config (\<lambda>cfg. cfg\<lparr> cc_retry := retry \<rparr>) c)"
| "build_step (WithPoolSize n) c = Some (discard_pool (set_pool (\<lambda>p. p\<lparr> pc_max_size := n \<rparr>) c))"
| "build_step (WithPoolAcquireTimeout d) c = Some (discard_pool (set_pool (\<lambda>p. p\<lparr> pc_acquire_timeout := d \<rparr>) c))"
| "build_step (WithPoolCreateTimeout d) c = Some (discard_pool (set_pool (\<lambda>p. p\<lparr> pc_create_timeout := d \<rparr>) c))"
| "build_step (WithPoolMaxLifetime d) c = Some (discard_pool (set_pool (\<lambda>p. p\<lparr> pc_max_lifetime := d \<rparr>) c))"
| "build_step (WithReadTimeout d) c = Some (discard_pool (set_pool (\<lambda>p. p\<lparr> pc_read_timeout := d \<rparr>) c))"
| "build_step (WithTlsConfig cfg) c = Some (discard_pool (c\<lparr> tc_tls := Some (Explicit cfg) \<rparr>))"
| "build_step (WithTlsTrust trust) c = Some (discard_pool (c\<lparr> tc_tls := Some (Trust trust) \<rparr>))"

text \<open>The trust the pool is built with, and the pool itself: none where the code panics.\<close>

definition resolve_tls :: "('c, 'a, 't) tls_env \<Rightarrow> 't TcpClient \<Rightarrow> 't TcpTls" where
  "resolve_tls env c =
    (case tc_tls c of None \<Rightarrow> NotConfigured
     | Some src \<Rightarrow> (case build_client_config env src of Inr cfg \<Rightarrow> Resolved cfg | Inl _ \<Rightarrow> ConfiguredButFailed))"

definition built_pool :: "('c, 'a, 't) tls_env \<Rightarrow> 't TcpClient \<Rightarrow> 't pool_setup option" where
  "built_pool env c =
    (case build_pool (build_client_config env (Trust trust_default)) (cc_endpoints (tc_config c)) (cc_kind (tc_config c))
        (cc_handshake (tc_config c)) (cc_pool (tc_config c)) (resolve_tls env c) of
       Some (Inr p) \<Rightarrow> Some p
     | _ \<Rightarrow> None)"

definition pool :: "('c, 'a, 't) tls_env \<Rightarrow> 't TcpClient \<Rightarrow> ('t pool_setup \<times> 't TcpClient) option" where
  "pool env c =
    (case tc_pool c of
       Some p \<Rightarrow> Some (p, c)
     | None \<Rightarrow> map_option (\<lambda>p. (p, c\<lparr> tc_pool := Some p \<rparr>)) (built_pool env c))"

definition insert_settings :: "'t TcpClient \<Rightarrow> (string \<times> string) list" where
  "insert_settings c = tc_query_settings c"

text \<open>A life of a client: builders and uses in any order.\<close>

datatype 't life = Built "'t builder" | PoolUsed

fun live :: "('c, 'a, 't) tls_env \<Rightarrow> 't life list \<Rightarrow> 't TcpClient \<Rightarrow> 't TcpClient option" where
  "live env [] c = Some c"
| "live env (Built b # ls) c = Option.bind (build_step b c) (live env ls)"
| "live env (PoolUsed # ls) c = Option.bind (pool env c) (\<lambda>r. live env ls (snd r))"

section \<open>Nothing stale\<close>

definition current :: "('c, 'a, 't) tls_env \<Rightarrow> 't TcpClient \<Rightarrow> bool" where
  "current env c \<longleftrightarrow> cc_endpoints (tc_config c) \<noteq> [] \<and> tc_query_settings c = tc_query_settings (refresh_query_settings c) \<and>
    (\<forall>p. tc_pool c = Some p \<longrightarrow> built_pool env c = Some p)"

lemmas builder_simps = refresh_query_settings_def discard_pool_def set_config_def set_handshake_def set_pool_def Let_def
  built_pool_def resolve_tls_def

lemma build_step_current: "build_step b c = Some c' \<Longrightarrow> current env c \<Longrightarrow> current env c'"
  by (cases b) (auto simp: current_def builder_simps split: if_splits)

lemma pool_current:
  assumes "current env c" "pool env c = Some (p, c')"
  shows "built_pool env c = Some p \<and> current env c'"
  using assms by (auto simp: pool_def current_def builder_simps split: option.splits)

lemma live_current: "live env ls c = Some c' \<Longrightarrow> current env c \<Longrightarrow> current env c'"
proof (induction env ls c rule: live.induct)
  case (2 env b ls c)
  then show ?case by (auto simp: bind_eq_Some_conv intro: build_step_current)
next
  case (3 env ls c)
  then show ?case by (fastforce simp: bind_eq_Some_conv dest: pool_current)
qed simp

lemma new_current: "current env (client_new addr)" "current env (client_new_tls addr name)"
  by (simp_all add: current_def client_new_def client_new_tls_def builder_simps)

text \<open>
  C36: a client never acts on a stale configuration.  After any sequence of builder calls and uses, the settings sent
  with a statement are the database, the JSON flag if it is on, every session setting in the order given and every
  role, all as last configured; and the pool a use gets is the one that would be built from the endpoints,
  transport, handshake, pool dials and trust as they are now.
\<close>

theorem client_never_stale:
  assumes "c0 = client_new addr \<or> c0 = client_new_tls addr name" "live env ls c0 = Some c"
  shows "insert_settings c = (DATABASE, hc_database (cc_handshake (tc_config c))) #
      (if tc_json_as_string c then [(JSON_AS_STRING, ''1'')] else []) @ tc_settings c @ map (Pair ROLE) (tc_roles c) \<and>
    map_option fst (pool env c) = built_pool env c"
proof -
  have "current env c" using live_current [OF assms(2)] assms(1) new_current by blast
  then show ?thesis
    by (auto simp: current_def insert_settings_def refresh_query_settings_def Let_def pool_def option.map_comp o_def option.map_ident split: option.split)
qed

theorem client_never_stale_witness:
  "(\<exists>c :: nat list TcpClient. live example_env [Built (WithSetting ''max_threads'' ''4''), PoolUsed, Built (WithDatabase ''logs'')]
      (client_new ''db:9000'') = Some c \<and>
    insert_settings c = [(DATABASE, ''logs''), (JSON_AS_STRING, ''1''), (''max_threads'', ''4'')] \<and>
    map_option fst (pool example_env c) = built_pool example_env c)"
proof -
  let ?ls = "[Built (WithSetting ''max_threads'' ''4''), PoolUsed, Built (WithDatabase ''logs'')] :: nat list life list"
  obtain c where l: "live example_env ?ls (client_new ''db:9000'') = Some c" "tc_settings c = [(''max_threads'', ''4'')]"
    "tc_roles c = []" "tc_json_as_string c" "hc_database (cc_handshake (tc_config c)) = ''logs''"
    by (simp add: client_new_def builder_simps pool_def build_pool_def)
  from client_never_stale [OF disjI1 [OF refl] l(1)] have
    "insert_settings c = [(DATABASE, ''logs''), (JSON_AS_STRING, ''1''), (''max_threads'', ''4'')]"
    "map_option fst (pool example_env c) = built_pool example_env c"
    by (simp_all add: l(2-5))
  then show ?thesis using l(1) by blast
qed

end
