(* ===== verification/ColumnRoundtrip.thy ===== *)
theory ColumnRoundtrip
  imports BlockEncode ColumnReader
begin

text \<open>
  The encoder of src/src/native/encode.rs and the reader of src/src/native/columns.rs are inverse:
  the cells of every insertable column are written and read back unchanged.
\<close>

section \<open>Well-formed columns\<close>

text \<open>
  A cell of type \<open>t\<close>: bytes that the RowBinary walker passes over exactly, wherever they stand in a
  row that fits the address space.
\<close>

definition cell :: "ColumnType \<Rightarrow> byte list \<Rightarrow> bool" where
  "cell t v \<longleftrightarrow> (\<forall>pre post. length (pre @ v @ post) < 2 ^ 64 \<longrightarrow>
    rb_advance (pre @ v @ post) t (length pre) = Inr (length pre + length v))"

definition scalar_cell :: "ColumnType \<Rightarrow> byte list \<Rightarrow> bool" where
  "scalar_cell t v \<longleftrightarrow>
    (case fixed_size t of Some n \<Rightarrow> length v = n
     | None \<Rightarrow> t \<in> {String, Json} \<and> (\<exists>p. length p \<le> MAX_STRING_SIZE \<and> v = put_string p))"

definition scalar :: "ColumnType \<Rightarrow> bool" where
  "scalar t \<longleftrightarrow> fixed_size t \<noteq> None \<or> t \<in> {String, Json}"

definition option_cell :: "byte list option \<Rightarrow> byte list" where
  "option_cell w = (case w of None \<Rightarrow> [1] | Some v \<Rightarrow> 0 # v)"

definition array_cell :: "byte list list \<Rightarrow> byte list" where
  "array_cell ws = put_var_uint (of_nat (length ws)) @ concat ws"

definition tuple_cells :: "nat \<Rightarrow> byte list list list \<Rightarrow> byte list list" where
  "tuple_cells n cols = map (\<lambda>i. concat (map (\<lambda>c. c ! i) cols)) [0..<n]"

text \<open>
  The columns the encoder is for, by their cells: the types the server lets a client insert, with
  canonical null flags.  A \<open>LowCardinality\<close> column holds fewer than \<open>2 ^ 32\<close> rows and, when its
  inner type is nullable, no value equal to the inner type's default (that value shares the index of
  NULL).
\<close>

inductive column :: "ColumnType \<Rightarrow> byte list list \<Rightarrow> bool" where
  col_scalar: "scalar t \<Longrightarrow> (\<And>v. v \<in> set vs \<Longrightarrow> scalar_cell t v) \<Longrightarrow> column t vs"
| col_nullable:
    "column t (map (case_option (rb_write_default t) id) ws) \<Longrightarrow> column (Nullable t) (map option_cell ws)"
| col_lc:
    "scalar t \<Longrightarrow> (\<And>v. v \<in> set vs \<Longrightarrow> scalar_cell t v) \<Longrightarrow> length vs < 2 ^ 32 \<Longrightarrow>
      column (LowCardinality t) vs"
| col_lc_nullable:
    "scalar t \<Longrightarrow> (\<And>v. Some v \<in> set ws \<Longrightarrow> scalar_cell t v \<and> v \<noteq> rb_write_default t) \<Longrightarrow>
      length ws < 2 ^ 32 - 1 \<Longrightarrow> column (LowCardinality (Nullable t)) (map option_cell ws)"
| col_array:
    "column t (concat wss) \<Longrightarrow> length (concat wss) < 2 ^ 64 \<Longrightarrow>
      (\<And>ws. ws \<in> set wss \<Longrightarrow> length (array_cell ws) < 2 ^ 64) \<Longrightarrow>
      column (Array t) (map array_cell wss)"
| col_map:
    "column k (map fst (concat pss)) \<Longrightarrow> column x (map snd (concat pss)) \<Longrightarrow>
      length (concat pss) < 2 ^ 64 \<Longrightarrow>
      (\<And>ps. ps \<in> set pss \<Longrightarrow> length (array_cell (map (\<lambda>(a, b). a @ b) ps)) < 2 ^ 64) \<Longrightarrow>
      column (Map k x) (map (\<lambda>ps. array_cell (map (\<lambda>(a, b). a @ b) ps)) pss)"
| col_tuple:
    "list_all2 column ts cols \<Longrightarrow> (\<And>c. c \<in> set cols \<Longrightarrow> length c = n) \<Longrightarrow>
      (\<And>v. v \<in> set (tuple_cells n cols) \<Longrightarrow> length v < 2 ^ 64) \<Longrightarrow>
      column (Tuple ts) (tuple_cells n cols)"

text \<open>The levels of descent a type needs.\<close>

function (sequential) levels :: "ColumnType \<Rightarrow> nat" where
  "levels t = (case t of
     Nullable a \<Rightarrow> Suc (levels a)
   | LowCardinality a \<Rightarrow> 2
   | Array a \<Rightarrow> Suc (levels a)
   | Map a b \<Rightarrow> Suc (max (levels a) (levels b))
   | Tuple ts \<Rightarrow> Suc (foldr max (map levels ts) 0)
   | _ \<Rightarrow> 1)"
  by pat_completeness auto
termination levels
  by (relation "measure size") (auto simp: less_Suc_eq_le size_list_estimation')

declare levels.simps [simp del]

section \<open>Cells are walked exactly\<close>

lemma cellI:
  "(\<And>pre post. length (pre @ v @ post) < 2 ^ 64 \<Longrightarrow>
     rb_advance (pre @ v @ post) t (length pre) = Inr (length pre + length v)) \<Longrightarrow> cell t v"
  by (simp add: cell_def)

lemma cellD:
  "cell t v \<Longrightarrow> length (pre @ v @ post) < 2 ^ 64 \<Longrightarrow>
    rb_advance (pre @ v @ post) t (length pre) = Inr (length pre + length v)"
  by (simp add: cell_def)

lemma rb_read_varuint_put:
  "rb_read_varuint (pre @ put_var_uint c @ post) (length pre) = Inr (c, length (put_var_uint c))"
  by (simp add: rb_read_varuint_def get_var_uint_enc)

lemma rb_jump_in: "e < 2 ^ 64 \<Longrightarrow> a + b = e \<Longrightarrow> e \<le> length data \<Longrightarrow> rb_jump data (checked_add a b) = Inr e"
  by (auto simp: rb_jump_def checked_add_def)

lemma cell_scalar:
  assumes "scalar_cell t v"
  shows "cell t v"
proof (rule cellI)
  fix pre post :: "byte list"
  assume len: "length (pre @ v @ post) < 2 ^ 64"
  show "rb_advance (pre @ v @ post) t (length pre) = Inr (length pre + length v)"
  proof (cases "fixed_size t")
    case (Some n)
    with assms have "length v = n" by (simp add: scalar_cell_def)
    with Some len show ?thesis
      by (subst rb_advance.simps) (simp add: rb_jump_in)
  next
    case None
    then obtain p where p: "t \<in> {String, Json}" "length p \<le> MAX_STRING_SIZE" "v = put_string p"
      using assms by (auto simp: scalar_cell_def)
    have u: "unat (of_nat (length p) :: u64) = length p"
      using p(2) by (simp add: MAX_STRING_SIZE_def unat_u64_of_nat)
    note v = rb_read_varuint_put [of pre "of_nat (length p)" "p @ post"]
    have "checked_add (length pre) (length (put_var_uint (of_nat (length p)))) =
        Some (length pre + length (put_var_uint (of_nat (length p))))"
      using len by (simp add: p(3) put_string_def checked_add_def)
    then show ?thesis
      using None p(1) len u by (subst rb_advance.simps) (auto simp: v rb_jump_in p(3) put_string_def)
  qed
qed

lemma repeat_cells:
  assumes "\<And>w. w \<in> set ws \<Longrightarrow> cell t w" "length (pre @ concat ws @ post) < 2 ^ 64"
  shows "repeat_result (length ws) (rb_advance (pre @ concat ws @ post) t) (length pre) =
    Inr (length pre + length (concat ws))"
  using assms
proof (induction ws arbitrary: pre)
  case (Cons w ws)
  have "rb_advance (pre @ w @ concat ws @ post) t (length pre) = Inr (length (pre @ w))"
    using Cons.prems by (subst cellD) auto
  with Cons.IH [of "pre @ w"] Cons.prems show ?case by simp
qed simp

lemma cell_array:
  assumes "\<And>w. w \<in> set ws \<Longrightarrow> cell t w" "length ws < 2 ^ 64"
  shows "cell (Array t) (array_cell ws)"
proof (rule cellI)
  fix pre post :: "byte list"
  assume len: "length (pre @ array_cell ws @ post) < 2 ^ 64"
  let ?c = "of_nat (length ws) :: u64" let ?d = "pre @ put_var_uint ?c @ concat ws @ post"
  have "repeat_result (length ws) (rb_advance ?d t) (length (pre @ put_var_uint ?c)) =
      Inr (length (pre @ put_var_uint ?c) + length (concat ws))"
    using repeat_cells [OF assms(1), of ws "pre @ put_var_uint ?c" post] len
    by (simp add: array_cell_def)
  then show "rb_advance (pre @ array_cell ws @ post) (Array t) (length pre) =
      Inr (length pre + length (array_cell ws))"
    using rb_read_varuint_put [of pre ?c "concat ws @ post"] assms(2)
    by (subst rb_advance.simps) (simp add: fixed_size_def array_cell_def unat_u64_of_nat add.assoc)
qed

lemma rb_advance_composite:
  "rb_advance data (Nullable t) pos =
    (if pos \<ge> length data then Inl rb_truncated
     else if data ! pos = 0 then rb_advance data t (pos + 1) else Inr (pos + 1))"
  "rb_advance data (LowCardinality t) pos = rb_advance data t pos"
  "rb_advance data (Tuple ts) pos = fold_result (rb_advance data) ts pos"
  by (subst rb_advance.simps, simp add: fixed_size_def)+

lemma cell_nullable: "w = None \<or> cell t (the w) \<Longrightarrow> cell (Nullable t) (option_cell w)"
proof (rule cellI)
  fix pre post :: "byte list"
  assume w: "w = None \<or> cell t (the w)" and len: "length (pre @ option_cell w @ post) < 2 ^ 64"
  show "rb_advance (pre @ option_cell w @ post) (Nullable t) (length pre) =
      Inr (length pre + length (option_cell w))"
  proof (cases w)
    case None
    then show ?thesis by (simp add: rb_advance_composite option_cell_def nth_append)
  next
    case (Some v)
    then have "rb_advance ((pre @ [0]) @ v @ post) t (length (pre @ [0])) = Inr (length (pre @ [0]) + length v)"
      using w len by (intro cellD) (auto simp: option_cell_def)
    then show ?thesis using Some by (simp add: rb_advance_composite option_cell_def nth_append)
  qed
qed

lemma cell_lc: "cell t v \<Longrightarrow> cell (LowCardinality t) v"
  by (simp add: cell_def rb_advance_composite)

lemma cell_pair_step:
  assumes "cell k a" "cell v b" "length (pre @ a @ b @ post) < 2 ^ 64"
  shows "tri (rb_advance (pre @ a @ b @ post) k (length pre)) (rb_advance (pre @ a @ b @ post) v) =
    Inr (length pre + length (a @ b))"
  using cellD [OF assms(1), of pre "b @ post"] cellD [OF assms(2), of "pre @ a" post] assms(3)
  by (simp add: add.assoc)

lemma repeat_pairs:
  assumes "\<And>a b. (a, b) \<in> set ps \<Longrightarrow> cell k a \<and> cell v b"
    and "length (pre @ concat (map (\<lambda>(a, b). a @ b) ps) @ post) < 2 ^ 64"
  shows "repeat_result (length ps)
      (\<lambda>p. tri (rb_advance (pre @ concat (map (\<lambda>(a, b). a @ b) ps) @ post) k p)
            (rb_advance (pre @ concat (map (\<lambda>(a, b). a @ b) ps) @ post) v)) (length pre) =
    Inr (length pre + length (concat (map (\<lambda>(a, b). a @ b) ps)))"
  using assms
proof (induction ps arbitrary: pre)
  case (Cons p ps)
  obtain a b where p: "p = (a, b)" by (cases p)
  let ?rest = "concat (map (\<lambda>(a, b). a @ b) ps) @ post"
  have "tri (rb_advance (pre @ a @ b @ ?rest) k (length pre)) (rb_advance (pre @ a @ b @ ?rest) v) =
      Inr (length (pre @ a @ b))"
    using Cons.prems p by (subst cell_pair_step) auto
  moreover have "\<And>a b. (a, b) \<in> set ps \<Longrightarrow> cell k a \<and> cell v b"
    using Cons.prems(1) by (meson list.set_intros(2))
  note Cons.IH [of "pre @ a @ b", OF this]
  ultimately show ?case using Cons.prems(2) p by (simp add: add.assoc)
qed simp

lemma cell_map:
  assumes "\<And>a b. (a, b) \<in> set ps \<Longrightarrow> cell k a \<and> cell v b" "length ps < 2 ^ 64"
  shows "cell (Map k v) (array_cell (map (\<lambda>(a, b). a @ b) ps))"
proof (rule cellI)
  fix pre post :: "byte list"
  let ?w = "map (\<lambda>(a, b). a @ b) ps" let ?c = "of_nat (length ps) :: u64"
  assume len: "length (pre @ array_cell ?w @ post) < 2 ^ 64"
  let ?d = "pre @ put_var_uint ?c @ concat ?w @ post"
  have "repeat_result (length ps) (\<lambda>p. tri (rb_advance ?d k p) (rb_advance ?d v))
      (length (pre @ put_var_uint ?c)) = Inr (length (pre @ put_var_uint ?c) + length (concat ?w))"
    using repeat_pairs [OF assms(1), of ps "pre @ put_var_uint ?c" post] len
    by (simp add: array_cell_def)
  then show "rb_advance (pre @ array_cell ?w @ post) (Map k v) (length pre) =
      Inr (length pre + length (array_cell ?w))"
    using rb_read_varuint_put [of pre ?c "concat ?w @ post"] assms(2)
    by (subst rb_advance.simps) (simp add: fixed_size_def array_cell_def unat_u64_of_nat add.assoc)
qed

lemma fold_cells:
  assumes "list_all2 cell ts ws" "length (pre @ concat ws @ post) < 2 ^ 64"
  shows "fold_result (rb_advance (pre @ concat ws @ post)) ts (length pre) =
    Inr (length pre + length (concat ws))"
  using assms
proof (induction arbitrary: pre rule: list_all2_induct)
  case (Cons t ts w ws)
  have "rb_advance (pre @ w @ concat ws @ post) t (length pre) = Inr (length (pre @ w))"
    using Cons by (subst cellD) auto
  with Cons.IH [of "pre @ w"] Cons.prems show ?case by simp
qed simp

lemma cell_tuple: "list_all2 cell ts ws \<Longrightarrow> cell (Tuple ts) (concat ws)"
  by (rule cellI) (simp add: rb_advance_composite fold_cells)

lemma tuple_cells_nth: "i < n \<Longrightarrow> tuple_cells n cols ! i = concat (map (\<lambda>c. c ! i) cols)"
  by (simp add: tuple_cells_def)

lemma tuple_cells_length [simp]: "length (tuple_cells n cols) = n"
  by (simp add: tuple_cells_def)

lemma column_cells: "column t vs \<Longrightarrow> v \<in> set vs \<Longrightarrow> cell t v"
proof (induction arbitrary: v rule: column.induct)
  case (col_scalar t vs)
  then show ?case by (simp add: cell_scalar)
next
  case (col_nullable t ws)
  then obtain w where w: "w \<in> set ws" "v = option_cell w" by auto
  then have "w = None \<or> cell t (the w)"
    using col_nullable.IH [of "the w"] by (cases w) force+
  with w show ?case by (simp add: cell_nullable)
next
  case (col_lc t vs)
  then show ?case by (simp add: cell_lc cell_scalar)
next
  case (col_lc_nullable t ws)
  then obtain w where w: "w \<in> set ws" "v = option_cell w" by auto
  then have "w = None \<or> cell t (the w)"
    using col_lc_nullable by (cases w) (auto intro: cell_scalar)
  with w show ?case by (simp add: cell_lc cell_nullable)
next
  case (col_array t wss)
  then obtain ws where ws: "ws \<in> set wss" "v = array_cell ws" by auto
  have "length ws \<le> length (concat wss)"
    using ws(1) by (simp add: length_concat member_le_sum_list)
  with ws col_array show ?case by (auto intro!: cell_array)
next
  case (col_map k pss x)
  then obtain ps where ps: "ps \<in> set pss" "v = array_cell (map (\<lambda>(a, b). a @ b) ps)" by auto
  have "length ps \<le> length (concat pss)"
    using ps(1) by (simp add: length_concat member_le_sum_list)
  moreover have "cell k a \<and> cell x b" if "(a, b) \<in> set ps" for a b
    using that ps(1) col_map.IH(1) [of a] col_map.IH(2) [of b] by (force simp: image_iff)
  ultimately show ?case using ps(2) col_map(3) by (auto intro!: cell_map)
next
  case (col_tuple ts cols n)
  then obtain i where i: "i < n" "v = concat (map (\<lambda>c. c ! i) cols)"
    by (auto simp: tuple_cells_def)
  have "list_all2 cell ts (map (\<lambda>c. c ! i) cols)"
    unfolding list_all2_conv_all_nth
  proof (intro conjI allI impI)
    show "length ts = length (map (\<lambda>c. c ! i) cols)" using col_tuple(1) by (simp add: list_all2_lengthD)
    fix j assume "j < length ts"
    then have "column (ts ! j) (cols ! j) \<and> (\<forall>x. x \<in> set (cols ! j) \<longrightarrow> cell (ts ! j) x)" "j < length cols"
      using col_tuple(1) by (auto simp: list_all2_conv_all_nth)
    then show "cell (ts ! j) (map (\<lambda>c. c ! i) cols ! j)" using i(1) col_tuple(2) by simp
  qed
  with i show ?case by (simp add: cell_tuple)
qed

section \<open>Cutting a value into its cells\<close>

lemma rb_slice_cell:
  "cell t v \<Longrightarrow> length (pre @ v @ post) < 2 ^ 64 \<Longrightarrow>
    rb_slice (pre @ v @ post) t (length pre) = Inr (v, length (pre @ v))"
  by (simp add: rb_slice_def cellD)

lemma rb_slices_cells:
  assumes "\<And>w. w \<in> set ws \<Longrightarrow> cell t w" "length (pre @ concat ws @ post) < 2 ^ 64"
  shows "rb_slices (length ws) (pre @ concat ws @ post) t (length pre) = Inr ws"
  using assms
proof (induction ws arbitrary: pre)
  case (Cons w ws)
  have "rb_slice (pre @ w @ concat ws @ post) t (length pre) = Inr (w, length (pre @ w))"
    using Cons.prems by (intro rb_slice_cell) auto
  with Cons.IH [of "pre @ w"] Cons.prems show ?case by simp
qed simp

lemma rb_pairs_cells:
  assumes "\<And>a b. (a, b) \<in> set ps \<Longrightarrow> cell k a \<and> cell x b"
    and "length (pre @ concat (map (\<lambda>(a, b). a @ b) ps) @ post) < 2 ^ 64"
  shows "rb_pairs (length ps) (pre @ concat (map (\<lambda>(a, b). a @ b) ps) @ post) k x (length pre) = Inr ps"
  using assms
proof (induction ps arbitrary: pre)
  case (Cons p ps)
  obtain a b where p: "p = (a, b)" by (cases p)
  let ?rest = "concat (map (\<lambda>(a, b). a @ b) ps) @ post"
  have "rb_slice (pre @ a @ b @ ?rest) k (length pre) = Inr (a, length (pre @ a))"
    using Cons.prems p by (intro rb_slice_cell) auto
  moreover have "rb_slice ((pre @ a) @ b @ ?rest) x (length (pre @ a)) = Inr (b, length ((pre @ a) @ b))"
    using Cons.prems p by (intro rb_slice_cell) auto
  moreover have "\<And>a b. (a, b) \<in> set ps \<Longrightarrow> cell k a \<and> cell x b"
    using Cons.prems(1) by (meson list.set_intros(2))
  note Cons.IH [of "(pre @ a) @ b", OF this]
  ultimately show ?case using Cons.prems(2) p by simp
qed simp

lemma rb_fields_cells:
  assumes "list_all2 cell ts ws" "length (pre @ concat ws @ post) < 2 ^ 64"
  shows "rb_fields (pre @ concat ws @ post) ts (length pre) = Inr (ws, length (pre @ concat ws))"
  using assms
proof (induction arbitrary: pre rule: list_all2_induct)
  case (Cons t ts w ws)
  have "rb_slice (pre @ w @ concat ws @ post) t (length pre) = Inr (w, length (pre @ w))"
    using Cons by (intro rb_slice_cell) auto
  with Cons.IH [of "pre @ w"] Cons.prems show ?case by simp
qed simp

section \<open>Written and read back\<close>

definition written_back :: "ColumnType \<Rightarrow> byte list list \<Rightarrow> byte list \<Rightarrow> bool" where
  "written_back t vs bytes \<longleftrightarrow> write_col_values vs t = Inr bytes \<and>
    (\<forall>l rest. levels t \<le> l \<longrightarrow> l \<le> Suc MAX_READ_DEPTH \<longrightarrow> l \<noteq> Suc MAX_READ_DEPTH \<or> vs \<noteq> [] \<longrightarrow>
      read_column_at l t (length vs) (bytes @ rest) = Inr (vs, rest))"

lemma levels_pos: "0 < levels t"
  by (subst levels.simps) (simp split: ColumnType.split)

lemma written_backI:
  assumes "write_col_values vs t = Inr bytes"
    and "\<And>l rest. levels t \<le> Suc l \<Longrightarrow> l \<le> MAX_READ_DEPTH \<Longrightarrow>
      read_column_body (read_column_at l) t (length vs) (bytes @ rest) = Inr (vs, rest)"
  shows "written_back t vs bytes"
  unfolding written_back_def
proof (intro conjI allI impI)
  fix l rest
  assume l: "levels t \<le> l" "l \<le> Suc MAX_READ_DEPTH" "l \<noteq> Suc MAX_READ_DEPTH \<or> vs \<noteq> []"
  then obtain m where "l = Suc m" using levels_pos [of t] by (cases l) auto
  then show "read_column_at l t (length vs) (bytes @ rest) = Inr (vs, rest)"
    using l assms(2) [of m rest] by auto
qed (rule assms(1))

lemma written_back_inner:
  "written_back t vs bytes \<Longrightarrow> levels t \<le> l \<Longrightarrow> l \<le> MAX_READ_DEPTH \<Longrightarrow>
    read_column_at l t (length vs) (bytes @ rest) = Inr (vs, rest)"
  by (simp add: written_back_def)

lemma written_back_bind:
  "written_back t vs bytes \<Longrightarrow> levels t \<le> l \<Longrightarrow> l \<le> MAX_READ_DEPTH \<Longrightarrow>
    rbind (read_column_at l t (length vs)) f (bytes @ rest) = f vs rest"
  by (simp add: rbind_def written_back_inner)

lemma read_fixed_column_concat:
  "(\<And>v. v \<in> set vs \<Longrightarrow> length v = n) \<Longrightarrow> read_fixed_column (length vs) n (concat vs @ rest) = Inr (vs, rest)"
proof (induction vs)
  case (Cons v vs)
  then show ?case
    using Cons.prems [of v] by (simp add: read_fixed_column_def rbind_read_exact_append rbind_Inr)
qed (simp add: read_fixed_column_def)

lemma read_string_column_concat:
  "(\<And>v. v \<in> set vs \<Longrightarrow> \<exists>p. length p \<le> MAX_STRING_SIZE \<and> v = put_string p) \<Longrightarrow>
    read_string_column (length vs) (concat vs @ rest) = Inr (vs, rest)"
proof (induction vs)
  case (Cons v vs)
  obtain p where "length p \<le> MAX_STRING_SIZE" "v = put_string p" using Cons.prems [of v] by auto
  with Cons show ?case
    by (simp add: read_string_column_def rowbinary_string_def rbind_def str.dec_enc)
qed (simp add: read_string_column_def)

lemma scalar_written_back:
  assumes "scalar t" "\<And>v. v \<in> set vs \<Longrightarrow> scalar_cell t v"
  shows "written_back t vs (concat vs)"
proof (rule written_backI)
  show "write_col_values vs t = Inr (concat vs)"
    using assms(1) by (subst write_col_values.simps) (auto simp: scalar_def)
  fix l rest
  show "read_column_body (read_column_at l) t (length vs) (concat vs @ rest) = Inr (vs, rest)"
  proof (cases "fixed_size t")
    case (Some n)
    then have "read_column_body (read_column_at l) t (length vs) = read_fixed_column (length vs) n"
      by (cases t) (auto simp: read_column_body_def fixed_size_def)
    then show ?thesis using assms(2) Some by (simp add: read_fixed_column_concat scalar_cell_def)
  next
    case None
    then have "t = String \<or> t = Json" using assms(1) by (auto simp: scalar_def)
    then have "read_column_body (read_column_at l) t (length vs) = read_string_column (length vs)"
      by (auto simp: read_column_body_def)
    then show ?thesis using assms(2) None by (simp add: read_string_column_concat scalar_cell_def)
  qed
qed

lemma nullable_written_back:
  assumes "written_back t (map (case_option (rb_write_default t) id) ws) bytes"
  shows "written_back (Nullable t) (map option_cell ws)
    (map (\<lambda>w. case w of None \<Rightarrow> 1 | Some v \<Rightarrow> 0) ws @ bytes)"
proof (rule written_backI)
  let ?flag = "\<lambda>w :: byte list option. case w of None \<Rightarrow> 1 :: byte | Some v \<Rightarrow> 0"
  let ?inner = "map (case_option (rb_write_default t) id) ws"
  have "each_result (\<lambda>v. case v of [] \<Rightarrow> Inl rb_truncated
      | flag # rest \<Rightarrow> Inr (flag, if flag = 0 then rest else rb_write_default t)) (map option_cell ws) =
    Inr (map (\<lambda>w. (?flag w, case_option (rb_write_default t) id w)) ws)"
    by (induction ws) (auto simp: option_cell_def split: option.splits)
  then show "write_col_values (map option_cell ws) (Nullable t) = Inr (map ?flag ws @ bytes)"
    using assms by (subst write_col_values.simps) (simp add: fixed_size_def written_back_def o_def)
  fix l rest
  assume l: "levels (Nullable t) \<le> Suc l" "l \<le> MAX_READ_DEPTH"
  have "map2 nullable_cell (map ?flag ws) ?inner = map option_cell ws"
    by (induction ws) (auto simp: nullable_cell_def option_cell_def split: option.splits)
  moreover have "levels t \<le> l" using l by (simp add: levels.simps [of "Nullable t"])
  ultimately show "read_column_body (read_column_at l) (Nullable t) (length (map option_cell ws))
      ((map ?flag ws @ bytes) @ rest) = Inr (map option_cell ws, rest)"
    using written_back_inner [OF assms, of l rest] l
    by (simp add: read_column_body_def read_nullable_column_def read_exact_append rbind_def)
qed

subsection \<open>Arrays and maps\<close>

text \<open>The cumulative element counts, from \<open>a\<close> on.\<close>

fun sums :: "nat \<Rightarrow> 'a list list \<Rightarrow> nat list" where
  "sums a [] = []"
| "sums a (ws # wss) = (a + length ws) # sums (a + length ws) wss"

lemma sums_length [simp]: "length (sums a wss) = length wss"
  by (induction wss arbitrary: a) auto

lemma sums_le: "x \<in> set (sums a wss) \<Longrightarrow> x \<le> a + length (concat wss)"
  by (induction wss arbitrary: a) fastforce+

lemma last_sums: "wss \<noteq> [] \<Longrightarrow> last (sums a wss) = a + length (concat wss)"
proof (induction wss arbitrary: a)
  case (Cons ws wss)
  show ?case
  proof (cases "wss = []")
    case False
    then have "sums (a + length ws) wss \<noteq> []" using sums_length [of "a + length ws" wss] by force
    then show ?thesis using Cons.IH [OF False, of "a + length ws"] by (simp add: add.assoc)
  qed simp
qed simp

lemma last_or_0_sums: "last_or_0 (sums 0 wss) = length (concat wss)"
  using last_sums [of wss 0] by (cases wss) (auto simp: last_or_0_def)

lemma cumulative_sums:
  "cumulative (of_nat a) (map (\<lambda>ws. of_nat (length ws)) wss) = map of_nat (sums a wss)"
proof (induction wss arbitrary: a)
  case (Cons ws wss)
  from Cons [of "a + length ws"] show ?case by (simp add: add.commute)
qed simp

lemma put_offsets_read:
  assumes "length (concat wss) < 2 ^ 64"
  shows "read_offsets (length wss)
      (put_offsets (cumulative 0 (map (\<lambda>ws. of_nat (length ws)) wss)) @ rest) = Inr (sums 0 wss, rest)"
proof -
  have "unat (of_nat x :: u64) = x" if "x \<in> set (sums 0 wss)" for x
    using sums_le [OF that] assms by (intro unat_u64_of_nat) simp
  then have "put_offsets (cumulative 0 (map (\<lambda>ws. of_nat (length ws)) wss)) =
      concat (map (le_bytes 8) (sums 0 wss))"
    using cumulative_sums [of 0 wss] by (simp add: put_offsets_def o_def cong: map_cong)
  moreover have "x < 256 ^ 8" if "x \<in> set (sums 0 wss)" for x
    using sums_le [OF that] assms by simp
  ultimately show ?thesis
    using le.read_times_enc [of "sums 0 wss" 8 rest] by (simp add: read_offsets_def)
qed

lemma cut_rows_sums:
  "cut_rows what (pre @ concat wss) (length pre) (sums (length pre) wss) = Inr (map array_cell wss)"
proof (induction wss arbitrary: pre)
  case (Cons ws wss)
  have "cut_rows what ((pre @ ws) @ concat wss) (length (pre @ ws)) (sums (length (pre @ ws)) wss) =
      Inr (map array_cell wss)" by (rule Cons)
  then show ?case by (simp add: checked_span_def array_cell_def)
qed simp

text \<open>What the encoder makes of the rows of an array column.\<close>

lemma write_array:
  assumes cells: "\<And>w. w \<in> set (concat wss) \<Longrightarrow> cell t w"
    and len: "length (concat wss) < 2 ^ 64" "\<And>ws. ws \<in> set wss \<Longrightarrow> length (array_cell ws) < 2 ^ 64"
  shows "\<And>ws. ws \<in> set wss \<Longrightarrow> tri (rb_read_varuint (array_cell ws) 0) (\<lambda>(count, pos).
      tri (rb_slices (unat count) (array_cell ws) t pos) (\<lambda>elems. Inr (count, elems))) = Inr (of_nat (length ws), ws)"
    and "write_col_values (map array_cell wss) (Array t) = tri (write_col_values (concat wss) t) (\<lambda>bytes.
      Inr (put_offsets (cumulative 0 (map (\<lambda>ws. of_nat (length ws)) wss)) @ bytes))"
proof -
  let ?f = "\<lambda>v. tri (rb_read_varuint v 0) (\<lambda>(count, pos).
      tri (rb_slices (unat count) v t pos) (\<lambda>elems. Inr (count, elems)))"
  show row: "?f (array_cell ws) = Inr (of_nat (length ws), ws)" if ws: "ws \<in> set wss" for ws
  proof -
    have "length ws \<le> length (concat wss)" using ws by (simp add: length_concat member_le_sum_list)
    then have "unat (of_nat (length ws) :: u64) = length ws" using len(1) by (intro unat_u64_of_nat) simp
    moreover have "rb_slices (length ws) (put_var_uint (of_nat (length ws)) @ concat ws @ []) t
        (length (put_var_uint (of_nat (length ws)))) = Inr ws"
      using ws cells len(2) [OF ws] by (intro rb_slices_cells) (auto simp: array_cell_def)
    ultimately show ?thesis
      using rb_read_varuint_put [of "[]" "of_nat (length ws)" "concat ws"] by (simp add: array_cell_def)
  qed
  have "each_result ?f (map array_cell wss) = Inr (map (\<lambda>ws. (of_nat (length ws), ws)) wss)"
    using row by (induction wss) auto
  then show "write_col_values (map array_cell wss) (Array t) = tri (write_col_values (concat wss) t) (\<lambda>bytes.
      Inr (put_offsets (cumulative 0 (map (\<lambda>ws. of_nat (length ws)) wss)) @ bytes))"
    by (subst write_col_values.simps) (simp add: fixed_size_def o_def)
qed

lemma array_written_back:
  assumes wb: "written_back t (concat wss) bytes"
    and cells: "\<And>w. w \<in> set (concat wss) \<Longrightarrow> cell t w"
    and len: "length (concat wss) < 2 ^ 64" "\<And>ws. ws \<in> set wss \<Longrightarrow> length (array_cell ws) < 2 ^ 64"
  shows "written_back (Array t) (map array_cell wss)
    (put_offsets (cumulative 0 (map (\<lambda>ws. of_nat (length ws)) wss)) @ bytes)"
proof (rule written_backI)
  show "write_col_values (map array_cell wss) (Array t) =
      Inr (put_offsets (cumulative 0 (map (\<lambda>ws. of_nat (length ws)) wss)) @ bytes)"
    using wb write_array(2) [OF cells len] by (simp add: written_back_def)
  fix l rest
  assume l: "levels (Array t) \<le> Suc l" "l \<le> MAX_READ_DEPTH"
  then have "levels t \<le> l" by (simp add: levels.simps [of "Array t"])
  then show "read_column_body (read_column_at l) (Array t) (length (map array_cell wss))
      ((put_offsets (cumulative 0 (map (\<lambda>ws. of_nat (length ws)) wss)) @ bytes) @ rest) =
      Inr (map array_cell wss, rest)"
    using written_back_inner [OF wb, of l rest] l(2) cut_rows_sums [of "''Array''" "[]" wss]
    by (simp add: read_column_body_def read_array_column_def rbind_def put_offsets_read [OF len(1)]
        last_or_0_sums)
qed

lemma map2_append_pairs: "map2 (@) (map fst ps) (map snd ps) = map (\<lambda>(a, b). a @ b) ps"
  by (induction ps) auto

lemma sums_map: "sums a (map (map f) wss) = sums a wss"
  by (induction wss arbitrary: a) auto

lemma write_map:
  assumes cells: "\<And>a b. (a, b) \<in> set (concat pss) \<Longrightarrow> cell k a \<and> cell x b"
    and len: "length (concat pss) < 2 ^ 64"
      "\<And>ps. ps \<in> set pss \<Longrightarrow> length (array_cell (map (\<lambda>(a, b). a @ b) ps)) < 2 ^ 64"
  shows "\<And>ps. ps \<in> set pss \<Longrightarrow> tri (rb_read_varuint (array_cell (map (\<lambda>(a, b). a @ b) ps)) 0) (\<lambda>(count, pos).
      tri (rb_pairs (unat count) (array_cell (map (\<lambda>(a, b). a @ b) ps)) k x pos) (\<lambda>ps. Inr (count, ps))) = Inr (of_nat (length ps), ps)"
    and "write_col_values (map (\<lambda>ps. array_cell (map (\<lambda>(a, b). a @ b) ps)) pss) (Map k x) =
      tri (write_col_values (map fst (concat pss)) k) (\<lambda>keys. tri (write_col_values (map snd (concat pss)) x) (\<lambda>vals.
        Inr (put_offsets (cumulative 0 (map (\<lambda>ws. of_nat (length ws)) pss)) @ keys @ vals)))"
proof -
  let ?j = "map (\<lambda>(a, b). a @ b) :: (byte list \<times> byte list) list \<Rightarrow> byte list list"
  let ?f = "\<lambda>v. tri (rb_read_varuint v 0) (\<lambda>(count, pos).
      tri (rb_pairs (unat count) v k x pos) (\<lambda>ps. Inr (count, ps)))"
  show row: "?f (array_cell (?j ps)) = Inr (of_nat (length ps), ps)" if ps: "ps \<in> set pss" for ps
  proof -
    have "length ps \<le> length (concat pss)" using ps by (simp add: length_concat member_le_sum_list)
    then have "unat (of_nat (length ps) :: u64) = length ps" using len(1) by (intro unat_u64_of_nat) simp
    moreover have "rb_pairs (length ps) (put_var_uint (of_nat (length ps)) @ concat (?j ps) @ []) k x
        (length (put_var_uint (of_nat (length ps)))) = Inr ps"
      using ps cells len(2) [OF ps] by (intro rb_pairs_cells) (auto simp: array_cell_def)
    ultimately show ?thesis
      using rb_read_varuint_put [of "[]" "of_nat (length ps)" "concat (?j ps)"]
      by (simp add: array_cell_def)
  qed
  have "each_result ?f (map (\<lambda>ps. array_cell (?j ps)) pss) = Inr (map (\<lambda>ps. (of_nat (length ps), ps)) pss)"
    using row by (induction pss) auto
  then show "write_col_values (map (\<lambda>ps. array_cell (?j ps)) pss) (Map k x) =
      tri (write_col_values (map fst (concat pss)) k) (\<lambda>keys. tri (write_col_values (map snd (concat pss)) x) (\<lambda>vals.
        Inr (put_offsets (cumulative 0 (map (\<lambda>ws. of_nat (length ws)) pss)) @ keys @ vals)))"
    by (subst write_col_values.simps) (simp add: fixed_size_def o_def)
qed

lemma map_written_back:
  assumes wb: "written_back k (map fst (concat pss)) kb" "written_back x (map snd (concat pss)) xb"
    and cells: "\<And>a b. (a, b) \<in> set (concat pss) \<Longrightarrow> cell k a \<and> cell x b"
    and len: "length (concat pss) < 2 ^ 64"
      "\<And>ps. ps \<in> set pss \<Longrightarrow> length (array_cell (map (\<lambda>(a, b). a @ b) ps)) < 2 ^ 64"
  shows "written_back (Map k x) (map (\<lambda>ps. array_cell (map (\<lambda>(a, b). a @ b) ps)) pss)
    (put_offsets (cumulative 0 (map (\<lambda>ws. of_nat (length ws)) pss)) @ kb @ xb)"
proof (rule written_backI)
  let ?j = "map (\<lambda>(a, b). a @ b) :: (byte list \<times> byte list) list \<Rightarrow> byte list list"
  show "write_col_values (map (\<lambda>ps. array_cell (?j ps)) pss) (Map k x) =
      Inr (put_offsets (cumulative 0 (map (\<lambda>ws. of_nat (length ws)) pss)) @ kb @ xb)"
    using wb write_map(2) [OF cells len] by (simp add: written_back_def)
  fix l rest
  assume l: "levels (Map k x) \<le> Suc l" "l \<le> MAX_READ_DEPTH"
  then have lv: "levels k \<le> l" "levels x \<le> l" by (simp_all add: levels.simps [of "Map k x"])
  have "cut_rows ''Map'' (concat (map ?j pss)) 0 (sums 0 (map ?j pss)) = Inr (map array_cell (map ?j pss))"
    using cut_rows_sums [of "''Map''" "[]" "map ?j pss"] by simp
  then have cut: "cut_rows ''Map'' (map2 (@) (map fst (concat pss)) (map snd (concat pss))) 0 (sums 0 pss) =
      Inr (map (\<lambda>ps. array_cell (?j ps)) pss)"
    unfolding map2_append_pairs sums_map by (simp add: map_concat o_def)
  show "read_column_body (read_column_at l) (Map k x) (length (map (\<lambda>ps. array_cell (?j ps)) pss))
      ((put_offsets (cumulative 0 (map (\<lambda>ws. of_nat (length ws)) pss)) @ kb @ xb) @ rest) =
      Inr (map (\<lambda>ps. array_cell (?j ps)) pss, rest)"
    using written_back_inner [OF wb(1) lv(1) l(2), of "xb @ rest", unfolded length_map]
      written_back_inner [OF wb(2) lv(2) l(2), of rest, unfolded length_map] cut
    by (simp add: read_column_body_def read_map_column_def rbind_def put_offsets_read [OF len(1)]
        last_or_0_sums)
qed

subsection \<open>Tuples\<close>

lemma append_cells_nth:
  "length rows = length cells \<Longrightarrow> append_cells rows cells = map2 (@) rows cells"
  by (induction rows cells rule: append_cells.induct) auto

lemma foldl_append_cells:
  "(\<And>c. c \<in> set cols \<Longrightarrow> length c = n) \<Longrightarrow> length rows = n \<Longrightarrow>
    foldl append_cells rows cols = map (\<lambda>i. rows ! i @ concat (map (\<lambda>c. c ! i) cols)) [0..<n]"
proof (induction cols arbitrary: rows)
  case Nil
  then show ?case by (simp add: list_eq_iff_nth_eq)
next
  case (Cons c cols)
  then have "length c = n" by simp
  then have "append_cells rows c = map2 (@) rows c" using Cons.prems by (simp add: append_cells_nth)
  moreover have "foldl append_cells (map2 (@) rows c) cols =
      map (\<lambda>i. map2 (@) rows c ! i @ concat (map (\<lambda>c. c ! i) cols)) [0..<n]"
    using Cons \<open>length c = n\<close> by (intro Cons.IH) auto
  ultimately show ?case using Cons.prems \<open>length c = n\<close> by simp
qed

lemma columns_of_rows:
  assumes "\<And>c. c \<in> set cols \<Longrightarrow> length c = n" "length cols = m"
  shows "columns_of m (map (\<lambda>i. map (\<lambda>c. c ! i) cols) [0..<n]) = cols"
  using assms by (auto simp: columns_of_def column_of_def list_eq_iff_nth_eq)

lemma fields_levels: "t \<in> set ts \<Longrightarrow> levels t \<le> foldr max (map levels ts) 0"
  by (induction ts) auto

lemma write_fields:
  "list_all2 (\<lambda>(t, c) b. written_back t c b) (zip ts cols) bs \<Longrightarrow> length ts = length cols \<Longrightarrow>
    each_result (\<lambda>(cells, t). write_col_values cells t) (zip cols ts) = Inr bs"
proof (induction ts arbitrary: cols bs)
  case (Cons t ts)
  then obtain c cs b bs' where "cols = c # cs" "bs = b # bs'" by (cases cols; cases bs) auto
  with Cons show ?case by (auto simp: written_back_def)
qed simp

lemma read_fields:
  "list_all2 (\<lambda>(t, c) b. written_back t c b) (zip ts cols) bs \<Longrightarrow> length ts = length cols \<Longrightarrow>
    (\<And>c. c \<in> set cols \<Longrightarrow> length c = n) \<Longrightarrow> (\<And>t. t \<in> set ts \<Longrightarrow> levels t \<le> l) \<Longrightarrow> l \<le> MAX_READ_DEPTH \<Longrightarrow>
    read_each (\<lambda>t. read_column_at l t n) ts (concat bs @ rest) = Inr (cols, rest)"
proof (induction ts arbitrary: cols bs)
  case (Cons t ts)
  then obtain c cs b bs' where cs: "cols = c # cs" "bs = b # bs'" by (cases cols; cases bs) auto
  then have "written_back t c b" "length c = n" "levels t \<le> l" using Cons.prems by auto
  then have "read_column_at l t n (b @ concat bs' @ rest) = Inr (c, concat bs' @ rest)"
    using written_back_inner [of t c b l] Cons.prems(5) by simp
  moreover have "read_each (\<lambda>t. read_column_at l t n) ts (concat bs' @ rest) = Inr (cs, rest)"
    using Cons cs by auto
  ultimately show ?case using cs by (simp add: rbind_def)
qed simp

lemma write_tuple:
  assumes cells: "\<And>i. i < n \<Longrightarrow> list_all2 cell ts (map (\<lambda>c. c ! i) cols)" "length ts = length cols"
    and len: "\<And>c. c \<in> set cols \<Longrightarrow> length c = n" "\<And>v. v \<in> set (tuple_cells n cols) \<Longrightarrow> length v < 2 ^ 64"
  shows "\<And>i. i < n \<Longrightarrow> rb_fields (concat (map (\<lambda>c. c ! i) cols)) ts 0 =
      Inr (map (\<lambda>c. c ! i) cols, length (concat (map (\<lambda>c. c ! i) cols)))"
    and "write_col_values (tuple_cells n cols) (Tuple ts) =
      tri (each_result (\<lambda>(cells, t). write_col_values cells t) (zip cols ts)) (\<lambda>outs. Inr (concat outs))"
proof -
  let ?row = "\<lambda>i. map (\<lambda>c. c ! i) cols"
  show row: "rb_fields (concat (?row i)) ts 0 = Inr (?row i, length (concat (?row i)))" if "i < n" for i
  proof -
    have "length (concat (?row i)) < 2 ^ 64" using len(2) that by (auto simp: tuple_cells_def)
    then show ?thesis using rb_fields_cells [OF cells(1) [OF that], of "[]" "[]"] by simp
  qed
  have "each_result (\<lambda>v. tri (rb_fields v ts 0) (\<lambda>(cells, e). Inr cells))
      (map (\<lambda>i. concat (?row i)) xs) = Inr (map ?row xs)" if "set xs \<subseteq> {0..<n}" for xs
    using that row by (induction xs) auto
  from this [of "[0..<n]"] show "write_col_values (tuple_cells n cols) (Tuple ts) =
      tri (each_result (\<lambda>(cells, t). write_col_values cells t) (zip cols ts)) (\<lambda>outs. Inr (concat outs))"
    using columns_of_rows [of cols n "length ts", OF len(1)] cells(2)
    by (subst write_col_values.simps) (simp add: fixed_size_def tuple_cells_def)
qed

lemma tuple_written_back:
  assumes wb: "list_all2 (\<lambda>(t, c) b. written_back t c b) (zip ts cols) bs" "length ts = length cols"
    and cells: "\<And>i. i < n \<Longrightarrow> list_all2 cell ts (map (\<lambda>c. c ! i) cols)"
    and len: "\<And>c. c \<in> set cols \<Longrightarrow> length c = n" "\<And>v. v \<in> set (tuple_cells n cols) \<Longrightarrow> length v < 2 ^ 64"
  shows "written_back (Tuple ts) (tuple_cells n cols) (concat bs)"
proof (rule written_backI)
  show "write_col_values (tuple_cells n cols) (Tuple ts) = Inr (concat bs)"
    using write_tuple(2) [OF cells wb(2) len] write_fields [OF wb] by simp
  fix l rest
  assume l: "levels (Tuple ts) \<le> Suc l" "l \<le> MAX_READ_DEPTH"
  have "levels t \<le> l" if "t \<in> set ts" for t
    using fields_levels [OF that] l(1) by (simp add: levels.simps [of "Tuple ts"])
  then have "read_each (\<lambda>t. read_column_at l t n) ts (concat bs @ rest) = Inr (cols, rest)"
    using wb len(1) l(2) by (intro read_fields)
  moreover have "foldl append_cells (replicate n []) cols = tuple_cells n cols"
    using foldl_append_cells [of cols n "replicate n []", OF len(1)] by (simp add: tuple_cells_def)
  ultimately show "read_column_body (read_column_at l) (Tuple ts) (length (tuple_cells n cols))
      (concat bs @ rest) = Inr (tuple_cells n cols, rest)"
    by (simp add: read_column_body_def read_tuple_column_def rbind_def)
qed

subsection \<open>Dictionaries\<close>

definition index_ok :: "bool \<Rightarrow> byte list list \<Rightarrow> byte list \<Rightarrow> nat \<Rightarrow> bool" where
  "index_ok nullable dict v i =
    (case lc_key nullable v of None \<Rightarrow> i = 0 | Some k \<Rightarrow> i < length dict \<and> dict ! i = k)"

lemma index_ok_key:
  "lc_key nullable v = None \<Longrightarrow> index_ok nullable dict v i \<longleftrightarrow> i = 0"
  "lc_key nullable v = Some k \<Longrightarrow> index_ok nullable dict v i \<longleftrightarrow> i < length dict \<and> dict ! i = k"
  by (simp_all add: index_ok_def)

lemma lc_index_loop_spec:
  assumes "\<And>k i. seen k = Some i \<longleftrightarrow> i < length dict \<and> dict ! i = k"
    and "length dict + length vs \<le> 2 ^ 32"
  shows "\<exists>ext is. lc_index_loop nullable vs dict seen acc = Inr (dict @ ext, acc @ is) \<and>
    length ext \<le> length vs \<and> set ext \<subseteq> {k. \<exists>v\<in>set vs. lc_key nullable v = Some k} \<and>
    list_all2 (index_ok nullable (dict @ ext)) vs is"
  using assms
proof (induction vs arbitrary: dict seen acc)
  case (Cons v vs)
  show ?case
  proof (cases "lc_key nullable v")
    case None
    obtain ext "is" where "lc_index_loop nullable vs dict seen (acc @ [0]) = Inr (dict @ ext, (acc @ [0]) @ is)"
      "length ext \<le> length vs" "set ext \<subseteq> {k. \<exists>v\<in>set vs. lc_key nullable v = Some k}"
      "list_all2 (index_ok nullable (dict @ ext)) vs is"
      using Cons.IH [of seen dict "acc @ [0]"] Cons.prems by auto
    then show ?thesis using None
      by (intro exI [of _ ext] exI [of _ "0 # is"]) (auto simp: index_ok_key)
  next
    case (Some k)
    have small: "length dict < 2 ^ 32" using Cons.prems(2) by simp
    show ?thesis
    proof (cases "seen k")
      case (Some i)
      then have i: "i < length dict" "dict ! i = k" using Cons.prems(1) by auto
      obtain ext "is" where "lc_index_loop nullable vs dict seen (acc @ [i]) = Inr (dict @ ext, (acc @ [i]) @ is)"
        "length ext \<le> length vs" "set ext \<subseteq> {k. \<exists>v\<in>set vs. lc_key nullable v = Some k}"
        "list_all2 (index_ok nullable (dict @ ext)) vs is"
        using Cons.IH [of seen dict "acc @ [i]"] Cons.prems by auto
      then show ?thesis using \<open>lc_key nullable v = Some k\<close> Some i small
        by (intro exI [of _ ext] exI [of _ "i # is"]) (auto simp: index_ok_key nth_append)
    next
      case None
      have "\<not> (i < length dict \<and> dict ! i = k)" for i using None Cons.prems(1) [of k i] by simp
      then have seen: "\<And>k' i. (seen(k \<mapsto> length dict)) k' = Some i \<longleftrightarrow>
          i < length (dict @ [k]) \<and> (dict @ [k]) ! i = k'"
        using Cons.prems(1) by (auto simp: nth_append less_Suc_eq)
      have "length (dict @ [k]) + length vs \<le> 2 ^ 32" using Cons.prems(2) by simp
      from Cons.IH [OF seen this, of "acc @ [length dict]"] obtain ext "is" where
        "lc_index_loop nullable vs (dict @ [k]) (seen(k \<mapsto> length dict)) (acc @ [length dict]) =
          Inr ((dict @ [k]) @ ext, (acc @ [length dict]) @ is)"
        "length ext \<le> length vs" "set ext \<subseteq> {k. \<exists>v\<in>set vs. lc_key nullable v = Some k}"
        "list_all2 (index_ok nullable ((dict @ [k]) @ ext)) vs is"
        by blast
      then show ?thesis using \<open>lc_key nullable v = Some k\<close> None small
        by (intro exI [of _ "k # ext"] exI [of _ "length dict # is"]) (auto simp: index_ok_key nth_append)
    qed
  qed
qed (intro exI [of _ "[]"], simp)

lemma take_le_bytes: "take m (le_bytes n v) = le_bytes (min m n) v"
  by (induction n arbitrary: m v) (auto simp: take_Cons split: nat.splits)

lemma lc_index_width_fits:
  assumes "n \<le> 2 ^ 32" "i < n \<or> i = 0" "lc_index_width n = (ty, w)"
  shows "i < 256 ^ w" "w \<in> {1, 2, 4, 8}" "take w (le_bytes 4 i) = le_bytes w i"
    "unat (HAS_ADDITIONAL_KEYS OR ty) = 512 + unat ty" "lc_index_bytes (unat ty) = Inr w" "unat ty < 4"
proof -
  consider "ty = 0" "w = 1" "n \<le> 256" | "ty = 1" "w = 2" "n \<le> 65536" | "ty = 2" "w = 4"
    using assms(3) by (auto simp: lc_index_width_def split: if_splits)
  note cases = this
  from cases show "i < 256 ^ w" using assms(1,2) by cases auto
  from cases show "w \<in> {1, 2, 4, 8}" by cases simp_all
  from cases show "lc_index_bytes (unat ty) = Inr w" by cases (simp_all add: lc_index_bytes_def)
  from cases show "unat ty < 4" by cases simp_all
  from cases show "take w (le_bytes 4 i) = le_bytes w i" by cases (simp_all add: take_le_bytes)
  from cases show "unat (HAS_ADDITIONAL_KEYS OR ty) = 512 + unat ty"
    by cases (simp_all add: HAS_ADDITIONAL_KEYS_def)
qed

lemma read_indices:
  assumes "list_all2 (\<lambda>v i. i < 256 ^ w \<and> lc_cell nullable dict i = Inr v) vs is" "w \<in> {1, 2, 4, 8}"
  shows "read_times (length vs) (rbind (read_index w) (\<lambda>idx. rlift (lc_cell nullable dict idx)))
      (concat (map (le_bytes w) is) @ rest) = Inr (vs, rest)"
  using assms(1)
proof (induction rule: list_all2_induct)
  case (Cons v vs i "is")
  have "read_index w = read_le w" using assms(2) by (simp add: read_index_def)
  then show ?case using Cons by (simp add: rbind_def le.dec_enc)
qed simp

lemma lc_state_word:
  "u < 4 \<Longrightarrow> (512 + u) mod 4 = u \<and> even ((512 + u) div 256) \<and> odd ((512 + u) div 512)" for u :: nat
proof -
  assume "u < 4"
  then consider "u = 0" | "u = 1" | "u = 2" | "u = 3" by linarith
  then show ?thesis by cases simp_all
qed

lemma lc_written_back:
  assumes scalar: "scalar (lc_dict_type t)" "\<And>v. v \<in> set dict \<Longrightarrow> scalar_cell (lc_dict_type t) v"
    and index: "lc_index t vs = Inr (dict, is)" "length dict \<le> 2 ^ 32" "length vs < 2 ^ 32"
    and ok: "list_all2 (\<lambda>v i. (i < length dict \<or> i = 0) \<and> lc_cell (lc_nullable t) dict i = Inr v) vs is"
  shows "\<exists>bytes. written_back (LowCardinality t) vs bytes"
proof -
  obtain ty w where w: "lc_index_width (length dict) = (ty, w)" by fastforce
  note fits = lc_index_width_fits [OF index(2) _ w]
  have li: "length is = length vs" using ok by (simp add: list_all2_lengthD)
  let ?idx = "concat (map (\<lambda>idx. take w (le_bytes 4 idx)) is)"
  let ?bytes = "le_bytes 8 (unat (HAS_ADDITIONAL_KEYS OR ty)) @ le_bytes 8 (length dict) @ concat dict @
      le_bytes 8 (length is) @ ?idx"
  have sb: "written_back (lc_dict_type t) dict (concat dict)" by (rule scalar_written_back [OF scalar])
  have "written_back (LowCardinality t) vs ?bytes"
  proof (rule written_backI)
    show "write_col_values vs (LowCardinality t) = Inr ?bytes"
      using sb by (subst write_col_values.simps) (simp add: fixed_size_def index w written_back_def)
    fix l rest
    assume l: "levels (LowCardinality t) \<le> Suc l" "l \<le> MAX_READ_DEPTH"
    have "levels (lc_dict_type t) = 1"
      using scalar(1) by (subst levels.simps) (auto simp: scalar_def fixed_size_def split: ColumnType.splits)
    then have "levels (lc_dict_type t) \<le> l" using l by (simp add: levels.simps [of "LowCardinality t"])
    note rd = written_back_bind [OF sb this l(2)]
    have dt: "dict_type_of t = (lc_dict_type t, lc_nullable t)"
      by (simp add: dict_type_of_def lc_dict_type_def lc_nullable_def split: ColumnType.split)
    define m where "m = unat (HAS_ADDITIONAL_KEYS OR ty)"
    have m: "m = 512 + unat ty" using fits(4) [of 0] by (simp add: m_def)
    have state: "m mod 4 = unat ty" "even (m div 256)" "odd (m div 512)" "m < 256 ^ 8"
      using fits(6) [of 0] lc_state_word [of "unat ty"] unfolding m by simp_all
    have sizes: "length dict < 256 ^ 8" "length vs < 256 ^ 8" using index(2,3) by simp_all
    have idx: "list_all2 (\<lambda>v i. i < 256 ^ w \<and> lc_cell (lc_nullable t) dict i = Inr v) vs is"
      using ok by (rule list_all2_mono) (use fits(1) in auto)
    have "i < length dict \<or> i = 0" if "i \<in> set is" for i
      using ok that by (auto simp: list_all2_conv_all_nth in_set_conv_nth)
    then have "?idx = concat (map (le_bytes w) is)" using fits(3) by (intro arg_cong [of _ _ concat]) auto
    then have "read_times (length vs) (rbind (read_index w) (\<lambda>idx. rlift (lc_cell (lc_nullable t) dict idx)))
        (?idx @ rest) = Inr (vs, rest)"
      using read_indices [OF idx, of rest] fits(2) [of 0] by simp
    then show "read_column_body (read_column_at l) (LowCardinality t) (length vs) (?bytes @ rest) = Inr (vs, rest)"
      unfolding m_def [symmetric] li
      by (simp add: read_column_body_def read_low_cardinality_column_def le.dec_bind [OF state(4)]
          le.dec_bind [OF sizes(1)] le.dec_bind [OF sizes(2)] dt rd state(1-3) fits(5) [of 0])
  qed
  then show ?thesis ..
qed

lemma default_cell: "scalar t \<Longrightarrow> scalar_cell t (rb_write_default t)"
proof (cases "fixed_size t")
  case None
  assume "scalar t"
  then have "t = String \<or> t = Json" using None by (auto simp: scalar_def)
  then have "rb_write_default t = put_string []" using None
    by (subst rb_write_default.simps) (auto simp: put_string_def)
  then show ?thesis using None \<open>t = String \<or> t = Json\<close>
    by (auto simp: scalar_cell_def intro!: exI [of _ "[]"])
qed (subst rb_write_default.simps, simp add: scalar_cell_def)

lemma lc_plain_written_back:
  assumes "scalar t" "\<And>v. v \<in> set vs \<Longrightarrow> scalar_cell t v" "length vs < 2 ^ 32"
  shows "\<exists>bytes. written_back (LowCardinality t) vs bytes"
proof -
  have t: "lc_dict_type t = t" "lc_nullable t = False"
    using assms(1) by (auto simp: scalar_def fixed_size_def lc_dict_type_def lc_nullable_def split: ColumnType.splits)
  obtain dict "is" where d: "lc_index_loop False vs [] Map.empty [] = Inr (dict, is)"
    "length dict \<le> length vs" "set dict \<subseteq> {k. \<exists>v\<in>set vs. lc_key False v = Some k}"
    "list_all2 (index_ok False dict) vs is"
    using lc_index_loop_spec [of Map.empty "[]" vs False "[]"] assms(3) by auto
  show ?thesis
  proof (rule lc_written_back)
    show "scalar_cell (lc_dict_type t) v" if "v \<in> set dict" for v
      using that d(3) assms(2) by (auto simp: t lc_key_def)
    show "lc_index t vs = Inr (dict, is)" by (simp add: lc_index_def t d(1))
    show "list_all2 (\<lambda>v i. (i < length dict \<or> i = 0) \<and> lc_cell (lc_nullable t) dict i = Inr v) vs is"
      using d(4) by (rule list_all2_mono) (auto simp: index_ok_def lc_key_def lc_cell_def t)
  qed (use assms d(2) t in auto)
qed

lemma lc_nullable_written_back:
  assumes "scalar t" "\<And>v. Some v \<in> set ws \<Longrightarrow> scalar_cell t v \<and> v \<noteq> rb_write_default t"
    and "length ws < 2 ^ 32 - 1"
  shows "\<exists>bytes. written_back (LowCardinality (Nullable t)) (map option_cell ws) bytes"
proof -
  let ?def = "rb_write_default t" and ?vs = "map option_cell ws"
  have t: "lc_dict_type (Nullable t) = t" "lc_nullable (Nullable t)" by (simp_all add: lc_dict_type_def lc_nullable_def)
  have key: "lc_key True (option_cell w) = w" for w by (cases w) (simp_all add: lc_key_def option_cell_def)
  have seen: "[?def \<mapsto> 0] k = Some i \<longleftrightarrow> i < length [?def] \<and> [?def] ! i = k" for k i by auto
  obtain ext "is" where d: "lc_index_loop True ?vs [?def] [?def \<mapsto> 0] [] = Inr (?def # ext, is)"
    "length ext \<le> length ws" "set ext \<subseteq> {k. \<exists>v\<in>set ?vs. lc_key True v = Some k}"
    "list_all2 (index_ok True (?def # ext)) ?vs is"
    using lc_index_loop_spec [OF seen, of ?vs True "[]"] assms(3) by (auto simp del: fun_upd_apply)
  show ?thesis
  proof (rule lc_written_back)
    show "scalar_cell (lc_dict_type (Nullable t)) v" if "v \<in> set (?def # ext)" for v
      using that d(3) assms(1,2) default_cell by (auto simp: t key)
    show "lc_index (Nullable t) ?vs = Inr (?def # ext, is)" by (simp add: lc_index_def t d(1))
    have "(i < length (?def # ext) \<or> i = 0) \<and> lc_cell True (?def # ext) i = Inr v"
      if iok: "index_ok True (?def # ext) v i" and mem: "v \<in> set ?vs" for v i
    proof -
      obtain w where w: "w \<in> set ws" "v = option_cell w" using mem by auto
      show ?thesis
      proof (cases w)
        case None
        then have "i = 0" using iok w key [of w] by (simp add: index_ok_key(1))
        then show ?thesis using None w by (simp add: lc_cell_def option_cell_def)
      next
        case (Some x)
        then have i: "i < length (?def # ext)" "(?def # ext) ! i = x"
          using iok w key [of w] by (simp_all add: index_ok_key(2))
        moreover have "i \<noteq> 0" using i assms(2) w Some by (cases i) auto
        ultimately show ?thesis using Some w by (simp add: lc_cell_def option_cell_def)
      qed
    qed
    then show "list_all2 (\<lambda>v i. (i < length (?def # ext) \<or> i = 0) \<and>
        lc_cell (lc_nullable (Nullable t)) (?def # ext) i = Inr v) ?vs is"
      using t(2) by (intro list.rel_mono_strong [OF d(4)]) simp
  qed (use assms d(2) t in auto)
qed

section \<open>The round trip\<close>

lemma column_written_back: "column t vs \<Longrightarrow> \<exists>bytes. written_back t vs bytes"
proof (induction rule: column.induct)
  case (col_scalar t vs)
  then show ?case using scalar_written_back by blast
next
  case (col_nullable t ws)
  then show ?case using nullable_written_back by blast
next
  case (col_lc t vs)
  then show ?case by (rule lc_plain_written_back)
next
  case (col_lc_nullable t ws)
  then show ?case by (rule lc_nullable_written_back)
next
  case (col_array t wss)
  then show ?case using array_written_back [of t wss] column_cells [of t "concat wss"] by blast
next
  case (col_map k pss x)
  have cells: "cell k a \<and> cell x b" if ab: "(a, b) \<in> set (concat pss)" for a b
  proof -
    have "a \<in> set (map fst (concat pss))" using imageI [OF ab, of fst] by simp
    moreover have "b \<in> set (map snd (concat pss))" using imageI [OF ab, of snd] by simp
    ultimately show ?thesis using column_cells [OF col_map(1)] column_cells [OF col_map(2)] by blast
  qed
  obtain kb xb where wb: "written_back k (map fst (concat pss)) kb" "written_back x (map snd (concat pss)) xb"
    using col_map.IH by blast
  show ?case
    by (rule exI, rule map_written_back [OF wb cells col_map(3) col_map(4)])
next
  case (col_tuple ts cols n)
  have len: "length ts = length cols" using col_tuple(1) by (rule list_all2_lengthD)
  have "\<exists>bs. list_all2 (\<lambda>(t, c) b. written_back t c b) (zip ts cols) bs"
    using col_tuple(1) by (induction rule: list_all2_induct) (auto simp: list_all2_Cons1)
  moreover have "list_all2 cell ts (map (\<lambda>c. c ! i) cols)" if "i < n" for i
    using col_tuple(1,2) that column_cells by (auto simp: list_all2_conv_all_nth)
  ultimately show ?case using tuple_written_back [of ts cols _ n] len col_tuple(2,3) by blast
qed

text \<open>The encoder at a type, as a function of the cells.\<close>

definition column_bytes :: "ColumnType \<Rightarrow> byte list list \<Rightarrow> byte list" where
  "column_bytes t vs = (case write_col_values vs t of Inl e \<Rightarrow> [] | Inr bytes \<Rightarrow> bytes)"

definition readable_column :: "ColumnType \<Rightarrow> nat \<Rightarrow> byte list list \<Rightarrow> bool" where
  "readable_column t n vs \<longleftrightarrow> column t vs \<and> levels t \<le> Suc MAX_READ_DEPTH \<and> vs \<noteq> [] \<and> length vs = n"

interpretation col: wire_codec "column_bytes t" "read_column_data t n" "readable_column t n" for t n
proof
  fix vs rest
  assume "readable_column t n vs"
  then show "read_column_data t n (column_bytes t vs @ rest) = Inr (vs, rest)"
    using column_written_back [of t vs]
    by (auto simp: readable_column_def written_back_def read_column_data_def column_bytes_def)
qed

text \<open>
  C9: the column encoder and the column reader are inverse.  For every well-formed column of an
  insertable type nested at most 32 levels, with at least one row, the encoder succeeds and the
  reader gets back exactly the same RowBinary cells and stops at the end of the column.
\<close>

theorem column_roundtrip:
  assumes "column t vs" "levels t \<le> Suc MAX_READ_DEPTH" "vs \<noteq> []"
  shows "\<exists>bytes. write_col_values vs t = Inr bytes \<and>
    (\<forall>rest. read_column_data t (length vs) (bytes @ rest) = Inr (vs, rest))"
  using column_written_back [OF assms(1)] assms(2,3)
  by (auto simp: written_back_def read_column_data_def)

theorem column_roundtrip_witness:
  "\<exists>bytes. write_col_values [array_cell [[7, 0], [9, 0]], array_cell []] (Array UInt16) = Inr bytes \<and>
    (\<forall>rest. read_column_data (Array UInt16) (length [array_cell [[7, 0], [9, 0]], array_cell []]) (bytes @ rest) =
      Inr ([array_cell [[7, 0], [9, 0]], array_cell []], rest))"
proof (rule column_roundtrip)
  have "length (put_var_uint (of_nat n)) \<le> 10" for n
    using leb128_length_u64 [of "of_nat n"] by (simp add: put_var_uint_leb128 VAR_UINT_MAX_BYTES_def)
  then have len: "length (put_var_uint (of_nat n)) + 4 < 2 ^ 64" for n
    using order.strict_trans1 [of "length (put_var_uint (of_nat n)) + 4" 14 "2 ^ 64"] by simp
  have "column UInt16 (concat [[[7, 0], [9, 0]], []])"
    by (rule col_scalar) (auto simp: scalar_def scalar_cell_def fixed_size_def)
  then have "column (Array UInt16) (map array_cell [[[7, 0], [9, 0]], []])"
    by (rule col_array) (use len [of 2] len [of 0] in \<open>auto simp: array_cell_def\<close>)
  then show "column (Array UInt16) [array_cell [[7, 0], [9, 0]], array_cell []]" by simp
  show "levels (Array UInt16) \<le> Suc MAX_READ_DEPTH"
    by (simp add: levels.simps [of "Array UInt16"] levels.simps [of UInt16] MAX_READ_DEPTH_def)
qed simp

text \<open>
  The column encoding is unambiguous: two columns of the same type and row count with the same
  bytes, whatever follows them, hold the same cells.
\<close>

theorem column_bytes_unambiguous:
  assumes "readable_column t n vs" "readable_column t n ws"
    and "column_bytes t vs @ r = column_bytes t ws @ r'"
  shows "vs = ws \<and> r = r'"
  using assms by (rule col.enc_prefix_free)

theorem column_bytes_unambiguous_witness:
  "[[5], [6 :: byte]] = [[5], [6]] \<and> [7 :: byte] = [7]"
proof (rule column_bytes_unambiguous)
  have "column UInt8 [[5], [6]]"
    by (rule col_scalar) (auto simp: scalar_def scalar_cell_def fixed_size_def)
  then show "readable_column UInt8 2 [[5], [6]]" "readable_column UInt8 2 [[5], [6]]"
    by (simp_all add: readable_column_def levels.simps [of UInt8] MAX_READ_DEPTH_def)
qed (rule refl)

text \<open>
  A nullable dictionary column does not keep a value equal to its type's default apart from
  NULL: both cells are well formed RowBinary, and both are written as the same bytes.
\<close>

theorem low_cardinality_default_is_null:
  assumes "scalar t"
  shows "cell (Nullable t) [1] \<and> cell (Nullable t) (0 # rb_write_default t) \<and>
    [1] \<noteq> 0 # rb_write_default t \<and>
    write_col_values [0 # rb_write_default t] (LowCardinality (Nullable t)) =
    write_col_values [[1]] (LowCardinality (Nullable t))"
proof (intro conjI)
  have t: "lc_dict_type (Nullable t) = t" "lc_nullable (Nullable t)"
    by (simp_all add: lc_dict_type_def lc_nullable_def)
  show "cell (Nullable t) [1]" using cell_nullable [of None t] by (simp add: option_cell_def)
  show "cell (Nullable t) (0 # rb_write_default t)"
    using cell_nullable [of "Some (rb_write_default t)" t] cell_scalar [OF default_cell [OF assms]]
    by (simp add: option_cell_def)
  have "lc_index (Nullable t) [0 # rb_write_default t] = lc_index (Nullable t) [[1]]"
    by (simp add: lc_index_def t lc_key_def)
  then show "write_col_values [0 # rb_write_default t] (LowCardinality (Nullable t)) =
      write_col_values [[1]] (LowCardinality (Nullable t))"
    by (subst (1 2) write_col_values.simps) (simp add: fixed_size_def)
qed simp

theorem low_cardinality_default_is_null_witness:
  "write_col_values [0 # rb_write_default String] (LowCardinality (Nullable String)) =
   write_col_values [[1]] (LowCardinality (Nullable String))"
  using low_cardinality_default_is_null [of String] by (simp add: scalar_def)

section \<open>Blocks\<close>

text \<open>The section of one column in a block.\<close>

definition column_section :: "bool \<Rightarrow> ColumnSchema \<Rightarrow> byte list list \<Rightarrow> byte list" where
  "column_section has_custom_ser col cells =
    put_string (as_bytes (cs_name col)) @
    put_string (as_bytes (if cs_col_type col \<in> {NewJson, Json} then ''String'' else cs_type_name col)) @
    (if has_custom_ser then [0] else []) @ write_col_prefixes (cs_col_type col) @
    column_bytes (cs_col_type col) cells"

lemma encode_column_section:
  "column (cs_col_type col) cells \<Longrightarrow> encode_column ser col cells = Inr (column_section ser col cells)"
  using column_written_back [of "cs_col_type col" cells]
  by (auto simp: encode_column_def column_section_def written_back_def column_bytes_def Let_def)

lemma encode_sections:
  "list_all2 (\<lambda>col cells. column (cs_col_type col) cells) columns cols \<Longrightarrow>
    each_result (\<lambda>(col, cells). encode_column ser col cells) (zip columns cols) =
    Inr (map2 (column_section ser) columns cols)"
  by (induction rule: list_all2_induct) (simp_all add: encode_column_section)

lemma row_cells_concat:
  "list_all2 cell ts ws \<Longrightarrow> length (concat ws) < 2 ^ 64 \<Longrightarrow> row_cells ts (concat ws) = Inr ws"
  using rb_fields_cells [of ts ws "[]" "[]"] by (simp add: row_cells_def)

lemma encode_transposed:
  assumes "list_all2 (\<lambda>col cells. \<forall>v\<in>set cells. cell (cs_col_type col) v) columns cols"
    and "\<And>c. c \<in> set cols \<Longrightarrow> length c = n" "\<And>v. v \<in> set (tuple_cells n cols) \<Longrightarrow> length v < 2 ^ 64"
  shows "encode_columns (tuple_cells n cols) columns revision =
    (if columns = [] \<or> n = 0 then Inr [] else
      tri (each_result (\<lambda>(col, cells). encode_column (revision \<ge> DBMS_MIN_PROTOCOL_VERSION_WITH_CUSTOM_SERIALIZATION) col cells)
        (zip columns cols)) (\<lambda>outs. Inr (concat outs)))"
proof -
  let ?row = "\<lambda>i. map (\<lambda>c. c ! i) cols"
  have len: "length cols = length columns" using assms(1) by (simp add: list_all2_lengthD)
  have "each_result (row_cells (map cs_col_type columns)) (map (\<lambda>i. concat (?row i)) xs) = Inr (map ?row xs)"
    if "set xs \<subseteq> {0..<n}" for xs
    using that
  proof (induction xs)
    case (Cons i xs)
    then have "length (concat (?row i)) < 2 ^ 64" using assms(3) by (auto simp: tuple_cells_def)
    moreover have "list_all2 cell (map cs_col_type columns) (?row i)"
      using assms(1,2) Cons.prems by (auto simp: list_all2_conv_all_nth)
    ultimately show ?case using Cons row_cells_concat [of "map cs_col_type columns" "?row i"] by simp
  qed simp
  from this [of "[0..<n]"]
  have "each_result (row_cells (map cs_col_type columns)) (tuple_cells n cols) = Inr (map ?row [0..<n])"
    by (simp add: tuple_cells_def)
  moreover have "tuple_cells n cols = [] \<longleftrightarrow> n = 0" by (simp add: tuple_cells_def)
  ultimately show ?thesis
    using columns_of_rows [OF assms(2) len] by (simp add: encode_columns_def Let_def)
qed

lemma encoded_block:
  assumes "list_all2 (\<lambda>col cells. column (cs_col_type col) cells) columns cols"
    and "\<And>c. c \<in> set cols \<Longrightarrow> length c = n" "0 < n" "columns \<noteq> []"
    and "\<And>v. v \<in> set (tuple_cells n cols) \<Longrightarrow> length v < 2 ^ 64"
  shows "encode_columns (tuple_cells n cols) columns revision =
    Inr (concat (map2 (column_section
      (revision \<ge> DBMS_MIN_PROTOCOL_VERSION_WITH_CUSTOM_SERIALIZATION)) columns cols))"
proof -
  have "list_all2 (\<lambda>col cells. \<forall>v\<in>set cells. cell (cs_col_type col) v) columns cols"
    using assms(1) column_cells by (auto simp: list_all2_conv_all_nth)
  from encode_transposed [OF this assms(2,5), of revision] show ?thesis
    using assms(3,4) encode_sections [OF assms(1)] by simp
qed

text \<open>
  A block is encoded column by column: when every row is the concatenation of one well-formed
  cell per declared column, the encoder transposes the rows exactly, and emits for each column its
  name, its declared type (String for JSON), the serialization flag on newer servers, its prefixes
  and its encoded cells, and nothing else.
\<close>

theorem encode_columns_transposes:
  assumes "list_all2 (\<lambda>col cells. column (cs_col_type col) cells) columns cols"
    and "\<And>c. c \<in> set cols \<Longrightarrow> length c = n" "0 < n" "columns \<noteq> []"
    and "\<And>v. v \<in> set (tuple_cells n cols) \<Longrightarrow> length v < 2 ^ 64"
  shows "encode_columns (tuple_cells n cols) columns revision =
    Inr (concat (map2 (column_section
      (revision \<ge> DBMS_MIN_PROTOCOL_VERSION_WITH_CUSTOM_SERIALIZATION)) columns cols))"
  using assms by (rule encoded_block)

definition ab_schema :: "ColumnSchema list" where
  "ab_schema = [\<lparr> cs_name = ''a'', cs_type_name = ''UInt8'', cs_col_type = UInt8 \<rparr>,
                \<lparr> cs_name = ''b'', cs_type_name = ''UInt16'', cs_col_type = UInt16 \<rparr>]"

definition ab_cols :: "byte list list list" where
  "ab_cols = [[[1], [3]], [[2, 0], [4, 0]]]"

lemma ab_well_formed:
  "list_all2 (\<lambda>col cells. column (cs_col_type col) cells) ab_schema ab_cols"
  "c \<in> set ab_cols \<Longrightarrow> length c = 2" "tuple_cells 2 ab_cols = [[1, 2, 0], [3, 4, 0]]" "ab_schema \<noteq> []"
  "v \<in> set (tuple_cells 2 ab_cols) \<Longrightarrow> length v < 2 ^ 64"
  by (auto simp: ab_schema_def ab_cols_def tuple_cells_def upt_rec scalar_def scalar_cell_def fixed_size_def
      intro!: col_scalar)

lemma ab_sections:
  "concat (map2 (column_section True) ab_schema ab_cols) =
    [1, 0x61, 5, 0x55, 0x49, 0x6E, 0x74, 0x38, 0] @ [1, 3] @
    [1, 0x62, 6, 0x55, 0x49, 0x6E, 0x74, 0x31, 0x36, 0] @ [2, 0, 4, 0]"
  by (simp add: ab_schema_def ab_cols_def column_section_def column_bytes_def
      write_col_values.simps [of _ UInt8] write_col_values.simps [of _ UInt16]
      write_col_prefixes.simps [of UInt8] write_col_prefixes.simps [of UInt16] fixed_size_def
      put_string_def as_bytes_def put_var_uint_leb128 leb128.simps)

lemma ab_revision: "(54473 :: u64) \<ge> DBMS_MIN_PROTOCOL_VERSION_WITH_CUSTOM_SERIALIZATION"
  by (simp add: DBMS_MIN_PROTOCOL_VERSION_WITH_CUSTOM_SERIALIZATION_def)

theorem encode_columns_transposes_witness:
  "encode_columns [[1, 2, 0], [3, 4, 0]] ab_schema 54473 =
    Inr ([1, 0x61, 5, 0x55, 0x49, 0x6E, 0x74, 0x38, 0] @ [1, 3] @
         [1, 0x62, 6, 0x55, 0x49, 0x6E, 0x74, 0x31, 0x36, 0] @ [2, 0, 4, 0])"
  using encode_columns_transposes [OF ab_well_formed(1,2) _ ab_well_formed(4,5), of 54473]
  unfolding ab_well_formed(3) eqTrueI [OF ab_revision] ab_sections by auto

text \<open>
  Bytes after the declared columns are an error, not silently dropped: if a row carries its cells
  and then anything more, the block is refused with the number of bytes left over.
\<close>

theorem encode_columns_trailing:
  assumes "list_all2 cell (map cs_col_type columns) ws" "columns \<noteq> []" "left \<noteq> []"
    and "length (concat ws @ left) < 2 ^ 64"
  shows "encode_columns ((concat ws @ left) # rows) columns revision =
    Inl (BadResponse (InsertTrailingBytes (length left) (length columns)))"
  using rb_fields_cells [OF assms(1), of "[]" left] assms(2-4)
  by (simp add: encode_columns_def Let_def row_cells_def)

theorem encode_columns_trailing_witness:
  "encode_columns ((concat [[1], [2, 0]] @ [9]) # []) ab_schema 54473 =
    Inl (BadResponse (InsertTrailingBytes (length [9 :: byte]) (length ab_schema)))"
  by (rule encode_columns_trailing)
     (auto simp: ab_schema_def scalar_cell_def fixed_size_def intro!: cell_scalar)

end
