(* ===== verification/Arrival.thy ===== *)
theory Arrival
  imports ColumnRoundtrip
begin

text \<open>
  What the cells of an inserted column arrive as.  The encoder of src/src/native/encode.rs gives NULL and the default
  value of a nullable dictionary column the same index, so such a value arrives as NULL; every other cell arrives
  as it was sent.  \<open>insertable\<close> is \<open>column\<close> with those values let in.
\<close>

section \<open>Insertable columns\<close>

inductive insertable :: "ColumnType \<Rightarrow> byte list list \<Rightarrow> bool" where
  ins_column: "column t vs \<Longrightarrow> insertable t vs"
| ins_lc_nullable:
    "scalar t \<Longrightarrow> (\<And>v. Some v \<in> set ws \<Longrightarrow> scalar_cell t v) \<Longrightarrow> length ws < 2 ^ 32 - 1 \<Longrightarrow>
      insertable (LowCardinality (Nullable t)) (map option_cell ws)"
| ins_array:
    "insertable t (concat wss) \<Longrightarrow> length (concat wss) < 2 ^ 64 \<Longrightarrow>
      (\<And>ws. ws \<in> set wss \<Longrightarrow> length (array_cell ws) < 2 ^ 64) \<Longrightarrow> insertable (Array t) (map array_cell wss)"
| ins_map:
    "insertable k (map fst (concat pss)) \<Longrightarrow> insertable x (map snd (concat pss)) \<Longrightarrow> length (concat pss) < 2 ^ 64 \<Longrightarrow>
      (\<And>ps. ps \<in> set pss \<Longrightarrow> length (array_cell (map (\<lambda>(a, b). a @ b) ps)) < 2 ^ 64) \<Longrightarrow>
      insertable (Map k x) (map (\<lambda>ps. array_cell (map (\<lambda>(a, b). a @ b) ps)) pss)"
| ins_tuple:
    "list_all2 insertable ts cols \<Longrightarrow> (\<And>c. c \<in> set cols \<Longrightarrow> length c = n) \<Longrightarrow>
      (\<And>v. v \<in> set (tuple_cells n cols) \<Longrightarrow> length v < 2 ^ 64) \<Longrightarrow> insertable (Tuple ts) (tuple_cells n cols)"

section \<open>One cell\<close>

text \<open>The elements of an array cell and the entries of a map cell, as the encoder cuts them.\<close>

definition array_elems :: "ColumnType \<Rightarrow> byte list \<Rightarrow> byte list list result" where
  "array_elems t v = tri (rb_read_varuint v 0) (\<lambda>(count, pos). rb_slices (unat count) v t pos)"

definition map_entries :: "ColumnType \<Rightarrow> ColumnType \<Rightarrow> byte list \<Rightarrow> (byte list \<times> byte list) list result" where
  "map_entries k x v = tri (rb_read_varuint v 0) (\<lambda>(count, pos). rb_pairs (unat count) v k x pos)"

definition lc_arrived :: "ColumnType \<Rightarrow> byte list \<Rightarrow> byte list" where
  "lc_arrived t v = (case t of Nullable u \<Rightarrow> if v = 0 # rb_write_default u then [1] else v | _ \<Rightarrow> v)"

function (sequential) arrived :: "ColumnType \<Rightarrow> byte list \<Rightarrow> byte list" where
  "arrived t v = (case t of
     LowCardinality s \<Rightarrow> lc_arrived s v
   | Array s \<Rightarrow> (case array_elems s v of Inl _ \<Rightarrow> v | Inr ws \<Rightarrow> array_cell (map (arrived s) ws))
   | Map k x \<Rightarrow> (case map_entries k x v of Inl _ \<Rightarrow> v
       | Inr ps \<Rightarrow> array_cell (map (\<lambda>(a, b). arrived k a @ arrived x b) ps))
   | Tuple ts \<Rightarrow> (case rb_fields v ts 0 of Inl _ \<Rightarrow> v
       | Inr (cells, _) \<Rightarrow> concat (map (\<lambda>(s, c). arrived s c) (zip ts cells)))
   | _ \<Rightarrow> v)"
  by pat_completeness auto
termination arrived
  by (relation "measure (size \<circ> fst)") (auto simp: less_Suc_eq_le size_list_estimation' dest!: set_zip_leftD)

declare arrived.simps [simp del]

lemma arrived_scalar: "scalar t \<Longrightarrow> arrived t v = v"
  by (subst arrived.simps) (auto simp: scalar_def fixed_size_def split: ColumnType.splits)

lemma lc_arrived_scalar: "scalar t \<Longrightarrow> lc_arrived t v = v"
  by (cases t) (simp_all add: lc_arrived_def scalar_def fixed_size_def)

lemma arrived_array:
  assumes "\<And>w. w \<in> set (concat wss) \<Longrightarrow> cell t w" "length (concat wss) < 2 ^ 64"
    and "\<And>ws. ws \<in> set wss \<Longrightarrow> length (array_cell ws) < 2 ^ 64" "ws \<in> set wss"
  shows "arrived (Array t) (array_cell ws) = array_cell (map (arrived t) ws)"
proof -
  have "array_elems t (array_cell ws) = Inr ws"
    using write_array(1) [OF assms] by (auto simp: array_elems_def tri_eq_Inr)
  then show ?thesis by (subst arrived.simps) simp
qed

lemma arrived_map:
  assumes "\<And>a b. (a, b) \<in> set (concat pss) \<Longrightarrow> cell k a \<and> cell x b" "length (concat pss) < 2 ^ 64"
    and "\<And>ps. ps \<in> set pss \<Longrightarrow> length (array_cell (map (\<lambda>(a, b). a @ b) ps)) < 2 ^ 64" "ps \<in> set pss"
  shows "arrived (Map k x) (array_cell (map (\<lambda>(a, b). a @ b) ps)) =
    array_cell (map (\<lambda>(a, b). a @ b) (map (map_prod (arrived k) (arrived x)) ps))"
proof -
  have "map_entries k x (array_cell (map (\<lambda>(a, b). a @ b) ps)) = Inr ps"
    using write_map(1) [OF assms] by (auto simp: map_entries_def tri_eq_Inr)
  then show ?thesis by (subst arrived.simps) (auto intro!: arg_cong [where f = array_cell])
qed

lemma arrived_tuple:
  assumes "\<And>i. i < n \<Longrightarrow> list_all2 cell ts (map (\<lambda>c. c ! i) cols)" "length ts = length cols"
    and "\<And>c. c \<in> set cols \<Longrightarrow> length c = n" "\<And>v. v \<in> set (tuple_cells n cols) \<Longrightarrow> length v < 2 ^ 64"
  shows "map (arrived (Tuple ts)) (tuple_cells n cols) = tuple_cells n (map2 (\<lambda>t. map (arrived t)) ts cols)"
proof -
  have "arrived (Tuple ts) (concat (map (\<lambda>c. c ! i) cols)) = concat (map (\<lambda>c. c ! i) (map2 (\<lambda>t. map (arrived t)) ts cols))"
    if "i < n" for i
  proof -
    have "rb_fields (concat (map (\<lambda>c. c ! i) cols)) ts 0 = Inr (map (\<lambda>c. c ! i) cols, length (concat (map (\<lambda>c. c ! i) cols)))"
      using write_tuple(1) [OF assms that] .
    moreover have "map (\<lambda>(s, c). arrived s c) (zip ts (map (\<lambda>c. c ! i) cols)) =
        map (\<lambda>c. c ! i) (map2 (\<lambda>t. map (arrived t)) ts cols)"
      using assms(2,3) that by (auto simp: list_eq_iff_nth_eq)
    ultimately show ?thesis by (subst arrived.simps) simp
  qed
  then show ?thesis by (simp add: tuple_cells_def)
qed

section \<open>Whole columns\<close>

text \<open>The cells of a column, for the laws above.\<close>

lemma pair_cells:
  assumes "\<And>a. a \<in> set (map fst ps) \<Longrightarrow> cell k a" "\<And>b. b \<in> set (map snd ps) \<Longrightarrow> cell x b" "(a, b) \<in> set ps"
  shows "cell k a \<and> cell x b"
  using assms(1) [of a] assms(2) [of b] imageI [OF assms(3), of fst] imageI [OF assms(3), of snd] by simp

lemma field_cells:
  assumes "list_all2 (\<lambda>t c. \<forall>v\<in>set c. cell t v) ts cols" "\<And>c. c \<in> set cols \<Longrightarrow> length c = n" "i < n"
  shows "list_all2 cell ts (map (\<lambda>c. c ! i) cols)"
  using assms by (auto simp: list_all2_conv_all_nth)

lemma map_same: "map f xs = xs \<Longrightarrow> x \<in> set xs \<Longrightarrow> f x = x"
  by (induction xs) auto

lemma column_arrived: "column t vs \<Longrightarrow> map (arrived t) vs = vs"
proof (induction rule: column.induct)
  case (col_scalar t vs)
  then show ?case by (simp add: arrived_scalar)
next
  case (col_nullable t ws)
  show ?case by (rule map_idI) (simp add: arrived.simps [of "Nullable t"])
next
  case (col_lc t vs)
  then show ?case by (intro map_idI) (simp add: arrived.simps [of "LowCardinality t"] lc_arrived_scalar)
next
  case (col_lc_nullable t ws)
  then show ?case
    by (intro map_idI) (auto simp: arrived.simps [of "LowCardinality (Nullable t)"] lc_arrived_def option_cell_def split: option.splits)
next
  case (col_array t wss)
  note arr = arrived_array [OF column_cells [OF col_array(1)] col_array(2,3)]
  have "map (arrived t) ws = ws" if "ws \<in> set wss" for ws
    using map_same [OF col_array.IH] that by (intro map_idI) auto
  then show ?case using arr by (intro map_idI) auto
next
  case (col_map k pss x)
  have cells: "cell k a \<and> cell x b" if "(a, b) \<in> set (concat pss)" for a b
    using pair_cells [OF _ _ that] column_cells [OF col_map(1)] column_cells [OF col_map(2)] by blast
  note arr = arrived_map [OF cells col_map(3,4)]
  have "map_prod (arrived k) (arrived x) p = p" if "p \<in> set (concat pss)" for p
  proof -
    have "arrived k (fst p) = fst p" "arrived x (snd p) = snd p"
      using map_same [OF col_map.IH(1), of "fst p"] map_same [OF col_map.IH(2), of "snd p"] that by auto
    then show ?thesis by (cases p) simp
  qed
  then have "map (map_prod (arrived k) (arrived x)) ps = ps" if "ps \<in> set pss" for ps
    using that by (intro map_idI) auto
  then show ?case using arr by (intro map_idI) auto
next
  case (col_tuple ts cols n)
  have cells: "list_all2 (\<lambda>t c. \<forall>v\<in>set c. cell t v) ts cols" and len: "length ts = length cols"
    using col_tuple(1) column_cells by (auto simp: list_all2_conv_all_nth)
  have "map2 (\<lambda>t. map (arrived t)) ts cols = cols"
    using col_tuple(1) by (auto simp: list_all2_conv_all_nth list_eq_iff_nth_eq)
  then show ?case using arrived_tuple [OF field_cells [OF cells col_tuple(2)] len col_tuple(2,3)] by simp
qed

subsection \<open>Nullable dictionaries\<close>

definition nulled :: "byte list \<Rightarrow> byte list option \<Rightarrow> byte list option" where
  "nulled d w = (if w = Some d then None else w)"

lemma lc_loop_nulled:
  "seen d = Some 0 \<Longrightarrow> length dict + length ws \<le> 2 ^ 32 \<Longrightarrow>
    lc_index_loop True (map option_cell (map (nulled d) ws)) dict seen acc = lc_index_loop True (map option_cell ws) dict seen acc"
proof (induction ws arbitrary: dict seen acc)
  case (Cons w ws)
  show ?case
  proof (cases w)
    case None
    then show ?thesis using Cons by (simp add: nulled_def option_cell_def lc_key_def)
  next
    case (Some v)
    have "v \<noteq> d \<Longrightarrow> (seen(v \<mapsto> length dict)) d = Some 0" using Cons.prems(1) by simp
    with Cons.IH [of "seen(v \<mapsto> length dict)" "dict @ [v]" "acc @ [length dict]"] Cons.IH [of seen dict] Cons.prems Some
    show ?thesis by (cases "v = d"; cases "seen v") (simp_all add: nulled_def option_cell_def lc_key_def del: fun_upd_apply)
  qed
qed simp

lemma lc_nullable_arrived:
  "map (arrived (LowCardinality (Nullable t))) (map option_cell ws) = map option_cell (map (nulled (rb_write_default t)) ws)"
  by (auto simp: arrived.simps [of "LowCardinality (Nullable t)"] lc_arrived_def nulled_def option_cell_def split: option.splits)

lemma lc_nullable_same_bytes:
  assumes "length ws < 2 ^ 32 - 1"
  shows "write_col_values (map option_cell (map (nulled (rb_write_default t)) ws)) (LowCardinality (Nullable t)) =
    write_col_values (map option_cell ws) (LowCardinality (Nullable t))"
proof -
  let ?d = "rb_write_default t"
  have "lc_index (Nullable t) (map option_cell (map (nulled ?d) ws)) = lc_index (Nullable t) (map option_cell ws)"
    using lc_loop_nulled [of "Map.empty(?d \<mapsto> 0)" ?d "[?d]" ws "[]"] assms
    by (simp add: lc_index_def lc_nullable_def lc_dict_type_def Let_def del: map_map)
  then show ?thesis by (subst (1 2) write_col_values.simps) (simp add: fixed_size_def del: map_map)
qed

subsection \<open>The law\<close>

definition arrives :: "ColumnType \<Rightarrow> byte list list \<Rightarrow> bool" where
  "arrives t vs \<longleftrightarrow> column t (map (arrived t) vs) \<and>
    write_col_values (map (arrived t) vs) t = write_col_values vs t \<and>
    (\<forall>v\<in>set vs. cell t v \<and> length (arrived t v) \<le> length v)"

lemma arrivesI:
  "map (arrived t) vs = us \<Longrightarrow> column t us \<Longrightarrow> write_col_values us t = write_col_values vs t \<Longrightarrow>
    (\<And>v. v \<in> set vs \<Longrightarrow> cell t v) \<Longrightarrow> (\<And>v. v \<in> set vs \<Longrightarrow> length (arrived t v) \<le> length v) \<Longrightarrow> arrives t vs"
  by (auto simp: arrives_def)

lemma concat_lengths: "list_all2 (\<lambda>u w. length u \<le> length w) us ws \<Longrightarrow> length (concat us) \<le> length (concat ws)"
  by (induction rule: list_all2_induct) auto

lemma array_cell_shorter:
  "list_all2 (\<lambda>u w. length u \<le> length w) us ws \<Longrightarrow> length (array_cell us) \<le> length (array_cell ws)"
  using concat_lengths [of us ws] by (auto simp: array_cell_def dest: list_all2_lengthD)

lemma shorter_map: "(\<And>w. w \<in> set ws \<Longrightarrow> length (f w) \<le> length w) \<Longrightarrow> list_all2 (\<lambda>u w. length u \<le> length w) (map f ws) ws"
  by (simp add: list_all2_map1 list.rel_refl_strong)

lemma array_arrives:
  assumes "arrives t (concat wss)" "length (concat wss) < 2 ^ 64" "\<And>ws. ws \<in> set wss \<Longrightarrow> length (array_cell ws) < 2 ^ 64"
  shows "arrives (Array t) (map array_cell wss)"
proof (rule arrivesI)
  let ?uss = "map (map (arrived t)) wss"
  have inner: "column t (concat ?uss)" "write_col_values (concat ?uss) t = write_col_values (concat wss) t"
    and cells: "\<And>w. w \<in> set (concat wss) \<Longrightarrow> cell t w"
    and less: "\<And>w. w \<in> set (concat wss) \<Longrightarrow> length (arrived t w) \<le> length w"
    using assms(1) by (auto simp: arrives_def map_concat)
  note arr = arrived_array [OF cells assms(2,3)]
  have shorter: "length (array_cell (map (arrived t) ws)) \<le> length (array_cell ws)" if "ws \<in> set wss" for ws
    by (rule array_cell_shorter, rule shorter_map) (use less that in auto)
  have len: "length (concat ?uss) < 2 ^ 64" "\<And>us. us \<in> set ?uss \<Longrightarrow> length (array_cell us) < 2 ^ 64"
    using assms(2,3) shorter by (fastforce simp: length_concat comp_def intro: order.strict_trans1)+
  show "map (arrived (Array t)) (map array_cell wss) = map array_cell ?uss" using arr by simp
  show "column (Array t) (map array_cell ?uss)" by (rule col_array [OF inner(1) len])
  show "write_col_values (map array_cell ?uss) (Array t) = write_col_values (map array_cell wss) (Array t)"
    using write_array(2) [of ?uss t, OF column_cells [OF inner(1)] len] write_array(2) [of wss t, OF cells assms(2,3)]
    by (simp add: inner(2) comp_def)
  fix v
  assume "v \<in> set (map array_cell wss)"
  then obtain ws where ws: "ws \<in> set wss" "v = array_cell ws" by auto
  then show "length (arrived (Array t) v) \<le> length v" using arr shorter by simp
  have "length ws \<le> length (concat wss)" using ws(1) by (simp add: length_concat member_le_sum_list)
  then show "cell (Array t) v" unfolding ws(2) using ws(1) cells assms(2) by (intro cell_array) auto
qed

lemma entries_shorter:
  assumes "arrives k (map fst (concat pss))" "arrives x (map snd (concat pss))" "ps \<in> set pss"
  shows "length (array_cell (map (\<lambda>(a, b). a @ b) (map (map_prod (arrived k) (arrived x)) ps))) \<le>
    length (array_cell (map (\<lambda>(a, b). a @ b) ps))"
proof (rule array_cell_shorter)
  have "length (arrived k a @ arrived x b) \<le> length (a @ b)" if "(a, b) \<in> set ps" for a b
  proof -
    have ab: "(a, b) \<in> set (concat pss)" using that assms(3) by auto
    have "a \<in> set (map fst (concat pss))" "b \<in> set (map snd (concat pss))"
      using imageI [OF ab, of fst] imageI [OF ab, of snd] by simp_all
    then have "length (arrived k a) \<le> length a" "length (arrived x b) \<le> length b"
      using assms(1,2) unfolding arrives_def by blast+
    then show ?thesis by simp
  qed
  then show "list_all2 (\<lambda>u w. length u \<le> length w) (map (\<lambda>(a, b). a @ b) (map (map_prod (arrived k) (arrived x)) ps))
      (map (\<lambda>(a, b). a @ b) ps)"
    by (auto simp: list_all2_map1 list_all2_map2 intro!: list.rel_refl_strong)
qed

lemma map_arrives:
  assumes "arrives k (map fst (concat pss))" "arrives x (map snd (concat pss))" "length (concat pss) < 2 ^ 64"
    and "\<And>ps. ps \<in> set pss \<Longrightarrow> length (array_cell (map (\<lambda>(a, b). a @ b) ps)) < 2 ^ 64"
  shows "arrives (Map k x) (map (\<lambda>ps. array_cell (map (\<lambda>(a, b). a @ b) ps)) pss)"
proof (rule arrivesI)
  let ?f = "map_prod (arrived k) (arrived x)" and ?j = "map (\<lambda>(a, b). a @ b) :: (byte list \<times> byte list) list \<Rightarrow> byte list list"
  let ?qss = "map (map ?f) pss"
  have keys: "map fst (concat ?qss) = map (arrived k) (map fst (concat pss))"
    and vals: "map snd (concat ?qss) = map (arrived x) (map snd (concat pss))"
    by (simp_all add: map_concat comp_def)
  have inner: "column k (map fst (concat ?qss))" "column x (map snd (concat ?qss))"
    "write_col_values (map fst (concat ?qss)) k = write_col_values (map fst (concat pss)) k"
    "write_col_values (map snd (concat ?qss)) x = write_col_values (map snd (concat pss)) x"
    using assms(1,2) unfolding keys vals by (simp_all add: arrives_def)
  have cells: "cell k a \<and> cell x b" if "(a, b) \<in> set (concat pss)" for a b
    by (rule pair_cells [OF _ _ that]) (use assms(1,2) in \<open>auto simp: arrives_def\<close>)
  have there: "cell k a \<and> cell x b" if "(a, b) \<in> set (concat ?qss)" for a b
    using pair_cells [OF _ _ that] column_cells [OF inner(1)] column_cells [OF inner(2)] by blast
  note arr = arrived_map [OF cells assms(3,4)]
  note shorter = entries_shorter [OF assms(1,2)]
  have len: "length (concat ?qss) < 2 ^ 64" "\<And>qs. qs \<in> set ?qss \<Longrightarrow> length (array_cell (?j qs)) < 2 ^ 64"
    using assms(3,4) shorter by (fastforce simp: length_concat comp_def intro: order.strict_trans1)+
  show "map (arrived (Map k x)) (map (\<lambda>ps. array_cell (?j ps)) pss) = map (\<lambda>ps. array_cell (?j ps)) ?qss" using arr by simp
  show "column (Map k x) (map (\<lambda>ps. array_cell (?j ps)) ?qss)" by (rule col_map [OF inner(1,2) len])
  show "write_col_values (map (\<lambda>ps. array_cell (?j ps)) ?qss) (Map k x) =
      write_col_values (map (\<lambda>ps. array_cell (?j ps)) pss) (Map k x)"
    using write_map(2) [of ?qss k x, OF there len] write_map(2) [of pss k x, OF cells assms(3,4)] inner(3,4)
    by (simp add: comp_def)
  fix v
  assume "v \<in> set (map (\<lambda>ps. array_cell (?j ps)) pss)"
  then obtain ps where ps: "ps \<in> set pss" "v = array_cell (?j ps)" by auto
  then show "length (arrived (Map k x) v) \<le> length v" using arr shorter by simp
  have "length ps \<le> length (concat pss)" using ps(1) by (simp add: length_concat member_le_sum_list)
  then show "cell (Map k x) v" unfolding ps(2) using ps(1) cells assms(3) by (intro cell_map) auto
qed

lemma fields_same_bytes:
  "list_all2 arrives ts cols \<Longrightarrow>
    each_result (\<lambda>(cells, t). write_col_values cells t) (zip (map2 (\<lambda>t. map (arrived t)) ts cols) ts) =
    each_result (\<lambda>(cells, t). write_col_values cells t) (zip cols ts)"
  by (induction rule: list_all2_induct) (auto simp: arrives_def)

lemma fields_shorter:
  assumes "list_all2 arrives ts cols" "\<And>c. c \<in> set cols \<Longrightarrow> length c = n" "i < n"
  shows "length (concat (map (\<lambda>c. c ! i) (map2 (\<lambda>t. map (arrived t)) ts cols))) \<le> length (concat (map (\<lambda>c. c ! i) cols))"
  by (rule concat_lengths) (use assms in \<open>auto simp: list_all2_conv_all_nth arrives_def\<close>)

lemma tuple_arrives:
  assumes "list_all2 arrives ts cols" "\<And>c. c \<in> set cols \<Longrightarrow> length c = n" "\<And>v. v \<in> set (tuple_cells n cols) \<Longrightarrow> length v < 2 ^ 64"
  shows "arrives (Tuple ts) (tuple_cells n cols)"
proof (rule arrivesI)
  let ?us = "map2 (\<lambda>t. map (arrived t)) ts cols"
  have len: "length ts = length cols" "length ts = length ?us" using assms(1) by (simp_all add: list_all2_lengthD)
  have n: "\<And>c. c \<in> set ?us \<Longrightarrow> length c = n" using assms(2) by (auto dest: set_zip_rightD)
  have inner: "list_all2 column ts ?us" and cells: "list_all2 (\<lambda>t c. \<forall>v\<in>set c. cell t v) ts cols"
    using assms(1) by (auto simp: list_all2_conv_all_nth arrives_def)
  have "list_all2 (\<lambda>t c. \<forall>v\<in>set c. cell t v) ts ?us" using inner column_cells by (auto simp: list_all2_conv_all_nth)
  note there = field_cells [OF this n] and here = field_cells [OF cells assms(2)]
  note arr = arrived_tuple [OF here len(1) assms(2,3)]
  have small: "length v < 2 ^ 64" if "v \<in> set (tuple_cells n ?us)" for v
  proof -
    obtain i where "i < n" "v = concat (map (\<lambda>c. c ! i) ?us)" using \<open>v \<in> set (tuple_cells n ?us)\<close> by (auto simp: tuple_cells_def)
    with fields_shorter [OF assms(1,2), of i] assms(3) [of "concat (map (\<lambda>c. c ! i) cols)"] show ?thesis
      by (auto simp: tuple_cells_def intro: order.strict_trans1)
  qed
  show "map (arrived (Tuple ts)) (tuple_cells n cols) = tuple_cells n ?us" by (rule arr)
  show "column (Tuple ts) (tuple_cells n ?us)" by (rule col_tuple [OF inner n small])
  show "write_col_values (tuple_cells n ?us) (Tuple ts) = write_col_values (tuple_cells n cols) (Tuple ts)"
    using write_tuple(2) [of n ts ?us, OF there len(2) n small] write_tuple(2) [of n ts cols, OF here len(1) assms(2,3)]
      fields_same_bytes [OF assms(1)] by simp
  fix v
  assume "v \<in> set (tuple_cells n cols)"
  then obtain i where i: "i < n" "v = concat (map (\<lambda>c. c ! i) cols)" by (auto simp: tuple_cells_def)
  then show "cell (Tuple ts) v" using cell_tuple [OF here] by simp
  have "arrived (Tuple ts) v = concat (map (\<lambda>c. c ! i) ?us)"
    using arg_cong [OF arr, of "\<lambda>vs. vs ! i"] i by (simp add: tuple_cells_def)
  then show "length (arrived (Tuple ts) v) \<le> length v" using fields_shorter [OF assms(1,2) i(1)] i(2) by simp
qed

lemma insertable_arrives: "insertable t vs \<Longrightarrow> arrives t vs"
proof (induction rule: insertable.induct)
  case (ins_column t vs)
  with column_arrived [OF this] show ?case
    by (intro arrivesI) (auto simp: column_cells dest: map_same)
next
  case (ins_lc_nullable t ws)
  let ?d = "rb_write_default t"
  have "column (LowCardinality (Nullable t)) (map option_cell (map (nulled ?d) ws))"
    using ins_lc_nullable by (intro col_lc_nullable) (auto simp: nulled_def split: if_splits)
  moreover have "cell (LowCardinality (Nullable t)) v \<and> length (arrived (LowCardinality (Nullable t)) v) \<le> length v"
    if "v \<in> set (map option_cell ws)" for v
  proof -
    obtain w where w: "w \<in> set ws" "v = option_cell w" using \<open>v \<in> set (map option_cell ws)\<close> by auto
    then have "w = None \<or> cell t (the w)" using ins_lc_nullable(2) by (cases w) (auto intro: cell_scalar)
    then show ?thesis unfolding w(2)
      by (auto simp: arrived.simps [of "LowCardinality (Nullable t)"] lc_arrived_def cell_lc cell_nullable)
  qed
  ultimately show ?case
    by (intro arrivesI [OF lc_nullable_arrived _ lc_nullable_same_bytes [OF ins_lc_nullable(3)]]) blast+
next
  case (ins_tuple ts cols n)
  then show ?case by (intro tuple_arrives) (auto elim: list_all2_mono)
qed (blast intro: array_arrives map_arrives)+

text \<open>Without a nullable dictionary in its type, a column arrives as it was sent.\<close>

fun nullable_dictionary :: "ColumnType \<Rightarrow> bool" where
  "nullable_dictionary (LowCardinality t) = lc_nullable t"
| "nullable_dictionary (Array t) = nullable_dictionary t"
| "nullable_dictionary (Map k x) = (nullable_dictionary k \<or> nullable_dictionary x)"
| "nullable_dictionary (Tuple ts) = (\<exists>t\<in>set ts. nullable_dictionary t)"
| "nullable_dictionary t = False"

lemma insertable_column: "insertable t vs \<Longrightarrow> \<not> nullable_dictionary t \<Longrightarrow> column t vs"
proof (induction rule: insertable.induct)
  case (ins_tuple ts cols n)
  then have "list_all2 column ts cols" by (auto simp: list_all2_conv_all_nth)
  with ins_tuple show ?case by (intro col_tuple)
qed (auto simp: lc_nullable_def intro: col_array col_map)

section \<open>Blocks\<close>

definition arrived_columns :: "ColumnSchema list \<Rightarrow> byte list list list \<Rightarrow> byte list list list" where
  "arrived_columns columns cols = map2 (\<lambda>col. map (arrived (cs_col_type col))) columns cols"

lemma columns_arrive:
  assumes "list_all2 (\<lambda>col cells. insertable (cs_col_type col) cells) columns cols"
  shows "list_all2 (\<lambda>col cells. column (cs_col_type col) cells) columns (arrived_columns columns cols)"
    and "list_all2 (\<lambda>col cells. \<forall>v\<in>set cells. cell (cs_col_type col) v) columns cols"
    and "list_all2 arrives (map cs_col_type columns) cols"
  using assms insertable_arrives by (auto simp: list_all2_conv_all_nth arrived_columns_def arrives_def)

lemma arrived_columns_lengths:
  "(\<And>c. c \<in> set cols \<Longrightarrow> length c = n) \<Longrightarrow> c \<in> set (arrived_columns columns cols) \<Longrightarrow> length c = n"
  by (auto simp: arrived_columns_def dest: set_zip_rightD)

lemma arrived_columns_same:
  "list_all2 (\<lambda>col cells. column (cs_col_type col) cells) columns cols \<Longrightarrow> arrived_columns columns cols = cols"
  using column_arrived by (auto simp: list_all2_conv_all_nth arrived_columns_def list_eq_iff_nth_eq)

lemma arrived_columns_sent:
  assumes "list_all2 (\<lambda>col cells. insertable (cs_col_type col) cells) columns cols"
    and "\<forall>col\<in>set columns. \<not> nullable_dictionary (cs_col_type col)"
  shows "arrived_columns columns cols = cols"
  by (rule arrived_columns_same) (use assms insertable_column in \<open>auto simp: list_all2_conv_all_nth\<close>)

lemma arrived_rows_short:
  assumes "list_all2 (\<lambda>col cells. insertable (cs_col_type col) cells) columns cols" "\<And>c. c \<in> set cols \<Longrightarrow> length c = n"
    and "\<And>v. v \<in> set (tuple_cells n cols) \<Longrightarrow> length v < 2 ^ 64" "v \<in> set (tuple_cells n (arrived_columns columns cols))"
  shows "length v < 2 ^ 64"
proof -
  have map2: "arrived_columns columns cols = map2 (\<lambda>t. map (arrived t)) (map cs_col_type columns) cols"
    by (simp add: arrived_columns_def zip_map1 comp_def case_prod_unfold)
  obtain i where "i < n" "v = concat (map (\<lambda>c. c ! i) (arrived_columns columns cols))" using assms(4) by (auto simp: tuple_cells_def)
  with fields_shorter [OF columns_arrive(3) [OF assms(1)] assms(2), of i] assms(3) [of "concat (map (\<lambda>c. c ! i) cols)"] show ?thesis
    unfolding map2 by (auto simp: tuple_cells_def intro: order.strict_trans1)
qed

lemma encode_columns_arrived:
  "list_all2 (\<lambda>col cells. insertable (cs_col_type col) cells) columns cols \<Longrightarrow>
    each_result (\<lambda>(col, cells). encode_column ser col cells) (zip columns (arrived_columns columns cols)) =
    each_result (\<lambda>(col, cells). encode_column ser col cells) (zip columns cols)"
proof (induction rule: list_all2_induct)
  case (Cons col columns cells cols)
  have "encode_column ser col (map (arrived (cs_col_type col)) cells) = encode_column ser col cells"
    using insertable_arrives [OF Cons(1)] by (simp add: encode_column_def arrives_def)
  with Cons show ?case by (simp add: arrived_columns_def)
qed (simp add: arrived_columns_def)

text \<open>The encoder writes the same block for a column's cells and for what they arrive as.\<close>

lemma same_block:
  assumes "list_all2 (\<lambda>col cells. insertable (cs_col_type col) cells) columns cols" "\<And>c. c \<in> set cols \<Longrightarrow> length c = n"
    and "\<And>v. v \<in> set (tuple_cells n cols) \<Longrightarrow> length v < 2 ^ 64"
  shows "encode_columns (tuple_cells n (arrived_columns columns cols)) columns revision = encode_columns (tuple_cells n cols) columns revision"
proof -
  note there = columns_arrive(1) [OF assms(1)]
  have cells: "list_all2 (\<lambda>col cells. \<forall>v\<in>set cells. cell (cs_col_type col) v) columns (arrived_columns columns cols)"
    using there column_cells by (auto simp: list_all2_conv_all_nth)
  show ?thesis
    using encode_transposed [OF cells arrived_columns_lengths [OF assms(2)] arrived_rows_short [OF assms]]
      encode_transposed [OF columns_arrive(2) [OF assms(1)] assms(2,3)] encode_columns_arrived [OF assms(1)]
    by simp
qed

end
