(* ===== verification/DecodeAgreement.thy ===== *)
theory DecodeAgreement
  imports BlockDecode
begin

text \<open>
  The typed decoder of src/src/native/decode.rs and the cell reader of src/src/native/columns.rs read
  the same wire: whatever column the cell reader accepts, the decoder accepts, takes the same bytes
  and holds the same values.  Sparse columns expand to the column they were written from.
\<close>

section \<open>The cells of a decoded column\<close>

definition le_signed_bytes :: "nat \<Rightarrow> int \<Rightarrow> byte list" where
  "le_signed_bytes w i = le_bytes w (nat (i mod 2 ^ (8 * w)))"

fun index_values :: "DecodedColumn \<Rightarrow> nat list" where
  "index_values (DUInt8 v) = map unat v"
| "index_values (DUInt16 v) = v"
| "index_values (DUInt32 v) = v"
| "index_values (DUInt64 v) = v"
| "index_values _ = []"

definition or_empty :: "ColumnData result \<Rightarrow> ColumnData" where
  "or_empty r = (case r of Inl e \<Rightarrow> [] | Inr cells \<Rightarrow> cells)"

text \<open>Row by row, the RowBinary bytes a decoded column stands for.\<close>

fun to_cells :: "DecodedColumn \<Rightarrow> ColumnData" where
  "to_cells (DUInt8 v) = map (\<lambda>b. [b]) v"
| "to_cells (DUInt16 v) = map (le_bytes 2) v"
| "to_cells (DUInt32 v) = map (le_bytes 4) v"
| "to_cells (DUInt64 v) = map (le_bytes 8) v"
| "to_cells (DInt8 v) = map (le_signed_bytes 1) v"
| "to_cells (DInt16 v) = map (le_signed_bytes 2) v"
| "to_cells (DInt32 v) = map (le_signed_bytes 4) v"
| "to_cells (DInt64 v) = map (le_signed_bytes 8) v"
| "to_cells (DInt128 v) = map (le_signed_bytes 16) v"
| "to_cells (DUInt128 v) = map (le_bytes 16) v"
| "to_cells (DInt256 v) = v"
| "to_cells (DUInt256 v) = v"
| "to_cells (DFloat32 v) = map (le_bytes 4) v"
| "to_cells (DFloat64 v) = map (le_bytes 8) v"
| "to_cells (DDecimal32 p s v) = map (le_signed_bytes 4) v"
| "to_cells (DDecimal64 p s v) = map (le_signed_bytes 8) v"
| "to_cells (DDecimal128 p s v) = map (le_signed_bytes 16) v"
| "to_cells (DDecimal256 p s v) = v"
| "to_cells (DString v) = map put_string v"
| "to_cells (DJson v) = map put_string v"
| "to_cells (DFixedString width bytes) = chunks_exact width bytes"
| "to_cells (DDate v) = map (le_bytes 2) v"
| "to_cells (DDate32 v) = map (le_signed_bytes 4) v"
| "to_cells (DDateTime v) = map (le_bytes 4) v"
| "to_cells (DDateTime64 p z v) = map (le_signed_bytes 8) v"
| "to_cells (DUuid v) = v"
| "to_cells (DIpv4 v) = map (le_bytes 4) v"
| "to_cells (DIpv6 v) = v"
| "to_cells (DNullable msk child) = map2 nullable_cell msk (to_cells child)"
| "to_cells (DArray offsets child) = or_empty (cut_rows ''Array'' (to_cells child) 0 offsets)"
| "to_cells (DLowCardinality dict indices nl) =
    or_empty (each_result (lc_cell nl (to_cells dict)) (index_values indices))"
| "to_cells (DTuple flds) =
    foldl append_cells (replicate (row_count (DTuple flds)) []) (map to_cells flds)"
| "to_cells (DMap offsets keys vals) =
    or_empty (cut_rows ''Map'' (map2 (@) (to_cells keys) (to_cells vals)) 0 offsets)"
| "to_cells (DUnsupported t) = []"

text \<open>
  The types with a typed variant whose values are read directly: everything but the types rendered
  as JSON and those the decoder only skips, with a positive width and at least one field.
\<close>

function (sequential) typed :: "ColumnType \<Rightarrow> bool" where
  "typed t = (case t of
     FixedString n \<Rightarrow> n > 0
   | Nullable a \<Rightarrow> typed a
   | LowCardinality a \<Rightarrow> typed (lc_dict_type a)
   | SimpleAggregateFunction a \<Rightarrow> typed a
   | Array a \<Rightarrow> typed a
   | Map a b \<Rightarrow> typed a \<and> typed b
   | Tuple ts \<Rightarrow> ts \<noteq> [] \<and> list_all typed ts
   | BFloat16 \<Rightarrow> False | Time \<Rightarrow> False | Time64 \<Rightarrow> False | Point \<Rightarrow> False
   | NewJson \<Rightarrow> False | Variant ts \<Rightarrow> False | DynamicType \<Rightarrow> False
   | _ \<Rightarrow> True)"
  by pat_completeness auto
termination typed
  by (relation "measure size") (auto simp: less_Suc_eq_le size_list_estimation' size_lc_dict_type)

declare typed.simps [simp del]

section \<open>Flat columns\<close>

lemma le_signed_mod: "le_signed bs mod 2 ^ (8 * length bs) = int (le_val bs)"
proof -
  let ?m = "2 ^ (8 * length bs) :: int"
  have "le_val bs < 2 ^ (8 * length bs)" using le_val_bound [of bs] by (simp add: power_mult)
  then have v: "int (le_val bs) < ?m" by (metis of_nat_less_iff of_nat_numeral of_nat_power)
  then have "int (le_val bs) mod ?m = int (le_val bs)" by simp
  moreover have "(int (le_val bs) - ?m) mod ?m = int (le_val bs) mod ?m" by (rule minus_mod_self2)
  ultimately show ?thesis unfolding le_signed_def Let_def by (simp split: if_split)
qed

lemma le_signed_bytes_inverse: "le_signed_bytes (length bs) (le_signed bs) = bs"
  by (simp only: le_signed_bytes_def le_signed_mod nat_int le_bytes_le_val)

lemma chunks_exact_concat:
  assumes "\<And>c. c \<in> set cells \<Longrightarrow> length c = w" "0 < w"
  shows "chunks_exact w (concat cells) = cells"
proof -
  have len: "length (concat cells) = length cells * w" using assms(1) by (rule concat_map_length_const [of cells id, simplified])
  have "take w (drop (i * w) (concat cells)) = cells ! i" if "i < length cells" for i
    using that assms(1)
  proof (induction cells arbitrary: i)
    case (Cons c cells)
    then show ?case by (cases i) auto
  qed simp
  moreover have "chunks_exact w (concat cells) = map (\<lambda>i. take w (drop (i * w) (concat cells))) [0..<length cells]"
    unfolding chunks_exact_def len using assms(2) by simp
  ultimately show ?thesis by (intro nth_equalityI) simp_all
qed

lemma read_fixed_column_split:
  "read_fixed_column n w s = Inr (cells, rest) \<longleftrightarrow>
    s = concat cells @ rest \<and> length cells = n \<and> (\<forall>c\<in>set cells. length c = w)"
proof (induction n arbitrary: s cells)
  case (Suc n)
  have "read_fixed_column (Suc n) w s = Inr (cells, rest) \<longleftrightarrow>
    (\<exists>c cs. cells = c # cs \<and> length c = w \<and> (\<exists>u. s = c @ u \<and> read_fixed_column n w u = Inr (cs, rest)))"
    by (auto simp: read_fixed_column_def rbind_eq_Inr read_exact_eq_Inr)
  then show ?case using Suc by (cases cells) auto
qed (auto simp: read_fixed_column_def)

lemma read_times_map:
  "read_times n (rbind m (\<lambda>x. rret (f x))) s =
    (case read_times n m s of Inl e \<Rightarrow> Inl e | Inr (xs, r) \<Rightarrow> Inr (map f xs, r))"
  by (induction n arbitrary: s) (auto simp: rbind_def split: sum.splits)

lemma read_string_column_split:
  "read_string_column n s = Inr (cells, rest) \<longleftrightarrow>
    (\<exists>ps. read_times n read_string s = Inr (ps, rest) \<and> cells = map put_string ps)"
  by (auto simp: read_string_column_def read_times_map rowbinary_string_def split: sum.splits)

lemma read_le_column_concat:
  assumes "\<And>c. c \<in> set cells \<Longrightarrow> length c = w" "0 < w" "length cells = n" "n * w < 2 ^ 64"
  shows "read_le_column w f n (concat cells @ rest) = Inr (map f cells, rest)"
    "read_exact_grown (n * w) (concat cells @ rest) = Inr (concat cells, rest)"
proof -
  have "length (concat cells) = n * w" using assms(1,3) concat_map_length_const [of cells id w] by simp
  then show *: "read_exact_grown (n * w) (concat cells @ rest) = Inr (concat cells, rest)"
    by (simp add: read_exact_append)
  then show "read_le_column w f n (concat cells @ rest) = Inr (map f cells, rest)"
    using assms by (simp add: read_le_column_def rbind_def chunks_exact_concat)
qed

lemma fixed_bulk:
  assumes "read_fixed_column n w s = Inr (cells, rest)" "0 < w" "length s < 2 ^ 64"
  shows "read_le_column w f n s = Inr (map f cells, rest) \<and> read_exact (n * w) s = Inr (concat cells, rest) \<and>
    n * w < 2 ^ 64 \<and> length cells = n \<and> (\<forall>c\<in>set cells. length c = w) \<and> chunks_exact w (concat cells) = cells \<and>
    length (concat cells) = n * w"
proof -
  have s: "s = concat cells @ rest" "length cells = n" and w: "\<And>c. c \<in> set cells \<Longrightarrow> length c = w"
    using assms(1) unfolding read_fixed_column_split by auto
  have len: "length (concat cells) = n * w" using w s(2) concat_map_length_const [of cells id w] by simp
  then have n: "n * w < 2 ^ 64" using assms(3) s(1) by simp
  show ?thesis
    using read_le_column_concat [OF w assms(2) s(2) n] s w n len chunks_exact_concat [OF w assms(2)] by simp
qed

lemma map_le_val: "\<forall>c\<in>set cells. length c = w \<Longrightarrow> map (le_bytes w \<circ> le_val) cells = cells"
  using le_bytes_le_val by (auto intro!: map_idI)

lemma map_le_signed: "\<forall>c\<in>set cells. length c = w \<Longrightarrow> map (le_signed_bytes w \<circ> le_signed) cells = cells"
  using le_signed_bytes_inverse by (auto intro!: map_idI)

lemma map_singleton_concat:
  "\<forall>c\<in>set cells. length c = Suc 0 \<Longrightarrow>
    map (\<lambda>b. [b]) (concat cells) = cells \<and>
    map (le_signed_bytes (Suc 0) \<circ> (\<lambda>b. le_signed [b])) (concat cells) = cells"
  using le_signed_bytes_inverse [of "[b]" for b]
  by (induction cells) (auto simp: length_Suc_conv comp_def)

lemma flat_agrees:
  assumes "decode_flat t n = Some m" "read_column_body rd t n s = Inr (cells, rest)"
    and "typed t" "length s < 2 ^ 64"
  shows "\<exists>c. m s = Inr (c, rest) \<and> to_cells c = cells \<and> row_count c = n"
proof (cases "fixed_size t")
  case None
  with assms show ?thesis
    by (cases t) (auto simp: decode_flat_def fixed_size_def read_column_body_def read_string_column_split
        wrap_def rbind_def dest: read_times_length)
next
  case (Some w)
  with assms have "read_fixed_column n w s = Inr (cells, rest)" "0 < w"
    by (cases t; simp add: decode_flat_def fixed_size_def read_column_body_def typed.simps; fail)+
  note fb = fixed_bulk [OF this assms(4)]
  have "read_unsigned w n s = Inr (map le_val cells, rest)" "read_signed w n s = Inr (map le_signed cells, rest)"
    "read_exact (n * w) s = Inr (concat cells, rest)" "n * w < 2 ^ 64" "length cells = n"
    "\<forall>c\<in>set cells. length c = w" "chunks_exact w (concat cells) = cells"
    "read_times n (read_exact w) s = Inr (cells, rest)" "length (concat cells) = n * w"
    using fb [of le_val] fb [of le_signed] \<open>read_fixed_column n w s = Inr (cells, rest)\<close>
    by (simp_all add: read_fixed_column_def)
  then show ?thesis
    using assms(1) Some \<open>0 < w\<close>
    by (cases t)
       (auto simp: decode_flat_def fixed_size_def wrap_def rbind_def map_le_val map_le_signed
         map_singleton_concat read_u256_column_def mult.commute [of n])
qed

lemma read_times_rest:
  assumes "\<And>s v rest. m s = Inr (v, rest) \<Longrightarrow> length rest \<le> length s"
  shows "read_times n m s = Inr (vs, rest) \<Longrightarrow> length rest \<le> length s"
proof (induction n arbitrary: s vs)
  case (Suc n)
  then show ?case using assms by (fastforce simp: rbind_eq_Inr)
qed simp

lemma read_string_rest: "read_string s = Inr (v, rest) \<Longrightarrow> length rest \<le> length s"
  by (auto simp: read_string_def read_var_uint_def rbind_eq_Inr read_exact_eq_Inr
      dest!: read_var_uint_loop_consumes)

lemma flat_rest:
  assumes "decode_flat t n = Some m" "read_column_body rd t n s = Inr (cells, rest)"
  shows "length rest \<le> length s"
proof (cases "fixed_size t")
  case None
  with assms show ?thesis
    using read_times_rest [of read_string, OF read_string_rest]
    by (cases t) (auto simp: decode_flat_def fixed_size_def read_column_body_def read_string_column_split)
next
  case (Some w)
  with assms show ?thesis
    by (cases t) (auto simp: decode_flat_def fixed_size_def read_column_body_def read_fixed_column_split)
qed

section \<open>Nested columns\<close>

text \<open>
  On every stream the cell reader accepts, the decoder takes the same bytes, leaves the headers
  alone and holds a column of \<open>n\<close> rows with the same cells.
\<close>

definition same_column :: "nat \<Rightarrow> ColumnData rd \<Rightarrow> (headers \<Rightarrow> (DecodedColumn \<times> headers) rd) \<Rightarrow> bool" where
  "same_column n rd dc \<longleftrightarrow> (\<forall>s cells rest hs. rd s = Inr (cells, rest) \<longrightarrow> length s < 2 ^ 64 \<longrightarrow>
    length rest \<le> length s \<and>
    (\<exists>c. dc hs s = Inr ((c, hs), rest) \<and> to_cells c = cells \<and> row_count c = n))"

lemma same_columnI:
  assumes "\<And>s cells rest hs. rd s = Inr (cells, rest) \<Longrightarrow> length s < 2 ^ 64 \<Longrightarrow>
    length rest \<le> length s \<and>
    (\<exists>c. dc hs s = Inr ((c, hs), rest) \<and> to_cells c = cells \<and> row_count c = n)"
  shows "same_column n rd dc"
  using assms unfolding same_column_def by blast

lemma same_columnE:
  assumes "same_column n rd dc" "rd s = Inr (cells, rest)" "length s < 2 ^ 64"
  obtains c where "dc hs s = Inr ((c, hs), rest)" "to_cells c = cells" "row_count c = n"
    "length rest \<le> length s"
  using assms unfolding same_column_def by blast

lemma read_le_rest: "read_le w s = Inr (v, rest) \<Longrightarrow> length rest \<le> length s"
  by (auto simp: read_le_def rbind_eq_Inr read_exact_eq_Inr)

lemma read_offsets_rest: "read_times n (read_le w) s = Inr (vs, rest) \<Longrightarrow> length rest \<le> length s"
  using read_times_rest [of "read_le w"] read_le_rest by blast

lemma monotonic_offsets:
  assumes "read_times n (read_le 8) s = Inr (os, rest)" "cut_rows what elems prev os = Inr rows"
  shows "read_monotonic what prev n s = Inr (os, rest)"
  using assms
proof (induction n arbitrary: s os prev rows)
  case (Suc n)
  then obtain e es u where "read_le 8 s = Inr (e, u)" "read_times n (read_le 8) u = Inr (es, rest)" "os = e # es"
    by (auto simp: rbind_eq_Inr)
  moreover with Suc.prems obtain rows' where "prev \<le> e" "cut_rows what elems e es = Inr rows'"
    by (auto simp: tri_eq_Inr checked_span_def split: if_splits)
  ultimately show ?case using Suc.IH by (simp add: rbind_def)
qed simp

lemma dict_type_of_parts: "dict_type_of inner = (lc_dict_type inner, lc_nullable inner)"
  by (simp add: dict_type_of_def lc_dict_type_def lc_nullable_def split: ColumnType.split)

text \<open>The index loop of the cell reader resolves each index as it reads it.\<close>

lemma read_times_rlift:
  assumes "read_times n (rbind m (\<lambda>i. rlift (f i))) s = Inr (cells, rest)"
  shows "\<exists>idxs. read_times n m s = Inr (idxs, rest) \<and> each_result f idxs = Inr cells"
  using assms
proof (induction n arbitrary: s cells)
  case (Suc n)
  then obtain i u c v cs where "m s = Inr (i, u)" "f i = Inr c" "cells = c # cs"
    "read_times n (rbind m (\<lambda>i. rlift (f i))) u = Inr (cs, rest)"
    by (auto simp: rbind_eq_Inr)
  moreover with Suc.IH obtain idxs where "read_times n m u = Inr (idxs, rest)" "each_result f idxs = Inr cs"
    by blast
  ultimately show ?case by (auto simp: rbind_def)
qed simp

lemma read_indices_bulk:
  assumes "read_times n (read_le w) s = Inr (idxs, rest)" "0 < w" "length s < 2 ^ 64"
  shows "read_unsigned w n s = Inr (idxs, rest) \<and> length rest \<le> length s \<and> length idxs = n \<and>
    (w = 1 \<longrightarrow> (\<exists>bs. read_exact n s = Inr (bs, rest) \<and> map unat bs = idxs))"
proof -
  from assms(1) obtain cells where c: "read_fixed_column n w s = Inr (cells, rest)" "idxs = map le_val cells"
    by (auto simp: read_le_def read_times_map read_fixed_column_def split: sum.splits)
  note fb = fixed_bulk [OF c(1) assms(2,3)]
  have "map unat (concat cells) = idxs" if "w = 1"
  proof -
    have "\<forall>c\<in>set cells. length c = Suc 0" using fb [of le_val] that by simp
    then show ?thesis unfolding c(2) by (induction cells) (auto simp: length_Suc_conv)
  qed
  then show ?thesis using fb [of le_val] c by (auto simp: read_fixed_column_split)
qed

lemma lc_indices_agrees:
  assumes "lc_index_bytes k = Inr w" "read_times n (read_index w) s = Inr (idxs, rest)" "length s < 2 ^ 64"
  shows "length rest \<le> length s \<and>
    (\<exists>c. lc_indices k n s = Inr (c, rest) \<and> index_values c = idxs \<and> row_count c = n)"
proof -
  have w: "(k, w) \<in> {(0, 1), (1, 2), (2, 4), (3, 8)}"
    using assms(1) by (auto simp: lc_index_bytes_def split: if_splits)
  then have "read_times n (read_le w) s = Inr (idxs, rest)" "0 < w"
    using assms(2) by (auto simp: read_index_def)
  with read_indices_bulk [OF this assms(3)] w show ?thesis
    by (auto simp: lc_indices_def wrap_def rbind_def)
qed

text \<open>
  A cell reader and a decoder that agree on every typed column.  The composite columns built from
  such a pair agree again, which is proved here once and gives the agreement at every depth.
\<close>

locale column_agreement =
  fixes rd :: col_reader
    and dc :: dec
  assumes agree: "typed t \<Longrightarrow> same_column n (rd t n) (dc t n)"
begin

lemma nullable_agrees:
  assumes "typed a"
  shows "same_column n (read_nullable_column rd n a) (\<lambda>hs.
    rbind (read_exact_grown n) (\<lambda>msk. rbind (dc a n hs) (\<lambda>(child, hs'). rret (DNullable msk child, hs'))))"
proof (rule same_columnI)
  fix s cells rest hs
  assume "read_nullable_column rd n a s = Inr (cells, rest)" and s: "length s < 2 ^ 64"
  then obtain flags u vs where r: "s = flags @ u" "length flags = n" "rd a n u = Inr (vs, rest)"
      "cells = map2 nullable_cell flags vs"
    by (auto simp: read_nullable_column_def rbind_eq_Inr read_exact_eq_Inr)
  with s have "length u < 2 ^ 64" by simp
  with agree [OF assms] r(3) obtain c where "dc a n hs u = Inr ((c, hs), rest)" "to_cells c = vs" "length rest \<le> length u"
    by (rule same_columnE)
  with r show "length rest \<le> length s \<and> (\<exists>c. rbind (read_exact_grown n) (\<lambda>msk.
      rbind (dc a n hs) (\<lambda>(child, hs'). rret (DNullable msk child, hs'))) s = Inr ((c, hs), rest) \<and>
      to_cells c = cells \<and> row_count c = n)"
    by (simp add: read_exact_append rbind_def)
qed

lemma array_agrees:
  assumes "typed a"
  shows "same_column n (read_array_column rd n a) (\<lambda>hs.
    rbind (read_monotonic ''Array'' 0 n) (\<lambda>offsets.
    rbind (dc a (last_or_0 offsets) hs) (\<lambda>(child, hs'). rret (DArray offsets child, hs'))))"
proof (rule same_columnI)
  fix s cells rest hs
  assume "read_array_column rd n a s = Inr (cells, rest)" and s: "length s < 2 ^ 64"
  then obtain os u vs where r: "read_times n (read_le 8) s = Inr (os, u)" "rd a (last_or_0 os) u = Inr (vs, rest)"
      "cut_rows ''Array'' vs 0 os = Inr cells"
    by (auto simp: read_array_column_def read_offsets_def rbind_eq_Inr)
  have u: "length u \<le> length s" using r(1) by (rule read_offsets_rest)
  with s have "length u < 2 ^ 64" by simp
  with agree [OF assms] r(2) obtain c where
    "dc a (last_or_0 os) hs u = Inr ((c, hs), rest)" "to_cells c = vs" "length rest \<le> length u"
    by (rule same_columnE)
  with monotonic_offsets [OF r(1,3)] r u read_times_length [OF r(1)]
  show "length rest \<le> length s \<and> (\<exists>c. rbind (read_monotonic ''Array'' 0 n) (\<lambda>offsets.
      rbind (dc a (last_or_0 offsets) hs) (\<lambda>(child, hs'). rret (DArray offsets child, hs'))) s = Inr ((c, hs), rest) \<and>
      to_cells c = cells \<and> row_count c = n)"
    by (simp add: rbind_def or_empty_def)
qed

lemma map_agrees:
  assumes "typed a" "typed b"
  shows "same_column n (read_map_column rd n a b) (\<lambda>hs.
    rbind (read_monotonic ''Map'' 0 n) (\<lambda>offsets.
    rbind (dc a (last_or_0 offsets) hs) (\<lambda>(keys, hs1).
    rbind (dc b (last_or_0 offsets) hs1) (\<lambda>(vals, hs2). rret (DMap offsets keys vals, hs2)))))"
proof (rule same_columnI)
  fix s cells rest hs
  assume "read_map_column rd n a b s = Inr (cells, rest)" and s: "length s < 2 ^ 64"
  then obtain os u ks v vs where r: "read_times n (read_le 8) s = Inr (os, u)" "rd a (last_or_0 os) u = Inr (ks, v)"
      "rd b (last_or_0 os) v = Inr (vs, rest)" "cut_rows ''Map'' (map2 (@) ks vs) 0 os = Inr cells"
    by (auto simp: read_map_column_def read_offsets_def rbind_eq_Inr)
  have u: "length u \<le> length s" using r(1) by (rule read_offsets_rest)
  with s have u64: "length u < 2 ^ 64" by simp
  from agree [OF assms(1)] r(2) u64 obtain k where
    k: "dc a (last_or_0 os) hs u = Inr ((k, hs), v)" "to_cells k = ks" "length v \<le> length u"
    by (rule same_columnE)
  with u64 have "length v < 2 ^ 64" by simp
  with agree [OF assms(2)] r(3) obtain c where
    "dc b (last_or_0 os) hs v = Inr ((c, hs), rest)" "to_cells c = vs" "length rest \<le> length v"
    by (rule same_columnE)
  with monotonic_offsets [OF r(1,4)] r u k read_times_length [OF r(1)]
  show "length rest \<le> length s \<and> (\<exists>c. rbind (read_monotonic ''Map'' 0 n) (\<lambda>offsets.
      rbind (dc a (last_or_0 offsets) hs) (\<lambda>(keys, hs1).
      rbind (dc b (last_or_0 offsets) hs1) (\<lambda>(vals, hs2). rret (DMap offsets keys vals, hs2)))) s = Inr ((c, hs), rest) \<and>
      to_cells c = cells \<and> row_count c = n)"
    by (simp add: rbind_def or_empty_def)
qed

lemma fields_agree:
  assumes "list_all typed ts" "read_each (\<lambda>t. rd t n) ts s = Inr (cols, rest)" "length s < 2 ^ 64"
  shows "length rest \<le> length s \<and> (\<exists>cs. decode_fields dc ts n hs s = Inr ((cs, hs), rest) \<and>
    map to_cells cs = cols \<and> length cs = length ts \<and> (\<forall>c\<in>set cs. row_count c = n))"
  using assms
proof (induction ts arbitrary: s cols)
  case (Cons t ts)
  then obtain col u cols' where r: "rd t n s = Inr (col, u)" "read_each (\<lambda>t. rd t n) ts u = Inr (cols', rest)"
      "cols = col # cols'"
    by (auto simp: rbind_eq_Inr)
  have "typed t" using Cons.prems by simp
  from agree [OF this] r(1) Cons.prems(3) obtain c where
    c: "dc t n hs s = Inr ((c, hs), u)" "to_cells c = col" "row_count c = n" "length u \<le> length s"
    by (rule same_columnE)
  with Cons.IH [OF _ r(2)] Cons.prems r(3) show ?case by (fastforce simp: rbind_def)
qed simp

lemma tuple_agrees:
  assumes "list_all typed ts" "ts \<noteq> []"
  shows "same_column n (read_tuple_column rd n ts) (\<lambda>hs.
    rbind (decode_fields dc ts n hs) (\<lambda>(decoded_fields, hs'). rret (DTuple decoded_fields, hs')))"
proof (rule same_columnI)
  fix s cells rest hs
  assume "read_tuple_column rd n ts s = Inr (cells, rest)" and s: "length s < 2 ^ 64"
  then obtain cols where r: "read_each (\<lambda>t. rd t n) ts s = Inr (cols, rest)"
      "cells = foldl append_cells (replicate n []) cols"
    by (auto simp: read_tuple_column_def rbind_eq_Inr)
  from fields_agree [OF assms(1) r(1) s, of hs] obtain cs where
    cs: "decode_fields dc ts n hs s = Inr ((cs, hs), rest)" "map to_cells cs = cols" "length cs = length ts"
      "\<forall>c\<in>set cs. row_count c = n" "length rest \<le> length s"
    by blast
  then have "row_count (DTuple cs) = n" using assms(2) by (cases cs) auto
  with cs r(2) show "length rest \<le> length s \<and> (\<exists>c. rbind (decode_fields dc ts n hs)
      (\<lambda>(decoded_fields, hs'). rret (DTuple decoded_fields, hs')) s = Inr ((c, hs), rest) \<and>
      to_cells c = cells \<and> row_count c = n)"
    by (auto simp: rbind_def)
qed

lemma low_cardinality_agrees:
  assumes "typed (lc_dict_type inner)"
  shows "same_column n (read_low_cardinality_column rd n inner) (decode_low_cardinality dc inner n)"
proof (rule same_columnI)
  fix s cells rest hs
  assume "read_low_cardinality_column rd n inner s = Inr (cells, rest)" and s: "length s < 2 ^ 64"
  then obtain flags u1 keys u2 dict u3 u4 w where
    r: "read_le 8 s = Inr (flags, u1)" "\<not> odd (flags div 256)" "odd (flags div 512)"
      "read_le 8 u1 = Inr (keys, u2)" "rd (lc_dict_type inner) keys u2 = Inr (dict, u3)"
      "read_le 8 u3 = Inr (n, u4)" "lc_index_bytes (flags mod 4) = Inr w"
      "read_times n (rbind (read_index w) (\<lambda>idx. rlift (lc_cell (lc_nullable inner) dict idx))) u4 = Inr (cells, rest)"
    by (auto simp: read_low_cardinality_column_def dict_type_of_parts rbind_eq_Inr Let_def split: if_splits)
  have u2: "length u2 < 2 ^ 64" "length u2 \<le> length s"
    using read_le_rest [OF r(1)] read_le_rest [OF r(4)] s by simp_all
  from agree [OF assms] r(5) u2(1) obtain d where
    d: "dc (lc_dict_type inner) keys hs u2 = Inr ((d, hs), u3)" "to_cells d = dict" "length u3 \<le> length u2"
    by (rule same_columnE)
  from read_times_rlift [OF r(8)] obtain idxs where
    i: "read_times n (read_index w) u4 = Inr (idxs, rest)"
      "each_result (lc_cell (lc_nullable inner) dict) idxs = Inr cells"
    by blast
  have "length u4 < 2 ^ 64" using u2 d(3) read_le_rest [OF r(6)] by simp
  from lc_indices_agrees [OF r(7) i(1) this] obtain c where
    c: "lc_indices (flags mod 4) n u4 = Inr (c, rest)" "index_values c = idxs" "row_count c = n"
      "length rest \<le> length u4"
    by blast
  have "decode_low_cardinality dc inner n hs s = Inr ((DLowCardinality d c (lc_nullable inner), hs), rest)"
    using r d(1) c(1) by (simp add: decode_low_cardinality_def dict_type_of_parts rbind_def)
  with c d i(2) u2 read_le_rest [OF r(6)]
  show "length rest \<le> length s \<and> (\<exists>c. decode_low_cardinality dc inner n hs s = Inr ((c, hs), rest) \<and>
      to_cells c = cells \<and> row_count c = n)"
    by (simp add: or_empty_def)
qed

lemma flat_body_agrees:
  assumes "typed t" "decode_flat t n = Some m"
  shows "same_column n (read_column_body rd t n) (decode_body levels dc t n)"
proof (rule same_columnI)
  fix s cells rest hs
  assume r: "read_column_body rd t n s = Inr (cells, rest)" and s: "length s < 2 ^ 64"
  from flat_agrees [OF assms(2) r assms(1) s] obtain c where
    c: "m s = Inr (c, rest)" "to_cells c = cells" "row_count c = n"
    by blast
  have "length rest \<le> length s" using flat_rest [OF assms(2) r] .
  with c assms(2) show "length rest \<le> length s \<and>
    (\<exists>c. decode_body levels dc t n hs s = Inr ((c, hs), rest) \<and> to_cells c = cells \<and> row_count c = n)"
    by (simp add: decode_body_def wrap_def rbind_def)
qed

lemma body_agrees:
  assumes "typed t"
  shows "same_column n (read_column_body rd t n) (decode_body levels dc t n)"
proof (cases "decode_flat t n")
  case (Some m)
  with assms show ?thesis by (rule flat_body_agrees)
next
  case None
  with assms show ?thesis
    using nullable_agrees array_agrees map_agrees tuple_agrees low_cardinality_agrees agree
    by (cases t) (simp_all add: decode_flat_def decode_body_def [abs_def] read_column_body_def typed.simps)
qed

end

lemma empty_column_rows: "to_cells (empty_column t) = [] \<and> row_count (empty_column t) = 0"
proof (induction t rule: empty_column.induct)
  case (1 t)
  have foldl_nil: "foldl append_cells [] cols = []" for cols by (induction cols) auto
  have "map empty_column ts = [] \<or> row_count (hd (map empty_column ts)) = 0" if "t = Tuple ts" for ts
    using 1 that by (cases ts) auto
  with 1 show ?case
    by (subst empty_column.simps, subst (2) empty_column.simps, cases t)
       (auto simp: or_empty_def chunks_exact_def foldl_nil split: list.split)
qed

lemma depth_bounds_agree: "MAX_DECODE_DEPTH = MAX_READ_DEPTH"
  by (simp add: MAX_DECODE_DEPTH_def MAX_READ_DEPTH_def)

lemma column_agreement_at: "column_agreement (read_column_at l) (decode_column l)"
proof (induction l)
  case 0
  show ?case by unfold_locales (simp add: same_column_def)
next
  case (Suc l)
  show ?case
  proof
    fix t n assume "typed t"
    show "same_column n (read_column_at (Suc l) t n) (decode_column (Suc l) t n)"
    proof (cases "l = MAX_READ_DEPTH \<and> n = 0")
      case True
      then have "read_column_at (Suc l) t n = rret []"
        "decode_column (Suc l) t n = (\<lambda>hs. rret (empty_column t, hs))" "n = 0"
        by (simp_all add: depth_bounds_agree fun_eq_iff)
      then show ?thesis using empty_column_rows by (auto simp: same_column_def)
    next
      case False
      then have "read_column_at (Suc l) t n = read_column_body (read_column_at l) t n"
        "decode_column (Suc l) t n = decode_body l (decode_column l) t n"
        by (auto simp: depth_bounds_agree fun_eq_iff)
      then show ?thesis using column_agreement.body_agrees [OF Suc \<open>typed t\<close>] by simp
    qed
  qed
qed

interpretation at: column_agreement "read_column_at l" "decode_column l" for l
  by (rule column_agreement_at)

lemma skipped_agrees:
  assumes "read_column_data t n s = Inr (cells, rest)" "t \<in> {BFloat16, Time, Time64, Point}"
  shows "decode_column (MAX_DECODE_DEPTH + 1) t n hs s = Inr ((DUnsupported t, hs), rest)"
proof (cases "n = 0")
  case True
  then have "rest = s" using assms(1) by (auto simp: read_column_data_def)
  then show ?thesis using True assms(2) by (auto simp: empty_column.simps)
next
  case False
  have "decode_flat t n = None" using assms(2) by (auto simp: decode_flat_def)
  then show ?thesis using False assms by (auto simp: decode_body_def rbind_def)
qed

text \<open>
  C10: the typed decoder and the cell reader agree.  Take any stream of which the cell reader accepts a column.  If the
  type has a typed form throughout, so that nothing in it is rendered as JSON (the new JSON type, Variant, Dynamic) or
  only skipped, the decoder accepts the stream, stops at the same byte, leaves the dynamic headers alone, and its column
  has the declared row count and, row by row, the cells the reader returned.  If it is one of the types the decoder
  skips (BFloat16, Time, Time64, Point), the decoder takes the same bytes and gives a column without rows.
\<close>

theorem decode_agrees_with_reader:
  assumes "read_column_data t n s = Inr (cells, rest)" "length s < 2 ^ 64"
  shows "(typed t \<longrightarrow> (\<exists>c. decode_column (MAX_DECODE_DEPTH + 1) t n hs s = Inr ((c, hs), rest) \<and>
      to_cells c = cells \<and> row_count c = n)) \<and>
    (t \<in> {BFloat16, Time, Time64, Point} \<longrightarrow>
      decode_column (MAX_DECODE_DEPTH + 1) t n hs s = Inr ((DUnsupported t, hs), rest) \<and> row_count (DUnsupported t) = 0)"
proof -
  have "read_column_at (MAX_DECODE_DEPTH + 1) t n s = Inr (cells, rest)"
    using assms(1) by (simp add: read_column_data_def depth_bounds_agree)
  note here = this
  have "\<exists>c. decode_column (MAX_DECODE_DEPTH + 1) t n hs s = Inr ((c, hs), rest) \<and> to_cells c = cells \<and> row_count c = n"
    if "typed t"
    using at.agree [OF that] here assms(2) by (rule same_columnE) blast
  then show ?thesis using skipped_agrees [OF assms(1)] by (simp del: decode_column.simps)
qed

theorem decode_agrees_with_reader_witness:
  "(\<exists>c. decode_column (MAX_DECODE_DEPTH + 1) (Nullable UInt8) 3 [] [0, 1, 0, 5, 0, 7] = Inr ((c, []), []) \<and>
      to_cells c = [[0, 5], [1], [0, 7]] \<and> row_count c = 3) \<and>
    decode_column (MAX_DECODE_DEPTH + 1) BFloat16 1 [] [1, 2, 9] = Inr ((DUnsupported BFloat16, []), [9])"
proof -
  have "read_column_data (Nullable UInt8) 3 [0, 1, 0, 5, 0, 7] = Inr ([[0, 5], [1], [0, 7]], [])"
    by (simp add: read_column_data_def read_column_at_pos MAX_READ_DEPTH_def read_column_body_def
        read_nullable_column_def read_fixed_column_def fixed_size_def rbind_def read_exact_def
        nullable_cell_def eval_nat_numeral)
  moreover have "read_column_data BFloat16 1 [1, 2, 9] = Inr ([[1, 2]], [9])"
    by (simp add: read_column_data_def read_column_at_pos MAX_READ_DEPTH_def read_column_body_def
        read_fixed_column_def fixed_size_def rbind_def read_exact_def eval_nat_numeral)
  ultimately show ?thesis
    using decode_agrees_with_reader [of "Nullable UInt8" 3 "[0, 1, 0, 5, 0, 7]" "[[0, 5], [1], [0, 7]]" "[]" "[]"]
      decode_agrees_with_reader [of BFloat16 1 "[1, 2, 9]" "[[1, 2]]" "[9]" "[]"]
    by (simp add: typed.simps del: decode_column.simps)
qed

end
