(* ===== verification/BlockRoundtrip.thy ===== *)
theory BlockRoundtrip
  imports Arrival DecodeAgreement TypeNames
begin

text \<open>
  Whole blocks: what the INSERT encoder (src/src/native/encode.rs) writes, the block decoder
  (src/src/native/decode.rs) reads back as the same schema and the same cells; a column sent in the
  sparse serialisation expands to the cells it was written from.
\<close>

section \<open>Prefixes\<close>

lemma read_each_silent:
  assumes "\<And>t s. t \<in> set ts \<Longrightarrow> f t (g t @ s) = Inr ([], s)"
  shows "wrap concat (read_each f ts) (concat (map g ts) @ s) = Inr ([], s)"
proof -
  have "read_each f ts (concat (map g ts) @ s) = Inr (map (\<lambda>_. []) ts, s)"
    using assms by (induction ts) (auto simp: rbind_def)
  then show ?thesis by (simp add: wrap_def rbind_def)
qed

lemma lc_version: "rbind (read_le 8) (\<lambda>version. rret []) (le_bytes 8 1 @ s) = Inr ([], s)"
  by (simp add: le.dec_bind)

lemma prefixes_roundtrip:
  assumes "column t vs" "levels t \<le> l"
  shows "decode_prefixes l t (write_col_prefixes t @ s) = Inr ([], s)"
  using assms
proof (induction arbitrary: l s rule: column.induct)
  case (col_scalar t vs)
  then obtain k where "l = Suc k" using levels_pos [of t] by (cases l) auto
  with col_scalar show ?case
    by (cases t) (simp_all add: scalar_def fixed_size_def decode_prefixes_body_def write_col_prefixes.simps)
next
  case (col_nullable t ws)
  then obtain k where "l = Suc k" "levels t \<le> k"
    using levels.simps [of "Nullable t"] by (cases l) auto
  with col_nullable show ?case
    by (simp add: decode_prefixes_body_def write_col_prefixes.simps [of "Nullable t"])
next
  case (col_lc t vs)
  then obtain k where "l = Suc k" using levels_pos [of "LowCardinality t"] by (cases l) auto
  then show ?case
    using lc_version [of s] by (simp add: decode_prefixes_body_def write_col_prefixes.simps [of "LowCardinality t"])
next
  case (col_lc_nullable t ws)
  then obtain k where "l = Suc k" using levels_pos [of "LowCardinality (Nullable t)"] by (cases l) auto
  then show ?case
    using lc_version [of s] by (simp add: decode_prefixes_body_def write_col_prefixes.simps [of "LowCardinality (Nullable t)"])
next
  case (col_array t wss)
  then obtain k where "l = Suc k" "levels t \<le> k"
    using levels.simps [of "Array t"] by (cases l) auto
  with col_array show ?case
    by (simp add: decode_prefixes_body_def write_col_prefixes.simps [of "Array t"])
next
  case (col_map k pss x)
  then obtain m where "l = Suc m" "levels k \<le> m" "levels x \<le> m"
    using levels.simps [of "Map k x"] by (cases l) auto
  with col_map show ?case
    by (simp add: decode_prefixes_body_def write_col_prefixes.simps [of "Map k x"] rbind_def)
next
  case (col_tuple ts cols n)
  then obtain k where k: "l = Suc k" "foldr max (map levels ts) 0 \<le> k"
    using levels.simps [of "Tuple ts"] by (cases l) auto
  have "decode_prefixes k t (write_col_prefixes t @ u) = Inr ([], u)" if t: "t \<in> set ts" for t u
  proof -
    have "levels t \<le> k" using fields_levels [OF t] k(2) by simp
    moreover obtain i where "i < length ts" "t = ts ! i" using t by (auto simp: in_set_conv_nth)
    ultimately show ?thesis using col_tuple.IH by (auto simp: list_all2_conv_all_nth)
  qed
  then show ?case
    using read_each_silent [of ts "decode_prefixes k" write_col_prefixes s] k(1)
    by (simp add: decode_prefixes_body_def write_col_prefixes.simps [of "Tuple ts"])
qed

section \<open>Dense blocks\<close>

text \<open>The type name and the type of a column as the encoder announces them.\<close>

definition sent_name :: "ColumnSchema \<Rightarrow> string" where
  "sent_name col = (if cs_col_type col \<in> {NewJson, Json} then ''String'' else cs_type_name col)"

definition sent_type :: "ColumnSchema \<Rightarrow> ColumnType" where
  "sent_type col = (if cs_col_type col \<in> {NewJson, Json} then String else cs_col_type col)"

text \<open>A schema entry the decoder understands: short UTF-8 names, the type name denoting the type.\<close>

definition announced :: "string \<Rightarrow> bool" where
  "announced name \<longleftrightarrow> utf8_valid (as_bytes name) \<and> length name \<le> MAX_STRING_SIZE"

definition well_declared :: "ColumnSchema \<Rightarrow> bool" where
  "well_declared col \<longleftrightarrow> announced (cs_name col) \<and> announced (sent_name col) \<and>
    parse (sent_name col) = Some (sent_type col) \<and> typed (sent_type col) \<and>
    levels (sent_type col) \<le> Suc MAX_READ_DEPTH"

lemma read_utf8_string_put:
  "announced name \<Longrightarrow> read_utf8_string (put_string (as_bytes name) @ rest) = Inr (name, rest)"
  by (simp add: announced_def read_utf8_string_def rbind_def read_string_enc)

lemma column_json: "column t vs \<Longrightarrow> t \<in> {NewJson, Json} \<Longrightarrow> column String vs"
proof (induction rule: column.induct)
  case (col_scalar t vs)
  then show ?case
    by (intro column.col_scalar) (auto simp: scalar_def scalar_cell_def fixed_size_def)
qed auto

lemma sent_column:
  assumes "column (cs_col_type col) cells"
  shows "column (sent_type col) cells \<and>
    column_bytes (cs_col_type col) cells = column_bytes (sent_type col) cells \<and>
    write_col_prefixes (cs_col_type col) = write_col_prefixes (sent_type col)"
proof (cases "cs_col_type col \<in> {NewJson, Json}")
  case True
  then have "column String cells" using column_json [OF assms] by simp
  with True show ?thesis
    by (auto simp: sent_type_def column_bytes_def write_col_values.simps [of _ NewJson]
      write_col_values.simps [of _ Json] write_col_values.simps [of _ String]
      write_col_prefixes.simps [of NewJson] write_col_prefixes.simps [of Json]
      write_col_prefixes.simps [of String])
qed (use assms in \<open>simp add: sent_type_def\<close>)

lemma decode_column_section:
  assumes "column (cs_col_type col) cells" "well_declared col" "cells \<noteq> []"
    and "length (column_section ser col cells @ rest) < 2 ^ 64"
  shows "\<exists>c. decode_block_column (length cells) ser (column_section ser col cells @ rest) =
      Inr (((cs_name col, sent_name col), c), rest) \<and> to_cells c = cells \<and> row_count c = length cells"
proof -
  let ?t = "sent_type col"
  have ann: "announced (cs_name col)" "announced (sent_name col)" "parse (sent_name col) = Some ?t"
    "typed ?t" "levels ?t \<le> Suc MAX_READ_DEPTH"
    using assms(2) by (auto simp: well_declared_def)
  note sent = sent_column [OF assms(1)]
  have sec: "column_section ser col cells = put_string (as_bytes (cs_name col)) @
      put_string (as_bytes (sent_name col)) @ (if ser then [0] else []) @ write_col_prefixes ?t @
      column_bytes ?t cells"
    using sent by (simp add: column_section_def sent_name_def)
  have pre: "decode_prefixes (MAX_DECODE_DEPTH + 1) ?t (write_col_prefixes ?t @ u) = Inr ([], u)" for u
    using prefixes_roundtrip [of ?t cells "MAX_DECODE_DEPTH + 1" u] sent ann(5)
    by (simp add: depth_bounds_agree)
  have ser: "(if ser then read_serialization_kind (cs_name col) else rret False) ((if ser then [0] else []) @ u) =
      Inr (False, u)" for u
    by (simp add: read_serialization_kind_def read_le_def rbind_def read_exact_def)
  have "read_column_data ?t (length cells) (column_bytes ?t cells @ rest) = Inr (cells, rest)"
    using col.dec_enc [of ?t "length cells" cells rest] sent ann(5) assms(3)
    by (simp add: readable_column_def)
  moreover have "length (column_bytes ?t cells @ rest) < 2 ^ 64"
    using assms(4) by (simp add: sec)
  ultimately obtain c where
    "decode_column (MAX_DECODE_DEPTH + 1) ?t (length cells) [] (column_bytes ?t cells @ rest) = Inr ((c, []), rest)"
    "to_cells c = cells" "row_count c = length cells"
    using same_columnE [OF at.agree [OF ann(4)], of "MAX_DECODE_DEPTH + 1" "length cells" _ cells rest]
    by (metis read_column_data_def depth_bounds_agree)
  then show ?thesis
    using ann(1-3) pre ser assms(3)
    by (simp add: decode_block_column_def sec rbind_def wrap_def read_utf8_string_put)
qed

lemma decode_sections:
  assumes "list_all2 (\<lambda>col cells. column (cs_col_type col) cells) columns cols"
    and "\<And>col. col \<in> set columns \<Longrightarrow> well_declared col" "\<And>c. c \<in> set cols \<Longrightarrow> length c = n" "0 < n"
    and "length (concat (map2 (column_section ser) columns cols) @ rest) < 2 ^ 64"
  shows "\<exists>ds. read_times (length columns) (decode_block_column n ser)
      (concat (map2 (column_section ser) columns cols) @ rest) = Inr (ds, rest) \<and>
    map fst ds = map (\<lambda>col. (cs_name col, sent_name col)) columns \<and> map (to_cells \<circ> snd) ds = cols \<and>
    list_all (\<lambda>d. row_count (snd d) = n) ds"
  using assms
proof (induction columns cols rule: list_all2_induct)
  case (Cons col columns cells cols)
  then obtain ds where ds: "read_times (length columns) (decode_block_column n ser)
      (concat (map2 (column_section ser) columns cols) @ rest) = Inr (ds, rest)"
    "map fst ds = map (\<lambda>col. (cs_name col, sent_name col)) columns" "map (to_cells \<circ> snd) ds = cols"
    "list_all (\<lambda>d. row_count (snd d) = n) ds"
    by fastforce
  have n: "length cells = n" "cells \<noteq> []" using Cons.prems(2) [of cells] Cons.prems(3) by auto
  have "length (column_section ser col cells @ concat (map2 (column_section ser) columns cols) @ rest) < 2 ^ 64"
    using Cons.prems(4) by simp
  from decode_column_section [OF Cons.hyps(1) Cons.prems(1) n(2) this] ds n(1) show ?case
    by (fastforce simp: rbind_def)
qed simp

lemma ab_schema_declared: "col \<in> set ab_schema \<Longrightarrow> well_declared col"
proof -
  have "parse ''UInt8'' = Some UInt8" "parse ''UInt16'' = Some UInt16"
    using parse_printed_name [of UInt8] parse_printed_name [of UInt16]
    by (simp_all add: MAX_TYPE_PARSE_DEPTH_def)
  then show "well_declared col" if "col \<in> set ab_schema"
    using that by (auto simp: ab_schema_def well_declared_def announced_def sent_name_def sent_type_def
        as_bytes_def MAX_STRING_SIZE_def typed.simps levels.simps [of UInt8] levels.simps [of UInt16])
qed

lemma ab_block_encoded:
  "encode_columns (tuple_cells 2 ab_cols) ab_schema 54473 =
    Inr ([1, 0x61, 5, 0x55, 0x49, 0x6E, 0x74, 0x38, 0] @ [1, 3] @
      [1, 0x62, 6, 0x55, 0x49, 0x6E, 0x74, 0x31, 0x36, 0] @ [2, 0, 4, 0])"
  using encoded_block [OF ab_well_formed(1,2) _ ab_well_formed(4,5), of 54473]
  unfolding ab_well_formed(3) eqTrueI [OF ab_revision] ab_sections by auto

lemma block_decoded:
  assumes "list_all2 (\<lambda>col cells. column (cs_col_type col) cells) columns cols"
    and "\<And>col. col \<in> set columns \<Longrightarrow> well_declared col"
    and "\<And>c. c \<in> set cols \<Longrightarrow> length c = n" "0 < n" "n \<le> MAX_BLOCK_ROWS"
    and "columns \<noteq> []" "length columns \<le> MAX_BLOCK_COLUMNS"
    and "\<And>v. v \<in> set (tuple_cells n cols) \<Longrightarrow> length v < 2 ^ 64"
    and "encode_columns (tuple_cells n cols) columns revision = Inr bytes" "length (bytes @ rest) < 2 ^ 64"
  shows "\<exists>b. decode_block (of_nat (length columns)) (of_nat n) revision (bytes @ rest) = Inr (b, rest) \<and>
    db_schema b = map (\<lambda>col. (cs_name col, sent_name col)) columns \<and>
    map to_cells (db_columns b) = cols \<and> db_num_rows b = n"
proof -
  let ?ser = "revision \<ge> DBMS_MIN_PROTOCOL_VERSION_WITH_CUSTOM_SERIALIZATION"
  have bytes: "bytes = concat (map2 (column_section ?ser) columns cols)"
    using encoded_block [OF assms(1,3,4,6,8), of revision] assms(9) by simp
  from decode_sections [OF assms(1-4), of ?ser rest] assms(10) obtain ds where
    ds: "read_times (length columns) (decode_block_column n ?ser) (bytes @ rest) = Inr (ds, rest)"
      "map fst ds = map (\<lambda>col. (cs_name col, sent_name col)) columns" "map (to_cells \<circ> snd) ds = cols"
    by (auto simp: bytes)
  have "n < 2 ^ 64" "length columns < 2 ^ 64"
    using assms(5,7) by (simp_all add: MAX_BLOCK_ROWS_def MAX_BLOCK_COLUMNS_def)
  then have "unat (of_nat n :: u64) = n" "unat (of_nat (length columns) :: u64) = length columns"
    by (simp_all add: unat_u64_of_nat)
  with ds assms(5,7) show ?thesis by (simp add: decode_block_def Let_def rbind_def comp_def)
qed

text \<open>The same for cells that may include the default value of a nullable dictionary.\<close>

lemma inserted_block:
  assumes "list_all2 (\<lambda>col cells. insertable (cs_col_type col) cells) columns cols"
    and "\<And>col. col \<in> set columns \<Longrightarrow> well_declared col"
    and "\<And>c. c \<in> set cols \<Longrightarrow> length c = n" "0 < n" "n \<le> MAX_BLOCK_ROWS"
    and "columns \<noteq> []" "length columns \<le> MAX_BLOCK_COLUMNS"
    and "\<And>v. v \<in> set (tuple_cells n cols) \<Longrightarrow> length v < 2 ^ 64"
  shows "\<exists>bytes. encode_columns (tuple_cells n cols) columns revision = Inr bytes \<and>
    (\<forall>rest. length (bytes @ rest) < 2 ^ 64 \<longrightarrow>
      (\<exists>b. decode_block (of_nat (length columns)) (of_nat n) revision (bytes @ rest) = Inr (b, rest) \<and>
        db_schema b = map (\<lambda>col. (cs_name col, sent_name col)) columns \<and>
        map to_cells (db_columns b) = arrived_columns columns cols \<and> db_num_rows b = n))"
proof -
  note there = columns_arrive(1) [OF assms(1)]
  have n: "length c = n" if "c \<in> set (arrived_columns columns cols)" for c by (rule arrived_columns_lengths [OF assms(3) that])
  have short: "length v < 2 ^ 64" if "v \<in> set (tuple_cells n (arrived_columns columns cols))" for v
    by (rule arrived_rows_short [OF assms(1,3,8) that])
  obtain bytes where bytes: "encode_columns (tuple_cells n (arrived_columns columns cols)) columns revision = Inr bytes"
    using encoded_block [OF there n assms(4,6) short] by blast
  then have "encode_columns (tuple_cells n cols) columns revision = Inr bytes" by (simp add: same_block [OF assms(1,3,8)])
  moreover have "\<exists>b. decode_block (of_nat (length columns)) (of_nat n) revision (bytes @ rest) = Inr (b, rest) \<and>
      db_schema b = map (\<lambda>col. (cs_name col, sent_name col)) columns \<and> map to_cells (db_columns b) = arrived_columns columns cols \<and> db_num_rows b = n"
    if "length (bytes @ rest) < 2 ^ 64" for rest
    by (rule block_decoded [OF there assms(2) n assms(4-7) short bytes that])
  ultimately show ?thesis by fast
qed

text \<open>
  C2: a block that the INSERT encoder writes is a block the decoder reads: for well-formed cells
  under a schema whose type names denote their types, the encoder succeeds and the decoder consumes
  exactly its bytes and returns the announced names and types, the row count, and columns holding, row
  by row, what the cells arrive as: the cells that were encoded, except that a value of a nullable
  dictionary column that equals the default of its type, at any nesting, comes back as NULL.
\<close>

theorem block_roundtrip:
  assumes "list_all2 (\<lambda>col cells. insertable (cs_col_type col) cells) columns cols"
    and "\<And>col. col \<in> set columns \<Longrightarrow> well_declared col"
    and "\<And>c. c \<in> set cols \<Longrightarrow> length c = n" "0 < n" "n \<le> MAX_BLOCK_ROWS"
    and "columns \<noteq> []" "length columns \<le> MAX_BLOCK_COLUMNS"
    and "\<And>v. v \<in> set (tuple_cells n cols) \<Longrightarrow> length v < 2 ^ 64"
  shows "\<exists>bytes. encode_columns (tuple_cells n cols) columns revision = Inr bytes \<and>
    (\<forall>rest. length (bytes @ rest) < 2 ^ 64 \<longrightarrow>
      (\<exists>b. decode_block (of_nat (length columns)) (of_nat n) revision (bytes @ rest) = Inr (b, rest) \<and>
        db_schema b = map (\<lambda>col. (cs_name col, sent_name col)) columns \<and> db_num_rows b = n \<and>
        map to_cells (db_columns b) = arrived_columns columns cols \<and>
        (list_all2 (\<lambda>col cells. column (cs_col_type col) cells) columns cols \<longrightarrow> map to_cells (db_columns b) = cols)))"
  using inserted_block [OF assms, of revision] arrived_columns_same [of columns cols] by fastforce

text \<open>A dictionary column of a nullable string: a word, the empty string and NULL, and what arrives.\<close>

definition lc_schema :: "ColumnSchema list" where
  "lc_schema = [\<lparr> cs_name = ''w'', cs_type_name = ''LowCardinality(Nullable(String))'', cs_col_type = LowCardinality (Nullable String) \<rparr>]"

definition lc_cols :: "byte list list list" where
  "lc_cols = [map option_cell [Some [1, 0x78], Some [0], None]]"

lemma lc_schema_declared: "col \<in> set lc_schema \<Longrightarrow> well_declared col"
proof -
  have "parse ''LowCardinality(Nullable(String))'' = Some (LowCardinality (Nullable String))"
    using parse_printed_name [of "LowCardinality (Nullable String)"] by (simp add: MAX_TYPE_PARSE_DEPTH_def apply_name_def)
  then show "col \<in> set lc_schema \<Longrightarrow> well_declared col"
    by (auto simp: lc_schema_def well_declared_def announced_def sent_name_def sent_type_def as_bytes_def lc_dict_type_def
        MAX_STRING_SIZE_def MAX_READ_DEPTH_def typed.simps levels.simps [of String] levels.simps [of "LowCardinality (Nullable String)"])
qed

lemma lc_cols_insertable: "list_all2 (\<lambda>col cells. insertable (cs_col_type col) cells) lc_schema lc_cols"
proof -
  have "scalar_cell String v" if "v = put_string [0x78] \<or> v = put_string []" for v
    using that by (auto simp: scalar_cell_def fixed_size_def MAX_STRING_SIZE_def intro: exI [of _ "[0x78]"] exI [of _ "[]"])
  moreover have "put_string [0x78] = [1, 0x78]" "put_string [] = [0]" by (simp_all add: put_string_def put_var_uint_leb128 leb128.simps)
  ultimately have "insertable (LowCardinality (Nullable String)) (map option_cell [Some [1, 0x78], Some [0], None])"
    by (intro ins_lc_nullable) (auto simp: scalar_def)
  then show ?thesis by (simp add: lc_schema_def lc_cols_def)
qed

lemma lc_rows: "c \<in> set lc_cols \<Longrightarrow> length c = 3" "v \<in> set (tuple_cells 3 lc_cols) \<Longrightarrow> length v < 2 ^ 64"
  by (auto simp: lc_cols_def tuple_cells_def upt_rec option_cell_def)

definition lc_block :: "byte list" where
  "lc_block = put_string (as_bytes ''w'') @ put_string (as_bytes ''LowCardinality(Nullable(String))'') @ [0] @ le_bytes 8 1 @
    (le_bytes 8 512 @ le_bytes 8 2 @ [0, 1, 0x78] @ le_bytes 8 3 @ [1, 0, 0])"

lemma lc_block_encoded: "encode_columns (tuple_cells 3 lc_cols) lc_schema 54473 = Inr lc_block"
proof -
  have d: "rb_write_default String = [0]"
    by (simp add: rb_write_default.simps [of String] fixed_size_def put_var_uint_leb128 leb128.simps)
  have "write_col_values (map option_cell [Some [1, 0x78], Some [0], None]) (LowCardinality (Nullable String)) =
      Inr (le_bytes 8 512 @ le_bytes 8 2 @ [0, 1, 0x78] @ le_bytes 8 3 @ [1, 0, 0])"
    by (simp add: write_col_values.simps [of _ "LowCardinality (Nullable String)"] write_col_values.simps [of _ String]
        lc_index_def lc_nullable_def lc_dict_type_def d option_cell_def lc_key_def lc_index_width_def HAS_ADDITIONAL_KEYS_def
        fixed_size_def take_le_bytes numeral_2_eq_2 [symmetric] numeral_3_eq_3 [symmetric])
  then show ?thesis
    using encode_transposed [OF columns_arrive(2) [OF lc_cols_insertable] lc_rows, of 54473] ab_revision
    by (simp add: lc_schema_def lc_cols_def encode_column_def lc_block_def write_col_prefixes.simps [of "LowCardinality (Nullable String)"])
qed

theorem block_roundtrip_witness:
  "\<exists>b. decode_block (of_nat (length lc_schema)) (of_nat 3) 54473 (lc_block @ [7]) = Inr (b, [7]) \<and>
    db_schema b = map (\<lambda>col. (cs_name col, sent_name col)) lc_schema \<and>
    map to_cells (db_columns b) = [[[0, 1, 0x78], [1], [1]]] \<and> db_num_rows b = 3"
proof -
  have "arrived_columns lc_schema lc_cols = [[[0, 1, 0x78], [1], [1]]]"
    using lc_nullable_arrived [of String "[Some [1, 0x78], Some [0], None]"]
    by (simp add: arrived_columns_def lc_schema_def lc_cols_def nulled_def rb_write_default.simps fixed_size_def
        put_var_uint_leb128 leb128.simps option_cell_def)
  moreover have caps: "0 < (3 :: nat)" "3 \<le> MAX_BLOCK_ROWS" "lc_schema \<noteq> []" "length lc_schema \<le> MAX_BLOCK_COLUMNS"
    by (simp_all add: MAX_BLOCK_ROWS_def MAX_BLOCK_COLUMNS_def lc_schema_def)
  obtain bytes where b: "encode_columns (tuple_cells 3 lc_cols) lc_schema 54473 = Inr bytes"
    "\<And>rest. length (bytes @ rest) < 2 ^ 64 \<Longrightarrow>
      \<exists>b. decode_block (of_nat (length lc_schema)) (of_nat 3) 54473 (bytes @ rest) = Inr (b, rest) \<and>
        db_schema b = map (\<lambda>col. (cs_name col, sent_name col)) lc_schema \<and> db_num_rows b = 3 \<and>
        map to_cells (db_columns b) = arrived_columns lc_schema lc_cols"
    using block_roundtrip [OF lc_cols_insertable lc_schema_declared lc_rows(1) caps lc_rows(2), of 54473] by blast
  have "bytes = lc_block" using b(1) lc_block_encoded by simp
  moreover have "length (lc_block @ [7]) < 2 ^ 64"
    by (simp add: lc_block_def put_string_def as_bytes_def put_var_uint_leb128 leb128.simps)
  ultimately show ?thesis using b(2) [of "[7]"] by auto
qed

section \<open>Sparse columns\<close>

lemma scatter_loop_length [simp]: "length (scatter_loop buf vs rows) = length buf"
  by (induction buf vs rows rule: scatter_loop.induct) auto

lemma map_scatter_loop: "map f (scatter_loop buf vs rows) = scatter_loop (map f buf) (map f vs) rows"
  by (induction buf vs rows rule: scatter_loop.induct) (auto simp: map_update)

lemma map_scatter_values:
  "map f (scatter_values vs rows n d) = scatter_values (map f vs) rows n (f d)"
  by (simp add: scatter_values_def map_scatter_loop)

lemma scatter_values_length [simp]: "length (scatter_values vs rows n d) = n"
  by (simp add: scatter_values_def)

lemma scatter_back:
  "scatter_loop (pre @ replicate (length xs) d) (filter (\<lambda>x. x \<noteq> d) xs)
    (value_positions (length pre) (map (\<lambda>x. x = d) xs)) = pre @ xs"
proof (induction xs arbitrary: pre)
  case (Cons x xs)
  from Cons [of "pre @ [x]"] show ?case by (cases "x = d") (simp_all add: list_update_append)
qed simp

lemma scatter_values_back:
  "scatter_values (filter (\<lambda>x. x \<noteq> d) xs) (value_positions 0 (map (\<lambda>x. x = d) xs)) (length xs) d = xs"
  using scatter_back [of "[]" xs d] by (simp add: scatter_values_def)

lemma value_positions_bound: "p \<in> set (value_positions i ds) \<Longrightarrow> p < i + length ds"
  by (induction i ds rule: value_positions.induct) (auto split: if_splits)

lemma value_positions_count:
  "length (value_positions i (map (\<lambda>x. x = d) xs)) = length (filter (\<lambda>x. x \<noteq> d) xs)"
  by (induction xs arbitrary: i) auto

lemma concat_split:
  assumes "\<And>c. c \<in> set cells \<Longrightarrow> length c = w"
  shows "take (i * w) (concat cells) = concat (take i cells) \<and> drop (i * w) (concat cells) = concat (drop i cells)"
  using assms
proof (induction cells arbitrary: i)
  case (Cons c cells)
  then show ?case by (cases i) auto
qed simp

lemma copy_slot_concat:
  assumes "\<And>c. c \<in> set cells \<Longrightarrow> length c = w" "\<And>c. c \<in> set vals \<Longrightarrow> length c = w"
    and "i < length vals" "row < length cells"
  shows "copy_slot w (concat vals) i row (concat cells) = concat (cells[row := vals ! i])"
proof -
  have "drop (row * w + w) (concat cells) = concat (drop (Suc row) cells)"
    using concat_split [OF assms(1), of cells "Suc row"] by (simp add: add.commute)
  moreover have "take w (drop (i * w) (concat vals)) = vals ! i"
    using concat_split [OF assms(2), of vals i] assms(2,3) by (simp add: Cons_nth_drop_Suc [symmetric])
  ultimately show ?thesis
    using concat_split [OF assms(1), of cells row] assms(4) by (simp add: copy_slot_def upd_conv_take_nth_drop)
qed

lemma scatter_fixed_concat:
  assumes "\<And>c. c \<in> set cells \<Longrightarrow> length c = w" "\<And>c. c \<in> set vals \<Longrightarrow> length c = w"
    and "i + length rows = length vals" "\<And>p. p \<in> set rows \<Longrightarrow> p < length cells"
  shows "scatter_fixed w (concat vals) i rows (concat cells) = concat (scatter_loop cells (drop i vals) rows) \<and>
    (\<forall>c\<in>set (scatter_loop cells (drop i vals) rows). length c = w)"
  using assms
proof (induction rows arbitrary: i cells)
  case (Cons p rows)
  have i: "i < length vals" using Cons.prems(3) by simp
  then have d: "drop i vals = vals ! i # drop (Suc i) vals" by (simp add: Cons_nth_drop_Suc)
  have "length c = w" if "c \<in> set (cells[p := vals ! i])" for c
    using that set_update_subset_insert [of cells p "vals ! i"] Cons.prems(1,2) i by auto
  from Cons.IH [OF this, where i = "Suc i"] Cons.prems i d copy_slot_concat [of cells w vals i p]
  show ?case by simp
qed (cases "drop i vals"; simp)

text \<open>The cell a sparse column leaves out, by the variant that holds the column.\<close>

fun blank :: "DecodedColumn \<Rightarrow> byte list option" where
  "blank (DUInt8 v) = Some [0]"
| "blank (DUInt16 v) = Some (replicate 2 0)" | "blank (DUInt32 v) = Some (replicate 4 0)"
| "blank (DUInt64 v) = Some (replicate 8 0)" | "blank (DInt8 v) = Some [0]"
| "blank (DInt16 v) = Some (replicate 2 0)" | "blank (DInt32 v) = Some (replicate 4 0)"
| "blank (DInt64 v) = Some (replicate 8 0)" | "blank (DInt128 v) = Some (replicate 16 0)"
| "blank (DUInt128 v) = Some (replicate 16 0)" | "blank (DInt256 v) = Some (replicate 32 0)"
| "blank (DUInt256 v) = Some (replicate 32 0)" | "blank (DFloat32 v) = Some (replicate 4 0)"
| "blank (DFloat64 v) = Some (replicate 8 0)" | "blank (DDecimal32 p s v) = Some (replicate 4 0)"
| "blank (DDecimal64 p s v) = Some (replicate 8 0)" | "blank (DDecimal128 p s v) = Some (replicate 16 0)"
| "blank (DDecimal256 p s v) = Some (replicate 32 0)" | "blank (DString v) = Some (put_var_uint 0)"
| "blank (DJson v) = Some (put_var_uint 0)"
| "blank (DFixedString w bs) = (if 0 < w \<and> w dvd length bs then Some (replicate w 0) else None)"
| "blank (DDate v) = Some (replicate 2 0)" | "blank (DDate32 v) = Some (replicate 4 0)"
| "blank (DDateTime v) = Some (replicate 4 0)" | "blank (DDateTime64 p z v) = Some (replicate 8 0)"
| "blank (DUuid v) = Some (replicate 16 0)" | "blank (DIpv4 v) = Some (replicate 4 0)"
| "blank (DIpv6 v) = Some (replicate 16 0)"
| "blank _ = None"

lemma le_bytes_0: "le_bytes w 0 = replicate w 0" "le_signed_bytes w 0 = replicate w 0"
proof -
  show "le_bytes w 0 = replicate w 0" by (induction w) auto
  then show "le_signed_bytes w 0 = replicate w 0" by (simp add: le_signed_bytes_def)
qed

lemma read_fixed_total: "length bs = k * w \<Longrightarrow> \<exists>cells. read_fixed_column k w bs = Inr (cells, [])"
proof (induction k arbitrary: bs)
  case (Suc k)
  then have "length (drop w bs) = k * w" "\<not> length bs < w" by simp_all
  with Suc.IH [of "drop w bs"] show ?case by (auto simp: read_fixed_column_def rbind_def read_exact_def)
qed (simp add: read_fixed_column_def)

lemma chunks_exact_cells:
  assumes "0 < w" "w dvd length bs"
  shows "concat (chunks_exact w bs) = bs \<and> (\<forall>c\<in>set (chunks_exact w bs). length c = w) \<and>
    length (chunks_exact w bs) = length bs div w"
proof -
  obtain k where k: "length bs = k * w" using assms(2) by (metis dvdE mult.commute)
  then obtain cells where "read_fixed_column k w bs = Inr (cells, [])" using read_fixed_total by blast
  then have "bs = concat cells" "length cells = k" "\<And>c. c \<in> set cells \<Longrightarrow> length c = w"
    by (auto simp: read_fixed_column_split)
  with chunks_exact_concat [of cells w] assms(1) k show ?thesis by auto
qed

lemma expand_fixed_string:
  assumes "0 < w" "w dvd length bs" "length bs div w = length rows" "\<And>p. p \<in> set rows \<Longrightarrow> p < n"
  shows "chunks_exact w (scatter_fixed w bs 0 rows (replicate (n * w) 0)) =
      scatter_values (chunks_exact w bs) rows n (replicate w 0) \<and>
    length (scatter_fixed w bs 0 rows (replicate (n * w) 0)) = n * w"
proof -
  let ?cells = "replicate n (replicate w (0 :: byte))"
  have "replicate (n * w) 0 = concat ?cells"
    by (induction n) (simp_all add: replicate_add)
  moreover note ch = chunks_exact_cells [OF assms(1,2)]
  moreover have "scatter_fixed w (concat (chunks_exact w bs)) 0 rows (concat ?cells) =
      concat (scatter_loop ?cells (drop 0 (chunks_exact w bs)) rows) \<and>
    (\<forall>c\<in>set (scatter_loop ?cells (drop 0 (chunks_exact w bs)) rows). length c = w)"
    using ch assms(3,4) by (intro scatter_fixed_concat) (auto simp: set_replicate_conv_if split: if_splits)
  ultimately have *: "scatter_fixed w bs 0 rows (replicate (n * w) 0) = concat (scatter_values (chunks_exact w bs) rows n (replicate w 0))"
    "\<And>c. c \<in> set (scatter_values (chunks_exact w bs) rows n (replicate w 0)) \<Longrightarrow> length c = w"
    by (simp_all add: scatter_values_def)
  then show ?thesis
    using chunks_exact_concat [OF *(2) assms(1)]
      concat_map_length_const [of "scatter_values (chunks_exact w bs) rows n (replicate w 0)" id w]
    by simp
qed

lemma expand_cells:
  assumes "blank c = Some d" "row_count c = length rows" "\<And>p. p \<in> set rows \<Longrightarrow> p < n" "n * length d < 2 ^ 64"
  shows "\<exists>c'. expand_sparse c rows n = Inr c' \<and> to_cells c' = scatter_values (to_cells c) rows n d \<and> row_count c' = n"
proof -
  have find: "find (\<lambda>p. p \<ge> n) rows = None" using assms(3) by (force simp: find_None_iff)
  show ?thesis
  proof (cases "\<exists>w bs. c = DFixedString w bs")
    case True
    then obtain w bs where c: "c = DFixedString w bs" by blast
    with assms have w: "0 < w" "w dvd length bs" "length bs div w = length rows" "d = replicate w 0" "n * w < 2 ^ 64"
      by (auto split: if_splits)
    with expand_fixed_string [OF w(1-3) assms(3)] find c show ?thesis by (simp add: expand_sparse_def)
  next
    case False
    with assms(1,2) find show ?thesis
      by (cases c) (simp_all add: expand_sparse_def map_scatter_values le_bytes_0 put_string_def comp_def)
  qed
qed

lemma scalar_default: "scalar t \<Longrightarrow> rb_write_default t = (case fixed_size t of Some w \<Rightarrow> replicate w 0 | None \<Rightarrow> put_var_uint 0)"
  by (subst rb_write_default.simps) (auto simp: scalar_def split: option.splits)

lemma blank_empty_column: "scalar t \<Longrightarrow> typed t \<Longrightarrow> blank (empty_column t) = Some (rb_write_default t)"
  by (cases t) (simp_all add: scalar_default scalar_def fixed_size_def typed.simps empty_column.simps)

lemma blank_decoded:
  assumes "scalar t" "typed t" "decode_flat t n = Some m" "m s = Inr (c, rest)"
  shows "blank c = Some (rb_write_default t)"
proof -
  have "length bs = w * n" if "read_exact (w * n) s = Inr (bs, rest)" for bs w
    using that by (auto simp: read_exact_eq_Inr)
  with assms show ?thesis
    by (cases t)
       (auto simp: scalar_default scalar_def fixed_size_def typed.simps decode_flat_def wrap_def
         rbind_eq_Inr split: if_splits)
qed

lemma scalar_flat: "scalar t \<Longrightarrow> typed t \<Longrightarrow> decode_flat t n \<noteq> None"
  by (cases t) (simp_all add: scalar_def fixed_size_def typed.simps decode_flat_def)

lemma blank_decode_column:
  assumes "scalar t" "typed t" "decode_column (Suc l) t n hs s = Inr ((c, hs'), rest)"
  shows "blank c = Some (rb_write_default t)"
proof (cases "l = MAX_DECODE_DEPTH \<and> n = 0")
  case True
  then show ?thesis using assms blank_empty_column by auto
next
  case False
  obtain m where m: "decode_flat t n = Some m" using scalar_flat [OF assms(1,2)] by blast
  with False assms(3) have "m s = Inr (c, rest)"
    by (auto simp: decode_body_def wrap_def rbind_eq_Inr)
  with assms(1,2) m show ?thesis by (rule blank_decoded)
qed

text \<open>The section of one sparse column: flag and kind bytes, the offsets, and the other values only.\<close>

definition sparse_section :: "string \<Rightarrow> string \<Rightarrow> ColumnType \<Rightarrow> byte list list \<Rightarrow> byte list" where
  "sparse_section name ty t cells =
    put_string (as_bytes name) @ put_string (as_bytes ty) @ [1, 1] @
    sparse_encode (map (\<lambda>v. v = rb_write_default t) cells) @
    concat (filter (\<lambda>v. v \<noteq> rb_write_default t) cells)"

lemma read_scalar_cells:
  assumes "scalar t" "\<And>v. v \<in> set vs \<Longrightarrow> scalar_cell t v"
  shows "read_column_data t (length vs) (concat vs @ rest) = Inr (vs, rest)"
proof (cases "vs = []")
  case False
  have t: "levels t = 1" using assms(1) by (cases t) (simp_all add: scalar_def fixed_size_def levels.simps)
  have "column_bytes t vs = concat vs"
    using assms(1) by (subst column_bytes_def, subst write_col_values.simps) (auto simp: scalar_def)
  moreover have "column t vs" using assms by (rule col_scalar)
  ultimately show ?thesis
    using col.dec_enc [of t "length vs" vs rest] False t by (simp add: readable_column_def)
qed (simp add: read_column_data_def)

text \<open>
  C24: sparse serialisation loses nothing.  A scalar column whose default rows are left out on the
  wire is decoded, from its header on, to a column of the declared length with exactly the original
  cells, and the decoder stops at the end of the column.
\<close>

theorem sparse_column_roundtrip:
  assumes "scalar t" "typed t" "\<And>v. v \<in> set cells \<Longrightarrow> scalar_cell t v" "cells \<noteq> []" "length cells < 2 ^ 62"
    and "announced name" "announced ty" "parse ty = Some t"
    and "length cells * length (rb_write_default t) < 2 ^ 64"
    and "length (sparse_section name ty t cells @ rest) < 2 ^ 64"
  shows "\<exists>c. decode_block_column (length cells) True (sparse_section name ty t cells @ rest) =
    Inr (((name, ty), c), rest) \<and> to_cells c = cells \<and> row_count c = length cells"
proof -
  let ?d = "rb_write_default t" let ?n = "length cells"
  let ?vals = "filter (\<lambda>v. v \<noteq> ?d) cells" let ?pos = "value_positions 0 (map (\<lambda>v. v = ?d) cells)"
  have k: "length ?pos = length ?vals" by (rule value_positions_count)
  have bound: "p < ?n" if "p \<in> set ?pos" for p using value_positions_bound [OF that] by simp
  have kind: "read_serialization_kind name (1 # 1 # u) = Inr (True, u)" for u
    by (simp add: read_serialization_kind_def read_le_def rbind_def read_exact_def)
  have pre: "decode_prefixes (MAX_DECODE_DEPTH + 1) t u = Inr ([], u)" for u
    using assms(1) by (cases t) (simp_all add: scalar_def fixed_size_def decode_prefixes_body_def)
  have offs: "read_sparse_offsets ?n sparse_default (sparse_encode (map (\<lambda>v. v = ?d) cells) @ u) =
      Inr ((?pos, sparse_default), u)" for u
    using sparse_positions [of "map (\<lambda>v. v = ?d) cells" u] assms(5) by simp
  have "read_column_data t (length ?vals) (concat ?vals @ rest) = Inr (?vals, rest)"
    using assms(1,3) by (intro read_scalar_cells) auto
  moreover have "length (concat ?vals @ rest) < 2 ^ 64" using assms(10) by (simp add: sparse_section_def)
  ultimately obtain c where
    c: "decode_column (MAX_DECODE_DEPTH + 1) t (length ?vals) [] (concat ?vals @ rest) = Inr ((c, []), rest)"
      "to_cells c = ?vals" "row_count c = length ?vals"
    using same_columnE [OF at.agree [OF assms(2)], of "MAX_DECODE_DEPTH + 1" "length ?vals" _ ?vals rest]
    by (metis read_column_data_def depth_bounds_agree)
  have "blank c = Some ?d" using blank_decode_column [OF assms(1,2) c(1) [unfolded add_One_commute Suc_eq_plus1 [symmetric]]] .
  from expand_cells [of c ?d ?pos ?n, OF this _ bound assms(9)] c(2,3) k scatter_values_back [of ?d cells]
  obtain c' where "expand_sparse c ?pos ?n = Inr c'" "to_cells c' = cells" "row_count c' = ?n" by auto
  with c k kind pre offs assms(4,6-8) show ?thesis
    by (simp add: decode_block_column_def sparse_section_def rbind_def read_utf8_string_put
        del: decode_column.simps decode_prefixes.simps)
qed

theorem sparse_column_roundtrip_witness:
  "\<exists>c. decode_block_column (length [[0], [7], [0 :: byte]]) True
      (sparse_section ''a'' ''UInt8'' UInt8 [[0], [7], [0]] @ [9]) =
    Inr (((''a'', ''UInt8''), c), [9]) \<and> to_cells c = [[0], [7], [0]] \<and>
    row_count c = length [[0], [7], [0 :: byte]]"
proof (rule sparse_column_roundtrip)
  show "parse ''UInt8'' = Some UInt8"
    using parse_printed_name [of UInt8] by (simp add: MAX_TYPE_PARSE_DEPTH_def)
  have "rb_write_default UInt8 = [0]" by (simp add: scalar_default scalar_def fixed_size_def)
  then show "length (sparse_section ''a'' ''UInt8'' UInt8 [[0], [7], [0]] @ [9]) < 2 ^ 64"
    "length [[0], [7], [0 :: byte]] * length (rb_write_default UInt8) < 2 ^ 64"
    by (simp_all add: sparse_section_def sparse_encode_def END_OF_GRANULE_FLAG_eq put_string_def
      put_var_uint_leb128 leb128.simps)
qed (auto simp: scalar_def scalar_cell_def fixed_size_def typed.simps announced_def as_bytes_def
  MAX_STRING_SIZE_def)

end
