(* ===== verification/PacketRoundtrip.thy ===== *)
theory PacketRoundtrip
  imports PacketReader BlockRoundtrip
begin

text \<open>
  The packet codec against the wire format: every packet a server may send is read back and the
  stream pointer stops at the next packet, at every protocol revision; the handshake; and the query
  packet as the server's field order reads it.
\<close>

section \<open>Frames\<close>

text \<open>
  A wire format as a relation: one value may have several byte forms.  A reader that takes every form
  of a value and stops behind it reads a stream of them without losing its place.
\<close>

locale framed =
  fixes frame :: "'a \<Rightarrow> byte list \<Rightarrow> bool"
    and dec :: "'b rd"
    and view :: "'b \<Rightarrow> 'a"
  assumes dec_frame: "frame x bs \<Longrightarrow> length (bs @ rest) < 2 ^ 64 \<Longrightarrow> \<exists>y. dec (bs @ rest) = Inr (y, rest) \<and> view y = x"
begin

lemma read_stream:
  assumes "list_all2 frame xs bss" "length (concat bss @ rest) < 2 ^ 64"
  shows "\<exists>ys. read_times (length xs) dec (concat bss @ rest) = Inr (ys, rest) \<and> map view ys = xs"
  using assms
proof (induction rule: list_all2_induct)
  case (Cons x xs bs bss)
  then have "length (concat bss @ rest) < 2 ^ 64" by simp
  from Cons.IH [OF this] obtain ys where
    "read_times (length xs) dec (concat bss @ rest) = Inr (ys, rest)" "map view ys = xs" by metis
  moreover have "length (bs @ concat bss @ rest) < 2 ^ 64" using Cons.prems by simp
  then obtain y where "dec (bs @ concat bss @ rest) = Inr (y, concat bss @ rest)" "view y = x"
    using dec_frame [OF Cons(1)] by metis
  ultimately have "read_times (length (x # xs)) dec (concat (bs # bss) @ rest) = Inr (y # ys, rest)"
    "map view (y # ys) = x # xs" by (simp_all add: rbind_def)
  then show ?case by (intro exI conjI)
qed simp

lemma frame_unambiguous:
  assumes "frame x bs" "frame y cs" "bs @ r = cs @ t" "length (bs @ r) < 2 ^ 64"
  shows "x = y \<and> r = t"
proof -
  obtain u where u: "dec (bs @ r) = Inr (u, r)" "view u = x" using dec_frame [OF assms(1,4)] by metis
  obtain v where v: "dec (cs @ t) = Inr (v, t)" "view v = y"
    using dec_frame [OF assms(2), of t] assms(3,4) by metis
  show ?thesis using u v by (simp add: assms(3))
qed

end

sublocale wire_codec \<subseteq> framed "\<lambda>x bs. ok x \<and> bs = enc x" dec id
  by unfold_locales (auto simp: dec_enc)

section \<open>Field readers\<close>

lemma gate_effective: "g \<le> DBMS_TCP_PROTOCOL_VERSION \<Longrightarrow> g \<le> min sr DBMS_TCP_PROTOCOL_VERSION \<longleftrightarrow> g \<le> sr"
  by (simp add: min_def) (meson le_less_trans not_le order.strict_implies_order)

lemma text_bind: "announced s \<Longrightarrow> rbind read_utf8_string f (put_text s @ rest) = f s rest"
  by (simp add: rbind_def read_utf8_string_put)

lemma varint_bind: "rbind read_var_uint f (put_var_uint v @ rest) = f v rest"
  by (rule varuint.dec_bind) simp

lemma le_bind: "v < 256 ^ w \<Longrightarrow> rbind (read_le w) f (le_bytes w v @ rest) = f v rest"
  by (rule le.dec_bind)

lemma gated_bind:
  assumes "c \<Longrightarrow> m (bs @ rest) = Inr (x, rest)"
  shows "rbind (read_gated c y m) f (gated c bs @ rest) = f (if c then x else y) rest"
  using assms by (simp add: read_gated_def rbind_def)

lemmas field_binds = text_bind varint_bind le_bind

lemma empty_announced: "announced []"
  by (simp add: announced_def as_bytes_def)

definition put_i32 :: "int \<Rightarrow> byte list" where
  "put_i32 i = le_bytes 4 (nat (i mod 2 ^ 32))"

lemma i32_bind:
  assumes "- (2 ^ 31) \<le> i" "i < 2 ^ 31"
  shows "rbind read_i32 f (put_i32 i @ rest) = f i rest"
proof -
  have "nat (i mod 2 ^ 32) < 256 ^ 4" by (simp add: nat_less_iff)
  moreover have "(if nat (i mod 2 ^ 32) < 2 ^ 31 then int (nat (i mod 2 ^ 32)) else int (nat (i mod 2 ^ 32)) - 2 ^ 32) = i"
  proof (cases "0 \<le> i")
    case False
    have "i mod 2 ^ 32 = (i + 2 ^ 32) mod 2 ^ 32" by simp
    also have "\<dots> = i + 2 ^ 32" by (rule mod_pos_pos_trivial) (use assms False in simp_all)
    finally show ?thesis using assms False by simp
  qed (use assms in simp)
  ultimately show ?thesis unfolding read_i32_def put_i32_def
    by (simp only: rbind_def le.dec_enc sum.case prod.case rret_def)
qed

section \<open>Server packets\<close>

text \<open>The bytes of the fields behind a packet id, with those the reader discards as arguments.\<close>

definition wf_exception :: "Exception \<Rightarrow> bool" where
  "wf_exception e \<longleftrightarrow> - (2 ^ 31) \<le> ex_code e \<and> ex_code e < 2 ^ 31 \<and> announced (ex_name e) \<and> announced (ex_message e) \<and>
    announced (ex_stack_trace e) \<and> length (ex_stack_trace e) \<le> TCP_EXCEPTION_STACK_TRACE_CAP"

definition exception_bytes :: "Exception \<Rightarrow> byte \<Rightarrow> byte list" where
  "exception_bytes e nested = put_i32 (ex_code e) @ put_text (ex_name e) @ put_text (ex_message e) @
    put_text (ex_stack_trace e) @ [nested]"

definition progress_bytes :: "u64 \<Rightarrow> Progress \<Rightarrow> u64 \<Rightarrow> u64 \<Rightarrow> byte list" where
  "progress_bytes sr p total_bytes elapsed =
    put_var_uint (pr_rows_read p) @ put_var_uint (pr_bytes_read p) @
    gated (DBMS_MIN_REVISION_WITH_TOTAL_ROWS_IN_PROGRESS \<le> min sr DBMS_TCP_PROTOCOL_VERSION) (put_var_uint (pr_total_rows_to_read p)) @
    gated (DBMS_MIN_PROTOCOL_VERSION_WITH_TOTAL_BYTES_IN_PROGRESS \<le> min sr DBMS_TCP_PROTOCOL_VERSION) (put_var_uint total_bytes) @
    gated (DBMS_MIN_REVISION_WITH_CLIENT_WRITE_INFO \<le> min sr DBMS_TCP_PROTOCOL_VERSION)
      (put_var_uint (pr_written_rows p) @ put_var_uint (pr_written_bytes p)) @
    gated (DBMS_MIN_PROTOCOL_VERSION_WITH_SERVER_QUERY_TIME_IN_PROGRESS \<le> min sr DBMS_TCP_PROTOCOL_VERSION) (put_var_uint elapsed)"

definition wf_progress :: "u64 \<Rightarrow> Progress \<Rightarrow> bool" where
  "wf_progress sr p \<longleftrightarrow>
    (DBMS_MIN_REVISION_WITH_TOTAL_ROWS_IN_PROGRESS \<le> min sr DBMS_TCP_PROTOCOL_VERSION \<or> pr_total_rows_to_read p = 0) \<and>
    (DBMS_MIN_REVISION_WITH_CLIENT_WRITE_INFO \<le> min sr DBMS_TCP_PROTOCOL_VERSION \<or>
      pr_written_rows p = 0 \<and> pr_written_bytes p = 0)"

definition profile_bytes :: "u64 \<Rightarrow> ProfileInfo \<Rightarrow> byte \<Rightarrow> byte \<Rightarrow> u64 \<Rightarrow> byte list" where
  "profile_bytes sr p calculated applied before_aggregation =
    put_var_uint (pi_rows p) @ put_var_uint (pi_blocks p) @ put_var_uint (pi_bytes p) @
    [of_bool (pi_applied_limit p)] @ put_var_uint (pi_rows_before_limit p) @ [calculated] @
    gated (DBMS_MIN_REVISION_WITH_ROWS_BEFORE_AGGREGATION \<le> min sr DBMS_TCP_PROTOCOL_VERSION)
      ([applied] @ put_var_uint before_aggregation)"

definition header_bytes :: "u64 \<Rightarrow> string \<Rightarrow> byte \<Rightarrow> nat \<Rightarrow> u64 \<Rightarrow> u64 \<Rightarrow> byte list" where
  "header_bytes sr tag overflow bucket num_columns num_rows =
    gated (DBMS_MIN_REVISION_WITH_TEMPORARY_TABLES \<le> sr) (put_text tag) @
    gated (DBMS_MIN_REVISION_WITH_BLOCK_INFO \<le> sr)
      (put_var_uint 1 @ [overflow] @ put_var_uint 2 @ le_bytes 4 bucket @ put_var_uint 0) @
    put_var_uint num_columns @ put_var_uint num_rows"

definition wf_header :: "string \<Rightarrow> nat \<Rightarrow> u64 \<Rightarrow> bool" where
  "wf_header tag bucket num_columns \<longleftrightarrow> announced tag \<and> bucket < 2 ^ 32 \<and> unat num_columns \<le> READER_MAX_BLOCK_COLUMNS"

definition schema_bytes :: "u64 \<Rightarrow> (string \<times> string) list \<Rightarrow> byte list" where
  "schema_bytes sr cols = concat (map (\<lambda>(n, t). put_text n @ put_text t @
    gated (DBMS_MIN_PROTOCOL_VERSION_WITH_CUSTOM_SERIALIZATION \<le> sr) [0]) cols)"

text \<open>A block with rows: the Native form of its columns, the same the INSERT encoder writes.\<close>

definition server_block :: "u64 \<Rightarrow> ColumnSchema list \<Rightarrow> byte list list list \<Rightarrow> nat \<Rightarrow> byte list \<Rightarrow> bool" where
  "server_block sr columns cols n bytes \<longleftrightarrow>
    list_all2 (\<lambda>col cells. column (cs_col_type col) cells) columns cols \<and>
    (\<forall>col\<in>set columns. well_declared col) \<and> (\<forall>c\<in>set cols. length c = n) \<and> 0 < n \<and> n \<le> MAX_BLOCK_ROWS \<and>
    columns \<noteq> [] \<and> length columns \<le> READER_MAX_BLOCK_COLUMNS \<and>
    (\<forall>v\<in>set (tuple_cells n cols). length v < 2 ^ 64) \<and>
    encode_columns (tuple_cells n cols) columns sr = Inr bytes"

lemma server_block_decoded:
  assumes "server_block sr columns cols n bytes" "length (bytes @ rest) < 2 ^ 64"
  shows "\<exists>b. decode_block (of_nat (length columns)) (of_nat n) sr (bytes @ rest) = Inr (b, rest) \<and>
    db_schema b = map (\<lambda>col. (cs_name col, sent_name col)) columns \<and>
    map to_cells (db_columns b) = cols \<and> db_num_rows b = n"
  using assms
  by (intro block_decoded) (auto simp: server_block_def READER_MAX_BLOCK_COLUMNS_def MAX_BLOCK_COLUMNS_def)

lemma byte_bind: "rbind (read_le 1) f (b # rest) = f (unat b) rest"
  by (simp add: rbind_def read_le_def read_exact_def)

lemmas byte_binds = byte_bind byte_bind [unfolded One_nat_def]

lemma read_exception_bytes:
  "wf_exception e \<Longrightarrow> read_exception (exception_bytes e nested @ rest) = Inr (e, rest)"
  by (simp add: wf_exception_def read_exception_def exception_bytes_def i32_bind field_binds byte_binds Let_def)

lemma gated_varint:
  "rbind (read_gated c y read_var_uint) f (gated c (put_var_uint v) @ rest) = f (if c then v else y) rest"
  by (simp add: read_gated_def varint_bind)

lemma gated_pair:
  "rbind (read_gated c y (rbind read_var_uint (\<lambda>a. rbind read_var_uint (\<lambda>b. rret (a, b))))) f
     (gated c (put_var_uint v @ put_var_uint w) @ rest) = f (if c then (v, w) else y) rest"
  by (simp add: read_gated_def rbind_assoc varint_bind)

lemma gated_text:
  "announced t \<Longrightarrow> rbind (read_gated c None (rbind read_utf8_string (\<lambda>s. rret (Some s)))) f (gated c (put_text t) @ rest) =
    f (if c then Some t else None) rest"
  by (simp add: read_gated_def rbind_assoc text_bind)

lemma read_progress_bytes:
  assumes "wf_progress sr p"
  shows "read_progress sr (progress_bytes sr p total_bytes elapsed @ rest) = Inr (p, rest)"
  using assms unfolding read_progress_def progress_bytes_def wf_progress_def Let_def append_assoc varint_bind
    gated_varint gated_pair
  by (auto simp: read_gated_def varint_bind)

lemma read_profile_bytes:
  "read_profile_info sr (profile_bytes sr p c a n @ rest) = Inr (p, rest)"
  by (simp add: read_profile_info_def profile_bytes_def varint_bind byte_binds read_gated_def rbind_assoc)

lemma read_header_bytes:
  assumes "wf_header tag bucket nc"
  shows "read_data_block_header sr (header_bytes sr tag overflow bucket nc nr @ rest) =
    Inr ((if DBMS_MIN_REVISION_WITH_TEMPORARY_TABLES \<le> sr then Some tag else None, nc, nr), rest)"
proof -
  have info: "read_block_info (put_var_uint 1 @ [overflow] @ put_var_uint 2 @ le_bytes 4 bucket @ put_var_uint 0 @ r) =
      Inr ((), r)" for r
    using assms by (simp add: wf_header_def read_block_info_def varint_bind byte_binds le_bind)
  have bind: "rbind read_block_info f (put_var_uint 1 @ overflow # put_var_uint 2 @ le_bytes 4 bucket @ put_var_uint 0 @ r) =
      f () r" for f :: "unit \<Rightarrow> 'b rd" and r
    using info [of r] by (simp add: rbind_def)
  show ?thesis using assms
    by (simp add: wf_header_def read_data_block_header_def header_bytes_def gated_text read_gated_def varint_bind
        bind rbind_assoc text_bind)
qed

lemma read_schema_bytes:
  assumes "\<forall>(n, t)\<in>set cols. announced n \<and> announced t" "length cols = unat nc"
  shows "read_empty_data_block_schema nc sr (schema_bytes sr cols @ rest) = Inr (cols, rest)"
proof -
  have col: "read_schema_column c (put_text n @ put_text t @ gated c [0] @ r) = Inr ((n, t), r)"
    if "announced n" "announced t" for c n t r
    using that by (simp add: read_schema_column_def text_bind read_gated_def byte_binds)
  have "read_times (length cols) (read_schema_column c)
      (concat (map (\<lambda>(n, t). put_text n @ put_text t @ gated c [0]) cols) @ rest) = Inr (cols, rest)" for c
    using assms(1)
  proof (induction cols)
    case (Cons x cols)
    then show ?case by (cases x) (simp add: rbind_def col)
  qed simp
  then show ?thesis by (simp add: read_empty_data_block_schema_def schema_bytes_def assms(2) [symmetric])
qed

section \<open>Packets\<close>

text \<open>
  What a packet says: a decoded block is its schema, its cells column by column and its row count.
\<close>

type_synonym message = "ServerPacket + (string \<times> string) list \<times> byte list list list \<times> nat"

definition packet_view :: "ServerPacket \<Rightarrow> message" where
  "packet_view p = (case p of PkDataBlock b \<Rightarrow> Inr (db_schema b, map to_cells (db_columns b), db_num_rows b) | _ \<Rightarrow> Inl p)"

text \<open>
  The packets a server at revision \<open>sr\<close> writes.  Result data, totals and extremes share one form; so do log
  and profile-event telemetry, whose content the client drops.
\<close>

inductive frame :: "u64 \<Rightarrow> message \<Rightarrow> byte list \<Rightarrow> bool" for sr where
  fr_block: "pid \<in> {1, 7, 8} \<Longrightarrow> wf_header tag bucket (of_nat (length columns)) \<Longrightarrow>
    server_block sr columns cols n bytes \<Longrightarrow>
    frame sr (Inr (map (\<lambda>col. (cs_name col, sent_name col)) columns, cols, n))
      (put_var_uint pid @ header_bytes sr tag ov bucket (of_nat (length columns)) (of_nat n) @ bytes)"
| fr_schema: "pid \<in> {1, 7, 8} \<Longrightarrow> wf_header tag bucket (of_nat (length cols)) \<Longrightarrow>
    length cols \<le> READER_MAX_BLOCK_COLUMNS \<Longrightarrow> \<forall>(n, t)\<in>set cols. announced n \<and> announced t \<Longrightarrow>
    frame sr (Inl (PkData (if DBMS_MIN_REVISION_WITH_TEMPORARY_TABLES \<le> sr then Some tag else None) (of_nat (length cols)) 0 cols))
      (put_var_uint pid @ header_bytes sr tag ov bucket (of_nat (length cols)) 0 @ schema_bytes sr cols)"
| fr_exception: "wf_exception e \<Longrightarrow> frame sr (Inl (PkException e)) (put_var_uint 2 @ exception_bytes e nested)"
| fr_progress: "wf_progress sr p \<Longrightarrow> frame sr (Inl (PkProgress p)) (put_var_uint 3 @ progress_bytes sr p total_bytes elapsed)"
| fr_pong: "frame sr (Inl PkPong) (put_var_uint 4)"
| fr_end: "frame sr (Inl PkEndOfStream) (put_var_uint 5)"
| fr_profile: "frame sr (Inl (PkProfileInfo p)) (put_var_uint 6 @ profile_bytes sr p calc applied before_agg)"
| fr_telemetry: "pid = 10 \<and> p = PkLog \<or> pid = 14 \<and> p = PkProfileEvents \<Longrightarrow>
    wf_header tag bucket (of_nat (length columns)) \<Longrightarrow> server_block sr columns cols n bytes \<Longrightarrow>
    frame sr (Inl p)
      (put_var_uint pid @ header_bytes sr tag ov bucket (of_nat (length columns)) (of_nat n) @ bytes)"
| fr_telemetry_empty: "pid = 10 \<and> p = PkLog \<or> pid = 14 \<and> p = PkProfileEvents \<Longrightarrow>
    wf_header tag bucket (of_nat (length cols)) \<Longrightarrow>
    length cols \<le> READER_MAX_BLOCK_COLUMNS \<Longrightarrow> \<forall>(n, t)\<in>set cols. announced n \<and> announced t \<Longrightarrow>
    frame sr (Inl p) (put_var_uint pid @ header_bytes sr tag ov bucket (of_nat (length cols)) 0 @ schema_bytes sr cols)"
| fr_columns: "announced (tc_external_table_name t) \<Longrightarrow> announced (tc_columns_definition t) \<Longrightarrow>
    frame sr (Inl (PkTableColumns t))
      (put_var_uint 11 @ put_text (tc_external_table_name t) @ put_text (tc_columns_definition t))"
| fr_timezone: "announced z \<Longrightarrow> frame sr (Inl (PkTimezoneUpdate z)) (put_var_uint 17 @ put_text z)"

lemma from_u64_known:
  "from_u64 1 = Inr SpData" "from_u64 2 = Inr SpException" "from_u64 3 = Inr SpProgress" "from_u64 4 = Inr SpPong"
  "from_u64 5 = Inr SpEndOfStream" "from_u64 6 = Inr SpProfileInfo" "from_u64 7 = Inr SpTotals"
  "from_u64 8 = Inr SpExtremes" "from_u64 10 = Inr SpLog" "from_u64 11 = Inr SpTableColumns"
  "from_u64 14 = Inr SpProfileEvents" "from_u64 17 = Inr SpTimezoneUpdate"
  by (simp_all add: from_u64_def)

lemma header_bind:
  "wf_header tag bucket nc \<Longrightarrow> rbind (read_data_block_header sr) f (header_bytes sr tag ov bucket nc nr @ rest) =
    f (if DBMS_MIN_REVISION_WITH_TEMPORARY_TABLES \<le> sr then Some tag else None, nc, nr) rest"
  by (simp add: rbind_def read_header_bytes)

lemma schema_bind:
  "\<forall>(n, t)\<in>set cols. announced n \<and> announced t \<Longrightarrow> length cols \<le> READER_MAX_BLOCK_COLUMNS \<Longrightarrow>
    rbind (read_empty_data_block_schema (of_nat (length cols)) sr) f (schema_bytes sr cols @ rest) = f cols rest"
  by (simp add: rbind_def read_schema_bytes unat_u64_of_nat READER_MAX_BLOCK_COLUMNS_def)

lemma block_rows_nonzero: "server_block sr columns cols n bytes \<Longrightarrow> (of_nat n :: u64) \<noteq> 0"
  by (auto simp: server_block_def MAX_BLOCK_ROWS_def dest!: arg_cong [of _ 0 unat] simp: unat_u64_of_nat)

lemma read_packet_frame:
  assumes "frame sr m bs" "length (bs @ rest) < 2 ^ 64"
  shows "\<exists>p. read_packet sr (bs @ rest) = Inr (p, rest) \<and> packet_view p = m"
  using assms
proof cases
  case (fr_block pid tag bucket columns cols n bytes ov)
  then obtain b where "decode_block (of_nat (length columns)) (of_nat n) sr (bytes @ rest) = Inr (b, rest)"
    "packet_view (PkDataBlock b) = m"
    using server_block_decoded [of sr columns cols n bytes rest] assms(2) by (auto simp: packet_view_def)
  moreover have "read_packet sr (bs @ rest) =
      rbind (decode_block (of_nat (length columns)) (of_nat n) sr) (\<lambda>block. rret (PkDataBlock block)) (bytes @ rest)"
    using fr_block block_rows_nonzero [of sr columns cols n bytes]
    by (auto simp: read_packet_def varint_bind from_u64_known header_bind)
  ultimately show ?thesis by (auto simp: rbind_def)
next
  case (fr_telemetry pid p tag bucket columns cols n bytes ov)
  then obtain b where "decode_block (of_nat (length columns)) (of_nat n) sr (bytes @ rest) = Inr (b, rest)"
    using server_block_decoded [of sr columns cols n bytes rest] assms(2) by auto
  then show ?thesis using fr_telemetry block_rows_nonzero [of sr columns cols n bytes]
    by (auto simp: read_packet_def varint_bind from_u64_known consume_telemetry_block_def rbind_assoc header_bind
        rbind_def [of "decode_block _ _ _"] packet_view_def)
qed (auto simp: read_packet_def varint_bind from_u64_known consume_telemetry_block_def rbind_assoc header_bind schema_bind
      text_bind read_table_columns_def packet_view_def
      rbind_def [of read_exception] read_exception_bytes rbind_def [of "read_progress _"] read_progress_bytes
      rbind_def [of "read_profile_info _"] read_profile_bytes)

interpretation pk: framed "frame sr" "read_packet sr" packet_view
  by unfold_locales (rule read_packet_frame)

text \<open>
  C11: a stream of server packets is read back packet by packet: for every sequence of packets a server may send,
  blocks with rows, schema blocks, exceptions, progress, profiles, telemetry, at every protocol revision, the
  reader returns the same packets in the same order and stops at the first byte behind the last one.
\<close>

theorem packet_stream_roundtrip:
  assumes "list_all2 (frame sr) messages frames" "length (concat frames @ rest) < 2 ^ 64"
  shows "\<exists>packets. read_times (length messages) (read_packet sr) (concat frames @ rest) = Inr (packets, rest) \<and>
    map packet_view packets = messages"
  using assms by (rule pk.read_stream)

section \<open>An example stream\<close>

lemma varint_short: "length (put_var_uint v) \<le> 10"
  using leb128_length_u64 [of v] by (simp add: put_var_uint_leb128 VAR_UINT_MAX_BYTES_def)

lemma text_short: "length (put_text s) \<le> 10 + length s"
  using varint_short by (simp add: put_string_def)

definition ab_bytes :: "byte list" where
  "ab_bytes = [1, 0x61, 5, 0x55, 0x49, 0x6E, 0x74, 0x38, 0] @ [1, 3] @
    [1, 0x62, 6, 0x55, 0x49, 0x6E, 0x74, 0x31, 0x36, 0] @ [2, 0, 4, 0]"

lemma ab_server_block: "server_block 54473 ab_schema ab_cols 2 ab_bytes"
  unfolding server_block_def
  using ab_well_formed ab_schema_declared ab_block_encoded
  by (auto simp: ab_bytes_def MAX_BLOCK_ROWS_def READER_MAX_BLOCK_COLUMNS_def ab_schema_def)

definition example_messages :: "message list" where
  "example_messages = [Inl (PkTimezoneUpdate ''UTC''),
    Inr (map (\<lambda>col. (cs_name col, sent_name col)) ab_schema, ab_cols, 2), Inl PkEndOfStream]"

definition example_frames :: "byte list list" where
  "example_frames = [put_var_uint 17 @ put_text ''UTC'',
    put_var_uint 1 @ header_bytes 54473 [] 0 0 (of_nat (length ab_schema)) (of_nat 2) @ ab_bytes, put_var_uint 5]"

lemma example_framed: "list_all2 (frame 54473) example_messages example_frames"
proof -
  have "frame 54473 (Inl (PkTimezoneUpdate ''UTC'')) (put_var_uint 17 @ put_text ''UTC'')"
    by (rule fr_timezone) (simp add: announced_def as_bytes_def MAX_STRING_SIZE_def)
  moreover have "frame 54473 (Inr (map (\<lambda>col. (cs_name col, sent_name col)) ab_schema, ab_cols, 2))
      (put_var_uint 1 @ header_bytes 54473 [] 0 0 (of_nat (length ab_schema)) (of_nat 2) @ ab_bytes)"
    by (rule fr_block [OF _ _ ab_server_block])
      (simp_all add: wf_header_def empty_announced READER_MAX_BLOCK_COLUMNS_def ab_schema_def)
  ultimately show ?thesis by (simp add: example_messages_def example_frames_def fr_end)
qed

lemma header_short: "length (header_bytes sr tag ov bucket nc nr) \<le> 65 + length tag"
proof -
  have "length (header_bytes sr tag ov bucket nc nr) \<le> length (put_text tag) + (length (put_var_uint 1) + 1 +
      length (put_var_uint 2) + 4 + length (put_var_uint 0)) + length (put_var_uint nc) + length (put_var_uint nr)"
    by (simp add: header_bytes_def)
  then show ?thesis
    using text_short [of tag] varint_short [of 1] varint_short [of 2] varint_short [of 0] varint_short [of nc] varint_short [of nr]
    by linarith
qed

lemma example_short: "length (concat example_frames @ [9]) < 2 ^ 64"
proof -
  have "length (concat example_frames @ [9]) \<le> 200"
    using header_short [of 54473 "[]" 0 0 "of_nat (length ab_schema)" "of_nat 2"] text_short [of "''UTC''"]
      varint_short [of 17] varint_short [of 1] varint_short [of 5]
    by (simp add: example_frames_def ab_bytes_def)
  then show ?thesis by simp
qed

theorem packet_stream_roundtrip_witness:
  "\<exists>packets. read_times (length example_messages) (read_packet 54473) (concat example_frames @ [9]) = Inr (packets, [9]) \<and>
    map packet_view packets = example_messages"
  using example_framed example_short by (rule packet_stream_roundtrip)

end
