(* ===== verification/PacketExchange.thy ===== *)
theory PacketExchange
  imports PacketRoundtrip
begin

text \<open>
  What the server makes of the client's packets: the handshake of src/src/tcp/handshake.rs, the query packet and
  the data packets of tcp/writer.rs, each against a reader that takes the fields in the order of the protocol
  at the negotiated revision.
\<close>

section \<open>Handshake\<close>

text \<open>The server's answer: the fields the client keeps, and those it reads past.\<close>

definition hello_bytes :: "ServerHello \<Rightarrow> u64 \<Rightarrow> string \<times> string \<Rightarrow> (string \<times> string) list \<Rightarrow> byte list \<Rightarrow> byte list" where
  "hello_bytes h replicas chunking rules nonce =
    (let eff = min (sh_revision h) DBMS_TCP_PROTOCOL_VERSION; (major, minor, patch) = sh_version h in
     put_text (sh_server_name h) @ put_var_uint major @ put_var_uint minor @ put_var_uint (sh_revision h) @
     gated (DBMS_MIN_REVISION_WITH_VERSIONED_PARALLEL_REPLICAS_PROTOCOL \<le> eff) (put_var_uint replicas) @
     gated (DBMS_MIN_REVISION_WITH_SERVER_TIMEZONE \<le> eff) (put_text (the (sh_timezone h))) @
     gated (DBMS_MIN_REVISION_WITH_SERVER_DISPLAY_NAME \<le> eff) (put_text (the (sh_display_name h))) @
     gated (DBMS_MIN_REVISION_WITH_VERSION_PATCH \<le> eff) (put_var_uint patch) @
     gated (DBMS_MIN_PROTOCOL_VERSION_WITH_CHUNKED_PACKETS \<le> eff) (put_text (fst chunking) @ put_text (snd chunking)) @
     gated (DBMS_MIN_PROTOCOL_VERSION_WITH_PASSWORD_COMPLEXITY_RULES \<le> eff)
       (put_var_uint (of_nat (length rules)) @ concat (map (\<lambda>(p, m). put_text p @ put_text m) rules)) @
     gated (DBMS_MIN_REVISION_WITH_INTERSERVER_SECRET_V2 \<le> eff) nonce)"

definition wf_hello :: "ServerHello \<Rightarrow> string \<times> string \<Rightarrow> (string \<times> string) list \<Rightarrow> byte list \<Rightarrow> bool" where
  "wf_hello h chunking rules nonce \<longleftrightarrow>
    (let eff = min (sh_revision h) DBMS_TCP_PROTOCOL_VERSION in
     announced (sh_server_name h) \<and>
     (case sh_timezone h of None \<Rightarrow> \<not> DBMS_MIN_REVISION_WITH_SERVER_TIMEZONE \<le> eff
        | Some z \<Rightarrow> DBMS_MIN_REVISION_WITH_SERVER_TIMEZONE \<le> eff \<and> announced z) \<and>
     (case sh_display_name h of None \<Rightarrow> \<not> DBMS_MIN_REVISION_WITH_SERVER_DISPLAY_NAME \<le> eff
        | Some z \<Rightarrow> DBMS_MIN_REVISION_WITH_SERVER_DISPLAY_NAME \<le> eff \<and> announced z) \<and>
     (DBMS_MIN_REVISION_WITH_VERSION_PATCH \<le> eff \<or> snd (snd (sh_version h)) = 0) \<and>
     announced (fst chunking) \<and> announced (snd chunking) \<and>
     length rules \<le> MAX_PASSWORD_COMPLEXITY_RULES \<and> (\<forall>(p, m)\<in>set rules. announced p \<and> announced m) \<and>
     length nonce = 8)"

lemma rules_bind:
  assumes "\<forall>(p, m)\<in>set rules. announced p \<and> announced m"
  shows "rbind (read_times (length rules) (rbind read_utf8_string (\<lambda>_. rbind read_utf8_string (\<lambda>_. rret ())))) f
      (concat (map (\<lambda>(p, m). put_text p @ put_text m) rules) @ rest) = f (replicate (length rules) ()) rest"
  using assms by (induction rules arbitrary: f) (auto simp: rbind_assoc text_bind)

lemma gated_some:
  assumes "case z of None \<Rightarrow> \<not> c | Some t \<Rightarrow> c \<and> announced t"
  shows "rbind (read_gated c None (rbind read_utf8_string (\<lambda>s. rret (Some s)))) f (gated c (put_text (the z)) @ rest) = f z rest"
  using assms by (cases z) (auto simp: read_gated_def rbind_assoc text_bind)

lemma read_hello_bytes:
  assumes "wf_hello h chunking rules nonce"
  shows "read_hello_body (hello_bytes h replicas chunking rules nonce @ rest) = Inr (h, rest)"
proof -
  obtain major minor patch where v: "sh_version h = (major, minor, patch)" by (cases "sh_version h") auto
  have chunk: "rbind (read_gated c () (rbind read_utf8_string (\<lambda>_. rbind read_utf8_string (\<lambda>_. rret ())))) f
      (gated c (put_text (fst chunking) @ put_text (snd chunking)) @ r) = f () r" for c f r
    using assms by (auto simp: read_gated_def rbind_assoc text_bind wf_hello_def Let_def)
  have n: "unat (of_nat (length rules) :: u64) = length rules" "length rules \<le> MAX_PASSWORD_COMPLEXITY_RULES"
    using assms by (auto simp: wf_hello_def Let_def MAX_PASSWORD_COMPLEXITY_RULES_def unat_u64_of_nat)
  have rules: "rbind (read_gated c () (rbind read_var_uint (\<lambda>rules.
               if unat rules > MAX_PASSWORD_COMPLEXITY_RULES
               then rfail (BadResponse (TooManyComplexityRules (unat rules)))
               else rbind (read_times (unat rules)
                      (rbind read_utf8_string (\<lambda>_. rbind read_utf8_string (\<lambda>_. rret ())))) (\<lambda>_. rret ())))) f
      (gated c (put_var_uint (of_nat (length rules)) @ concat (map (\<lambda>(p, m). put_text p @ put_text m) rules)) @ r) = f () r"
    for c f r
    using assms n by (simp add: read_gated_def rbind_assoc varint_bind rules_bind wf_hello_def Let_def)
  have nonce: "rbind (read_gated c [] (read_exact 8)) f (gated c nonce @ r) = f (if c then nonce else []) r" for c f r
    using assms by (simp add: read_gated_def rbind_read_exact_append wf_hello_def Let_def)
  have h: "\<lparr> sh_server_name = sh_server_name h, sh_version = sh_version h, sh_revision = sh_revision h,
      sh_timezone = sh_timezone h, sh_display_name = sh_display_name h \<rparr> = h" by simp
  have patch: "(if DBMS_MIN_REVISION_WITH_VERSION_PATCH \<le> min (sh_revision h) DBMS_TCP_PROTOCOL_VERSION then patch else 0) = patch"
    using assms v by (auto simp: wf_hello_def Let_def)
  have fields: "announced (sh_server_name h)"
    "case sh_timezone h of None \<Rightarrow> \<not> DBMS_MIN_REVISION_WITH_SERVER_TIMEZONE \<le> min (sh_revision h) DBMS_TCP_PROTOCOL_VERSION
        | Some z \<Rightarrow> DBMS_MIN_REVISION_WITH_SERVER_TIMEZONE \<le> min (sh_revision h) DBMS_TCP_PROTOCOL_VERSION \<and> announced z"
    "case sh_display_name h of None \<Rightarrow> \<not> DBMS_MIN_REVISION_WITH_SERVER_DISPLAY_NAME \<le> min (sh_revision h) DBMS_TCP_PROTOCOL_VERSION
        | Some z \<Rightarrow> DBMS_MIN_REVISION_WITH_SERVER_DISPLAY_NAME \<le> min (sh_revision h) DBMS_TCP_PROTOCOL_VERSION \<and> announced z"
    using assms unfolding wf_hello_def Let_def by blast+
  show ?thesis
    unfolding read_hello_body_def hello_bytes_def v Let_def prod.case append_assoc varint_bind gated_varint
      text_bind [OF fields(1)] gated_some [OF fields(2)] gated_some [OF fields(3)] chunk rules nonce patch
    by (simp add: rret_def v [symmetric])
qed

text \<open>The client's greeting as the server takes it.\<close>

definition server_reads_hello :: "(u64 \<times> string \<times> (u64 \<times> u64 \<times> u64) \<times> string \<times> string \<times> string) rd" where
  "server_reads_hello =
    rbind read_var_uint (\<lambda>pid. rbind read_utf8_string (\<lambda>client_name.
    rbind read_var_uint (\<lambda>major. rbind read_var_uint (\<lambda>minor. rbind read_var_uint (\<lambda>revision.
    rbind read_utf8_string (\<lambda>database. rbind read_utf8_string (\<lambda>user. rbind read_utf8_string (\<lambda>password.
      rret (pid, client_name, (major, minor, revision), database, user, password)))))))))"

definition server_reads_addendum :: "u64 \<Rightarrow> (string option \<times> string option \<times> string option \<times> u64 option) rd" where
  "server_reads_addendum eff =
    rbind (read_gated (DBMS_MIN_PROTOCOL_VERSION_WITH_ADDENDUM \<le> eff) None
             (rbind read_utf8_string (\<lambda>s. rret (Some s)))) (\<lambda>quota.
    rbind (read_gated (DBMS_MIN_PROTOCOL_VERSION_WITH_CHUNKED_PACKETS \<le> eff) None
             (rbind read_utf8_string (\<lambda>s. rret (Some s)))) (\<lambda>sending.
    rbind (read_gated (DBMS_MIN_PROTOCOL_VERSION_WITH_CHUNKED_PACKETS \<le> eff) None
             (rbind read_utf8_string (\<lambda>s. rret (Some s)))) (\<lambda>receiving.
    rbind (read_gated (DBMS_MIN_REVISION_WITH_VERSIONED_PARALLEL_REPLICAS_PROTOCOL \<le> eff) None
             (rbind read_var_uint (\<lambda>v. rret (Some v)))) (\<lambda>replicas.
      rret (quota, sending, receiving, replicas)))))"

lemma fixed_texts: "announced CLIENT_NAME" "announced ''notchunked'' "
  by (simp_all add: announced_def CLIENT_NAME_def as_bytes_def MAX_STRING_SIZE_def)

lemma send_hello_read:
  assumes "announced db" "announced user" "announced pw"
  shows "server_reads_hello (send_hello b db user pw @ rest) =
    Inr ((0, CLIENT_NAME, (client_version_major b, client_version_minor b, DBMS_TCP_PROTOCOL_VERSION), db, user, pw), rest)"
  using assms
  by (simp add: server_reads_hello_def send_hello_def varint_bind text_bind fixed_texts client_id_def)

lemma send_addendum_read:
  assumes "announced quota"
  shows "server_reads_addendum (min sr DBMS_TCP_PROTOCOL_VERSION) (send_addendum sr quota @ rest) =
    Inr ((if DBMS_MIN_PROTOCOL_VERSION_WITH_ADDENDUM \<le> sr then Some quota else None,
      if DBMS_MIN_PROTOCOL_VERSION_WITH_CHUNKED_PACKETS \<le> sr then Some ''notchunked'' else None,
      if DBMS_MIN_PROTOCOL_VERSION_WITH_CHUNKED_PACKETS \<le> sr then Some ''notchunked'' else None,
      if DBMS_MIN_REVISION_WITH_VERSIONED_PARALLEL_REPLICAS_PROTOCOL \<le> sr then Some 0 else None), rest)"
proof -
  have "DBMS_MIN_PROTOCOL_VERSION_WITH_ADDENDUM \<le> DBMS_TCP_PROTOCOL_VERSION"
    "DBMS_MIN_PROTOCOL_VERSION_WITH_CHUNKED_PACKETS \<le> DBMS_TCP_PROTOCOL_VERSION"
    "DBMS_MIN_REVISION_WITH_VERSIONED_PARALLEL_REPLICAS_PROTOCOL \<le> DBMS_TCP_PROTOCOL_VERSION"
    by (simp_all add: revision_defs)
  then show ?thesis using assms
    by (simp add: server_reads_addendum_def send_addendum_def Let_def gate_effective read_gated_def rbind_assoc
        varint_bind text_bind fixed_texts)
qed

text \<open>
  C34: the handshake completes against a server of any revision: the server takes the client's greeting as the name,
  version, revision and credentials that were configured; the client takes every field the answer carries at the
  lower of the two revisions and stops behind it; and the server reads the addendum, at that same revision, as the
  quota key, plain unchunked framing in both directions and no parallel replicas.
\<close>

theorem handshake_agreed:
  assumes "announced (hc_database cfg)" "announced (hc_user cfg)" "announced (hc_password cfg)" "announced (hc_quota_key cfg)"
    and "wf_hello h chunking rules nonce"
  shows "\<exists>greeting addendum.
    handshake b cfg (put_var_uint 0 @ hello_bytes h replicas chunking rules nonce @ rest) = (greeting, Inr (h, addendum, rest)) \<and>
    server_reads_hello (greeting @ next_bytes) =
      Inr ((0, CLIENT_NAME, (client_version_major b, client_version_minor b, DBMS_TCP_PROTOCOL_VERSION),
        hc_database cfg, hc_user cfg, hc_password cfg), next_bytes) \<and>
    server_reads_addendum (min (sh_revision h) DBMS_TCP_PROTOCOL_VERSION) (addendum @ next_bytes) =
      Inr ((if DBMS_MIN_PROTOCOL_VERSION_WITH_ADDENDUM \<le> sh_revision h then Some (hc_quota_key cfg) else None,
        if DBMS_MIN_PROTOCOL_VERSION_WITH_CHUNKED_PACKETS \<le> sh_revision h then Some ''notchunked'' else None,
        if DBMS_MIN_PROTOCOL_VERSION_WITH_CHUNKED_PACKETS \<le> sh_revision h then Some ''notchunked'' else None,
        if DBMS_MIN_REVISION_WITH_VERSIONED_PARALLEL_REPLICAS_PROTOCOL \<le> sh_revision h then Some 0 else None), next_bytes)"
proof -
  have "read_hello (put_var_uint 0 @ hello_bytes h replicas chunking rules nonce @ rest) = Inr (h, rest)"
    by (simp add: read_hello_def varint_bind from_u64_def read_hello_bytes [OF assms(5)])
  then show ?thesis
    by (simp add: handshake_def send_hello_read assms send_addendum_read)
qed

definition example_hello :: ServerHello where
  "example_hello = \<lparr> sh_server_name = ''ClickHouse'', sh_version = (25, 3, 1), sh_revision = 54475,
    sh_timezone = Some ''UTC'', sh_display_name = Some ''node'' \<rparr>"

lemma example_wf_hello: "wf_hello example_hello (''notchunked'', ''notchunked'') [] [1, 2, 3, 4, 5, 6, 7, 8]"
  by (simp add: wf_hello_def example_hello_def revision_defs Let_def announced_def as_bytes_def MAX_STRING_SIZE_def
      MAX_PASSWORD_COMPLEXITY_RULES_def)

definition example_version :: build_version where
  "example_version = \<lparr> CLIENT_VERSION_MAJOR_STR = ''0'', CLIENT_VERSION_MINOR_STR = ''2'' \<rparr>"

theorem handshake_agreed_witness:
  "\<exists>greeting addendum.
    handshake example_version handshake_default
      (put_var_uint 0 @ hello_bytes example_hello 4 (''notchunked'', ''notchunked'') [] [1, 2, 3, 4, 5, 6, 7, 8] @ [7]) =
      (greeting, Inr (example_hello, addendum, [7])) \<and>
    server_reads_hello (greeting @ [1]) =
      Inr ((0, CLIENT_NAME, (client_version_major example_version, client_version_minor example_version, DBMS_TCP_PROTOCOL_VERSION),
        ''default'', ''default'', []), [1]) \<and>
    server_reads_addendum (min (sh_revision example_hello) DBMS_TCP_PROTOCOL_VERSION) (addendum @ [1]) =
      Inr ((Some [], Some ''notchunked'', Some ''notchunked'', Some 0), [1])"
proof -
  have "announced (hc_database handshake_default)" "announced (hc_user handshake_default)"
    "announced (hc_password handshake_default)" "announced (hc_quota_key handshake_default)"
    by (simp_all add: handshake_default_def announced_def as_bytes_def MAX_STRING_SIZE_def)
  from handshake_agreed [OF this example_wf_hello, of example_version 4 "[7]" "[1]"] show ?thesis
    by (simp add: example_hello_def handshake_default_def revision_defs)
qed

text \<open>
  A server that answers the greeting with an exception ends the handshake with that exception, and an answer
  that is any other packet is refused, so no connection is handed out.
\<close>

theorem handshake_refused:
  "(wf_exception e \<longrightarrow>
     snd (handshake b cfg (put_var_uint 2 @ exception_bytes e nested @ rest)) = Inl (into_error e)) \<and>
   (v \<noteq> 0 \<and> v \<noteq> 2 \<longrightarrow> (\<exists>r. snd (handshake b cfg (put_var_uint v @ rest)) = Inl (BadResponse r)))"
proof -
  have "\<exists>r. read_hello (put_var_uint v @ rest) = Inl (BadResponse r)" if "v \<noteq> 0" "v \<noteq> 2"
    using that by (auto simp: read_hello_def varint_bind from_u64_def rfail_def)
  moreover have "read_hello (put_var_uint 2 @ exception_bytes e nested @ rest) = Inl (into_error e)" if "wf_exception e"
    using that
    by (simp add: read_hello_def varint_bind from_u64_def rbind_def [of read_exception] read_exception_bytes rfail_def)
  ultimately show ?thesis by (auto simp: handshake_def)
qed

definition example_exception :: Exception where
  "example_exception = \<lparr> ex_code = 516, ex_name = ''DB::Exception'', ex_message = ''Authentication failed'', ex_stack_trace = [] \<rparr>"

theorem handshake_refused_witness:
  "snd (handshake example_version handshake_default (put_var_uint 2 @ exception_bytes example_exception 0 @ [7])) =
     Inl (into_error example_exception) \<and>
   (\<exists>r. snd (handshake example_version handshake_default (put_var_uint 5 @ [7])) = Inl (BadResponse r))"
  using handshake_refused [of example_exception example_version handshake_default 0 "[7]" 5]
  by (simp add: wf_exception_def example_exception_def announced_def as_bytes_def MAX_STRING_SIZE_def
      TCP_EXCEPTION_STACK_TRACE_CAP_def)

section \<open>Query\<close>

text \<open>The client info block, with the values of the fields that the revision leaves off the wire.\<close>

definition server_reads_info :: "u64 \<Rightarrow> ClientInfo rd" where
  "server_reads_info sr =
    rbind (read_le 1) (\<lambda>kind. rbind read_utf8_string (\<lambda>initial_user. rbind read_utf8_string (\<lambda>initial_query_id.
    rbind read_utf8_string (\<lambda>initial_address.
    rbind (read_gated (DBMS_MIN_PROTOCOL_VERSION_WITH_INITIAL_QUERY_START_TIME \<le> sr) 0 (read_le 8)) (\<lambda>start_time.
    rbind (read_le 1) (\<lambda>interface. rbind read_utf8_string (\<lambda>os_user. rbind read_utf8_string (\<lambda>hostname.
    rbind read_utf8_string (\<lambda>name. rbind read_var_uint (\<lambda>major. rbind read_var_uint (\<lambda>minor. rbind read_var_uint (\<lambda>revision.
    rbind (read_gated (DBMS_MIN_REVISION_WITH_QUOTA_KEY_IN_CLIENT_INFO \<le> sr) [] read_utf8_string) (\<lambda>quota.
    rbind (read_gated (DBMS_MIN_PROTOCOL_VERSION_WITH_DISTRIBUTED_DEPTH \<le> sr) 0 read_var_uint) (\<lambda>depth.
    rbind (read_gated (DBMS_MIN_REVISION_WITH_VERSION_PATCH \<le> sr) 0 read_var_uint) (\<lambda>patch.
    rbind (read_gated (DBMS_MIN_REVISION_WITH_OPENTELEMETRY \<le> sr) 0 (read_le 1)) (\<lambda>have_trace.
    rbind (read_gated (DBMS_MIN_PROTOCOL_VERSION_WITH_PARALLEL_REPLICAS \<le> sr) ()
      (rbind read_var_uint (\<lambda>_. rbind read_var_uint (\<lambda>_. rbind read_var_uint (\<lambda>_. rret ()))))) (\<lambda>_.
      rret \<lparr> ci_query_kind = kind, ci_initial_user = initial_user, ci_initial_query_id = initial_query_id,
        ci_initial_address = initial_address, ci_os_user = os_user, ci_client_hostname = hostname, ci_client_name = name,
        ci_client_version_major = major, ci_client_version_minor = minor, ci_client_version_patch = patch,
        ci_client_revision = revision, ci_interface = interface, ci_quota_key = quota, ci_distributed_depth = depth \<rparr>)))))))))))))))))"

text \<open>Name, flags and value, up to an empty name.\<close>

primrec read_triples :: "nat \<Rightarrow> (string \<times> u64 \<times> string) list rd" where
  "read_triples 0 = rfail NotEnoughData"
| "read_triples (Suc fuel) =
    rbind read_utf8_string (\<lambda>name. if name = [] then rret [] else
    rbind read_var_uint (\<lambda>flags. rbind read_utf8_string (\<lambda>setting.
    rbind (read_triples fuel) (\<lambda>kvs. rret ((name, flags, setting) # kvs)))))"

record server_query =
  sq_query_id :: string
  sq_info :: "ClientInfo option"
  sq_settings :: "(string \<times> u64 \<times> string) list"
  sq_stage :: u64
  sq_compression :: u64
  sq_text :: string
  sq_params :: "(string \<times> u64 \<times> string) list"

definition server_reads_query :: "u64 \<Rightarrow> nat \<Rightarrow> server_query rd" where
  "server_reads_query sr fuel =
    rbind read_utf8_string (\<lambda>query_id.
    rbind (read_gated (DBMS_MIN_REVISION_WITH_CLIENT_INFO \<le> sr) None
      (rbind (server_reads_info sr) (\<lambda>i. rret (Some i)))) (\<lambda>info.
    rbind (read_triples fuel) (\<lambda>settings.
    rbind (read_gated (DBMS_MIN_PROTOCOL_VERSION_WITH_INTERSERVER_EXTERNALLY_GRANTED_ROLES \<le> min sr DBMS_TCP_PROTOCOL_VERSION) []
      read_utf8_string) (\<lambda>roles.
    rbind (read_gated (DBMS_MIN_REVISION_WITH_INTERSERVER_SECRET \<le> sr) [] read_utf8_string) (\<lambda>secret.
    rbind read_var_uint (\<lambda>stage. rbind read_var_uint (\<lambda>compression. rbind read_utf8_string (\<lambda>query.
    rbind (read_gated (DBMS_MIN_PROTOCOL_VERSION_WITH_PARAMETERS \<le> sr) [] (read_triples fuel)) (\<lambda>params.
      rret \<lparr> sq_query_id = query_id, sq_info = info, sq_settings = settings, sq_stage = stage,
        sq_compression = compression, sq_text = query, sq_params = params \<rparr>)))))))))"

definition wf_info :: "u64 \<Rightarrow> ClientInfo \<Rightarrow> bool" where
  "wf_info sr i \<longleftrightarrow> ci_query_kind i < 256 \<and> ci_interface i < 256 \<and> announced (ci_initial_user i) \<and>
    announced (ci_initial_query_id i) \<and> announced (ci_initial_address i) \<and> announced (ci_os_user i) \<and>
    announced (ci_client_hostname i) \<and> announced (ci_client_name i) \<and> announced (ci_quota_key i) \<and>
    (DBMS_MIN_REVISION_WITH_QUOTA_KEY_IN_CLIENT_INFO \<le> sr \<or> ci_quota_key i = []) \<and>
    (DBMS_MIN_PROTOCOL_VERSION_WITH_DISTRIBUTED_DEPTH \<le> sr \<or> ci_distributed_depth i = 0) \<and>
    (DBMS_MIN_REVISION_WITH_VERSION_PATCH \<le> sr \<or> ci_client_version_patch i = 0)"

lemma small_bind: "n < 256 \<Longrightarrow> rbind (read_le (Suc 0)) f (le_bytes (Suc 0) n @ rest) = f n rest"
  using le_bind [of n 1 f rest] by simp

lemma gated_utf8:
  "announced t \<Longrightarrow> rbind (read_gated c [] read_utf8_string) f (gated c (put_text t) @ rest) = f (if c then t else []) rest"
  by (simp add: read_gated_def text_bind)

lemma gated_le:
  "n < 256 ^ w \<Longrightarrow> rbind (read_gated c 0 (read_le w)) f (gated c (le_bytes w n) @ rest) = f (if c then n else 0) rest"
  by (simp add: read_gated_def le_bind)

lemma gated_three:
  "rbind (read_gated c () (rbind read_var_uint (\<lambda>_. rbind read_var_uint (\<lambda>_. rbind read_var_uint (\<lambda>_. rret ()))))) f
    (gated c (put_var_uint x @ put_var_uint y @ put_var_uint z) @ rest) = f () rest"
  by (simp add: read_gated_def rbind_assoc varint_bind)

lemma write_to_read:
  assumes "wf_info sr i"
  shows "server_reads_info sr (write_to i sr @ rest) = Inr (i, rest)"
proof -
  have w: "ci_query_kind i < 256 ^ 1" "ci_interface i < 256 ^ 1" "announced (ci_initial_user i)"
    "announced (ci_initial_query_id i)" "announced (ci_initial_address i)" "announced (ci_os_user i)"
    "announced (ci_client_hostname i)" "announced (ci_client_name i)" "announced (ci_quota_key i)"
    using assms by (auto simp: wf_info_def)
  have zero: "(0::nat) < 256 ^ 8" "(0::nat) < 256 ^ 1" by simp_all
  have opt: "(if DBMS_MIN_REVISION_WITH_QUOTA_KEY_IN_CLIENT_INFO \<le> sr then ci_quota_key i else []) = ci_quota_key i"
    "(if DBMS_MIN_PROTOCOL_VERSION_WITH_DISTRIBUTED_DEPTH \<le> sr then ci_distributed_depth i else 0) = ci_distributed_depth i"
    "(if DBMS_MIN_REVISION_WITH_VERSION_PATCH \<le> sr then ci_client_version_patch i else 0) = ci_client_version_patch i"
    using assms by (auto simp: wf_info_def)
  show ?thesis
    unfolding server_reads_info_def write_to_def append_assoc le_bind [OF w(1)] le_bind [OF w(2)] w(3-9) [THEN text_bind]
      varint_bind gated_utf8 [OF w(9)] gated_le [OF zero(1)] gated_le [OF zero(2)] gated_varint gated_three opt
    by (simp add: rret_def)
qed

definition wf_kvs :: "(string \<times> string) list \<Rightarrow> bool" where
  "wf_kvs kvs \<longleftrightarrow> (\<forall>(k, v)\<in>set kvs. k \<noteq> [] \<and> announced k \<and> announced v)"

lemma triples_bind:
  "wf_kvs kvs \<Longrightarrow> length kvs < fuel \<Longrightarrow>
    rbind (read_triples fuel) f (put_triples flags kvs @ put_text [] @ rest) = f (map (\<lambda>(k, v). (k, flags, v)) kvs) rest"
proof (induction kvs arbitrary: fuel f)
  case Nil
  then obtain k where "fuel = Suc k" by (cases fuel) auto
  then show ?case by (simp add: put_triples_def rbind_assoc text_bind empty_announced)
next
  case (Cons kv kvs)
  then obtain k where "fuel = Suc k" by (cases fuel) auto
  with Cons show ?case
    by (cases kv) (simp add: put_triples_def wf_kvs_def rbind_assoc text_bind varint_bind)
qed

text \<open>
  C33: the server takes a query packet as it was meant: whenever \<open>send_query\<close> does not refuse, the packet is the query
  id, the client info, each setting and each bound parameter in order with its flag, the final stage, no
  compression and the statement, and nothing of it is left over for the next packet.  Setting and parameter names
  have to be non-empty.
\<close>

theorem query_packet_read:
  assumes "send_query sr query_id query settings params info = (bytes, Inr ())"
    and "announced query_id" "announced query" "wf_kvs settings" "wf_kvs params" "wf_info sr info"
    and "length settings < fuel" "length params < fuel"
  shows "rbind read_var_uint (\<lambda>pid. rbind (server_reads_query sr fuel) (\<lambda>q. rret (pid, q))) (bytes @ rest) =
    Inr ((client_id ClientQuery,
      \<lparr> sq_query_id = query_id,
        sq_info = (if DBMS_MIN_REVISION_WITH_CLIENT_INFO \<le> sr then Some info else None),
        sq_settings = map (\<lambda>(k, v). (k, 0, v)) settings, sq_stage = QueryProcessingStage_Complete, sq_compression = 0,
        sq_text = query, sq_params = map (\<lambda>(k, v). (k, SETTING_FLAG_CUSTOM, v)) params \<rparr>), rest)"
proof -
  have refused: "settings = [] \<or> DBMS_MIN_REVISION_WITH_SETTINGS_SERIALIZED_AS_STRINGS \<le> sr"
    "params = [] \<or> DBMS_MIN_PROTOCOL_VERSION_WITH_PARAMETERS \<le> sr"
    using assms(1) by (auto simp: send_query_def Let_def split: if_splits)
  have gate: "gated (DBMS_MIN_REVISION_WITH_SETTINGS_SERIALIZED_AS_STRINGS \<le> sr) (put_triples 0 settings) = put_triples 0 settings"
    using refused(1) by (auto simp: put_triples_def)
  have info: "rbind (read_gated c None (rbind (server_reads_info sr) (\<lambda>i. rret (Some i)))) f (gated c (write_to info sr) @ r) =
      f (if c then Some info else None) r" for c f r
    using write_to_read [OF assms(6)] by (simp add: read_gated_def rbind_def)
  have prm: "rbind (read_gated c [] (read_triples fuel)) f (gated c (put_triples SETTING_FLAG_CUSTOM params @ put_text []) @ r) =
      f (map (\<lambda>(k, v). (k, SETTING_FLAG_CUSTOM, v)) params) r" if "params = [] \<or> c" for c f r
    using that triples_bind [OF assms(5,8), of f SETTING_FLAG_CUSTOM r] by (auto simp: read_gated_def)
  have bytes: "bytes = put_var_uint (client_id ClientQuery) @ put_text query_id @
       gated (sr \<ge> DBMS_MIN_REVISION_WITH_CLIENT_INFO) (write_to info sr) @
       put_triples 0 settings @ put_text [] @
       gated (min sr DBMS_TCP_PROTOCOL_VERSION \<ge> DBMS_MIN_PROTOCOL_VERSION_WITH_INTERSERVER_EXTERNALLY_GRANTED_ROLES)
         (put_text []) @
       gated (sr \<ge> DBMS_MIN_REVISION_WITH_INTERSERVER_SECRET) (put_text []) @
       put_var_uint QueryProcessingStage_Complete @ put_var_uint 0 @ put_text query @
       gated (sr \<ge> DBMS_MIN_PROTOCOL_VERSION_WITH_PARAMETERS) (put_triples SETTING_FLAG_CUSTOM params @ put_text [])"
  proof -
    have "\<not> (\<not> sr \<ge> DBMS_MIN_REVISION_WITH_SETTINGS_SERIALIZED_AS_STRINGS \<and> settings \<noteq> [])"
      "\<not> (\<not> sr \<ge> DBMS_MIN_PROTOCOL_VERSION_WITH_PARAMETERS \<and> params \<noteq> [])" using refused by auto
    note taken = this [THEN if_not_P]
    show ?thesis using assms(1) unfolding send_query_def Let_def taken gate append_assoc prod.inject by (rule conjE) (rule sym)
  qed
  show ?thesis
    unfolding bytes server_reads_query_def append_assoc varint_bind text_bind [OF assms(2)] text_bind [OF assms(3)] info
      triples_bind [OF assms(4,7)] gated_utf8 [OF empty_announced] prm [OF refused(2)] rbind_assoc
    by (simp add: rret_def)
qed

definition example_info :: ClientInfo where
  "example_info = (for_initial_query CLIENT_NAME 0 2 54473 ''key'')\<lparr> ci_initial_query_id := ''q1'' \<rparr>"

theorem query_packet_read_witness:
  "rbind read_var_uint (\<lambda>pid. rbind (server_reads_query 54473 2) (\<lambda>q. rret (pid, q)))
      (fst (send_query 54473 ''q1'' ''SELECT {x:UInt8}'' [(''max_threads'', ''1'')] [(''x'', ''7'')] example_info) @ [4]) =
    Inr ((client_id ClientQuery,
      \<lparr> sq_query_id = ''q1'', sq_info = Some example_info,
        sq_settings = [(''max_threads'', 0, ''1'')], sq_stage = QueryProcessingStage_Complete, sq_compression = 0,
        sq_text = ''SELECT {x:UInt8}'', sq_params = [(''x'', SETTING_FLAG_CUSTOM, ''7'')] \<rparr>), [4])"
proof -
  have ok: "send_query 54473 ''q1'' ''SELECT {x:UInt8}'' [(''max_threads'', ''1'')] [(''x'', ''7'')] example_info =
      (fst (send_query 54473 ''q1'' ''SELECT {x:UInt8}'' [(''max_threads'', ''1'')] [(''x'', ''7'')] example_info), Inr ())"
    by (simp add: send_query_def Let_def revision_defs)
  have "wf_info 54473 example_info" "wf_kvs [(''max_threads'', ''1'')]" "wf_kvs [(''x'', ''7'')]"
    "announced ''q1''" "announced ''SELECT {x:UInt8}''"
    by (simp_all add: wf_info_def wf_kvs_def example_info_def for_initial_query_def announced_def as_bytes_def
        MAX_STRING_SIZE_def revision_defs QUERY_KIND_INITIAL_QUERY_def INTERFACE_TYPE_TCP_def CLIENT_NAME_def)
  then show ?thesis using query_packet_read [OF ok, of 2 "[4]"] by (simp add: revision_defs)
qed

section \<open>Insert\<close>

text \<open>A data packet from the client, as the server takes it.\<close>

definition server_reads_data :: "u64 \<Rightarrow> (u64 \<times> string option \<times> DecodedBlock) rd" where
  "server_reads_data sr =
    rbind read_var_uint (\<lambda>pid. rbind (read_data_block_header sr) (\<lambda>(tag, num_columns, num_rows).
    rbind (decode_block num_columns num_rows sr) (\<lambda>b. rret (pid, tag, b))))"

lemma send_data_block_header:
  "send_data_block sr table body num_columns num_rows =
    put_var_uint (client_id ClientData) @ header_bytes sr table 0 (2 ^ 32 - 1) num_columns num_rows @ body"
  by (simp add: send_data_block_def header_bytes_def block_info_def le_bytes_def)

lemma data_packet_read:
  assumes "server_block sr columns cols n bytes" "announced table"
    and "length (send_data_block sr table bytes (of_nat (length columns)) (of_nat n) @ rest) < 2 ^ 64"
  shows "\<exists>b. server_reads_data sr (send_data_block sr table bytes (of_nat (length columns)) (of_nat n) @ rest) =
      Inr ((2, if DBMS_MIN_REVISION_WITH_TEMPORARY_TABLES \<le> sr then Some table else None, b), rest) \<and>
    db_schema b = map (\<lambda>col. (cs_name col, sent_name col)) columns \<and>
    map to_cells (db_columns b) = cols \<and> db_num_rows b = n"
proof -
  have "length (bytes @ rest) < 2 ^ 64" using assms(3) by (simp add: send_data_block_header)
  from server_block_decoded [OF assms(1) this] obtain b where
    b: "decode_block (of_nat (length columns)) (of_nat n) sr (bytes @ rest) = Inr (b, rest)"
      "db_schema b = map (\<lambda>col. (cs_name col, sent_name col)) columns"
      "map to_cells (db_columns b) = cols" "db_num_rows b = n" by metis
  have wf: "wf_header table (2 ^ 32 - 1) (of_nat (length columns))"
    using assms(1,2) by (simp add: wf_header_def server_block_def READER_MAX_BLOCK_COLUMNS_def unat_u64_of_nat)
  show ?thesis
    unfolding server_reads_data_def send_data_block_header append_assoc varint_bind header_bind [OF wf]
    by (simp add: client_id_def rbind_def [of "decode_block _ _ _"] b rret_def)
qed

text \<open>
  An INSERT block reaches the server as encoded: the data packet around the Native bytes of a block is read, at
  any revision, as the table tag and a block with the schema, the cells and the row count that were sent, and the
  packet ends exactly where the column bytes end.
\<close>

theorem insert_packet_read:
  assumes "server_block sr columns cols n bytes" "announced table"
    and "length (send_data_block sr table bytes (of_nat (length columns)) (of_nat n) @ rest) < 2 ^ 64"
  shows "\<exists>b. server_reads_data sr (send_data_block sr table bytes (of_nat (length columns)) (of_nat n) @ rest) =
      Inr ((2, if DBMS_MIN_REVISION_WITH_TEMPORARY_TABLES \<le> sr then Some table else None, b), rest) \<and>
    db_schema b = map (\<lambda>col. (cs_name col, sent_name col)) columns \<and>
    map to_cells (db_columns b) = cols \<and> db_num_rows b = n"
  using assms by (rule data_packet_read)

theorem insert_packet_read_witness:
  "\<exists>b. server_reads_data 54473 (send_data_block 54473 [] ab_bytes (of_nat (length ab_schema)) (of_nat 2) @ [3]) =
      Inr ((2, Some [], b), [3]) \<and>
    db_schema b = map (\<lambda>col. (cs_name col, sent_name col)) ab_schema \<and>
    map to_cells (db_columns b) = ab_cols \<and> db_num_rows b = 2"
proof -
  have "length (send_data_block 54473 [] ab_bytes (of_nat (length ab_schema)) (of_nat 2) @ [3]) \<le> 200"
    using header_short [of 54473 "[]" 0 "2 ^ 32 - 1" "of_nat (length ab_schema)" "of_nat 2"] varint_short [of "client_id ClientData"]
    by (simp add: send_data_block_header ab_bytes_def)
  then have "length (send_data_block 54473 [] ab_bytes (of_nat (length ab_schema)) (of_nat 2) @ [3]) < 2 ^ 64" by simp
  from insert_packet_read [OF ab_server_block empty_announced this] show ?thesis by (simp add: revision_defs)
qed

text \<open>The block that ends an INSERT has no columns and no rows.\<close>

lemma send_empty_block_read:
  "rbind read_var_uint (\<lambda>pid. rbind (read_data_block_header sr) (\<lambda>h. rret (pid, h))) (send_empty_block sr @ rest) =
    Inr ((2, if DBMS_MIN_REVISION_WITH_TEMPORARY_TABLES \<le> sr then Some [] else None, 0, 0), rest)"
proof -
  have wf: "wf_header [] (2 ^ 32 - 1) 0" by (simp add: wf_header_def empty_announced)
  show ?thesis
    unfolding send_empty_block_def send_data_block_header append_assoc varint_bind header_bind [OF wf] by (simp add: client_id_def rret_def)
qed

end
