(* ===== verification/ActorExchange.thy ===== *)
theory ActorExchange
  imports ActorInvariant Cursor PacketExchange
begin

text \<open>
  Whole exchanges over one connection: a command and the server's answer to it.  Each command consumes exactly the
  packets of its own answer, also when its caller leaves in the middle, so the next command starts on a clean
  stream; a streamed result reaches the cursor as the blocks the server sent; and with a read timeout every command
  returns.
\<close>

section \<open>Answers\<close>

abbreviation from_server :: "ServerPacket \<Rightarrow> event" where
  "from_server p \<equiv> Message (Some (Packet p))"

text \<open>The packets in front of the one that ends an answer.\<close>

definition inner :: "ServerPacket \<Rightarrow> bool" where
  "inner p \<longleftrightarrow> (case p of PkEndOfStream \<Rightarrow> False | PkException _ \<Rightarrow> False | _ \<Rightarrow> True)"

text \<open>What the packet that ends an answer means.\<close>

definition verdict :: "ServerPacket \<Rightarrow> unit result" where
  "verdict p = (case p of PkException e \<Rightarrow> Inl (into_error e) | _ \<Rightarrow> Inr ())"

lemma drain_answer:
  "\<forall>p\<in>set ps. inner p \<Longrightarrow> \<not> inner t \<Longrightarrow>
    drain_to_end_of_stream a (map from_server ps @ from_server t # rest) = Some (verdict t, a, rest)"
proof (induction ps)
  case Nil
  then show ?case by (cases t) (simp_all add: inner_def verdict_def)
next
  case (Cons p ps)
  then show ?case by (cases p) (simp_all add: inner_def)
qed

lemma query_loop_skip:
  "\<forall>p\<in>set ps. inner p \<Longrightarrow> query_loop a (map from_server ps @ es) = query_loop a es"
proof (induction ps)
  case (Cons p ps)
  then show ?case by (cases p) (simp_all add: inner_def)
qed simp

lemma query_loop_end: "\<not> inner t \<Longrightarrow> query_loop a (from_server t # es) = Some (Some (verdict t), a, es)"
  by (cases t) (simp_all add: inner_def verdict_def)

lemma write_before_packet:
  "bounded_io limited bytes a (map from_server ps @ from_server t # es) =
    Some (Inr (), a\<lparr> ac_wire := ac_wire a @ bytes \<rparr>, map from_server ps @ from_server t # es)"
  "bounded_io limited bytes a (map from_server ps @ CallerGone # es) =
    Some (Inr (), a\<lparr> ac_wire := ac_wire a @ bytes \<rparr>, map from_server ps @ CallerGone # es)"
  by (cases ps; simp add: bounded_io_def)+

lemma cancel_answer:
  assumes "\<forall>p\<in>set ps. inner p" "\<not> inner t"
  shows "cancel_and_drain a (map from_server ps @ from_server t # rest) =
    Some ((), a\<lparr> ac_wire := ac_wire a @ send_cancel \<rparr>, rest)"
  by (simp add: cancel_and_drain_def abind_def write_before_packet drain_answer [OF assms] aret_def)

text \<open>The bytes of a statement and the empty block behind it.\<close>

definition statement_bytes :: "actor \<Rightarrow> string \<Rightarrow> string \<Rightarrow> kvs \<Rightarrow> kvs \<Rightarrow> byte list" where
  "statement_bytes a query_id query settings params =
    fst (send_query (ac_revision a) query_id query settings params (client_info_for a query_id)) @
    send_empty_block (ac_revision a)"

definition accepted :: "actor \<Rightarrow> kvs \<Rightarrow> kvs \<Rightarrow> bool" where
  "accepted a settings params \<longleftrightarrow>
    (settings = [] \<or> DBMS_MIN_REVISION_WITH_SETTINGS_SERIALIZED_AS_STRINGS \<le> ac_revision a) \<and>
    (params = [] \<or> DBMS_MIN_PROTOCOL_VERSION_WITH_PARAMETERS \<le> ac_revision a)"

lemma send_query_accepted:
  "accepted a settings params \<Longrightarrow>
    snd (send_query (ac_revision a) query_id query settings params info) = Inr ()"
  by (auto simp: accepted_def send_query_def Let_def)

definition quiet_head :: "event list \<Rightarrow> bool" where
  "quiet_head es \<longleftrightarrow> (case es of WriteFails _ _ # _ \<Rightarrow> False | WriteStalls _ # _ \<Rightarrow> False | _ \<Rightarrow> True)"

lemma quiet_head_simps [simp]:
  "quiet_head (map from_server ps @ from_server t # es)" "quiet_head (map from_server ps @ CallerGone # es)"
  by (cases ps; simp add: quiet_head_def)+

lemma quiet_write:
  "quiet_head es \<Longrightarrow> bounded_io limited bytes a es = Some (Inr (), a\<lparr> ac_wire := ac_wire a @ bytes \<rparr>, es)"
  by (auto simp: quiet_head_def bounded_io_def split: list.splits event.splits)

lemma issue_query_whole:
  assumes "accepted a settings params" "quiet_head es"
  shows "issue_query query_id query settings params a es =
    Some (Inr (), a\<lparr> ac_wire := ac_wire a @ statement_bytes a query_id query settings params \<rparr>, es)"
proof -
  obtain bytes where "send_query (ac_revision a) query_id query settings params (client_info_for a query_id) = (bytes, Inr ())"
    using send_query_accepted [OF assms(1)] by (metis prod.collapse)
  then show ?thesis
    by (simp add: issue_query_def abind_def quiet_write [OF assms(2)] statement_bytes_def)
qed

lemma abind_issued:
  assumes "accepted a settings params" "quiet_head es"
  shows "abind (issue_query query_id query settings params) (\<lambda>r. case r of Inl e \<Rightarrow> f e | Inr _ \<Rightarrow> g) a es =
    g (a\<lparr> ac_wire := ac_wire a @ statement_bytes a query_id query settings params \<rparr>) es"
  by (simp add: abind_def issue_query_whole [OF assms])

lemma handle_query:
  assumes "ac_state a = Idle" "\<not> ac_poisoned a" "accepted a settings params" "quiet_head es"
  shows "handle (ExecuteQuery query_id query settings params) a es =
    map_option (\<lambda>(r, a', es'). (case r of None \<Rightarrow> NoAnswer | Some x \<Rightarrow> Answer x, a', es'))
      (query_loop (a\<lparr> ac_wire := ac_wire a @ statement_bytes a query_id query settings params \<rparr>) es)"
proof -
  have "handle (ExecuteQuery query_id query settings params) a es =
      abind (do_execute_query query_id query settings params) (\<lambda>r. aret (case r of None \<Rightarrow> NoAnswer | Some x \<Rightarrow> Answer x)) a es"
    using assms(1,2) by (simp add: handle_def)
  moreover have "do_execute_query query_id query settings params a es =
      query_loop (a\<lparr> ac_wire := ac_wire a @ statement_bytes a query_id query settings params \<rparr>) es"
    unfolding do_execute_query_def by (rule abind_issued [OF assms(3,4)])
  ultimately show ?thesis by (auto simp: abind_def aret_def split: option.splits)
qed

lemma handle_stream:
  assumes "ac_state a = Idle" "\<not> ac_poisoned a" "accepted a settings params" "quiet_head es"
  shows "handle (ExecuteStream query_id query settings params) a es =
    map_option (\<lambda>(fs, a', es'). (Frames fs, a', es'))
      (stream_loop (a\<lparr> ac_wire := ac_wire a @ statement_bytes a query_id query settings params \<rparr>) es)"
proof -
  have "handle (ExecuteStream query_id query settings params) a es =
      abind (do_execute_stream query_id query settings params) (\<lambda>fs. aret (Frames fs)) a es"
    using assms(1,2) by (simp add: handle_def)
  moreover have "do_execute_stream query_id query settings params a es =
      stream_loop (a\<lparr> ac_wire := ac_wire a @ statement_bytes a query_id query settings params \<rparr>) es"
    unfolding do_execute_stream_def by (rule abind_issued [OF assms(3,4)])
  ultimately show ?thesis by (auto simp: abind_def aret_def split: option.splits)
qed

text \<open>
  C12: a statement takes its own answer and nothing else.  On a healthy idle connection the answer is any packets up to
  the one that ends it, end of stream or exception: the caller gets that verdict.  If the caller leaves after any
  number of them, the actor sends a cancel and reads on to the end of the answer.  Either way the connection is
  idle, not poisoned, and the packets behind the answer are left for the next command.
\<close>

theorem statement_takes_its_answer:
  assumes "ac_state a = Idle" "\<not> ac_poisoned a" "accepted a settings params"
    and "\<forall>p\<in>set (seen @ unseen). inner p" "\<not> inner t"
  shows "handle (ExecuteQuery query_id query settings params) a
      (map from_server (seen @ unseen) @ from_server t # rest) =
      Some (Answer (verdict t), a\<lparr> ac_wire := ac_wire a @ statement_bytes a query_id query settings params \<rparr>, rest) \<and>
    handle (ExecuteQuery query_id query settings params) a
      (map from_server seen @ CallerGone # map from_server unseen @ from_server t # rest) =
      Some (NoAnswer,
        a\<lparr> ac_wire := ac_wire a @ statement_bytes a query_id query settings params @ send_cancel \<rparr>, rest)"
proof -
  have ps: "\<forall>p\<in>set seen. inner p" "\<forall>p\<in>set unseen. inner p" using assms(4) by auto
  have "handle (ExecuteQuery query_id query settings params) a
      (map from_server (seen @ unseen) @ from_server t # rest) =
      Some (Answer (verdict t), a\<lparr> ac_wire := ac_wire a @ statement_bytes a query_id query settings params \<rparr>, rest)"
    unfolding handle_query [OF assms(1-3) quiet_head_simps(1)] query_loop_skip [OF assms(4)] query_loop_end [OF assms(5)]
    by simp
  moreover have "handle (ExecuteQuery query_id query settings params) a
      (map from_server seen @ CallerGone # map from_server unseen @ from_server t # rest) =
      Some (NoAnswer,
        a\<lparr> ac_wire := ac_wire a @ statement_bytes a query_id query settings params @ send_cancel \<rparr>, rest)"
    unfolding handle_query [OF assms(1-3) quiet_head_simps(2)] query_loop_skip [OF ps(1)]
    by (simp add: abind_def cancel_answer [OF ps(2) assms(5)] aret_def)
  ultimately show ?thesis ..
qed

definition idle_actor :: actor where
  "idle_actor = spawn_with_config example_build 54473 (Some 300000) []"

theorem statement_takes_its_answer_witness:
  "handle (ExecuteQuery [] ''SELECT 1'' [] []) idle_actor
      (map from_server ([PkLog] @ [PkProfileEvents]) @ from_server PkEndOfStream # [from_server PkPong]) =
      Some (Answer (verdict PkEndOfStream),
        idle_actor\<lparr> ac_wire := ac_wire idle_actor @ statement_bytes idle_actor [] ''SELECT 1'' [] [] \<rparr>, [from_server PkPong]) \<and>
   handle (ExecuteQuery [] ''SELECT 1'' [] []) idle_actor
      (map from_server [PkLog] @ CallerGone # map from_server [PkProfileEvents] @ from_server PkEndOfStream # [from_server PkPong]) =
      Some (NoAnswer,
        idle_actor\<lparr> ac_wire := ac_wire idle_actor @ statement_bytes idle_actor [] ''SELECT 1'' [] [] @ send_cancel \<rparr>,
        [from_server PkPong])"
  by (rule statement_takes_its_answer)
     (simp_all add: idle_actor_def spawn_with_config_def accepted_def inner_def)

section \<open>Streamed results\<close>

lemma stream_loop_chatter:
  "inner p \<Longrightarrow> \<not> forwarded p \<Longrightarrow> stream_loop a (from_server p # es) = stream_loop a es"
  by (cases p) (simp_all add: inner_def forwarded_def)

lemma stream_loop_forward:
  assumes "\<forall>p\<in>set ps. inner p" "\<nexists>es'. es = CallerGone # es'"
  shows "stream_loop a (map from_server ps @ es) =
    map_option (\<lambda>(frames, r). (map Inr (filter forwarded ps) @ frames, r)) (stream_loop a es)"
  using assms(1)
proof (induction ps)
  case Nil
  then show ?case by (simp add: option.map_ident_strong case_prod_beta)
next
  case (Cons p ps)
  have "\<nexists>es'. map from_server ps @ es = CallerGone # es'" using assms(2) by (cases ps) auto
  then show ?case using Cons stream_forward [of p "map from_server ps @ es" a] stream_loop_chatter [of p a]
    by (cases "forwarded p") (simp_all add: option.map_comp comp_def case_prod_beta)
qed

lemma stream_loop_end:
  "\<not> inner t \<Longrightarrow> stream_loop a (from_server t # es) =
    Some ([case t of PkException e \<Rightarrow> Inl (into_error e) | _ \<Rightarrow> Inr PkEndOfStream], a, es)"
  by (cases t) (simp_all add: inner_def)

lemma blocks_of_forwarded:
  assumes "\<forall>p\<in>set ps. inner p"
  shows "blocks_of (map Inr (filter forwarded ps) @ fs) =
    tri (blocks_of fs) (\<lambda>bs. Inr (List.map_filter block_of ps @ bs))"
  using assms
proof (induction ps)
  case Nil
  show ?case by (cases "blocks_of fs") (simp_all add: map_filter_simps)
next
  case (Cons p ps)
  have "p \<noteq> PkEndOfStream" "\<not> forwarded p \<Longrightarrow> block_of p = None" using Cons.prems
    by (cases p; simp add: inner_def forwarded_def block_of_def)+
  then show ?case using Cons
    by (cases "blocks_of fs") (auto simp: map_filter_simps split: option.splits)
qed

section \<open>From the wire to the cursor\<close>

lemma reader_loop_frames:
  assumes "list_all2 (frame sr) ms bss" "length (concat bss @ rest) < 2 ^ 64"
  shows "\<exists>ps. reader_loop (length ms) sr (concat bss @ rest) = (map Packet ps, False) \<and> map packet_view ps = ms"
  using assms
proof (induction rule: list_all2_induct)
  case (Cons m ms bs bss)
  then have "length (concat bss @ rest) < 2 ^ 64" by simp
  from Cons.IH [OF this] obtain ps where
    ps: "reader_loop (length ms) sr (concat bss @ rest) = (map Packet ps, False)" "map packet_view ps = ms" by metis
  have "length (bs @ concat bss @ rest) < 2 ^ 64" using Cons.prems by simp
  then obtain p where "read_packet sr (bs @ concat bss @ rest) = Inr (p, concat bss @ rest)" "packet_view p = m"
    using pk.dec_frame [OF Cons(1)] by metis
  with ps have "reader_loop (length (m # ms)) sr (concat (bs # bss) @ rest) = (map Packet (p # ps), False)"
    "map packet_view (p # ps) = m # ms" by simp_all
  then show ?case by (intro exI conjI)
qed simp

text \<open>What a message of the server says about the result: a block's schema, cells and row count.\<close>

definition message_block :: "message \<Rightarrow> ((string \<times> string) list \<times> byte list list list \<times> nat) option" where
  "message_block m = (case m of Inr b \<Rightarrow> Some b | Inl (PkData _ _ num_rows columns) \<Rightarrow> Some (columns, [], unat num_rows)
     | Inl _ \<Rightarrow> None)"

definition block_view :: "DecodedBlock \<Rightarrow> (string \<times> string) list \<times> byte list list list \<times> nat" where
  "block_view b = (db_schema b, map to_cells (db_columns b), db_num_rows b)"

lemma block_of_view: "map_option block_view (block_of p) = message_block (packet_view p)"
  by (cases p) (simp_all add: block_of_def block_view_def message_block_def packet_view_def)

lemma blocks_view: "map block_view (List.map_filter block_of ps) = List.map_filter message_block (map packet_view ps)"
proof (induction ps)
  case (Cons p ps)
  then show ?case using block_of_view [of p] by (cases "block_of p") (simp_all add: map_filter_simps eq_commute)
qed (simp add: map_filter_simps)

definition inner_message :: "message \<Rightarrow> bool" where
  "inner_message m \<longleftrightarrow> (case m of Inr _ \<Rightarrow> True | Inl p \<Rightarrow> inner p)"

lemma inner_view: "inner_message (packet_view p) = inner p"
  by (cases p) (simp_all add: inner_message_def packet_view_def inner_def)

lemma end_view: "packet_view p = Inl PkEndOfStream \<longleftrightarrow> p = PkEndOfStream"
  by (cases p) (simp_all add: packet_view_def)

text \<open>
  C7: a streamed SELECT delivers the server's blocks.  The server's answer is any sequence of packets in wire form,
  closed by the end of the stream: the reader sub-task decodes it, the actor forwards it, and the blocks collected
  from the cursor are the schema and data blocks of the answer, in order, with their names, types and cells;
  nothing of it is left for the next command and the connection stays idle and healthy.
\<close>

theorem select_delivers_blocks:
  assumes "ac_state a = Idle" "\<not> ac_poisoned a" "accepted a settings params"
    and "list_all2 (frame (ac_revision a)) (messages @ [Inl PkEndOfStream]) frames" "\<forall>m\<in>set messages. inner_message m"
    and "length (concat frames @ rest) < 2 ^ 64"
  shows "\<exists>received sent_on blocks.
    reader_loop (length frames) (ac_revision a) (concat frames @ rest) = (received, False) \<and>
    handle (ExecuteStream query_id query settings params) a (map (\<lambda>m. Message (Some m)) received @ later) =
      Some (Frames sent_on, a\<lparr> ac_wire := ac_wire a @ statement_bytes a query_id query settings params \<rparr>, later) \<and>
    fetch_blocks sent_on = Inr blocks \<and> map block_view blocks = List.map_filter message_block messages"
proof -
  from reader_loop_frames [OF assms(4,6)] obtain qs where
    r: "reader_loop (length frames) (ac_revision a) (concat frames @ rest) = (map Packet qs, False)"
    and v: "map packet_view qs = messages @ [Inl PkEndOfStream]"
    using list_all2_lengthD [OF assms(4)] by metis
  from v obtain ps where qs: "qs = ps @ [PkEndOfStream]" "map packet_view ps = messages"
    by (cases qs rule: rev_cases) (auto simp: end_view)
  have ps: "\<forall>p\<in>set ps. inner p" using assms(5) qs(2) by (auto simp: inner_view [symmetric])
  have head: "quiet_head (map from_server ps @ from_server PkEndOfStream # later)" by simp
  have events: "map (\<lambda>m. Message (Some m)) (map Packet qs) @ later = map from_server ps @ from_server PkEndOfStream # later"
    by (simp add: qs)
  have "handle (ExecuteStream query_id query settings params) a (map (\<lambda>m. Message (Some m)) (map Packet qs) @ later) =
      Some (Frames (map Inr (filter forwarded ps) @ [Inr PkEndOfStream]),
        a\<lparr> ac_wire := ac_wire a @ statement_bytes a query_id query settings params \<rparr>, later)"
    unfolding events handle_stream [OF assms(1-3) head]
    by (simp add: stream_loop_forward [OF ps])
  moreover have "fetch_blocks (map Inr (filter forwarded ps) @ [Inr PkEndOfStream]) = Inr (List.map_filter block_of ps)"
    by (simp add: fetch_blocks_eq blocks_of_forwarded [OF ps])
  ultimately show ?thesis using r blocks_view [of ps] qs(2) by auto
qed

theorem select_delivers_blocks_witness:
  "\<exists>received sent_on blocks.
    reader_loop (length example_frames) 54473 (concat example_frames @ [9]) = (received, False) \<and>
    handle (ExecuteStream [] ''SELECT 1'' [] []) idle_actor (map (\<lambda>m. Message (Some m)) received @ [CallerGone]) =
      Some (Frames sent_on, idle_actor\<lparr> ac_wire := ac_wire idle_actor @ statement_bytes idle_actor [] ''SELECT 1'' [] [] \<rparr>,
        [CallerGone]) \<and>
    fetch_blocks sent_on = Inr blocks \<and>
    map block_view blocks = [(map (\<lambda>col. (cs_name col, sent_name col)) ab_schema, ab_cols, 2)]"
proof -
  have rev: "ac_revision idle_actor = 54473" by (simp add: idle_actor_def spawn_with_config_def)
  have ok: "ac_state idle_actor = Idle" "\<not> ac_poisoned idle_actor" "accepted idle_actor [] []"
    by (simp_all add: idle_actor_def spawn_with_config_def accepted_def)
  have frames: "list_all2 (frame (ac_revision idle_actor)) (butlast example_messages @ [Inl PkEndOfStream]) example_frames"
    using example_framed unfolding rev by (simp add: example_messages_def)
  have inner: "\<forall>m\<in>set (butlast example_messages). inner_message m"
    by (simp add: example_messages_def inner_message_def inner_def)
  show ?thesis
    using select_delivers_blocks [OF ok frames inner example_short, of "[]" "''SELECT 1''" "[CallerGone]"]
    unfolding rev by (simp add: example_messages_def message_block_def map_filter_simps)
qed

section \<open>INSERT sessions\<close>

text \<open>The packets in front of the schema block that opens an INSERT.\<close>

definition pre_schema :: "ServerPacket \<Rightarrow> bool" where
  "pre_schema p \<longleftrightarrow> (case p of PkData _ _ _ _ \<Rightarrow> False | PkDataBlock _ \<Rightarrow> False | _ \<Rightarrow> inner p)"

lemma begin_loop_skip: "\<forall>p\<in>set ps. pre_schema p \<Longrightarrow> begin_loop a (map from_server ps @ es) = begin_loop a es"
proof (induction ps)
  case (Cons p ps)
  then show ?case by (cases p) (simp_all add: pre_schema_def inner_def)
qed simp

lemma drain_queued_skip:
  "\<forall>p\<in>set ps. inner p \<Longrightarrow> drain_queued a (map from_server ps @ es) = drain_queued a es"
proof (induction ps)
  case (Cons p ps)
  then show ?case by (cases p) (simp_all add: inner_def)
qed simp

lemma handle_begin:
  assumes "ac_state a = Idle" "\<not> ac_poisoned a" "accepted a settings params" "\<forall>p\<in>set ps. pre_schema p"
  shows "handle (BeginInsert query_id query settings params) a
      (map from_server ps @ from_server (PkData tag nc nr columns) # es) =
    Some (Columns (Inr columns),
      a\<lparr> ac_wire := ac_wire a @ statement_bytes a query_id query settings params, ac_state := InsertActive \<rparr>, es)"
proof -
  let ?es = "map from_server ps @ from_server (PkData tag nc nr columns) # es"
  have "do_begin_insert query_id query settings params a ?es =
      begin_loop (a\<lparr> ac_wire := ac_wire a @ statement_bytes a query_id query settings params \<rparr>) ?es"
    unfolding do_begin_insert_def by (rule abind_issued [OF assms(3)]) simp
  then show ?thesis using assms(1,2)
    by (simp add: handle_def abind_def begin_loop_skip [OF assms(4)] set_state_def aret_def)
qed

lemma handle_block:
  assumes "ac_state a = InsertActive" "length body \<le> MAX_INSERT_BLOCK_BYTES" "\<forall>p\<in>set ps. inner p" "quiet_head es"
  shows "handle (SendInsertBlock body nc nr) a (map from_server ps @ NothingQueued # es) =
    Some (Answer (Inr ()), a\<lparr> ac_wire := ac_wire a @ send_data_block (ac_revision a) [] body nc nr \<rparr>, es)"
  using assms
  by (simp add: handle_def continues_insert_def do_send_insert_block_def abind_def drain_queued_skip quiet_write aret_def)

lemma handle_finish:
  assumes "ac_state a = InsertActive" "\<forall>p\<in>set ps. inner p" "\<not> inner t"
  shows "handle FinishInsert a (map from_server ps @ from_server t # es) =
    Some (Answer (verdict t), a\<lparr> ac_wire := ac_wire a @ send_empty_block (ac_revision a), ac_state := Idle \<rparr>, es)"
  using assms
  by (simp add: handle_def continues_insert_def do_finish_insert_def abind_def quiet_write drain_answer aret_def set_state_def)

text \<open>The blocks of a session one after the other; before each the server may have sent packets.\<close>

primrec send_blocks :: "(byte list \<times> u64 \<times> u64) list \<Rightarrow> reply list act" where
  "send_blocks [] = aret []"
| "send_blocks (b # bs) = abind (handle (SendInsertBlock (fst b) (fst (snd b)) (snd (snd b)))) (\<lambda>r.
    abind (send_blocks bs) (\<lambda>rs. aret (r # rs)))"

definition block_packets :: "u64 \<Rightarrow> (byte list \<times> u64 \<times> u64) list \<Rightarrow> byte list" where
  "block_packets sr bs = concat (map (\<lambda>(body, nc, nr). send_data_block sr [] body nc nr) bs)"

definition chatter_between :: "ServerPacket list list \<Rightarrow> event list" where
  "chatter_between pss = concat (map (\<lambda>ps. map from_server ps @ [NothingQueued]) pss)"

lemma quiet_chatter:
  "quiet_head (chatter_between pss @ map from_server ps @ from_server t # es)"
proof (cases pss)
  case (Cons q qs)
  then show ?thesis by (cases q) (simp_all add: chatter_between_def quiet_head_def)
qed (simp add: chatter_between_def)

lemma send_blocks_all:
  assumes "ac_state a = InsertActive" "\<forall>b\<in>set bs. length (fst b) \<le> MAX_INSERT_BLOCK_BYTES"
    and "length pss = length bs" "\<forall>ps\<in>set pss. \<forall>p\<in>set ps. inner p"
  shows "send_blocks bs a (chatter_between pss @ map from_server ps @ from_server t # es) =
    Some (replicate (length bs) (Answer (Inr ())), a\<lparr> ac_wire := ac_wire a @ block_packets (ac_revision a) bs \<rparr>,
      map from_server ps @ from_server t # es)"
  using assms(3,1,2,4)
proof (induction pss bs arbitrary: a rule: list_induct2)
  case (Cons q pss b bs)
  obtain body nc nr where b: "b = (body, nc, nr)" by (cases b)
  let ?tail = "chatter_between pss @ map from_server ps @ from_server t # es"
  have "handle (SendInsertBlock body nc nr) a (map from_server q @ NothingQueued # ?tail) =
      Some (Answer (Inr ()), a\<lparr> ac_wire := ac_wire a @ send_data_block (ac_revision a) [] body nc nr \<rparr>, ?tail)"
    using Cons.prems b by (intro handle_block quiet_chatter) simp_all
  then show ?case using Cons.IH [of "a\<lparr> ac_wire := ac_wire a @ send_data_block (ac_revision a) [] body nc nr \<rparr>"] Cons.prems b
    by (simp add: chatter_between_def block_packets_def abind_def aret_def)
qed (simp add: chatter_between_def block_packets_def aret_def)

definition insert_session :: "string \<Rightarrow> string \<Rightarrow> kvs \<Rightarrow> kvs \<Rightarrow> (byte list \<times> u64 \<times> u64) list \<Rightarrow> (reply \<times> reply list \<times> reply) act" where
  "insert_session query_id query settings params bs =
    abind (handle (BeginInsert query_id query settings params)) (\<lambda>opened.
    abind (send_blocks bs) (\<lambda>sends.
    abind (handle FinishInsert) (\<lambda>finished. aret (opened, sends, finished))))"

text \<open>
  C13: a whole INSERT: opening it returns the columns of the server's schema block, every block is accepted, the end
  of the session returns the server's verdict, and what was sent is the statement, the blocks in order, each framed
  once, and the empty block.  Packets the server sends before the schema block, between blocks or before the verdict
  change nothing; the connection is idle again and the packets behind the verdict are left.
\<close>

theorem insert_session_complete:
  assumes "ac_state a = Idle" "\<not> ac_poisoned a" "accepted a settings params" "\<forall>p\<in>set early. pre_schema p"
    and "\<forall>b\<in>set blocks. length (fst b) \<le> MAX_INSERT_BLOCK_BYTES"
    and "length between = length blocks" "\<forall>ps\<in>set between. \<forall>p\<in>set ps. inner p" "\<forall>p\<in>set late. inner p" "\<not> inner t"
  shows "insert_session query_id query settings params blocks a
      (map from_server early @ from_server (PkData tag nc nr columns) # chatter_between between @
       map from_server late @ from_server t # rest) =
    Some ((Columns (Inr columns), replicate (length blocks) (Answer (Inr ())), Answer (verdict t)),
      a\<lparr> ac_wire := ac_wire a @ statement_bytes a query_id query settings params @ block_packets (ac_revision a) blocks @
           send_empty_block (ac_revision a) \<rparr>, rest)"
proof -
  define b where "b = a\<lparr> ac_wire := ac_wire a @ statement_bytes a query_id query settings params, ac_state := InsertActive \<rparr>"
  have b: "ac_state b = InsertActive" "ac_revision b = ac_revision a" by (simp_all add: b_def)
  note sends = send_blocks_all [OF b(1) assms(5-7), of late t rest]
  have f: "ac_state (b\<lparr> ac_wire := w \<rparr>) = InsertActive" for w by (simp add: b)
  show ?thesis
    unfolding insert_session_def
    by (simp add: abind_def handle_begin [OF assms(1-4)] b_def [symmetric] sends handle_finish [OF f assms(8,9)] aret_def b(2))
       (simp add: b_def assms(1))
qed

theorem insert_session_complete_witness:
  "insert_session [] ''INSERT INTO t FORMAT Native'' [] [] [(ab_bytes, 2, 2)] idle_actor
      (map from_server [PkLog] @ from_server (PkData None 2 0 [(''a'', ''UInt8''), (''b'', ''UInt16'')]) #
       chatter_between [[PkProfileEvents]] @ map from_server [PkLog] @ from_server PkEndOfStream # []) =
    Some ((Columns (Inr [(''a'', ''UInt8''), (''b'', ''UInt16'')]), replicate (length [(ab_bytes, 2 :: u64, 2 :: u64)]) (Answer (Inr ())),
        Answer (verdict PkEndOfStream)),
      idle_actor\<lparr> ac_wire := ac_wire idle_actor @ statement_bytes idle_actor [] ''INSERT INTO t FORMAT Native'' [] [] @
        block_packets (ac_revision idle_actor) [(ab_bytes, 2, 2)] @ send_empty_block (ac_revision idle_actor) \<rparr>, [])"
  by (rule insert_session_complete)
     (simp_all add: idle_actor_def spawn_with_config_def accepted_def inner_def pre_schema_def ab_bytes_def
       MAX_INSERT_BLOCK_BYTES_def)

section \<open>Every command returns\<close>

text \<open>The idle timer fires at some point, and the drain deadline after it.\<close>

fun timely :: "event list \<Rightarrow> bool" where
  "timely [] \<longleftrightarrow> False"
| "timely (e # es) \<longleftrightarrow> (if e = IdleFired then DrainElapsed \<in> set es else timely es)"

definition no_stall :: "event list \<Rightarrow> bool" where
  "no_stall es \<longleftrightarrow> (\<forall>e\<in>set es. \<forall>k. e \<noteq> WriteStalls k)"

lemma no_stall_simps [simp]:
  "no_stall []" "no_stall (e # es) \<longleftrightarrow> (\<forall>k. e \<noteq> WriteStalls k) \<and> no_stall es"
  by (auto simp: no_stall_def)

lemma timely_drain: "timely es \<Longrightarrow> DrainElapsed \<in> set es"
  by (induction es) (auto split: if_splits)

lemma drain_returns: "DrainElapsed \<in> set es \<Longrightarrow> drain_to_end_of_stream a es \<noteq> None"
  by (induction a es rule: drain_to_end_of_stream.induct)
     (auto simp: poisoned_with_def abind_def poison_def aret_def
       split: event.splits option.splits ReaderMessage.splits ServerPacket.splits)

lemma write_returns:
  assumes "no_stall es"
  shows "\<exists>r a' es'. bounded_io limited bytes a es = Some (r, a', es') \<and> ac_read_timeout a' = ac_read_timeout a \<and>
    ac_revision a' = ac_revision a \<and> no_stall es' \<and> (timely es \<longrightarrow> timely es') \<and> (DrainElapsed \<in> set es \<longrightarrow> DrainElapsed \<in> set es')"
proof (cases es)
  case (Cons e fs)
  then show ?thesis using assms by (cases e) (auto simp: bounded_io_def)
qed (simp add: bounded_io_def)

lemma cancel_returns:
  assumes "no_stall es" "DrainElapsed \<in> set es"
  shows "cancel_and_drain a es \<noteq> None"
proof -
  obtain r a' es' where w: "write_packet send_cancel a es = Some (r, a', es')" "DrainElapsed \<in> set es'"
    using write_returns [OF assms(1)] assms(2) by metis
  obtain x b fs where "drain_to_end_of_stream a' es' = Some (x, b, fs)" using drain_returns [OF w(2)] by (metis option.exhaust prod.exhaust)
  then show ?thesis using w by (cases r) (simp_all add: cancel_and_drain_def abind_def poison_def aret_def)
qed

lemma abind_None: "abind m f a es = None \<longleftrightarrow> (m a es = None \<or> (\<exists>x a' es'. m a es = Some (x, a', es') \<and> f x a' es' = None))"
  by (auto simp: abind_def split: option.splits)

lemma act_runs:
  "poisoned_with e a es = Some (Inl e, a\<lparr> ac_poisoned := True \<rparr>, es)"
  "abind poison f a es = f () (a\<lparr> ac_poisoned := True \<rparr>) es"
  "abind (poisoned_with e) g a es = g (Inl e) (a\<lparr> ac_poisoned := True \<rparr>) es"
  by (simp_all add: poisoned_with_def abind_def poison_def aret_def)

lemma abind_aret_None: "abind m (\<lambda>x. aret (h x)) a es = None \<longleftrightarrow> m a es = None"
  by (auto simp: abind_def aret_def split: option.splits)

lemmas act_None = act_runs abind_aret_None aret_def

lemma ping_returns: "timely es \<Longrightarrow> ac_read_timeout a \<noteq> None \<Longrightarrow> ping_loop a es \<noteq> None"
proof (induction a es rule: ping_loop.induct)
  case (2 a ev es)
  then show ?case using idle_cases [of a]
    by (auto simp: act_None split: event.splits option.splits ReaderMessage.splits ServerPacket.splits)
qed simp

lemma begin_returns: "timely es \<Longrightarrow> ac_read_timeout a \<noteq> None \<Longrightarrow> begin_loop a es \<noteq> None"
proof (induction a es rule: begin_loop.induct)
  case (2 a ev es)
  then show ?case using idle_cases [of a]
    by (auto simp: act_None split: event.splits option.splits ReaderMessage.splits ServerPacket.splits)
qed simp

lemma query_returns: "timely es \<Longrightarrow> no_stall es \<Longrightarrow> ac_read_timeout a \<noteq> None \<Longrightarrow> query_loop a es \<noteq> None"
proof (induction a es rule: query_loop.induct)
  case (2 a ev es)
  then show ?case using idle_cases [of a] cancel_returns [of es a] timely_drain [of es]
    by (auto simp del: not_None_eq simp: act_None split: event.splits option.splits ReaderMessage.splits ServerPacket.splits)
qed simp

lemma stream_returns: "timely es \<Longrightarrow> no_stall es \<Longrightarrow> ac_read_timeout a \<noteq> None \<Longrightarrow> stream_loop a es \<noteq> None"
proof (induction es rule: length_induct)
  case (1 es)
  show ?case
  proof (cases es)
    case (Cons ev fs)
    have IH: "timely fs \<Longrightarrow> stream_loop a fs \<noteq> None" using 1 Cons by auto
    show ?thesis
    proof (cases "\<exists>p. ev = from_server p \<and> forwarded p")
      case True
      then obtain p where p: "ev = from_server p" "forwarded p" by blast
      show ?thesis
      proof (cases "\<exists>gs. fs = CallerGone # gs")
        case True
        then obtain gs where "fs = CallerGone # gs" by blast
        then show ?thesis using Cons p 1(2,3) stream_forward_gone [OF p(2)] cancel_returns [of gs a] timely_drain [of gs]
          by (auto simp: act_None)
      next
        case False
        then show ?thesis using Cons p 1(2) IH stream_forward [OF p(2) False, of a] by simp
      qed
    next
      case False
      show ?thesis
      proof (cases "\<exists>m. ev = Message m")
        case True
        then obtain m where m: "ev = Message m" by blast
        have tf: "timely fs" using 1(2) Cons m by simp
        show ?thesis
        proof (cases m)
          case (Some r)
          then show ?thesis using m Cons False IH [OF tf]
            by (cases r) (auto simp: act_runs aret_def forwarded_def split: ServerPacket.splits)
        qed (use m Cons in \<open>simp add: act_runs aret_def\<close>)
      next
        case False
        then show ?thesis using Cons 1(2-4) IH idle_cases [of a] cancel_returns [of fs a] timely_drain [of fs]
          by (cases ev) (auto simp: abind_aret_None)
      qed
    qed
  qed (use 1(2) in simp)
qed

lemma issue_returns:
  assumes "no_stall es" "timely es"
  shows "\<exists>r a' es'. issue_query query_id query settings params a es = Some (r, a', es') \<and>
    ac_read_timeout a' = ac_read_timeout a \<and> no_stall es' \<and> timely es'"
proof -
  obtain bytes refusal where q: "send_query (ac_revision a) query_id query settings params (client_info_for a query_id) = (bytes, refusal)"
    by fastforce
  obtain r b fs where w: "write_packet bytes a es = Some (r, b, fs)" "ac_read_timeout b = ac_read_timeout a" "no_stall fs" "timely fs"
    using write_returns [OF assms(1)] assms(2) by metis
  obtain x c gs where "write_packet (send_empty_block (ac_revision a)) b fs = Some (x, c, gs)"
    "ac_read_timeout c = ac_read_timeout a" "no_stall gs" "timely gs"
    using write_returns [OF w(3)] w(2,4) by metis
  then show ?thesis using w by (cases r; cases refusal) (simp_all add: issue_query_def q abind_def aret_def)
qed

lemma abind_returns:
  assumes "\<exists>x a' es'. m a es = Some (x, a', es') \<and> f x a' es' \<noteq> None"
  shows "abind m f a es \<noteq> None"
  using assms by (auto simp: abind_def)

lemma issued_returns:
  assumes "no_stall es" "timely es" "ac_read_timeout a \<noteq> None"
    and "\<And>b fs. no_stall fs \<Longrightarrow> timely fs \<Longrightarrow> ac_read_timeout b \<noteq> None \<Longrightarrow> g b fs \<noteq> None"
    and "\<And>e b fs. f e b fs \<noteq> None"
  shows "abind (issue_query query_id query settings params) (\<lambda>r. case r of Inl e \<Rightarrow> f e | Inr _ \<Rightarrow> g) a es \<noteq> None"
proof (rule abind_returns)
  obtain r b fs where i: "issue_query query_id query settings params a es = Some (r, b, fs)"
    "ac_read_timeout b = ac_read_timeout a" "no_stall fs" "timely fs" using issue_returns [OF assms(1,2)] by metis
  then have "(case r of Inl e \<Rightarrow> f e | Inr _ \<Rightarrow> g) b fs \<noteq> None" using assms(3-5) by (cases r) simp_all
  with i(1) show "\<exists>x a' es'. issue_query query_id query settings params a es = Some (x, a', es') \<and>
      (case x of Inl e \<Rightarrow> f e | Inr _ \<Rightarrow> g) a' es' \<noteq> None" by blast
qed

lemma do_ping_returns:
  assumes "no_stall es" "timely es" "ac_read_timeout a \<noteq> None"
  shows "do_ping a es \<noteq> None"
  unfolding do_ping_def
proof (rule abind_returns)
  obtain r b fs where w: "write_packet send_ping a es = Some (r, b, fs)" "ac_read_timeout b = ac_read_timeout a" "timely fs"
    using write_returns [OF assms(1)] assms(2) by metis
  then have "(case r of Inl e \<Rightarrow> poisoned_with e | Inr _ \<Rightarrow> ping_loop) b fs \<noteq> None"
    using ping_returns [of fs b] assms(3) by (cases r) (simp_all add: act_runs)
  with w(1) show "\<exists>x a' es'. write_packet send_ping a es = Some (x, a', es') \<and>
      (case x of Inl e \<Rightarrow> poisoned_with e | Inr _ \<Rightarrow> ping_loop) a' es' \<noteq> None" by blast
qed

text \<open>The writes of an open INSERT are under the deadline, stalled or not.\<close>

lemma limited_returns:
  assumes "ac_read_timeout a \<noteq> None"
  shows "\<exists>r a' es'. bounded_io True bytes a es = Some (r, a', es') \<and> (DrainElapsed \<in> set es \<longrightarrow> DrainElapsed \<in> set es')"
proof (cases es)
  case (Cons e fs)
  then show ?thesis using assms by (cases e) (auto simp: bounded_io_def)
qed (simp add: bounded_io_def)

lemma do_finish_returns:
  assumes "ac_read_timeout a \<noteq> None" "DrainElapsed \<in> set es"
  shows "do_finish_insert a es \<noteq> None"
  unfolding do_finish_insert_def
proof (rule abind_returns)
  obtain r b fs where w: "bounded_io True (send_empty_block (ac_revision a)) a es = Some (r, b, fs)" "DrainElapsed \<in> set fs"
    using limited_returns [OF assms(1)] assms(2) by metis
  then have "(case r of Inl e \<Rightarrow> poisoned_with e | Inr _ \<Rightarrow> drain_to_end_of_stream) b fs \<noteq> None"
    using drain_returns [of fs b] by (cases r) (simp_all add: act_runs)
  with w(1) show "\<exists>x a' es'. bounded_io True (send_empty_block (ac_revision a)) a es = Some (x, a', es') \<and>
      (case x of Inl e \<Rightarrow> poisoned_with e | Inr _ \<Rightarrow> drain_to_end_of_stream) a' es' \<noteq> None" by blast
qed

lemma drain_queued_runs: "\<exists>r a' es'. drain_queued a es = Some (r, a', es') \<and> ac_read_timeout a' = ac_read_timeout a"
proof (induction a es rule: drain_queued.induct)
  case (1 a m es)
  then show ?case by (auto split: option.splits ReaderMessage.splits ServerPacket.splits)
qed auto

lemma do_send_returns:
  assumes "ac_read_timeout a \<noteq> None"
  shows "do_send_insert_block body nc nr a es \<noteq> None"
proof -
  obtain r b fs where d: "drain_queued a es = Some (r, b, fs)" "ac_read_timeout b \<noteq> None"
    using drain_queued_runs [of a es] assms by auto
  obtain x c gs where "bounded_io True (send_data_block (ac_revision a) [] body nc nr) b fs = Some (x, c, gs)"
    using limited_returns [OF d(2)] by metis
  then show ?thesis using d
    by (cases r; cases x) (simp_all add: do_send_insert_block_def abind_def aret_def poison_def set_state_def)
qed

lemma abind_total: "m a es \<noteq> None \<Longrightarrow> (\<And>x b fs. f x b fs \<noteq> None) \<Longrightarrow> abind m f a es \<noteq> None"
  by (auto simp: abind_def split: option.splits)

lemma statement_returns:
  assumes "no_stall es" "timely es" "ac_read_timeout a \<noteq> None"
  shows "do_execute_query query_id query settings params a es \<noteq> None"
    and "do_execute_stream query_id query settings params a es \<noteq> None"
    and "do_begin_insert query_id query settings params a es \<noteq> None"
  unfolding do_execute_query_def do_execute_stream_def do_begin_insert_def
  by (rule issued_returns [OF assms]; simp add: query_returns stream_returns begin_returns act_runs aret_def del: not_None_eq)+

lemma statement_handled:
  assumes "no_stall es" "timely es" "ac_read_timeout a \<noteq> None" "\<not> continues_insert cmd"
  shows "handle cmd a es \<noteq> None"
proof -
  have opened: "abind (do_begin_insert query_id query settings params) (\<lambda>r.
      case r of Inl _ \<Rightarrow> aret (Columns r) | Inr _ \<Rightarrow> abind (set_state InsertActive) (\<lambda>_. aret (Columns r))) a es \<noteq> None"
    for query_id query settings params
    by (rule abind_total, rule statement_returns(3) [OF assms(1-3)])
       (simp add: abind_def set_state_def aret_def split: sum.split)
  show ?thesis
    using do_ping_returns [OF assms(1-3)] statement_returns(1,2) [OF assms(1-3)] opened assms(4)
    by (cases cmd; cases "ac_state a") (simp_all add: handle_def continues_insert_def abind_aret_None aret_def del: not_None_eq)
qed

lemma insert_handled:
  assumes "timely es" "ac_read_timeout a \<noteq> None" "continues_insert cmd"
  shows "handle cmd a es \<noteq> None"
proof -
  have finished: "abind do_finish_insert (\<lambda>r. abind (set_state Idle) (\<lambda>_. aret (Answer r))) a es \<noteq> None"
    by (rule abind_total, rule do_finish_returns [OF assms(2) timely_drain [OF assms(1)]])
       (simp add: abind_def set_state_def aret_def)
  show ?thesis using do_send_returns [OF assms(2)] finished assms(3)
    by (cases cmd; cases "ac_state a") (simp_all add: handle_def continues_insert_def abind_aret_None aret_def del: not_None_eq)
qed

text \<open>A block or an end of an INSERT that the socket stops taking: the deadline ends it.\<close>

lemma stalled_insert:
  assumes "ac_read_timeout a \<noteq> None" "ac_state a = InsertActive"
  shows "length body \<le> MAX_INSERT_BLOCK_BYTES \<Longrightarrow>
      handle (SendInsertBlock body nc nr) a (NothingQueued # WriteStalls k # es) = Some (Answer (Inl TimedOut),
        a\<lparr> ac_wire := ac_wire a @ take k (send_data_block (ac_revision a) [] body nc nr), ac_poisoned := True, ac_state := Idle \<rparr>, es)"
    and "handle FinishInsert a (WriteStalls k # es) = Some (Answer (Inl TimedOut),
      a\<lparr> ac_wire := ac_wire a @ take k (send_empty_block (ac_revision a)), ac_poisoned := True, ac_state := Idle \<rparr>, es)"
  using assms
  by (auto simp: handle_def continues_insert_def do_send_insert_block_def do_finish_insert_def bounded_io_def abind_def aret_def
      poison_def set_state_def poisoned_with_def)

text \<open>
  C14: with a read timeout commands return.  Take any schedule of events in which, at some point, the server is silent for
  the read timeout, so that the idle timer fires, and the drain deadline passes after that.  A block or the end of an
  open INSERT comes to an answer in every such schedule, also when the socket stops taking what is written; any other
  command does whenever its writes are taken or fail, for the code puts no deadline on the writes of a ping, a
  statement or a cancel.  A server that stays silent after a statement has its connection poisoned and its caller told of
  the timeout; and so does one that stops reading in the middle of a block or of the end of an INSERT.
\<close>

theorem command_returns:
  assumes "ac_read_timeout a \<noteq> None" "timely es" "continues_insert cmd \<or> no_stall es"
  shows "(\<exists>reply a' es'. handle cmd a es = Some (reply, a', es')) \<and>
    (ac_state a = Idle \<and> \<not> ac_poisoned a \<and> accepted a settings params \<longrightarrow>
      handle (ExecuteQuery query_id query settings params) a (IdleFired # es) =
        Some (Answer (Inl TimedOut), a\<lparr> ac_wire := ac_wire a @ statement_bytes a query_id query settings params,
          ac_poisoned := True \<rparr>, es)) \<and>
    (ac_state a = InsertActive \<and> length body \<le> MAX_INSERT_BLOCK_BYTES \<longrightarrow>
      handle (SendInsertBlock body nc nr) a (NothingQueued # WriteStalls k # es) = Some (Answer (Inl TimedOut),
        a\<lparr> ac_wire := ac_wire a @ take k (send_data_block (ac_revision a) [] body nc nr), ac_poisoned := True, ac_state := Idle \<rparr>, es) \<and>
      handle FinishInsert a (WriteStalls k # es) = Some (Answer (Inl TimedOut),
        a\<lparr> ac_wire := ac_wire a @ take k (send_empty_block (ac_revision a)), ac_poisoned := True, ac_state := Idle \<rparr>, es))"
proof -
  have "quiet_head (IdleFired # es)" by (simp add: quiet_head_def)
  moreover have "handle cmd a es \<noteq> None"
    using statement_handled [OF _ assms(2,1)] insert_handled [OF assms(2,1)] assms(3) by blast
  ultimately show ?thesis using assms(1) stalled_insert [OF assms(1)] by (auto simp: handle_query idle_timed_out_def)
qed

definition open_actor :: actor where
  "open_actor = (spawn_with_config example_build 54473 (Some 30) [])\<lparr> ac_state := InsertActive \<rparr>"

theorem command_returns_witness:
  "handle FinishInsert open_actor (WriteStalls 1 # [IdleFired, DrainElapsed]) = Some (Answer (Inl TimedOut),
      open_actor\<lparr> ac_wire := ac_wire open_actor @ take 1 (send_empty_block 54473), ac_poisoned := True, ac_state := Idle \<rparr>,
      [IdleFired, DrainElapsed]) \<and>
   (\<exists>reply a' es'. handle (SendInsertBlock [] 0 0) open_actor [WriteStalls 3, IdleFired, DrainElapsed] = Some (reply, a', es'))"
  using command_returns [of open_actor "[IdleFired, DrainElapsed]" Ping "[]" "[]" "[]" "[]" "[]" 0 0 1]
    command_returns [of open_actor "[WriteStalls 3, IdleFired, DrainElapsed]" "SendInsertBlock [] 0 0" "[]" "[]" "[]" "[]" "[]" 0 0 1]
  by (simp add: open_actor_def spawn_with_config_def continues_insert_def)

end
