(* ===== verification/DynBlock.thy ===== *)
theory DynBlock
  imports DynEncode BlockRoundtrip
begin

text \<open>
  The dynamic encoder against the block encoder: the RowBinary bytes written for a JSON value are a
  cell of the declared column type, so the rows of a dynamic insert are cut and transposed exactly.
  The two sides read the type name with different parsers; \<open>fits\<close> relates their results.
\<close>

section \<open>Types the two parsers agree on\<close>

text \<open>The tags a scalar type may have on the dynamic side.\<close>

definition tags_of :: "ColumnType \<Rightarrow> TypeTag list" where
  "tags_of t = (case t of
     UInt8 \<Rightarrow> [TUInt8, TBool] | UInt16 \<Rightarrow> [TUInt16] | UInt32 \<Rightarrow> [TUInt32] | UInt64 \<Rightarrow> [TUInt64]
   | UInt128 \<Rightarrow> [TUInt128] | UInt256 \<Rightarrow> [TUInt256]
   | Int8 \<Rightarrow> [TInt8] | Int16 \<Rightarrow> [TInt16] | Int32 \<Rightarrow> [TInt32] | Int64 \<Rightarrow> [TInt64]
   | Int128 \<Rightarrow> [TInt128] | Int256 \<Rightarrow> [TInt256]
   | Float32 \<Rightarrow> [TFloat32] | Float64 \<Rightarrow> [TFloat64]
   | Decimal32 p s \<Rightarrow> [TDecimal32] | Decimal64 p s \<Rightarrow> [TDecimal64]
   | Decimal128 p s \<Rightarrow> [TDecimal128] | Decimal256 p s \<Rightarrow> [TDecimal256]
   | String \<Rightarrow> [TString] | FixedString n \<Rightarrow> [TFixedString] | Uuid \<Rightarrow> [TUUID]
   | IPv4 \<Rightarrow> [TIPv4] | IPv6 \<Rightarrow> [TIPv6]
   | Date \<Rightarrow> [TDate] | Date32 \<Rightarrow> [TDate32] | DateTime \<Rightarrow> [TDateTime] | DateTime64 p z \<Rightarrow> [TDateTime64]
   | Enum8 \<Rightarrow> [TEnum8] | Enum16 \<Rightarrow> [TEnum16] | Json \<Rightarrow> [TJSON]
   | _ \<Rightarrow> [])"

definition scalar_fit :: "ParsedType \<Rightarrow> ColumnType \<Rightarrow> bool" where
  "scalar_fit pt t \<longleftrightarrow> resolved_tag pt \<in> set (tags_of t) \<and>
    (pt_base pt \<noteq> ''Decimal'' \<longrightarrow> fixed_byte_size pt = fixed_size t) \<and>
    (case t of FixedString n \<Rightarrow> pt_fixed_size pt = Some n | _ \<Rightarrow> True)"

fun fits :: "ParsedType \<Rightarrow> ColumnType \<Rightarrow> bool" where
  "fits pt (Nullable t) = (pt_nullable pt \<and> scalar_fit pt t)"
| "fits pt (LowCardinality t) = (pt_nullable pt = lc_nullable t \<and> scalar_fit pt (lc_dict_type t))"
| "fits pt (Array t) =
    (\<not> pt_nullable pt \<and> pt_tag pt = TArray \<and> pt_base pt = ''Array'' \<and>
      (case pt_array_element pt of None \<Rightarrow> False | Some e \<Rightarrow> fits e t))"
| "fits pt (Map k t) =
    (\<not> pt_nullable pt \<and> pt_tag pt = TMap \<and> pt_base pt = ''Map'' \<and> k = String \<and>
      (case pt_map_types pt of None \<Rightarrow> False
       | Some (kt, vt) \<Rightarrow> pt_tag kt = TString \<and> \<not> pt_nullable kt \<and> fits vt t))"
| "fits pt t = (\<not> pt_nullable pt \<and> scalar_fit pt t)"

section \<open>Encoded values are cells\<close>

lemma tags_scalar: "tag \<in> set (tags_of t) \<Longrightarrow> scalar t"
  by (cases t) (auto simp: tags_of_def scalar_def fixed_size_def)

lemma signed_bytes_length [simp]: "length (signed_bytes w i) = w"
  by (simp add: signed_bytes_def)

lemma wide_length [simp]: "length (i128_to_i256_le i) = 32" "length (u128_to_u256_le n) = 32"
  by (simp_all add: i128_to_i256_le_def u128_to_u256_le_def)

lemma arm_length:
  "unsigned_arm w ty v col = Inr bs \<Longrightarrow> length bs = w"
  "signed_arm w ty v col = Inr bs \<Longrightarrow> length bs = w"
  "fit_signed w col msg i = Inr bs \<Longrightarrow> length bs = w"
  "fit_unsigned w col msg i = Inr bs \<Longrightarrow> length bs = w"
  by (auto simp: unsigned_arm_def signed_arm_def fit_signed_def fit_unsigned_def tri_eq_Inr split: if_splits)

lemma decimal_arm_length:
  "decimal_arm env (fit_signed w col msg) pt v col = Inr bs \<Longrightarrow> length bs = w"
  "decimal_arm env (\<lambda>i. Inr (signed_bytes 16 i)) pt v col = Inr bs \<Longrightarrow> length bs = 16"
  "decimal_arm env (\<lambda>i. Inr (i128_to_i256_le i)) pt v col = Inr bs \<Longrightarrow> length bs = 32"
  by (auto simp: decimal_arm_def tri_eq_Inr dest: arm_length)

lemma encode_uuid_length: "encode_uuid env v col = Inr bs \<Longrightarrow> length bs = 16"
  by (auto simp: encode_uuid_def Let_def tri_eq_Inr split: if_splits)

lemma encode_ipv4_length: "encode_ipv4 env v col = Inr bs \<Longrightarrow> length bs = 4"
  by (auto simp: encode_ipv4_def tri_eq_Inr split: option.splits)

lemma read_groups_length: "length (fst (read_groups limit i s)) \<le> limit - i"
proof (induction limit i s rule: read_groups.induct)
  case (1 limit i s)
  then show ?case
    by (subst read_groups.simps)
       (fastforce split: option.splits list.splits prod.splits if_splits simp: bind_eq_Some_conv)
qed

lemma parse_ipv6_length:
  assumes "parse_ipv6 s = Some groups"
  shows "length groups = 8"
proof -
  obtain hs v4 r where h: "read_groups 8 0 s = (hs, v4, r)" using prod_cases3 by blast
  then have le: "length hs \<le> 8" using read_groups_length [of 8 0 s] by simp
  have addr: "read_ipv6_addr s = Some (groups, [])"
    using assms by (auto simp: parse_ipv6_def split: option.splits list.splits)
  show ?thesis
  proof (cases "length hs = 8")
    case False
    then obtain r2 where r2: "(case read_groups (8 - (length hs + 1)) 0 r2 of (ts, _, r3) \<Rightarrow>
        Some (hs @ replicate (8 - length ts - length hs) 0 @ ts, r3)) = Some (groups, [])"
      using addr h by (auto simp: read_ipv6_addr_def bind_eq_Some_conv split: if_splits)
    obtain ts v4' r3 where t: "read_groups (8 - (length hs + 1)) 0 r2 = (ts, v4', r3)" using prod_cases3 by blast
    with r2 False le read_groups_length [of "8 - (length hs + 1)" 0 r2] show ?thesis by auto
  qed (use addr h in \<open>simp add: read_ipv6_addr_def\<close>)
qed

lemma encode_ipv6_length: "encode_ipv6 env v col = Inr bs \<Longrightarrow> length bs = 16"
proof -
  assume "encode_ipv6 env v col = Inr bs"
  then obtain groups where g: "parse_ipv6 (value_to_str env v) = Some groups"
    and bs: "bs = concat (map (\<lambda>g. [of_nat (g div 256), of_nat (g mod 256)]) groups)"
    by (auto simp: encode_ipv6_def tri_eq_Inr ok_or_def split: option.splits)
  have "length bs = 2 * length groups" unfolding bs by (induction groups) auto
  then show ?thesis using parse_ipv6_length [OF g] by simp
qed

lemmas fixed_arm = arm_length encode_uuid_length encode_ipv4_length encode_ipv6_length

lemma put_string_cap: "length (put_string p) \<le> n \<Longrightarrow> length p \<le> n"
  by (simp add: put_string_def)

lemma string_cell: "length p \<le> MAX_STRING_SIZE \<Longrightarrow> scalar_cell String (put_string p)"
  by (auto simp: scalar_cell_def fixed_size_def)

lemma encode_scalar_cell:
  assumes "encode_scalar env tag v pt col = Inr bs" "tag \<in> set (tags_of t)"
    and "case t of FixedString n \<Rightarrow> pt_fixed_size pt = Some n | _ \<Rightarrow> True" "length bs \<le> MAX_STRING_SIZE"
  shows "scalar_cell t bs"
proof (cases "t \<in> {String, Json}")
  case True
  then obtain p where "bs = put_string p"
    using assms(1,2) by (auto simp: tags_of_def encode_scalar_def tri_eq_Inr)
  with True show ?thesis using assms(4) put_string_cap [of p MAX_STRING_SIZE]
    by (auto simp: scalar_cell_def fixed_size_def)
next
  case False
  have "fixed_size t = Some (length bs)"
    using assms(1-3) False
    by (cases t)
       (auto simp: tags_of_def fixed_size_def encode_scalar_def tri_eq_Inr as_i256_le_def as_u256_le_def Let_def
         split: if_splits prod.splits dest!: fixed_arm decimal_arm_length)
  then show ?thesis by (simp add: scalar_cell_def)
qed

lemma null_default_cell:
  assumes "scalar_fit pt t" "write_default pt col = Inr bs"
  shows "scalar_cell t bs"
proof (cases "pt_base pt = ''Decimal''")
  case True
  then have "resolved_tag pt \<in> {TDecimal32, TDecimal64, TDecimal128, TDecimal256}"
    by (auto simp: resolved_tag_def decimal_tag_for_precision_def split: option.splits)
  with True show ?thesis using assms
    by (cases t) (auto simp: scalar_fit_def write_default_def Let_def scalar_cell_def fixed_size_def tags_of_def)
next
  case False
  then have tag: "pt_tag pt \<in> set (tags_of t)" "fixed_byte_size pt = fixed_size t"
    using assms(1) by (auto simp: scalar_fit_def resolved_tag_def)
  have strings: "\<exists>p. length p \<le> MAX_STRING_SIZE \<and> put_var_uint 0 = put_string p"
    "\<exists>p. length p \<le> MAX_STRING_SIZE \<and> put_string (as_bytes ''{}'') = put_string p"
    by (rule exI [of _ "[]"], simp add: put_string_def)
       (rule exI [of _ "as_bytes ''{}''"], simp add: as_bytes_def MAX_STRING_SIZE_def)
  have "t = Json \<longleftrightarrow> pt_tag pt = TJSON" "fixed_size t = None \<longleftrightarrow> t \<in> {String, Json}"
    using tag(1) by (cases t; auto simp: tags_of_def fixed_size_def)+
  with False assms(2) tag strings show ?thesis
    by (auto simp: write_default_def scalar_cell_def fixed_size_def split: if_splits option.splits)
qed

lemma encode_value_scalar:
  assumes "scalar_fit pt t" "\<not> pt_nullable pt" "encode_value env col v pt = Inr bs"
    and "length bs \<le> MAX_STRING_SIZE"
  shows "scalar_cell t bs"
proof (cases "v = Null")
  case True
  with assms show ?thesis by (simp add: encode_value.simps [of env col Null pt] null_default_cell)
next
  case False
  have fit: "resolved_tag pt \<in> set (tags_of t)" "case t of FixedString n \<Rightarrow> pt_fixed_size pt = Some n | _ \<Rightarrow> True"
    using assms(1) by (simp_all add: scalar_fit_def)
  have "encode_scalar env (resolved_tag pt) v pt col = Inr bs"
    using False assms(2,3) fit(1)
    by (cases "resolved_tag pt"; cases t)
      (simp_all add: encode_value.simps [of env col v pt] encode_typed_def tags_of_def)
  from encode_scalar_cell [OF this fit assms(4)] show ?thesis .
qed

section \<open>Columns of encoded values\<close>

text \<open>The bytes a value is written as, and that it is written, within the string cap of the wire.\<close>

definition written :: "platform \<Rightarrow> string \<Rightarrow> ParsedType \<Rightarrow> Value \<Rightarrow> byte list" where
  "written env col pt v = projr (encode_value env col v pt)"

definition writable :: "platform \<Rightarrow> string \<Rightarrow> ParsedType \<Rightarrow> Value \<Rightarrow> bool" where
  "writable env col pt v \<longleftrightarrow> encode_value env col v pt = Inr (written env col pt v) \<and>
    length (written env col pt v) \<le> MAX_STRING_SIZE"

definition elements :: "Value \<Rightarrow> Value list" where
  "elements v = (case v of Arr items \<Rightarrow> items | _ \<Rightarrow> [])"

definition entries :: "Value \<Rightarrow> (string \<times> Value) list" where
  "entries v = (case v of Object es \<Rightarrow> es | _ \<Rightarrow> [])"

lemma writable_short: "writable env col pt v \<Longrightarrow> length (written env col pt v) < 2 ^ 64"
  by (simp add: writable_def MAX_STRING_SIZE_def)

lemma each_result_InrD:
  "each_result f xs = Inr ys \<Longrightarrow> ys = map (\<lambda>x. projr (f x)) xs \<and> (\<forall>x\<in>set xs. f x = Inr (projr (f x)))"
  by (induction xs arbitrary: ys) (auto simp: tri_eq_Inr)

lemma length_concat_ge: "w \<in> set ws \<Longrightarrow> length w \<le> length (concat ws)"
  by (induction ws) auto

lemma writable_array:
  assumes "writable env col pt v" "fits pt (Array t)" "pt_array_element pt = Some e"
  shows "written env col pt v = array_cell (map (written env col e) (elements v)) \<and>
    (\<forall>x\<in>set (elements v). writable env col e x)"
proof -
  have v: "encode_value env col v pt = Inr (written env col pt v)"
    "length (written env col pt v) \<le> MAX_STRING_SIZE"
    using assms(1) by (simp_all add: writable_def)
  have pt: "\<not> pt_nullable pt" "pt_tag pt = TArray" "pt_base pt = ''Array''" using assms(2) by simp_all
  then have tag: "resolved_tag pt = TArray" by (simp add: resolved_tag_def)
  show ?thesis
  proof (cases "v = Null")
    case True
    then show ?thesis using v(1) pt
      by (simp add: encode_value.simps [of env col Null pt] write_default_def fixed_byte_size_def
          elements_def array_cell_def)
  next
    case False
    then have enc: "encode_array (encode_value env col) v e col = Inr (written env col pt v)"
      using v(1) pt tag assms(3) by (simp add: encode_value.simps [of env col v pt] encode_typed_def)
    then obtain items cells where c: "v = Arr items" "each_result (\<lambda>x. encode_value env col x e) items = Inr cells"
      "written env col pt v = put_var_uint (of_nat (length items)) @ concat cells"
      by (cases v) (auto simp: encode_array_def tri_eq_Inr)
    from each_result_InrD [OF c(2)] have cells: "cells = map (written env col e) items"
      "\<forall>x\<in>set items. encode_value env col x e = Inr (written env col e x)"
      by (auto simp: written_def)
    have "length (written env col e x) \<le> MAX_STRING_SIZE" if "x \<in> set items" for x
      using length_concat_ge [of "written env col e x" cells] that v(2) c(3) cells(1) by simp
    with c cells show ?thesis by (simp add: writable_def elements_def array_cell_def)
  qed
qed

lemma writable_map:
  assumes "writable env col pt v" "fits pt (Map k t)" "pt_map_types pt = Some (kt, vt)"
  shows "written env col pt v = array_cell (map (\<lambda>(a, b). a @ b)
      (map (\<lambda>(n, x). (put_string (as_bytes n), written env col vt x)) (entries v))) \<and>
    (\<forall>(n, x)\<in>set (entries v). writable env col vt x \<and> length (as_bytes n) \<le> MAX_STRING_SIZE)"
proof -
  have v: "encode_value env col v pt = Inr (written env col pt v)"
    "length (written env col pt v) \<le> MAX_STRING_SIZE"
    using assms(1) by (simp_all add: writable_def)
  have pt: "\<not> pt_nullable pt" "pt_tag pt = TMap" "pt_base pt = ''Map''" using assms(2) by simp_all
  then have tag: "resolved_tag pt = TMap" by (simp add: resolved_tag_def)
  let ?cell = "\<lambda>(n, x). put_string (as_bytes n) @ written env col vt x"
  show ?thesis
  proof (cases "v = Null")
    case True
    then show ?thesis using v(1) pt
      by (simp add: encode_value.simps [of env col Null pt] write_default_def fixed_byte_size_def
          entries_def array_cell_def)
  next
    case False
    then have enc: "encode_map (encode_value env col) v kt vt col = Inr (written env col pt v)"
      using v(1) pt tag assms(3) by (simp add: encode_value.simps [of env col v pt] encode_typed_def)
    then obtain es cells where c: "v = Object es"
      "each_result (\<lambda>(n, x). tri (encode_value env col x vt) (\<lambda>b. Inr (put_string (as_bytes n) @ b))) es = Inr cells"
      "written env col pt v = put_var_uint (of_nat (length es)) @ concat cells"
      by (cases v) (auto simp: encode_map_def tri_eq_Inr split: if_splits)
    from each_result_InrD [OF c(2)] have ok: "\<forall>(n, x)\<in>set es. encode_value env col x vt = Inr (written env col vt x)"
      by (fastforce simp: tri_eq_Inr written_def)
    with each_result_InrD [OF c(2)] have cells: "cells = map ?cell es" by fastforce
    have "length (?cell (n, x)) \<le> MAX_STRING_SIZE" if "(n, x) \<in> set es" for n x
      using length_concat_ge [of "?cell (n, x)" cells] that v(2) c(3) cells by force
    then have "length (written env col vt x) \<le> MAX_STRING_SIZE \<and> length (as_bytes n) \<le> MAX_STRING_SIZE"
      if "(n, x) \<in> set es" for n x
      using that put_string_cap [of "as_bytes n" MAX_STRING_SIZE] by fastforce
    with c ok cells show ?thesis by (auto simp: writable_def entries_def array_cell_def comp_def case_prod_unfold)
  qed
qed

lemma size_list_concat_le:
  "(\<And>v. v \<in> set vs \<Longrightarrow> size_list f (g v) \<le> h v) \<Longrightarrow> size_list f (concat (map g vs)) \<le> size_list h vs"
proof (induction vs)
  case (Cons v vs)
  then have "size_list f (g v) \<le> h v" "size_list f (concat (map g vs)) \<le> size_list h vs" by simp_all
  then show ?case by simp
qed simp

lemma size_elements: "size_list size (elements v) \<le> size v"
  by (cases v) (simp_all add: elements_def)

lemma size_entries: "size_list size (map snd (entries v)) \<le> size v"
proof (cases v)
  case (Object es)
  have "size_list size (map snd es) \<le> size_list (\<lambda>p. size_prod (\<lambda>_. 0) size p) es" for es :: "(string \<times> Value) list"
    by (induction es) auto
  from this [of es] show ?thesis using Object by (simp add: entries_def le_SucI)
qed (simp_all add: entries_def)

lemma size_list_length: "length xs \<le> size_list f xs"
  by (induction xs) auto

lemma scalar_values:
  assumes "scalar_fit pt t" "\<not> pt_nullable pt" "\<forall>v\<in>set vs. writable env col pt v"
  shows "scalar t" "w \<in> set (map (written env col pt) vs) \<Longrightarrow> scalar_cell t w"
  using assms by (auto simp: scalar_fit_def writable_def intro: tags_scalar encode_value_scalar)

lemma nullable_value:
  assumes "scalar_fit pt t" "pt_nullable pt" "writable env col pt v"
  shows "\<exists>w. written env col pt v = option_cell w \<and> (case w of None \<Rightarrow> True | Some x \<Rightarrow> scalar_cell t x)"
proof (cases "v = Null")
  case True
  then have "written env col pt v = option_cell None"
    using assms(2) by (simp add: written_def encode_value.simps [of env col Null pt] option_cell_def)
  then show ?thesis by (intro exI [of _ None]) simp
next
  case False
  let ?fit = "resolved_tag pt \<in> set (tags_of t) \<and> (case t of FixedString n \<Rightarrow> pt_fixed_size pt = Some n | _ \<Rightarrow> True)"
  have "tri (encode_typed env (encode_value env col) v pt col) (\<lambda>bs. Inr (0 # bs)) = Inr (written env col pt v)"
    using False assms(2,3) by (simp add: writable_def encode_value.simps [of env col v pt])
  then obtain bs where bs: "encode_typed env (encode_value env col) v pt col = Inr bs"
    "option_cell (Some bs) = written env col pt v"
    by (auto simp: tri_eq_Inr option_cell_def)
  with assms(3) have len: "length (option_cell (Some bs)) \<le> MAX_STRING_SIZE" by (simp add: writable_def)
  have fit: ?fit using assms(1) by (simp add: scalar_fit_def)
  then have "encode_scalar env (resolved_tag pt) v pt col = Inr bs"
    using bs(1) by (cases "resolved_tag pt"; cases t) (simp_all add: encode_typed_def tags_of_def)
  then have "scalar_cell t bs" using encode_scalar_cell fit len by (simp add: option_cell_def)
  with bs(2) show ?thesis by (intro exI [of _ "Some bs"]) simp
qed

lemma nullable_values:
  assumes "scalar_fit pt t" "pt_nullable pt" "\<forall>v\<in>set vs. writable env col pt v"
  shows "\<exists>ws. map (written env col pt) vs = map option_cell ws \<and> (\<forall>v. Some v \<in> set ws \<longrightarrow> scalar_cell t v) \<and> scalar t"
proof -
  from nullable_value [OF assms(1,2)] assms(3) obtain f where f: "\<forall>v\<in>set vs.
      written env col pt v = option_cell (f v) \<and> (case f v of None \<Rightarrow> True | Some x \<Rightarrow> scalar_cell t x)"
    by metis
  have "scalar t" using assms(1) by (auto simp: scalar_fit_def intro: tags_scalar)
  moreover have "scalar_cell t x" if "Some x \<in> set (map f vs)" for x
    using that f by (metis (no_types, lifting) imageE list.set_map option.simps(5))
  ultimately show ?thesis using f by (intro exI [of _ "map f vs"]) (simp cong: map_cong)
qed

lemma nullable_column:
  assumes "scalar t" "\<And>v. Some v \<in> set ws \<Longrightarrow> scalar_cell t v"
  shows "insertable (Nullable t) (map option_cell ws)"
proof -
  have "column t (map (case_option (rb_write_default t) id) ws)"
    using assms default_cell [OF assms(1)] by (intro col_scalar) (auto split: option.splits)
  from ins_column [OF col_nullable [OF this]] show ?thesis .
qed

lemma dictionary_values:
  assumes "fits pt (LowCardinality t)" "\<forall>v\<in>set vs. writable env col pt v" "length vs < 2 ^ 32 - 1"
  shows "insertable (LowCardinality t) (map (written env col pt) vs)"
proof (cases "lc_nullable t")
  case True
  then obtain u where t: "t = Nullable u" by (cases t) (auto simp: lc_nullable_def)
  with assms(1) have "scalar_fit pt u" "pt_nullable pt" by (simp_all add: lc_nullable_def lc_dict_type_def)
  from nullable_values [OF this assms(2)] obtain ws where ws: "map (written env col pt) vs = map option_cell ws"
    "\<forall>v. Some v \<in> set ws \<longrightarrow> scalar_cell u v" "scalar u" by blast
  have "length ws = length vs" using arg_cong [OF ws(1), of length] by simp
  then show ?thesis unfolding t ws(1) using ws(2,3) assms(3) by (intro ins_lc_nullable) simp_all
next
  case False
  then have "lc_dict_type t = t" by (cases t) (simp_all add: lc_nullable_def lc_dict_type_def)
  then have "scalar_fit pt t" "\<not> pt_nullable pt" using assms(1) False by simp_all
  from scalar_values [OF this assms(2)] show ?thesis using assms(3) by (intro ins_column col_lc) simp_all
qed

lemma insertable_array_values:
  assumes "fits pt (Array t)" "pt_array_element pt = Some e" "\<forall>v\<in>set vs. writable env col pt v" "size_list size vs < 2 ^ 32 - 1"
    and inner: "\<forall>x\<in>set (concat (map elements vs)). writable env col e x \<Longrightarrow> size_list size (concat (map elements vs)) < 2 ^ 32 - 1 \<Longrightarrow>
      insertable t (map (written env col e) (concat (map elements vs)))"
  shows "insertable (Array t) (map (written env col pt) vs)"
proof -
  let ?xs = "concat (map elements vs)" and ?wss = "map (\<lambda>v. map (written env col e) (elements v)) vs"
  note cells = writable_array [OF _ assms(1,2)]
  have "size_list size ?xs \<le> size_list size vs" by (intro size_list_concat_le size_elements)
  then have xs: "size_list size ?xs < 2 ^ 32 - 1" using assms(4) by simp
  moreover have "\<forall>x\<in>set ?xs. writable env col e x" using assms(3) cells by auto
  ultimately have "insertable t (map (written env col e) ?xs)" by (intro inner)
  then have "insertable (Array t) (map array_cell ?wss)"
  proof (intro ins_array)
    show "length (concat ?wss) < 2 ^ 64"
      using xs size_list_length [of ?xs size] by (simp add: map_concat [symmetric] length_concat comp_def)
    show "length (array_cell ws) < 2 ^ 64" if "ws \<in> set ?wss" for ws
    proof -
      from that obtain v where v: "v \<in> set vs" "ws = map (written env col e) (elements v)" by auto
      with cells [of env col v] assms(3) have "array_cell ws = written env col pt v" by simp
      with v assms(3) writable_short [of env col pt v] show ?thesis by simp
    qed
  qed (simp add: map_concat comp_def)
  then show ?thesis using assms(3) cells by (simp add: comp_def cong: map_cong)
qed

lemma insertable_map_values:
  assumes "fits pt (Map String t)" "pt_map_types pt = Some (kt, vt)" "\<forall>v\<in>set vs. writable env col pt v" "size_list size vs < 2 ^ 32 - 1"
    and inner: "\<forall>x\<in>set (map snd (concat (map entries vs))). writable env col vt x \<Longrightarrow>
      size_list size (map snd (concat (map entries vs))) < 2 ^ 32 - 1 \<Longrightarrow>
      insertable t (map (written env col vt) (map snd (concat (map entries vs))))"
  shows "insertable (Map String t) (map (written env col pt) vs)"
proof -
  let ?pair = "\<lambda>(n, x). (put_string (as_bytes n), written env col vt x)"
  let ?es = "concat (map entries vs)" and ?pss = "map (\<lambda>v. map ?pair (entries v)) vs"
  note cells = writable_map [OF _ assms(1,2)]
  have "size_list size (concat (map (\<lambda>v. map snd (entries v)) vs)) \<le> size_list size vs"
    by (intro size_list_concat_le size_entries)
  then have es: "size_list size (map snd ?es) < 2 ^ 32 - 1" using assms(4) by (simp add: map_concat comp_def)
  moreover have "\<forall>x\<in>set (map snd ?es). writable env col vt x" using assms(3) cells by fastforce
  ultimately have "insertable t (map (written env col vt) (map snd ?es))" by (intro inner)
  moreover have "insertable String (map (put_string \<circ> as_bytes \<circ> fst) ?es)"
  proof (intro ins_column col_scalar)
    fix w assume "w \<in> set (map (put_string \<circ> as_bytes \<circ> fst) ?es)"
    then obtain v n x where "v \<in> set vs" "(n, x) \<in> set (entries v)" "w = put_string (as_bytes n)" by auto
    moreover from this assms(3) cells [of env col v] have "length (as_bytes n) \<le> MAX_STRING_SIZE" by fast
    ultimately show "scalar_cell String w" by (simp only: string_cell)
  qed (simp add: scalar_def)
  ultimately have "insertable (Map String t) (map (\<lambda>ps. array_cell (map (\<lambda>(a, b). a @ b) ps)) ?pss)"
  proof (intro ins_map)
    show "length (concat ?pss) < 2 ^ 64"
      using es size_list_length [of "map snd ?es" size] by (simp add: length_concat comp_def)
    show "length (array_cell (map (\<lambda>(a, b). a @ b) ps)) < 2 ^ 64" if "ps \<in> set ?pss" for ps
    proof -
      from that obtain v where v: "v \<in> set vs" "ps = map ?pair (entries v)" by auto
      with cells [of env col v] assms(3) have "array_cell (map (\<lambda>(a, b). a @ b) ps) = written env col pt v" by simp
      with v assms(3) writable_short [of env col pt v] show ?thesis by simp
    qed
  qed (simp_all add: map_concat comp_def case_prod_unfold)
  then show ?thesis using assms(3) cells by (simp add: comp_def cong: map_cong)
qed

lemma insertable_values:
  assumes "fits pt t" "\<forall>v\<in>set vs. writable env col pt v" "size_list size vs < 2 ^ 32 - 1"
  shows "insertable t (map (written env col pt) vs)"
  using assms
proof (induction t arbitrary: pt vs)
  case (Nullable t)
  then show ?case using nullable_values [of pt t vs env col] nullable_column [of t] by auto
next
  case (LowCardinality t)
  then have "length vs < 2 ^ 32 - 1" using size_list_length [of vs size] by simp
  with LowCardinality.prems show ?case by (intro dictionary_values)
next
  case (Array t)
  then obtain e where e: "pt_array_element pt = Some e" "fits e t" by (auto split: option.splits)
  from insertable_array_values [OF Array.prems(1) e(1) Array.prems(2,3)] Array.IH [OF e(2)] show ?case by blast
next
  case (Map k t)
  then obtain kt vt where e: "pt_map_types pt = Some (kt, vt)" "fits vt t" "k = String"
    by (auto split: option.splits)
  from insertable_map_values [OF Map.prems(1) [unfolded e(3)] e(1) Map.prems(2,3)] Map.IH(2) [OF e(2)] e(3) show ?case by blast
qed (auto intro!: ins_column col_scalar dest: scalar_values)

end
