(* ===== verification/DynRoundtrip.thy ===== *)
theory DynRoundtrip
  imports DynBlock
begin

text \<open>
  A dynamic insert end to end: JSON rows encoded against a table's columns, transposed into a native
  block and read back by the block decoder; and the two type parsers on the names of the types the
  dynamic encoder writes.
\<close>

section \<open>A JSON column travels as a string\<close>

definition stored :: "ColumnSchema \<Rightarrow> ColumnSchema" where
  "stored col = (if cs_col_type col = NewJson then col \<lparr> cs_col_type := Json \<rparr> else col)"

lemma rb_slice_json: "rb_slice data NewJson pos = rb_slice data Json pos"
  by (simp add: rb_slice_def rb_advance.simps [of data NewJson] rb_advance.simps [of data Json] fixed_size_def)

lemma rb_fields_stored:
  "rb_fields v (map (cs_col_type \<circ> stored) cols) pos = rb_fields v (map cs_col_type cols) pos"
  by (induction cols arbitrary: pos) (auto simp: stored_def rb_slice_json)

lemma row_cells_stored: "row_cells (map (cs_col_type \<circ> stored) cols) = row_cells (map cs_col_type cols)"
  by (rule ext) (simp only: row_cells_def rb_fields_stored length_map)

lemma encode_column_stored: "encode_column ser (stored col) cells = encode_column ser col cells"
  by (auto simp: encode_column_def stored_def write_col_values.simps [of _ NewJson] write_col_values.simps [of _ Json]
      write_col_prefixes.simps [of NewJson] write_col_prefixes.simps [of Json])

lemma encode_columns_stored: "encode_columns rows (map stored cols) revision = encode_columns rows cols revision"
proof -
  have "each_result (\<lambda>(col, column). encode_column ser col column) (zip (map stored cols) cells) =
      each_result (\<lambda>(col, column). encode_column ser col column) (zip cols cells)" for ser cells
    by (induction cols arbitrary: cells; case_tac cells) (simp_all add: encode_column_stored)
  then show ?thesis by (simp add: encode_columns_def row_cells_stored Let_def)
qed

section \<open>Rows of a dynamic insert\<close>

text \<open>What a row holds under a name, and the bytes of one column, row by row.\<close>

definition field :: "string \<Rightarrow> row \<Rightarrow> Value" where
  "field name r = (case map_of r name of Some v \<Rightarrow> v | None \<Rightarrow> Null)"

definition cells_of :: "platform \<Rightarrow> row list \<Rightarrow> ColumnDef \<Rightarrow> byte list list" where
  "cells_of env rows d = map (\<lambda>r. written env (cd_name d) (cd_ty d) (field (cd_name d) r)) rows"

definition row_of :: "ColumnDef list \<Rightarrow> row \<Rightarrow> DynamicRow" where
  "row_of defs r = \<lparr> dr_row = r, dr_columns = defs, dr_raw = None \<rparr>"

lemma encode_row_cells:
  assumes "encode_row env (row_of defs r) = Inr bytes"
  shows "bytes = concat (map (\<lambda>d. written env (cd_name d) (cd_ty d) (field (cd_name d) r)) defs) \<and>
    (length bytes \<le> MAX_STRING_SIZE \<longrightarrow>
      (\<forall>d\<in>set defs. writable env (cd_name d) (cd_ty d) (field (cd_name d) r)))"
proof -
  have "encode_row_column env (row_of defs r) = (\<lambda>d. encode_value env (cd_name d) (field (cd_name d) r) (cd_ty d))"
    by (rule ext) (simp add: encode_row_column_def row_of_def field_def)
  moreover have "dr_columns (row_of defs r) = defs" by (simp add: row_of_def)
  ultimately obtain cells where c: "each_result (\<lambda>d. encode_value env (cd_name d) (field (cd_name d) r) (cd_ty d)) defs = Inr cells"
    "bytes = concat cells"
    using assms by (auto simp: encode_row_def tri_eq_Inr)
  from each_result_InrD [OF c(1)] have w: "cells = map (\<lambda>d. written env (cd_name d) (cd_ty d) (field (cd_name d) r)) defs"
    "\<forall>d\<in>set defs. encode_value env (cd_name d) (field (cd_name d) r) (cd_ty d) =
      Inr (written env (cd_name d) (cd_ty d) (field (cd_name d) r))"
    by (auto simp: written_def)
  have "length (written env (cd_name d) (cd_ty d) (field (cd_name d) r)) \<le> length bytes" if "d \<in> set defs" for d
    using that unfolding c(2) by (intro length_concat_ge) (simp add: w(1))
  with c(2) w show ?thesis by (fastforce simp: writable_def)
qed

lemma encoded_rows:
  assumes "each_result (\<lambda>r. encode_row env (row_of defs r)) rows = Inr encoded"
  shows "encoded = tuple_cells (length rows) (map (cells_of env rows) defs)"
proof -
  from each_result_InrD [OF assms] have enc: "encoded = map (\<lambda>r. projr (encode_row env (row_of defs r))) rows"
    "\<forall>r\<in>set rows. encode_row env (row_of defs r) = Inr (projr (encode_row env (row_of defs r)))" by auto
  then have "encoded = map (\<lambda>r. concat (map (\<lambda>d. written env (cd_name d) (cd_ty d) (field (cd_name d) r)) defs)) rows"
    using encode_row_cells by (simp cong: map_cong)
  then show ?thesis
    by (intro nth_equalityI) (simp_all add: tuple_cells_def cells_of_def comp_def cong: map_cong)
qed

lemma dynamic_columns:
  assumes "list_all2 (\<lambda>d s. fits (cd_ty d) (cs_col_type (stored s))) defs native"
    and "each_result (\<lambda>r. encode_row env (row_of defs r)) rows = Inr encoded"
    and "\<And>bytes. bytes \<in> set encoded \<Longrightarrow> length bytes \<le> MAX_STRING_SIZE"
    and "\<And>d. d \<in> set defs \<Longrightarrow> size_list size (map (field (cd_name d)) rows) < 2 ^ 32 - 1"
  shows "list_all2 (\<lambda>s cells. insertable (cs_col_type s) cells) (map stored native) (map (cells_of env rows) defs)"
proof -
  have "insertable (cs_col_type (stored s)) (cells_of env rows d)"
    if d: "d \<in> set defs" "fits (cd_ty d) (cs_col_type (stored s))" for d s
  proof -
    let ?vs = "map (field (cd_name d)) rows"
    have "writable env (cd_name d) (cd_ty d) (field (cd_name d) r)" if "r \<in> set rows" for r
    proof -
      from each_result_InrD [OF assms(2)] that obtain bytes where
        "encode_row env (row_of defs r) = Inr bytes" "bytes \<in> set encoded" by fastforce
      with encode_row_cells [of env defs r bytes] assms(3) d(1) show ?thesis by blast
    qed
    with insertable_values [OF d(2), of ?vs env "cd_name d"] assms(4) [OF d(1)] show ?thesis
      by (simp add: cells_of_def comp_def)
  qed
  then show ?thesis using assms(1)
    by (auto simp: list_all2_conv_all_nth)
qed

text \<open>
  Rows inserted dynamically arrive.  Whenever every row encodes against the table's columns, the
  rows are transposed into a native block, and the block decoder reads that block back to the column
  names, the announced types, the row count and, column by column and row by row, what the bytes the
  value under that name was encoded to arrive as: those bytes, or NULL for the default value of a nullable
  dictionary column.
\<close>

theorem dynamic_insert_roundtrip:
  assumes "list_all2 (\<lambda>d s. fits (cd_ty d) (cs_col_type (stored s))) defs native"
    and "\<And>s. s \<in> set native \<Longrightarrow> well_declared (stored s)"
    and "each_result (\<lambda>r. encode_row env (row_of defs r)) rows = Inr encoded"
    and "\<And>bytes. bytes \<in> set encoded \<Longrightarrow> length bytes \<le> MAX_STRING_SIZE"
    and "\<And>d. d \<in> set defs \<Longrightarrow> size_list size (map (field (cd_name d)) rows) < 2 ^ 32 - 1"
    and "rows \<noteq> []" "length rows \<le> MAX_BLOCK_ROWS" "native \<noteq> []" "length native \<le> MAX_BLOCK_COLUMNS"
  shows "\<exists>block. encode_columns encoded native revision = Inr block \<and>
    (length (block @ rest) < 2 ^ 64 \<longrightarrow>
      (\<exists>b. decode_block (of_nat (length native)) (of_nat (length rows)) revision (block @ rest) = Inr (b, rest) \<and>
        db_schema b = map (\<lambda>s. (cs_name s, sent_name s)) native \<and>
        map to_cells (db_columns b) = arrived_columns (map stored native) (map (cells_of env rows) defs) \<and>
        db_num_rows b = length rows))"
proof -
  let ?cols = "map (cells_of env rows) defs" and ?n = "length rows" and ?cs = "map stored native"
  note cols = dynamic_columns [OF assms(1,3,4,5)]
  have enc: "encoded = tuple_cells ?n ?cols" by (rule encoded_rows [OF assms(3)])
  have len: "\<And>c. c \<in> set ?cols \<Longrightarrow> length c = ?n" by (auto simp: cells_of_def)
  have short: "\<And>v. v \<in> set (tuple_cells ?n ?cols) \<Longrightarrow> length v < 2 ^ 64"
    using assms(4) unfolding enc MAX_STRING_SIZE_def by fastforce
  have names: "map (\<lambda>s. (cs_name s, sent_name s)) ?cs = map (\<lambda>s. (cs_name s, sent_name s)) native"
    by (auto simp: stored_def sent_name_def)
  have declared: "\<And>s. s \<in> set ?cs \<Longrightarrow> well_declared s" using assms(2) by auto
  show ?thesis
    using inserted_block [OF cols declared len _ assms(7) _ _ short, of revision] assms(6,8,9)
    unfolding names by (auto simp: enc encode_columns_stored)
qed

section \<open>The two parsers on the names of the types the encoder writes\<close>

definition dynamic_scalar :: "ColumnType \<Rightarrow> bool" where
  "dynamic_scalar t \<longleftrightarrow> tags_of t \<noteq> [] \<and> t \<noteq> Json"

fun dynamic_type :: "ColumnType \<Rightarrow> bool" where
  "dynamic_type (Nullable t) = dynamic_scalar t"
| "dynamic_type (LowCardinality t) = dynamic_scalar (lc_dict_type t)"
| "dynamic_type (Array t) = dynamic_type t"
| "dynamic_type (Map k t) = (k = String \<and> dynamic_type t)"
| "dynamic_type t = dynamic_scalar t"

text \<open>
  That a description says of a type all there is to say: both flags, the tag and width, the parameters the type has and
  no others, and the same of the types inside.  A time zone is kept up to double quotes around it.
\<close>

definition scalar_described :: "ParsedType \<Rightarrow> bool \<Rightarrow> bool \<Rightarrow> ColumnType \<Rightarrow> bool" where
  "scalar_described pt nl lc t \<longleftrightarrow> pt_nullable pt = nl \<and> pt_low_cardinality pt = lc \<and>
    resolved_tag pt = hd (tags_of t) \<and> scalar_fit pt t \<and> pt_array_element pt = None \<and> pt_map_types pt = None \<and>
    (pt_precision pt, pt_scale pt, pt_timezone pt, pt_fixed_size pt) =
    (case t of
       Decimal32 p q \<Rightarrow> (Some p, Some q, None, None)
     | Decimal64 p q \<Rightarrow> (Some p, Some q, None, None)
     | Decimal128 p q \<Rightarrow> (Some p, Some q, None, None)
     | Decimal256 p q \<Rightarrow> (Some p, Some q, None, None)
     | DateTime64 p z \<Rightarrow> (Some p, None, map_option (trim_matches (CHR 0x22)) z, None)
     | FixedString n \<Rightarrow> (None, None, None, Some n)
     | _ \<Rightarrow> (None, None, None, None))"

fun describes :: "ParsedType \<Rightarrow> ColumnType \<Rightarrow> bool" where
  "describes pt (Nullable t) = scalar_described pt True False t"
| "describes pt (LowCardinality t) = scalar_described pt (lc_nullable t) True (lc_dict_type t)"
| "describes pt (Array t) =
    (\<not> pt_nullable pt \<and> \<not> pt_low_cardinality pt \<and> pt_tag pt = TArray \<and> pt_base pt = ''Array'' \<and> pt_map_types pt = None \<and>
      (case pt_array_element pt of None \<Rightarrow> False | Some e \<Rightarrow> describes e t))"
| "describes pt (Map k t) =
    (\<not> pt_nullable pt \<and> \<not> pt_low_cardinality pt \<and> pt_tag pt = TMap \<and> pt_base pt = ''Map'' \<and> pt_array_element pt = None \<and>
      (case pt_map_types pt of None \<Rightarrow> False | Some (kt, vt) \<Rightarrow> describes kt k \<and> describes vt t))"
| "describes pt t = scalar_described pt False False t"

text \<open>Such a description fits the type, so what the dynamic encoder writes under it are cells of the type.\<close>

lemma described_string: "describes kt String \<Longrightarrow> pt_tag kt = TString \<and> \<not> pt_nullable kt"
  by (auto simp: scalar_described_def tags_of_def resolved_tag_def decimal_tag_for_precision_def split: if_splits)

lemma describes_fits: "describes pt t \<Longrightarrow> dynamic_type t \<Longrightarrow> fits pt t"
proof (induction t arbitrary: pt)
  case (Map k t)
  then show ?case using described_string by (auto split: option.splits)
qed (auto simp: scalar_described_def split: option.splits)

lemma extract_wrapper_apply: "extract_wrapper (apply_name name x) name = Some x"
  by (simp add: extract_wrapper_def apply_name_def strip_prefix_def)

lemma extract_wrapper_other:
  "\<not> prefix (w @ ''('') s \<Longrightarrow> extract_wrapper s w = None"
  by (auto simp: extract_wrapper_def strip_prefix_def bind_eq_None_conv prefix_def split: if_splits)

text \<open>A name that none of the recursive arms takes.\<close>

definition leaf_name :: "string \<Rightarrow> bool" where
  "leaf_name s \<longleftrightarrow> \<not> prefix ''Nullable('' s \<and> \<not> prefix ''LowCardinality('' s \<and>
    \<not> prefix ''Array('' s \<and> \<not> prefix ''Map('' s"

lemma leaf_scalar: "dynamic_scalar t \<Longrightarrow> leaf_name (type_name t)"
  by (cases t) (simp_all add: dynamic_scalar_def tags_of_def leaf_name_def apply_name_def)

lemma unwrap_leaf:
  assumes "\<not> prefix ''Nullable('' s" "\<not> prefix ''LowCardinality('' s"
  shows "unwrap_loop s n l = (s, n, l)"
  using extract_wrapper_other [of "''Nullable''" s] extract_wrapper_other [of "''LowCardinality''" s] assms
  by (subst unwrap_loop.simps) (simp add: unwrap_wrapper_def)

lemma unwrap_apply:
  "unwrap_loop (apply_name ''Nullable'' s) n l = unwrap_loop s True l"
  "unwrap_loop (apply_name ''LowCardinality'' s) n l = unwrap_loop s n True"
proof -
  show "unwrap_loop (apply_name ''Nullable'' s) n l = unwrap_loop s True l"
    by (subst unwrap_loop.simps) (simp add: unwrap_wrapper_def extract_wrapper_apply)
  have "extract_wrapper (apply_name ''LowCardinality'' s) ''Nullable'' = None"
    by (rule extract_wrapper_other) (simp add: apply_name_def)
  then show "unwrap_loop (apply_name ''LowCardinality'' s) n l = unwrap_loop s n True"
    by (subst unwrap_loop.simps) (simp add: unwrap_wrapper_def extract_wrapper_apply)
qed

lemma parse_pt_leaf:
  assumes "trim s = s" "unwrap_loop s False False = (r, nl, lc)" "leaf_name r"
  shows "parse_pt s = plain_type s nl lc r"
  using assms extract_wrapper_other [of "''Array''" r] extract_wrapper_other [of "''Map''" r]
  by (subst parse_pt.simps) (simp add: leaf_name_def)

lemma split_first_none: "c \<notin> set s \<Longrightarrow> split_first c s = (s, None)"
  by (induction s) auto

lemma split_first_some: "c \<notin> set s \<Longrightarrow> split_first c (s @ c # r) = (s, Some r)"
  by (induction s) auto

lemma split_commas_none: "CHR '','' \<notin> set s \<Longrightarrow> split_commas cur (s @ r) = split_commas (cur @ s) r"
  by (induction s arbitrary: cur) auto

lemma show_nat_plain: "c \<in> set (show_nat n) \<Longrightarrow> c \<notin> {CHR '','', CHR ''('', CHR '')''}"
  using plain_show_nat [of n] by (auto simp: plain_def)

lemma find_char_skip: "c \<notin> set s \<Longrightarrow> find_char c (s @ c # r) = Some (length s)"
  by (induction s) auto

lemma extract_parens_apply: "CHR ''('' \<notin> set name \<Longrightarrow> extract_parens (apply_name name x) = Some x"
  using find_char_skip [of "CHR ''(''" name "x @ '')''"]
  by (simp add: extract_parens_def rfind_char_def apply_name_def)

lemma show_nat_no_comma: "CHR '','' \<notin> set (show_nat n)"
  using show_nat_plain by blast

lemma split_decimal: "split_commas [] (show_nat p @ '', '' @ show_nat q) = [show_nat p, CHR '' '' # show_nat q]"
  using split_commas_none [of "show_nat p" "[]" "'', '' @ show_nat q"]
    split_commas_none [of "CHR '' '' # show_nat q" "[]" "[]"] show_nat_no_comma
  by simp

lemma plain_decimal:
  assumes "p \<le> 255" "q \<le> 255"
  shows "plain_type raw nl lc (apply_name ''Decimal'' (show_nat p @ '', '' @ show_nat q)) =
    ParsedType raw ''Decimal'' TUnknown nl lc None None (Some p) (Some q) None None"
  using assms extract_wrapper_other [of "''DateTime''" "apply_name ''Decimal'' (show_nat p @ '', '' @ show_nat q)"]
    extract_wrapper_other [of "''FixedString''" "apply_name ''Decimal'' (show_nat p @ '', '' @ show_nat q)"]
    extract_parens_apply [of "''Decimal''" "show_nat p @ '', '' @ show_nat q"] split_decimal [of p q]
  by (simp add: plain_type_def apply_name_def parse_decimal_base_def from_base_def trim_show_nat trim_space
      parse_unsigned_show_nat Let_def)

lemma plain_decimal_described:
  assumes "p \<le> 255" "q \<le> 255" "tags_of t = [decimal_tag_for_precision p]"
    and "t \<in> {Decimal32 p q, Decimal64 p q, Decimal128 p q, Decimal256 p q}"
    and "type_name t = apply_name ''Decimal'' (show_nat p @ '', '' @ show_nat q)"
  shows "scalar_described (plain_type raw nl lc (type_name t)) nl lc t"
  unfolding assms(5) plain_decimal [OF assms(1,2)] using assms(3,4)
  by (auto simp: scalar_described_def scalar_fit_def resolved_tag_def)

lemma plain_datetime64:
  assumes "p \<le> 255"
  shows "plain_type raw nl lc (type_name (DateTime64 p z)) = ParsedType raw ''DateTime64'' TDateTime64 nl lc None None
      (Some p) None (map_option (\<lambda>tz. unquote (CHR '' '' # CHR 0x27 # tz @ [CHR 0x27])) z) None"
proof -
  have "prefix ''DateTime64'' (apply_name ''DateTime64'' x)" for x by (simp add: apply_name_def)
  moreover note split_first_none [OF show_nat_no_comma, of p] split_first_some [OF show_nat_no_comma, of p]
  ultimately show ?thesis using assms
    by (cases z) (simp_all add: plain_type_def extract_wrapper_apply trim_show_nat parse_unsigned_show_nat Let_def)
qed

lemma plain_fixed_string:
  assumes "n < 2 ^ 64"
  shows "plain_type raw nl lc (type_name (FixedString n)) =
    ParsedType raw ''FixedString'' TFixedString nl lc None None None None None (Some n)"
proof -
  let ?s = "apply_name ''FixedString'' (show_nat n)"
  have "\<not> prefix ''DateTime64'' ?s" "extract_wrapper ?s ''DateTime'' = None"
    by (simp_all add: extract_wrapper_other apply_name_def)
  moreover have "parse_usize (trim (show_nat n)) = Some n"
    using assms by (simp only: trim_show_nat) (intro parse_unsigned_show_nat; simp)
  ultimately show ?thesis by (simp add: plain_type_def extract_wrapper_apply Let_def)
qed

lemma unquote_printed: "wf_timezone tz \<Longrightarrow> unquote (CHR '' '' # CHR 0x27 # tz @ [CHR 0x27]) = trim_matches (CHR 0x22) tz"
  using trim_matches_quoted [of tz] printed_trim [OF printed_quoted, of tz] by (simp add: unquote_def trim_space)

lemma plain_scalar:
  assumes "dynamic_scalar t" "wf_type t"
  shows "scalar_described (plain_type raw nl lc (type_name t)) nl lc t"
proof (cases t)
  case (DateTime64 p z)
  with assms(2) have p: "p \<le> 255" and z: "map_option (\<lambda>tz. unquote (CHR '' '' # CHR 0x27 # tz @ [CHR 0x27])) z = map_option (trim_matches (CHR 0x22)) z"
    by (auto simp: unquote_printed split: option.splits)
  show ?thesis unfolding DateTime64 plain_datetime64 [OF p] z
    by (simp add: scalar_described_def scalar_fit_def resolved_tag_def tags_of_def fixed_byte_size_def fixed_size_def)
next
  case (FixedString n)
  with assms(2) have "n < 2 ^ 64" by simp
  then show ?thesis unfolding FixedString plain_fixed_string [OF \<open>n < 2 ^ 64\<close>]
    by (simp add: scalar_described_def scalar_fit_def resolved_tag_def tags_of_def fixed_byte_size_def fixed_size_def)
next
  case (Decimal32 p q)
  with assms(2) show ?thesis
    by (intro plain_decimal_described [of p q]) (simp_all add: decimal_tag_for_precision_def tags_of_def)
next
  case (Decimal64 p q)
  with assms(2) show ?thesis
    by (intro plain_decimal_described [of p q]) (simp_all add: decimal_tag_for_precision_def tags_of_def)
next
  case (Decimal128 p q)
  with assms(2) show ?thesis
    by (intro plain_decimal_described [of p q]) (simp_all add: decimal_tag_for_precision_def tags_of_def)
next
  case (Decimal256 p q)
  with assms(2) show ?thesis
    by (intro plain_decimal_described [of p q]) (simp_all add: decimal_tag_for_precision_def tags_of_def)
qed (use assms in \<open>simp_all add: dynamic_scalar_def tags_of_def plain_type_def from_base_def extract_wrapper_def
  strip_prefix_def scalar_described_def scalar_fit_def resolved_tag_def fixed_byte_size_def fixed_size_def apply_name_def\<close>)

lemma scalar_name:
  assumes "dynamic_scalar t" "wf_type t"
  shows "parse_pt (type_name t) = plain_type (type_name t) False False (type_name t)"
  using printed_trim [OF printed_type_name [OF assms(2)]] leaf_scalar [OF assms(1)]
  by (intro parse_pt_leaf) (simp_all add: unwrap_leaf leaf_name_def)

lemma scalar_name_described:
  "dynamic_scalar t \<Longrightarrow> wf_type t \<Longrightarrow> scalar_described (parse_pt (type_name t)) False False t"
  using plain_scalar [of t] by (simp add: scalar_name)

lemma dictionary_name:
  assumes "dynamic_scalar (lc_dict_type t)" "wf_type t"
  shows "parse_pt (type_name (LowCardinality t)) =
    plain_type (type_name (LowCardinality t)) (lc_nullable t) True (type_name (lc_dict_type t))"
proof (rule parse_pt_leaf)
  note leaf = leaf_scalar [OF assms(1), unfolded leaf_name_def]
  show "trim (type_name (LowCardinality t)) = type_name (LowCardinality t)"
    using printed_trim [OF printed_type_name [of "LowCardinality t"]] assms(2) by simp
  show "leaf_name (type_name (lc_dict_type t))" by (rule leaf_scalar [OF assms(1)])
  show "unwrap_loop (type_name (LowCardinality t)) False False = (type_name (lc_dict_type t), lc_nullable t, True)"
  proof (cases "\<exists>u. t = Nullable u")
    case True
    then show ?thesis using leaf by (auto simp: unwrap_apply unwrap_leaf lc_nullable_def lc_dict_type_def)
  next
    case False
    then have "lc_dict_type t = t" "\<not> lc_nullable t" by (cases t; simp add: lc_dict_type_def lc_nullable_def)+
    then show ?thesis using leaf by (simp add: unwrap_apply unwrap_leaf)
  qed
qed

lemma names_described:
  assumes "wf_type t" "dynamic_type t"
  shows "describes (parse_pt (type_name t)) t"
  using assms
proof (induction t)
  case (Nullable t)
  then have t: "dynamic_scalar t" "wf_type t" by simp_all
  note leaf = leaf_scalar [OF t(1)]
  have "parse_pt (type_name (Nullable t)) = plain_type (type_name (Nullable t)) True False (type_name t)"
    using printed_trim [OF printed_type_name [of "Nullable t"]] t(2) leaf
    by (intro parse_pt_leaf) (simp_all add: unwrap_apply unwrap_leaf leaf_name_def)
  then show ?case using plain_scalar [OF t] by (simp del: type_name.simps)
next
  case (LowCardinality t)
  then have t: "dynamic_scalar (lc_dict_type t)" "wf_type t" by simp_all
  moreover have "wf_type (lc_dict_type t)" using t(2) by (cases t) (simp_all add: lc_dict_type_def)
  ultimately show ?case using plain_scalar [OF t(1)] dictionary_name [OF t] by (simp del: type_name.simps)
next
  case (Array t)
  let ?s = "apply_name ''Array'' (type_name t)"
  have "unwrap_loop ?s False False = (?s, False, False)" by (intro unwrap_leaf) (simp_all add: apply_name_def)
  then have "parse_pt ?s = ParsedType ?s ''Array'' TArray False False (Some (parse_pt (type_name t))) None None None None None"
    using printed_trim [OF printed_type_name [of "Array t"]] Array.prems(1)
    by (subst parse_pt.simps) (simp add: extract_wrapper_apply)
  then show ?case using Array by simp
next
  case (Map k t)
  let ?x = "''String, '' @ type_name t" and ?s = "apply_name ''Map'' (''String, '' @ type_name t)"
  have k: "k = String" using Map.prems(2) by simp
  have "unwrap_loop ?s False False = (?s, False, False)" "extract_wrapper ?s ''Array'' = None"
    by (intro unwrap_leaf extract_wrapper_other; simp add: apply_name_def)+
  moreover have "split_two ?x = Some (''String'', type_name t)"
    using printed_trim [OF printed_type_name [of t]] printed_trim [OF printed_type_name [of String]] Map.prems(1)
    by (simp add: split_two_def trim_space)
  moreover have "trim ?s = ?s" using printed_trim [OF printed_type_name [of "Map String t"]] Map.prems(1) k by simp
  ultimately have "parse_pt ?s = ParsedType ?s ''Map'' TMap False False None
      (Some (parse_pt ''String'', parse_pt (type_name t))) None None None None"
    by (subst parse_pt.simps) (simp add: extract_wrapper_apply del: append_Cons)
  then show ?case using Map k scalar_name_described [of String] by (simp add: dynamic_scalar_def tags_of_def)
qed (use scalar_name_described in \<open>simp_all del: type_name.simps\<close>)



text \<open>A small table of two columns and two rows, encoded with a platform that is never asked.\<close>

definition no_platform :: platform where
  "no_platform = \<lparr> to_text = (\<lambda>_. []), to_writer = (\<lambda>_. Inl []), powi10 = (\<lambda>_. 0), nan_to_f32 = (\<lambda>_. 0) \<rparr>"

definition ab_defs :: "ColumnDef list" where
  "ab_defs = [column_def_new ''a'' ''UInt8'', column_def_new ''b'' ''Nullable(String)'']"

definition ab_native :: "ColumnSchema list" where
  "ab_native = [\<lparr> cs_name = ''a'', cs_type_name = ''UInt8'', cs_col_type = UInt8 \<rparr>,
    \<lparr> cs_name = ''b'', cs_type_name = ''Nullable(String)'', cs_col_type = Nullable String \<rparr>]"

definition ab_rows :: "row list" where
  "ab_rows = [[(''b'', Str ''x''), (''a'', Bool True)], [(''c'', Bool False)]]"

lemma ab_names: "''UInt8'' = type_name UInt8" "''Nullable(String)'' = type_name (Nullable String)"
  by (simp_all add: apply_name_def)

lemma ab_types:
  "parse_pt ''UInt8'' = ParsedType ''UInt8'' ''UInt8'' TUInt8 False False None None None None None None"
  "parse_pt ''Nullable(String)'' =
    ParsedType ''Nullable(String)'' ''String'' TString True False None None None None None None"
proof -
  have "parse_pt ''UInt8'' = plain_type ''UInt8'' False False ''UInt8''"
    using scalar_name [of UInt8] by (simp add: dynamic_scalar_def tags_of_def)
  then show "parse_pt ''UInt8'' = ParsedType ''UInt8'' ''UInt8'' TUInt8 False False None None None None None None"
    by (simp add: plain_type_def from_base_def extract_wrapper_def strip_prefix_def)
  have "unwrap_loop ''Nullable(String)'' False False = (''String'', True, False)"
    using unwrap_apply(1) [of "''String''" False False] unwrap_leaf [of "''String''" True False]
    by (simp add: apply_name_def)
  moreover have "trim ''Nullable(String)'' = ''Nullable(String)''"
    using printed_trim [OF printed_type_name [of "Nullable String"]] by (simp add: apply_name_def)
  ultimately have "parse_pt ''Nullable(String)'' = plain_type ''Nullable(String)'' True False ''String''"
    by (intro parse_pt_leaf) (simp_all add: leaf_name_def)
  then show "parse_pt ''Nullable(String)'' =
      ParsedType ''Nullable(String)'' ''String'' TString True False None None None None None None"
    by (simp add: plain_type_def from_base_def extract_wrapper_def strip_prefix_def)
qed

lemma ab_fits: "list_all2 (\<lambda>d s. fits (cd_ty d) (cs_col_type (stored s))) ab_defs ab_native"
  by (simp add: ab_defs_def ab_native_def column_def_new_def stored_def ab_types scalar_fit_def resolved_tag_def
      tags_of_def fixed_byte_size_def fixed_size_def)

lemma ab_encoded:
  "each_result (\<lambda>r. encode_row no_platform (row_of ab_defs r)) ab_rows = Inr [[1, 0, 1, 0x78], [0, 1]]"
  by (simp add: ab_rows_def ab_defs_def column_def_new_def encode_row_def row_of_def encode_row_column_def ab_types
      encode_value.simps encode_typed_def resolved_tag_def encode_scalar_def unsigned_arm_def as_u64_def narrow_def
      write_default_def fixed_byte_size_def value_to_str_def put_string_def as_bytes_def put_var_uint_leb128
      leb128.simps)

lemma ab_caps:
  "d \<in> set ab_defs \<Longrightarrow> size_list size (map (field (cd_name d)) ab_rows) < 2 ^ 32 - 1"
  "bytes \<in> set [[1, 0, 1, 0x78], [0, 1 :: byte]] \<Longrightarrow> length bytes \<le> MAX_STRING_SIZE"
  by (auto simp: ab_defs_def ab_rows_def column_def_new_def field_def MAX_STRING_SIZE_def)

lemma ab_declared: "s \<in> set ab_native \<Longrightarrow> well_declared (stored s)"
proof -
  have "parse ''UInt8'' = Some UInt8" "parse ''Nullable(String)'' = Some (Nullable String)"
    using parse_printed_name [of UInt8] parse_printed_name [of "Nullable String"]
    by (simp_all add: MAX_TYPE_PARSE_DEPTH_def apply_name_def)
  then show "s \<in> set ab_native \<Longrightarrow> well_declared (stored s)"
    by (auto simp: ab_native_def stored_def well_declared_def announced_def sent_name_def sent_type_def as_bytes_def
        MAX_STRING_SIZE_def MAX_READ_DEPTH_def typed.simps levels.simps [of UInt8] levels.simps [of String]
        levels.simps [of "Nullable String"])
qed

lemma ab_block:
  "encode_columns [[1, 0, 1, 0x78], [0, 1]] ab_native 54473 =
    Inr ([1, 0x61, 5, 0x55, 0x49, 0x6E, 0x74, 0x38, 0] @ [1, 0] @
      [1, 0x62, 16, 0x4E, 0x75, 0x6C, 0x6C, 0x61, 0x62, 0x6C, 0x65, 0x28, 0x53, 0x74, 0x72, 0x69, 0x6E, 0x67, 0x29, 0] @
      [0, 1, 1, 0x78, 0])"
proof -
  note cols = dynamic_columns [OF ab_fits ab_encoded ab_caps(2) ab_caps(1)]
  have cells: "map (cells_of no_platform ab_rows) ab_defs = [[[1], [0]], [[0, 1, 0x78], [1]]]"
    by (simp add: ab_rows_def ab_defs_def column_def_new_def cells_of_def written_def field_def ab_types
      encode_value.simps encode_typed_def resolved_tag_def encode_scalar_def unsigned_arm_def as_u64_def narrow_def
      write_default_def fixed_byte_size_def value_to_str_def put_string_def as_bytes_def put_var_uint_leb128
      leb128.simps)
  have st: "map stored ab_native = ab_native" by (simp add: ab_native_def stored_def)
  have p: "\<And>c. c \<in> set [[[1], [0]], [[0, 1, 0x78], [1 :: byte]]] \<Longrightarrow> length c = 2"
    "\<And>v. v \<in> set (tuple_cells 2 [[[1], [0]], [[0, 1, 0x78], [1 :: byte]]]) \<Longrightarrow> length v < 2 ^ 64"
    by (auto simp: tuple_cells_def upt_rec)
  show ?thesis
    using encode_transposed [OF columns_arrive(2) [OF cols [unfolded cells st]] p, of 54473] ab_revision
    by (simp add: tuple_cells_def upt_rec ab_native_def encode_column_def
      write_col_values.simps [of _ UInt8] write_col_values.simps [of _ "Nullable String"]
      write_col_values.simps [of _ String] write_col_prefixes.simps fixed_size_def rb_write_default.simps
      put_string_def as_bytes_def put_var_uint_leb128 leb128.simps)
qed

theorem dynamic_insert_roundtrip_witness:
  "\<exists>block b. encode_columns [[1, 0, 1, 0x78], [0, 1]] ab_native 54473 = Inr block \<and>
    decode_block (of_nat (length ab_native)) (of_nat (length ab_rows)) 54473 (block @ [7]) = Inr (b, [7]) \<and>
    db_schema b = map (\<lambda>s. (cs_name s, sent_name s)) ab_native \<and>
    map to_cells (db_columns b) = map (cells_of no_platform ab_rows) ab_defs \<and> db_num_rows b = length ab_rows"
proof -
  have "ab_rows \<noteq> []" "length ab_rows \<le> MAX_BLOCK_ROWS" "ab_native \<noteq> []" "length ab_native \<le> MAX_BLOCK_COLUMNS"
    by (simp_all add: ab_rows_def ab_native_def MAX_BLOCK_ROWS_def MAX_BLOCK_COLUMNS_def)
  from dynamic_insert_roundtrip [OF ab_fits ab_declared ab_encoded ab_caps(2) ab_caps(1) this, of 54473 "[7]"]
  moreover have "\<forall>s\<in>set (map stored ab_native). \<not> nullable_dictionary (cs_col_type s)" by (simp add: ab_native_def stored_def)
  ultimately show ?thesis
    using arrived_columns_sent [OF dynamic_columns [OF ab_fits ab_encoded ab_caps(2) ab_caps(1)]] unfolding ab_block by force
qed

end
