(* ===== verification/DynInsert.thy ===== *)
theory DynInsert
  imports SchemaCache Exceptions Client Builder ActorExchange DynRoundtrip
begin

text \<open>
  Dynamic inserts, src/src/dynamic/insert.rs: JSON rows for one table, encoded against the table's schema and written
  through the HTTP client or, transposed into native blocks, through an INSERT session of the TCP client.
\<close>

section \<open>Surroundings\<close>

text \<open>
  What other crates provide: the escaper of identifiers, the texts of errors and of the messages in them, and the
  encoder's platform.
\<close>

record host =
  h_escape :: "string \<Rightarrow> string"
  h_text :: "error \<Rightarrow> string"
  h_body :: "reason \<Rightarrow> string"
  h_platform :: platform

text \<open>
  What an insert finds around it: the clock, the shared schema cache, the HTTP client's answers to a query and to a
  finished body (statement, JSON setting, bytes), what the pool gives, and the connection it works on with the events
  to come.
\<close>

record world =
  w_now :: nat
  w_cache :: DynamicSchemaCache
  w_query :: "string \<Rightarrow> string + (string \<times> string \<times> string) list"
  w_http_end :: "string \<Rightarrow> bool \<Rightarrow> byte list \<Rightarrow> error option"
  w_acquire :: "PoolError + actor"
  w_conn :: actor
  w_events :: "event list"

definition on_connection :: "'r act \<Rightarrow> world \<Rightarrow> ('r \<times> world) option" where
  "on_connection m w = map_option (\<lambda>(r, a, es). (r, w\<lparr> w_conn := a, w_events := es \<rparr>)) (m (w_conn w) (w_events w))"

definition JSON_AS_STRING_SETTING :: string where
  "JSON_AS_STRING_SETTING = ''input_format_binary_read_json_as_string''"

definition BLOCK_FLUSH_BYTES :: nat where "BLOCK_FLUSH_BYTES = 2 ^ 20"

section \<open>Errors of a sink\<close>

definition SCHEMA_DRIFT_CODES :: "int list" where
  "SCHEMA_DRIFT_CODES = [6, 8, 16, 26, 27, 41, 44, 47, 53, 117]"

definition is_transport_failure :: "error \<Rightarrow> bool" where
  "is_transport_failure e = is_retriable_transport e"

definition error_code :: "host \<Rightarrow> error \<Rightarrow> int option" where
  "error_code h e = (case e of
     ServerException code _ _ _ \<Rightarrow> Some code
   | BadResponse r \<Rightarrow> map_option px_code (parse_exception (case r of ResponseBody s \<Rightarrow> s | _ \<Rightarrow> h_body h r))
   | _ \<Rightarrow> None)"

definition drift_text :: "string \<Rightarrow> bool" where
  "drift_text msg \<longleftrightarrow> list_ex (\<lambda>pat. contains pat msg)
    [''UNKNOWN_IDENTIFIER'', ''NO_SUCH_COLUMN'', ''THERE_IS_NO_COLUMN'', ''TYPE_MISMATCH'', ''ILLEGAL_COLUMN'',
     ''CANNOT_PARSE'', ''cannot parse'', ''INCORRECT_DATA'', ''incorrect data'']"

definition classify_error :: "host \<Rightarrow> string \<Rightarrow> error \<Rightarrow> dynamic_error" where
  "classify_error h full_table e =
    (if is_transport_failure e then Transport full_table e
     else let msg = h_text h e;
              mismatch = (case error_code h e of Some code \<Rightarrow> code \<in> set SCHEMA_DRIFT_CODES | None \<Rightarrow> drift_text msg)
          in if mismatch then DynSchemaMismatch full_table msg else EncodingError [] msg)"

section \<open>Row blocks\<close>

text \<open>A spare buffer is cleared before it is used again, so only their number is kept.\<close>

record RowBlock =
  rb_rows :: "byte list list"
  rb_spare :: nat
  rb_bytes :: nat

definition block_default :: RowBlock where
  "block_default = \<lparr> rb_rows = [], rb_spare = 0, rb_bytes = 0 \<rparr>"

definition block_push :: "platform \<Rightarrow> DynamicRow \<Rightarrow> RowBlock \<Rightarrow> unit dres \<times> RowBlock" where
  "block_push env r b =
    (let spare = rb_spare b - 1 in
     case encode_row env r of
       Inl e \<Rightarrow> (Inl e, b\<lparr> rb_spare := Suc spare \<rparr>)
     | Inr buf \<Rightarrow> (Inr (), \<lparr> rb_rows = rb_rows b @ [buf], rb_spare = spare, rb_bytes = rb_bytes b + length buf \<rparr>))"

definition block_is_full :: "u64 \<Rightarrow> RowBlock \<Rightarrow> bool" where
  "block_is_full row_cap b \<longleftrightarrow> rb_bytes b \<ge> BLOCK_FLUSH_BYTES \<or> (of_nat (length (rb_rows b)) :: u64) \<ge> row_cap"

definition block_recycle :: "RowBlock \<Rightarrow> RowBlock" where
  "block_recycle b = \<lparr> rb_rows = [], rb_spare = rb_spare b + length (rb_rows b), rb_bytes = 0 \<rparr>"

definition send_block ::
    "host \<Rightarrow> TcpInsertSession \<Rightarrow> ColumnSchema list \<Rightarrow> string \<Rightarrow> RowBlock \<Rightarrow> (unit dres \<times> RowBlock) act" where
  "send_block h ses native full_table b =
    (if rb_rows b = [] then aret (Inr (), b)
     else case encode_columns (rb_rows b) native (is_server_revision ses) of
       Inl e \<Rightarrow> aret (Inl (classify_error h full_table e), b)
     | Inr bytes \<Rightarrow>
         abind (session_send_block bytes (of_nat (length native)) (of_nat (length (rb_rows b)))) (\<lambda>r.
           aret (map_sum (classify_error h full_table) id r, block_recycle b)))"

section \<open>Inserts\<close>

text \<open>The HTTP sink is the statement, whether the JSON setting is sent, and the bytes written to it so far.\<close>

datatype OpenSink =
    HttpSink string bool "byte list"
  | TcpSink TcpInsertSession "ColumnSchema list" RowBlock

record Active =
  at_columns :: "ColumnDef list"
  at_sink :: OpenSink

datatype 't Backend = HttpBackend | TcpBackend "'t TcpClient"

record 't DynamicInsert =
  di_backend :: "'t Backend"
  di_database :: string
  di_table :: string
  di_schema :: "DynamicSchema option"
  di_active :: "Active option"
  di_rows_written :: u64

definition http_insert :: "string \<Rightarrow> string \<Rightarrow> 't DynamicInsert" where
  "http_insert database tab = \<lparr> di_backend = HttpBackend, di_database = database, di_table = tab, di_schema = None,
    di_active = None, di_rows_written = 0 \<rparr>"

definition tcp_insert :: "'t TcpClient \<Rightarrow> string \<Rightarrow> string \<Rightarrow> DynamicSchema \<Rightarrow> 't DynamicInsert" where
  "tcp_insert client database tab schema = \<lparr> di_backend = TcpBackend client, di_database = database, di_table = tab,
    di_schema = Some schema, di_active = None, di_rows_written = 0 \<rparr>"

definition full_table :: "'t DynamicInsert \<Rightarrow> string" where
  "full_table i = di_database i @ ''.'' @ di_table i"

definition ensure_schema :: "host \<Rightarrow> 't DynamicInsert \<Rightarrow> world \<Rightarrow> unit dres \<times> 't DynamicInsert \<times> world" where
  "ensure_schema h i w =
    (if di_schema i \<noteq> None then (Inr (), i, w)
     else case di_backend i of
       TcpBackend _ \<Rightarrow> (Inr (), i, w)
     | HttpBackend \<Rightarrow>
         (case cache_get (w_now w) (w_cache w) (full_table i) of
            Some cached \<Rightarrow> (Inr (), i\<lparr> di_schema := Some cached \<rparr>, w)
          | None \<Rightarrow>
              (case fetch_dynamic_schema (h_escape h) (w_query w) (di_database i) (di_table i) of
                 Inl e \<Rightarrow> (Inl e, i, w)
               | Inr fetched \<Rightarrow> (Inr (), i\<lparr> di_schema := Some fetched \<rparr>,
                   w\<lparr> w_cache := cache_insert (w_now w) (full_table i) fetched (w_cache w) \<rparr>))))"

definition select_columns :: "row \<Rightarrow> string list \<Rightarrow> DynamicSchema \<Rightarrow> ColumnDef list" where
  "select_columns r raw_names schema =
    filter (\<lambda>c. cd_name c \<in> fst ` set r \<or> cd_name c \<in> set raw_names \<or> \<not> cd_has_default c) (ds_columns schema)"

fun join :: "string \<Rightarrow> string list \<Rightarrow> string" where
  "join sep [] = []"
| "join sep [s] = s"
| "join sep (s # t # ts) = s @ sep @ join sep (t # ts)"

definition insert_sql :: "host \<Rightarrow> 't DynamicInsert \<Rightarrow> ColumnDef list \<Rightarrow> string \<Rightarrow> string" where
  "insert_sql h i columns format =
    ''INSERT INTO '' @ h_escape h (di_database i) @ ''.'' @ h_escape h (di_table i) @
    '' ('' @ join '', '' (map (\<lambda>c. h_escape h (cd_name c)) columns) @ '') FORMAT '' @ format"

text \<open>Opening the session: a connection from the pool, then the INSERT statement.\<close>

definition open_session :: "'t TcpClient \<Rightarrow> string \<Rightarrow> world \<Rightarrow> (TcpInsertSession result \<times> world) option" where
  "open_session client sql w =
    (case w_acquire w of
       Inl e \<Rightarrow> Some (Inl (map_pool_error e), w)
     | Inr conn \<Rightarrow>
         map_option (\<lambda>(r, w'). (case r of Some s \<Rightarrow> s | None \<Rightarrow> Inl (Custom ''tcp: connection actor dropped begin_insert reply''), w'))
           (on_connection (insert_native_via_pool Kept [] sql (insert_settings client)) (w\<lparr> w_conn := conn \<rparr>)))"

definition ensure_active ::
    "host \<Rightarrow> row \<Rightarrow> string list \<Rightarrow> 't DynamicInsert \<Rightarrow> world \<Rightarrow> (unit dres \<times> 't DynamicInsert \<times> world) option" where
  "ensure_active h r raw_names i w =
    (if di_active i \<noteq> None then Some (Inr (), i, w)
     else case di_schema i of
       None \<Rightarrow> Some (Inl (EncodingError [] ''schema not available after fetch''), i, w)
     | Some schema \<Rightarrow>
         (let columns = select_columns r raw_names schema in
          if columns = [] then Some (Inl (EncodingError [] ''no columns to insert for this row''), i, w)
          else case di_backend i of
            HttpBackend \<Rightarrow>
              Some (Inr (), i\<lparr> di_active := Some \<lparr> at_columns = columns,
                at_sink = HttpSink (insert_sql h i columns ''RowBinary'') (has_json_columns schema) [] \<rparr> \<rparr>, w)
          | TcpBackend client \<Rightarrow>
              (case from_headers (map (\<lambda>c. (cd_name c, pt_raw (cd_ty c))) columns) of
                 Inl e \<Rightarrow> Some (Inl (classify_error h (full_table i) e), i, w)
               | Inr native \<Rightarrow>
                   map_option (\<lambda>(r, w'). case r of
                       Inl e \<Rightarrow> (Inl (classify_error h (full_table i) e), i, w')
                     | Inr ses \<Rightarrow> (Inr (), i\<lparr> di_active := Some \<lparr> at_columns = columns,
                         at_sink = TcpSink ses native block_default \<rparr> \<rparr>, w'))
                     (open_session client (insert_sql h i columns ''Native'') w))))"

text \<open>The end of \<open>write\<close>, once the sink is open.\<close>

definition write_sink ::
    "host \<Rightarrow> row \<Rightarrow> (string \<times> byte list) option \<Rightarrow> 't DynamicInsert \<Rightarrow> world \<Rightarrow> (unit dres \<times> 't DynamicInsert \<times> world) option" where
  "write_sink h r passthrough i w =
    (case di_active i of
       None \<Rightarrow> Some (Inl (EncodingError [] ''insert sink not initialised''), i, w)
     | Some a \<Rightarrow>
         (let dynamic_row = \<lparr> dr_row = r, dr_columns = at_columns a, dr_raw = passthrough \<rparr>;
              keep = (\<lambda>sink j. j\<lparr> di_active := Some (a\<lparr> at_sink := sink \<rparr>) \<rparr>);
              counted = (\<lambda>j. j\<lparr> di_rows_written := di_rows_written j + 1 \<rparr>)
          in case at_sink a of
               HttpSink sql json bytes \<Rightarrow>
                 (case encode_row (h_platform h) dynamic_row of
                    Inl e \<Rightarrow> Some (Inl e, i, w)
                  | Inr bs \<Rightarrow> Some (Inr (), counted (keep (HttpSink sql json (bytes @ bs)) i), w))
             | TcpSink ses native block \<Rightarrow>
                 (case block_push (h_platform h) dynamic_row block of
                    (Inl e, block') \<Rightarrow> Some (Inl e, keep (TcpSink ses native block') i, w)
                  | (Inr _, block') \<Rightarrow>
                      if block_is_full DEFAULT_TCP_INSERT_BLOCK_ROWS block'
                      then map_option (\<lambda>((r, block''), w'). case r of
                               Inl e \<Rightarrow> (Inl e, keep (TcpSink ses native block'') i, w')
                             | Inr _ \<Rightarrow> (Inr (), counted (keep (TcpSink ses native block'') i), w'))
                             (on_connection (send_block h ses native (full_table i) block') w)
                      else Some (Inr (), counted (keep (TcpSink ses native block') i), w))))"

definition write_row ::
    "host \<Rightarrow> row \<Rightarrow> string list \<Rightarrow> (string \<times> byte list) option \<Rightarrow> 't DynamicInsert \<Rightarrow> world \<Rightarrow> (unit dres \<times> 't DynamicInsert \<times> world) option" where
  "write_row h r raw_names passthrough i w =
    (case ensure_schema h i w of
       (Inl e, i1, w1) \<Rightarrow> Some (Inl e, i1, w1)
     | (Inr _, i1, w1) \<Rightarrow>
         (case ensure_active h r raw_names i1 w1 of
            None \<Rightarrow> None
          | Some (Inl e, i2, w2) \<Rightarrow> Some (Inl e, i2, w2)
          | Some (Inr _, i2, w2) \<Rightarrow> write_sink h r passthrough i2 w2))"

definition write_map :: "host \<Rightarrow> row \<Rightarrow> 't DynamicInsert \<Rightarrow> world \<Rightarrow> (unit dres \<times> 't DynamicInsert \<times> world) option" where
  "write_map h r = write_row h r [] None"

definition write_map_with_raw ::
    "host \<Rightarrow> row \<Rightarrow> string \<times> byte list \<Rightarrow> 't DynamicInsert \<Rightarrow> world \<Rightarrow> (unit dres \<times> 't DynamicInsert \<times> world) option" where
  "write_map_with_raw h r passthrough = write_row h r [fst passthrough] (Some passthrough)"

definition invalidate_schema :: "'t DynamicInsert \<Rightarrow> world \<Rightarrow> 't DynamicInsert \<times> world" where
  "invalidate_schema i w =
    (case di_backend i of
       HttpBackend \<Rightarrow> (i\<lparr> di_schema := None \<rparr>, w\<lparr> w_cache := invalidate (full_table i) (w_cache w) \<rparr>)
     | TcpBackend _ \<Rightarrow> (i, w))"

definition end_sink :: "host \<Rightarrow> 't DynamicInsert \<Rightarrow> world \<Rightarrow> (unit dres \<times> world) option" where
  "end_sink h i w =
    (case di_active i of
       None \<Rightarrow> Some (Inr (), w)
     | Some a \<Rightarrow>
         (case at_sink a of
            HttpSink sql json bytes \<Rightarrow>
              Some (case w_http_end w sql json bytes of Some e \<Rightarrow> Inl (classify_error h (full_table i) e) | None \<Rightarrow> Inr (), w)
          | TcpSink ses native block \<Rightarrow>
              on_connection (abind (send_block h ses native (full_table i) block) (\<lambda>(r, block').
                case r of
                  Inl e \<Rightarrow> abind (session_abort ses) (\<lambda>s. abind (session_drop s) (\<lambda>_. aret (Inl e)))
                | Inr _ \<Rightarrow> abind (session_finish ses) (\<lambda>(x, s). abind (session_drop s) (\<lambda>_.
                    aret (map_sum (classify_error h (full_table i)) id x))))) w))"

definition end_insert :: "host \<Rightarrow> 't DynamicInsert \<Rightarrow> world \<Rightarrow> (u64 dres \<times> world) option" where
  "end_insert h i w =
    map_option (\<lambda>(outcome, w'). case outcome of
        Inl err \<Rightarrow> (Inl err, case err of DynSchemaMismatch _ _ \<Rightarrow> snd (invalidate_schema i w') | _ \<Rightarrow> w')
      | Inr _ \<Rightarrow> (Inr (di_rows_written i), w'))
      (end_sink h i w)"

end
