(* ===== verification/InsertDelivery.thy ===== *)
theory InsertDelivery
  imports DynInsert
begin

text \<open>
  What a dynamic insert delivers: every row it accepted, once and in order, in blocks of bounded size, and nothing
  else; and how a stale schema is found out and replaced.
\<close>

section \<open>What a successful step has sent\<close>

lemma map_option_SomeD: "map_option f m = Some y \<Longrightarrow> \<exists>z. m = Some z \<and> f z = y"
  by (cases m) auto

lemma send_insert_block_sent:
  assumes "do_send_insert_block bytes nc nr a es = Some (Inr u, b, es')"
  shows "b = a\<lparr> ac_wire := ac_wire a @ send_data_block (ac_revision a) [] bytes nc nr \<rparr> \<and> length bytes \<le> MAX_INSERT_BLOCK_BYTES"
proof (cases "length bytes > MAX_INSERT_BLOCK_BYTES")
  case False
  with assms obtain x c fs where d: "drain_queued a es = Some (x, c, fs)"
    and k: "(case x of Some e \<Rightarrow> aret (Inl e)
       | None \<Rightarrow> abind (bounded_io True (send_data_block (ac_revision a) [] bytes nc nr)) (\<lambda>result.
           case result of Inl e \<Rightarrow> abind poison (\<lambda>_. abind (set_state Idle) (\<lambda>_. aret result)) | Inr _ \<Rightarrow> aret result))
      c fs = Some (Inr u, b, es')"
    by (auto simp: do_send_insert_block_def abind_eq_Some)
  have x: "x = None" using k by (cases x) (auto simp: aret_eq_Some)
  then have "c = a" using drain_queued_cases [OF d] by simp
  with k x obtain y c' gs where w: "bounded_io True (send_data_block (ac_revision a) [] bytes nc nr) a fs = Some (y, c', gs)"
    and y: "(case y of Inl e \<Rightarrow> abind poison (\<lambda>_. abind (set_state Idle) (\<lambda>_. aret y)) | Inr _ \<Rightarrow> aret y) c' gs = Some (Inr u, b, es')"
    by (auto simp: abind_eq_Some)
  have "y = Inr () \<and> b = c'" using y by (cases y) (auto simp: act_eqs)
  then show ?thesis using bounded_io_cases [OF w] False by auto
qed (use assms in \<open>simp add: do_send_insert_block_def aret_eq_Some\<close>)

lemma session_send_block_sent:
  assumes "session_send_block bytes nc nr a es = Some (Inr u, b, es')"
  shows "b = a\<lparr> ac_wire := ac_wire a @ send_data_block (ac_revision a) [] bytes nc nr \<rparr> \<and> length bytes \<le> MAX_INSERT_BLOCK_BYTES"
proof -
  from assms obtain reply c fs where h: "handle (SendInsertBlock bytes nc nr) a es = Some (reply, c, fs)"
    and k: "(case answer_of ''send_insert_block'' reply of
        Inl e \<Rightarrow> abind (poison_unless_server_rejected e) (\<lambda>_. aret (Inl e)) | Inr _ \<Rightarrow> aret (Inr ())) c fs = Some (Inr u, b, es')"
    by (auto simp: session_send_block_def abind_eq_Some)
  have r: "answer_of ''send_insert_block'' reply = Inr ()" "b = c"
    using k by (cases "answer_of ''send_insert_block'' reply"; auto simp: act_eqs)+
  then have "reply = Answer (Inr ())" by (cases reply) (auto simp: answer_of_def)
  with h r(2) have "do_send_insert_block bytes nc nr a es = Some (Inr (), b, fs)"
    by (cases "ac_state a") (auto simp: handle_def continues_insert_def act_eqs no_insert_def)
  then show ?thesis by (rule send_insert_block_sent)
qed

lemma finish_sent:
  assumes "session_finish s a es = Some ((Inr u, s'), b, es')"
  shows "ac_wire b = ac_wire a @ send_empty_block (ac_revision a) \<and> ac_state b = Idle \<and> is_settled s'"
proof -
  from assms obtain reply c fs where h: "handle FinishInsert a es = Some (reply, c, fs)"
    and k: "(case answer_of ''finish_insert'' reply of Inl e \<Rightarrow> poison_unless_server_rejected e | Inr _ \<Rightarrow> aret ()) c fs = Some ((), b, es')"
    and r: "Inr u = answer_of ''finish_insert'' reply" and s: "s' = s\<lparr> is_settled := True \<rparr>"
    by (auto simp: session_finish_def act_eqs)
  have b: "b = c" using k unfolding r [symmetric] by (simp add: aret_eq_Some)
  from r have "reply = Answer (Inr ())" by (cases reply) (auto simp: answer_of_def)
  with h obtain d where d: "do_finish_insert a es = Some (Inr (), d, fs)" and c: "c = d\<lparr> ac_state := Idle \<rparr>"
    by (cases "ac_state a") (auto simp: handle_def continues_insert_def act_eqs no_insert_def)
  from d obtain x e gs where w: "bounded_io True (send_empty_block (ac_revision a)) a es = Some (x, e, gs)"
    and k: "(case x of Inl e \<Rightarrow> poisoned_with e | Inr _ \<Rightarrow> drain_to_end_of_stream) e gs = Some (Inr (), d, fs)"
    by (auto simp: do_finish_insert_def abind_eq_Some)
  have x: "x = Inr ()" using k by (cases x) (auto simp: poisoned_with_eq_Some)
  then have "sent [] e d" using k drain_sent by auto
  then show ?thesis using bounded_io_cases [OF w] x b c s by (auto simp: sent_def)
qed

lemma issue_query_sent:
  assumes "issue_query query_id query settings params a es = Some (Inr u, b, es')"
  shows "b = a\<lparr> ac_wire := ac_wire a @ statement_bytes a query_id query settings params \<rparr>"
proof -
  obtain bytes refused where q: "send_query (ac_revision a) query_id query settings params (client_info_for a query_id) = (bytes, refused)"
    by fastforce
  from assms obtain x c fs where w: "write_packet bytes a es = Some (x, c, fs)"
    and k: "(case x of Inl e \<Rightarrow> aret (Inl e) | Inr _ \<Rightarrow> (case refused of Inl e \<Rightarrow> aret (Inl e)
      | Inr _ \<Rightarrow> write_packet (send_empty_block (ac_revision a)))) c fs = Some (Inr u, b, es')"
    by (auto simp: issue_query_def q abind_eq_Some)
  have "x = Inr ()" "refused = Inr ()" using k by (cases x; cases refused; auto simp: aret_eq_Some)+
  with k have "write_packet (send_empty_block (ac_revision a)) c fs = Some (Inr u, b, es')" by simp
  from bounded_io_cases [OF this] bounded_io_cases [OF w] \<open>x = Inr ()\<close>
  show ?thesis by (auto simp: statement_bytes_def q)
qed

lemma begin_sent:
  assumes "handle (BeginInsert query_id query settings params) a es = Some (Columns (Inr columns), b, es')"
  shows "ac_wire b = ac_wire a @ statement_bytes a query_id query settings params \<and> ac_revision b = ac_revision a"
proof -
  from assms obtain x c fs where d: "do_begin_insert query_id query settings params a es = Some (x, c, fs)"
    and k: "(case x of Inl _ \<Rightarrow> aret (Columns x) | Inr _ \<Rightarrow> abind (set_state InsertActive) (\<lambda>_. aret (Columns x))) c fs =
      Some (Columns (Inr columns), b, es')"
    by (cases "ac_state a") (auto simp: handle_def continues_insert_def reject_poisoned_def abind_eq_Some aret_eq_Some split: if_splits)
  have x: "x = Inr columns" "b = c\<lparr> ac_state := InsertActive \<rparr>" using k by (cases x; auto simp: act_eqs)+
  from d obtain y e gs where i: "issue_query query_id query settings params a es = Some (y, e, gs)"
    and l: "(case y of Inl e \<Rightarrow> poisoned_with e | Inr _ \<Rightarrow> begin_loop) e gs = Some (x, c, fs)"
    by (auto simp: do_begin_insert_def abind_eq_Some)
  have y: "y = Inr ()" using l x by (cases y) (auto simp: poisoned_with_eq_Some)
  then have "sent [] e c" using l begin_loop_sent by auto
  then show ?thesis using issue_query_sent i y x(2) by (fastforce simp: sent_def same_config_def)
qed

lemma open_session_sent:
  assumes "open_session client sql w = Some (Inr ses, w')"
  shows "\<exists>conn. w_acquire w = Inr conn \<and>
    ac_wire (w_conn w') = ac_wire conn @ statement_bytes conn [] sql (insert_settings client) [] \<and>
    ac_revision (w_conn w') = ac_revision conn \<and> is_server_revision ses = ac_revision conn \<and> \<not> is_settled ses"
proof -
  from assms obtain conn r w1 where conn: "w_acquire w = Inr conn"
    and m: "insert_native_via_pool Kept [] sql (insert_settings client) conn (w_events w) = Some (Some (Inr ses), w_conn w', w_events w')"
    by (auto simp: open_session_def on_connection_def split: sum.splits option.splits)
  have ns: "\<not> is_settled ses" using insert_unsettled [OF m] .
  from m obtain x c fs where b: "begin_insert Kept [] sql (insert_settings client) [] conn (w_events w) = Some (x, c, fs)"
    and k: "(case x of None \<Rightarrow> aret None c
        | Some (Inl e) \<Rightarrow> abind (poison_unless_server_rejected e) (\<lambda>_. aret (Some (Inl e))) c
        | Some (Inr cols) \<Rightarrow> aret (Some (Inr \<lparr> is_settled = False, is_server_columns = cols, is_server_revision = ac_revision c \<rparr>)) c) fs =
        Some (Some (Inr ses), w_conn w', w_events w')"
    unfolding insert_native_via_pool_def abind_eq_Some by auto
  obtain cols where x: "x = Some (Inr cols)" "w_conn w' = c" "is_server_revision ses = ac_revision c"
    using k by (auto simp: act_eqs split: option.splits sum.splits)
  from b x(1) obtain q where q: "handle (BeginInsert [] sql (insert_settings client) []) conn (w_events w) = Some (q, c, fs)"
    "(case q of Columns r \<Rightarrow> Some r | _ \<Rightarrow> None) = Some (Inr cols)"
    by (auto simp: begin_insert_def act_eqs Let_def)
  then have "handle (BeginInsert [] sql (insert_settings client) []) conn (w_events w) = Some (Columns (Inr cols), c, fs)"
    by (cases q) auto
  from begin_sent [OF this] show ?thesis using conn x ns by auto
qed

section \<open>Blocks of rows\<close>

text \<open>A block as it is framed, and the blocks an insert may send: not empty, flushed as soon as they are full.\<close>

definition frame_of :: "ColumnSchema list \<Rightarrow> u64 \<Rightarrow> byte list list \<Rightarrow> byte list \<times> u64 \<times> u64" where
  "frame_of native revision rows = (projr (encode_columns rows native revision), of_nat (length native), of_nat (length rows))"

definition flushed :: "ColumnSchema list \<Rightarrow> u64 \<Rightarrow> byte list list \<Rightarrow> bool" where
  "flushed native revision rows \<longleftrightarrow> rows \<noteq> [] \<and> sum_list (map length (butlast rows)) < BLOCK_FLUSH_BYTES \<and>
    length rows \<le> unat DEFAULT_TCP_INSERT_BLOCK_ROWS \<and>
    (\<exists>body. encode_columns rows native revision = Inr body \<and> length body \<le> MAX_INSERT_BLOCK_BYTES)"

text \<open>A block that waits for more rows.\<close>

definition waiting :: "RowBlock \<Rightarrow> bool" where
  "waiting b \<longleftrightarrow> rb_bytes b = sum_list (map length (rb_rows b)) \<and> rb_bytes b < BLOCK_FLUSH_BYTES \<and>
    length (rb_rows b) < unat DEFAULT_TCP_INSERT_BLOCK_ROWS"

lemma row_cap [simp]: "unat DEFAULT_TCP_INSERT_BLOCK_ROWS = 1000000"
  by (simp add: DEFAULT_TCP_INSERT_BLOCK_ROWS_def)

lemma waiting_not_full:
  assumes "rb_bytes b = sum_list (map length (rb_rows b))" "length (rb_rows b) \<le> 1000000"
  shows "waiting b \<longleftrightarrow> \<not> block_is_full DEFAULT_TCP_INSERT_BLOCK_ROWS b"
proof -
  have "unat (of_nat (length (rb_rows b)) :: u64) = length (rb_rows b)"
    using assms(2) by (simp add: unsigned_of_nat take_bit_nat_eq_self_iff)
  then show ?thesis using assms(1) unfolding waiting_def block_is_full_def by (simp add: word_le_nat_alt not_le)
qed

lemma send_block_sent:
  assumes "send_block h ses native full b a es = Some ((Inr u, b'), a', es')" "is_server_revision ses = ac_revision a"
  shows "rb_rows b = [] \<and> b' = b \<and> a' = a \<or>
    rb_rows b \<noteq> [] \<and> b' = block_recycle b \<and>
    a' = a\<lparr> ac_wire := ac_wire a @ block_packets (ac_revision a) [frame_of native (ac_revision a) (rb_rows b)] \<rparr> \<and>
    (\<exists>body. encode_columns (rb_rows b) native (ac_revision a) = Inr body \<and> length body \<le> MAX_INSERT_BLOCK_BYTES)"
proof (cases "rb_rows b = []")
  case False
  with assms obtain body where body: "encode_columns (rb_rows b) native (ac_revision a) = Inr body"
    by (auto simp: send_block_def aret_eq_Some split: sum.splits)
  with assms False obtain r where r: "session_send_block body (of_nat (length native)) (of_nat (length (rb_rows b))) a es = Some (r, a', es')"
    and "Inr u = map_sum (classify_error h full) id r" "b' = block_recycle b"
    by (auto simp: send_block_def act_eqs)
  moreover from this obtain v where "r = Inr v" by (cases r) auto
  ultimately show ?thesis using session_send_block_sent [of body] body False
    by (auto simp: block_packets_def frame_of_def)
qed (use assms in \<open>auto simp: send_block_def aret_eq_Some\<close>)

section \<open>Every accepted row, once\<close>

text \<open>
  Between writes: the rows accepted so far are those of the blocks on the wire followed by those that wait.
\<close>

definition delivering ::
    "ColumnDef list \<Rightarrow> ColumnSchema list \<Rightarrow> TcpInsertSession \<Rightarrow> byte list \<Rightarrow> byte list list \<Rightarrow> byte list list list \<Rightarrow> 't DynamicInsert \<Rightarrow> world \<Rightarrow> bool" where
  "delivering columns native ses base rows blocks i w \<longleftrightarrow> (\<exists>block.
    di_schema i \<noteq> None \<and> di_active i = Some \<lparr> at_columns = columns, at_sink = TcpSink ses native block \<rparr> \<and>
    di_rows_written i = of_nat (length rows) \<and> rows = concat blocks @ rb_rows block \<and> waiting block \<and>
    (\<forall>b\<in>set blocks. flushed native (is_server_revision ses) b) \<and>
    is_server_revision ses = ac_revision (w_conn w) \<and>
    ac_wire (w_conn w) = base @ block_packets (is_server_revision ses) (map (frame_of native (is_server_revision ses)) blocks))"

text \<open>The answer a row deserves: whether it encodes.\<close>

definition answer_to :: "host \<Rightarrow> ColumnDef list \<Rightarrow> row \<Rightarrow> unit dres" where
  "answer_to h columns r = (case encode_row (h_platform h) (row_of columns r) of Inl e \<Rightarrow> Inl e | Inr _ \<Rightarrow> Inr ())"

lemma block_packets_append: "block_packets sr (bs @ cs) = block_packets sr bs @ block_packets sr cs"
  by (simp add: block_packets_def)

lemma write_sink_sends:
  assumes "write_sink h r None i w = Some (x, i', w')" "x = Inr ()"
    and "di_active i = Some \<lparr> at_columns = columns, at_sink = TcpSink ses native block \<rparr>"
    and "block_push (h_platform h) \<lparr> dr_row = r, dr_columns = columns, dr_raw = None \<rparr> block = (Inr (), block')"
    and "block_is_full DEFAULT_TCP_INSERT_BLOCK_ROWS block'"
  shows "\<exists>block''. send_block h ses native (full_table i) block' (w_conn w) (w_events w) = Some ((Inr (), block''), w_conn w', w_events w') \<and>
    i' = i\<lparr> di_active := Some \<lparr> at_columns = columns, at_sink = TcpSink ses native block'' \<rparr>, di_rows_written := di_rows_written i + 1 \<rparr>"
proof -
  let ?kept = "\<lambda>b. i\<lparr> di_active := Some \<lparr> at_columns = columns, at_sink = TcpSink ses native b \<rparr> \<rparr>"
  let ?F = "\<lambda>((y, b), w1). case y of Inl e \<Rightarrow> (Inl e, ?kept b, w1)
      | Inr _ \<Rightarrow> (Inr (), (?kept b)\<lparr> di_rows_written := di_rows_written (?kept b) + 1 \<rparr>, w1)"
  have "write_sink h r None i w = map_option ?F (on_connection (send_block h ses native (full_table i) block') w)"
    using assms(3-5) by (simp add: write_sink_def Let_def)
  from map_option_SomeD [OF this [symmetric, unfolded assms(1)]]
  obtain z where z: "on_connection (send_block h ses native (full_table i) block') w = Some z" "?F z = (x, i', w')" by blast
  obtain y block'' w1 where zz: "z = ((y, block''), w1)" by (metis prod.exhaust)
  have k: "(case y of Inl e \<Rightarrow> (Inl e, ?kept block'', w1)
      | Inr _ \<Rightarrow> (Inr (), (?kept block'')\<lparr> di_rows_written := di_rows_written (?kept block'') + 1 \<rparr>, w1)) = (x, i', w')"
    using z(2) unfolding zz by (simp only: prod.case)
  then have "y = Inr ()" "w1 = w'" using assms(2) by (cases y; auto)+
  with z(1) k show ?thesis unfolding zz by (intro exI [of _ block'']) (auto simp: on_connection_def)
qed

lemma delivering_flush:
  assumes "di_schema i \<noteq> None" "di_rows_written i = of_nat (length rows)" "rows = concat blocks @ rb_rows block" "waiting block"
    and "\<forall>b\<in>set blocks. flushed native (is_server_revision ses) b" "is_server_revision ses = ac_revision (w_conn w)"
    and "ac_wire (w_conn w) = base @ block_packets (is_server_revision ses) (map (frame_of native (is_server_revision ses)) blocks)"
    and "rb_rows block' = rb_rows block @ [bs]" "length (rb_rows block') \<le> 1000000"
    and sent: "send_block h ses native full block' (w_conn w) (w_events w) = Some ((Inr (), block''), w_conn w', w_events w')"
  shows "delivering columns native ses base (rows @ [bs]) (blocks @ [rb_rows block'])
    (i\<lparr> di_active := Some \<lparr> at_columns = columns, at_sink = TcpSink ses native block'' \<rparr>, di_rows_written := di_rows_written i + 1 \<rparr>) w'"
proof -
  from send_block_sent [OF sent assms(6)] assms(8) obtain body where
    sent: "block'' = block_recycle block'" "encode_columns (rb_rows block') native (ac_revision (w_conn w)) = Inr body"
      "length body \<le> MAX_INSERT_BLOCK_BYTES"
      "w_conn w' = (w_conn w)\<lparr> ac_wire := ac_wire (w_conn w) @
        block_packets (ac_revision (w_conn w)) [frame_of native (ac_revision (w_conn w)) (rb_rows block')] \<rparr>" by auto
  have "flushed native (is_server_revision ses) (rb_rows block')"
    using sent(2,3) assms(4,6,8,9) by (auto simp: flushed_def waiting_def)
  moreover have "waiting block''" by (simp add: sent(1) block_recycle_def waiting_def BLOCK_FLUSH_BYTES_def)
  moreover have "concat (blocks @ [rb_rows block']) @ rb_rows block'' = rows @ [bs]"
    by (simp add: assms(3,8) sent(1) block_recycle_def)
  ultimately show ?thesis using assms(1-7) sent(4) by (auto simp: delivering_def block_packets_append)
qed

lemma write_sink_delivers:
  assumes "delivering columns native ses base rows blocks i w"
    and "write_sink h r None i w = Some (x, i', w')"
    and "x = answer_to h columns r"
  shows "\<exists>blocks'. delivering columns native ses base
    (rows @ (case encode_row (h_platform h) (row_of columns r) of Inl _ \<Rightarrow> [] | Inr bs \<Rightarrow> [bs])) blocks' i' w'"
proof -
  from assms(1) obtain block where b: "di_schema i \<noteq> None" "di_active i = Some \<lparr> at_columns = columns, at_sink = TcpSink ses native block \<rparr>"
    "di_rows_written i = of_nat (length rows)" "rows = concat blocks @ rb_rows block" "waiting block"
    "\<forall>b\<in>set blocks. flushed native (is_server_revision ses) b" "is_server_revision ses = ac_revision (w_conn w)"
    "ac_wire (w_conn w) = base @ block_packets (is_server_revision ses) (map (frame_of native (is_server_revision ses)) blocks)"
    unfolding delivering_def by blast
  show ?thesis
  proof (cases "encode_row (h_platform h) (row_of columns r)")
    case (Inl e)
    then have "i' = i\<lparr> di_active := Some \<lparr> at_columns = columns, at_sink = TcpSink ses native (block\<lparr> rb_spare := Suc (rb_spare block - 1) \<rparr>) \<rparr> \<rparr>" "w' = w"
      using assms(2) b(2) by (auto simp: write_sink_def block_push_def row_of_def Let_def)
    then show ?thesis using b Inl
      by (intro exI [of _ blocks]) (simp add: delivering_def waiting_def)
  next
    case (Inr bs)
    define block' where "block' = \<lparr> rb_rows = rb_rows block @ [bs], rb_spare = rb_spare block - 1, rb_bytes = rb_bytes block + length bs \<rparr>"
    have sums: "rb_bytes block' = sum_list (map length (rb_rows block'))" "length (rb_rows block') \<le> 1000000"
      using b(5) by (auto simp: block'_def waiting_def)
    have push: "block_push (h_platform h) \<lparr> dr_row = r, dr_columns = columns, dr_raw = None \<rparr> block = (Inr (), block')"
      using Inr by (simp add: block_push_def row_of_def block'_def)
    show ?thesis
    proof (cases "block_is_full DEFAULT_TCP_INSERT_BLOCK_ROWS block'")
      case False
      then have "i' = i\<lparr> di_active := Some \<lparr> at_columns = columns, at_sink = TcpSink ses native block' \<rparr>, di_rows_written := di_rows_written i + 1 \<rparr>" "w' = w"
        using assms(2) b(2) push by (auto simp: write_sink_def Let_def)
      moreover have "waiting block'" using False waiting_not_full [OF sums] by simp
      ultimately show ?thesis using b Inr
        by (intro exI [of _ blocks]) (simp add: delivering_def block'_def)
    next
      case True
      have "x = Inr ()" using assms(3) Inr by (simp add: answer_to_def)
      from write_sink_sends [OF assms(2) this b(2) push True] obtain block'' where
        sent: "send_block h ses native (full_table i) block' (w_conn w) (w_events w) = Some ((Inr (), block''), w_conn w', w_events w')"
        and i': "i' = i\<lparr> di_active := Some \<lparr> at_columns = columns, at_sink = TcpSink ses native block'' \<rparr>, di_rows_written := di_rows_written i + 1 \<rparr>"
        by blast
      have "rb_rows block' = rb_rows block @ [bs]" by (simp add: block'_def)
      from delivering_flush [OF b(1,3-8) this sums(2) sent] show ?thesis unfolding i' Inr by auto
    qed
  qed
qed

lemma write_sink_encodes:
  assumes "delivering columns native ses base rows blocks i w" "write_sink h r None i w = Some (Inr u, i', w')"
  shows "\<exists>bs. encode_row (h_platform h) (row_of columns r) = Inr bs"
proof (cases "encode_row (h_platform h) (row_of columns r)")
  case (Inl e)
  then show ?thesis using assms by (auto simp: delivering_def write_sink_def block_push_def row_of_def Let_def)
qed simp

text \<open>Writing rows one after the other, with the answer to each.\<close>

fun write_all :: "host \<Rightarrow> row list \<Rightarrow> 't DynamicInsert \<Rightarrow> world \<Rightarrow> (unit dres list \<times> 't DynamicInsert \<times> world) option" where
  "write_all h [] i w = Some ([], i, w)"
| "write_all h (r # rs) i w =
    (case write_map h r i w of
       None \<Rightarrow> None
     | Some (x, i', w') \<Rightarrow> map_option (\<lambda>(xs, i'', w''). (x # xs, i'', w'')) (write_all h rs i' w'))"

text \<open>The rows that encode, encoded.\<close>

definition encoded_rows_of :: "host \<Rightarrow> ColumnDef list \<Rightarrow> row list \<Rightarrow> byte list list" where
  "encoded_rows_of h columns rs = concat (map (\<lambda>r. case encode_row (h_platform h) (row_of columns r) of Inl _ \<Rightarrow> [] | Inr bs \<Rightarrow> [bs]) rs)"

lemma write_map_open:
  assumes "delivering columns native ses base rows blocks i w"
  shows "write_map h r i w = write_sink h r None i w"
  using assms by (auto simp: delivering_def write_map_def write_row_def ensure_schema_def ensure_active_def)

lemma write_all_delivers:
  assumes "delivering columns native ses base rows blocks i w" "write_all h rs i w = Some (xs, i', w')"
    and "xs = map (answer_to h columns) rs"
  shows "\<exists>blocks'. delivering columns native ses base (rows @ encoded_rows_of h columns rs) blocks' i' w'"
  using assms
proof (induction rs arbitrary: rows blocks i w xs)
  case Nil
  then show ?case by (auto simp: encoded_rows_of_def)
next
  case (Cons r rs)
  from Cons.prems(2) obtain x i1 w1 ys where s: "write_map h r i w = Some (x, i1, w1)"
    and t: "write_all h rs i1 w1 = Some (ys, i', w')" "xs = x # ys"
    by (auto split: option.splits)
  from s have "write_sink h r None i w = Some (x, i1, w1)" unfolding write_map_open [OF Cons.prems(1)] .
  from write_sink_delivers [OF Cons.prems(1) this] t(2) Cons.prems(3) obtain blocks1 where
    "delivering columns native ses base (rows @ (case encode_row (h_platform h) (row_of columns r) of Inl _ \<Rightarrow> [] | Inr bs \<Rightarrow> [bs])) blocks1 i1 w1"
    by auto
  from Cons.IH [OF this t(1)] t(2) Cons.prems(3) show ?case by (auto simp: encoded_rows_of_def)
qed

lemma end_sink_delivers:
  assumes "delivering columns native ses base rows blocks i w" "end_sink h i w = Some (Inr u, w')" "\<not> is_settled ses"
  shows "\<exists>blocks'. concat blocks' = rows \<and> (\<forall>b\<in>set blocks'. flushed native (is_server_revision ses) b) \<and>
    ac_wire (w_conn w') = base @ block_packets (is_server_revision ses) (map (frame_of native (is_server_revision ses)) blocks') @
      send_empty_block (is_server_revision ses) \<and> ac_state (w_conn w') = Idle"
proof -
  let ?rev = "is_server_revision ses"
  from assms(1) obtain block where b: "di_active i = Some \<lparr> at_columns = columns, at_sink = TcpSink ses native block \<rparr>"
    "rows = concat blocks @ rb_rows block" "waiting block" "\<forall>b\<in>set blocks. flushed native ?rev b" "?rev = ac_revision (w_conn w)"
    "ac_wire (w_conn w) = base @ block_packets ?rev (map (frame_of native ?rev) blocks)"
    unfolding delivering_def by blast
  from assms(2) b(1) obtain x block' a es where s: "send_block h ses native (full_table i) block (w_conn w) (w_events w) = Some ((x, block'), a, es)"
    and k: "(case x of
        Inl e \<Rightarrow> abind (session_abort ses) (\<lambda>s. abind (session_drop s) (\<lambda>_. aret (Inl e)))
      | Inr _ \<Rightarrow> abind (session_finish ses) (\<lambda>(x, s). abind (session_drop s) (\<lambda>_.
          aret (map_sum (classify_error h (full_table i)) id x)))) a es = Some (Inr u, w_conn w', w_events w')"
    by (auto simp: end_sink_def on_connection_def abind_eq_Some)
  have x: "x = Inr ()" using k by (cases x) (auto simp: act_eqs)
  with k obtain y s' c fs where f: "session_finish ses a es = Some ((y, s'), c, fs)"
    and d: "session_drop s' c fs = Some ((), w_conn w', w_events w')" "Inr u = map_sum (classify_error h (full_table i)) id y"
    by (auto simp: act_eqs)
  obtain v where y: "y = Inr v" using d(2) by (cases y) auto
  from finish_sent [OF f [unfolded y]] d(1) have fin: "ac_wire (w_conn w') = ac_wire a @ send_empty_block (ac_revision a)"
    "ac_state (w_conn w') = Idle" by (auto simp: session_drop_def aret_eq_Some)
  from send_block_sent [OF s [unfolded x] b(5)] show ?thesis
  proof (elim disjE conjE)
    assume "rb_rows block = []" "a = w_conn w"
    then show ?thesis using b fin by (intro exI [of _ blocks]) simp
  next
    assume m: "rb_rows block \<noteq> []" "a = (w_conn w)\<lparr> ac_wire := ac_wire (w_conn w) @
        block_packets (ac_revision (w_conn w)) [frame_of native (ac_revision (w_conn w)) (rb_rows block)] \<rparr>"
      "\<exists>body. encode_columns (rb_rows block) native (ac_revision (w_conn w)) = Inr body \<and> length body \<le> MAX_INSERT_BLOCK_BYTES"
    have "sum_list (map length (butlast (rb_rows block))) \<le> sum_list (map length (rb_rows block))"
      by (metis append_butlast_last_id le_add1 m(1) map_append sum_list_append)
    then have "flushed native ?rev (rb_rows block)" using m b(3,5) by (auto simp: flushed_def waiting_def)
    then show ?thesis using b fin m(2) by (intro exI [of _ "blocks @ [rb_rows block]"]) (auto simp: block_packets_append)
  qed
qed

lemma end_insert_ok:
  assumes "end_insert h i w = Some (Inr n, w')"
  shows "\<exists>v. end_sink h i w = Some (Inr v, w') \<and> n = di_rows_written i"
proof -
  from map_option_SomeD [OF assms [unfolded end_insert_def]] obtain x w1 where "end_sink h i w = Some (x, w1)"
    and "(case x of Inl err \<Rightarrow> (Inl err, case err of DynSchemaMismatch _ _ \<Rightarrow> snd (invalidate_schema i w1) | _ \<Rightarrow> w1)
      | Inr _ \<Rightarrow> (Inr (di_rows_written i), w1)) = (Inr n, w')" by auto
  then show ?thesis by (cases x) auto
qed

lemma first_write_opens:
  assumes "write_map h r (tcp_insert client database tab schema) w = Some (Inr u, i', w')"
  shows "\<exists>conn native ses i w1. w_acquire w = Inr conn \<and> \<not> is_settled ses \<and> is_server_revision ses = ac_revision conn \<and>
    from_headers (map (\<lambda>c. (cd_name c, pt_raw (cd_ty c))) (select_columns r [] schema)) = Inr native \<and>
    delivering (select_columns r [] schema) native ses
      (ac_wire conn @ statement_bytes conn [] (insert_sql h (tcp_insert client database tab schema) (select_columns r [] schema) ''Native'')
        (insert_settings client) []) [] [] i w1 \<and>
    write_sink h r None i w1 = Some (Inr u, i', w')"
proof -
  let ?i = "tcp_insert client database tab schema" and ?cols = "select_columns r [] schema"
  have i: "di_schema ?i = Some schema" "di_active ?i = None" "di_backend ?i = TcpBackend client" "di_rows_written ?i = 0"
    by (simp_all add: tcp_insert_def)
  from assms i obtain native ses w1 where n: "from_headers (map (\<lambda>c. (cd_name c, pt_raw (cd_ty c))) ?cols) = Inr native"
    and o: "open_session client (insert_sql h ?i ?cols ''Native'') w = Some (Inr ses, w1)"
    and s: "write_sink h r None (?i\<lparr> di_active := Some \<lparr> at_columns = ?cols, at_sink = TcpSink ses native block_default \<rparr> \<rparr>) w1 = Some (Inr u, i', w')"
    by (auto simp: write_map_def write_row_def ensure_schema_def ensure_active_def Let_def
        split: if_splits sum.splits option.splits prod.splits)
  from open_session_sent [OF o] obtain conn where "w_acquire w = Inr conn"
    "ac_wire (w_conn w1) = ac_wire conn @ statement_bytes conn [] (insert_sql h ?i ?cols ''Native'') (insert_settings client) []"
    "ac_revision (w_conn w1) = ac_revision conn" "is_server_revision ses = ac_revision conn" "\<not> is_settled ses" by blast
  then show ?thesis using n s i
    by (intro exI conjI; (assumption | rule refl)?)
      (auto simp: delivering_def block_default_def waiting_def BLOCK_FLUSH_BYTES_def block_packets_def)
qed

lemma insert_delivered:
  assumes "write_all h (r # rs) (tcp_insert client database tab schema) w = Some (Inr u # xs, i, w')"
    and "columns = select_columns r [] schema" "xs = map (answer_to h columns) rs"
    and "end_insert h i w' = Some (Inr n, w'')"
  shows "\<exists>conn native blocks. w_acquire w = Inr conn \<and>
    from_headers (map (\<lambda>c. (cd_name c, pt_raw (cd_ty c))) columns) = Inr native \<and>
    concat blocks = encoded_rows_of h columns (r # rs) \<and> n = of_nat (length (concat blocks)) \<and>
    (\<forall>b\<in>set blocks. flushed native (ac_revision conn) b) \<and>
    ac_wire (w_conn w'') = ac_wire conn @
      statement_bytes conn [] (insert_sql h (tcp_insert client database tab schema) columns ''Native'') (insert_settings client) [] @
      block_packets (ac_revision conn) (map (frame_of native (ac_revision conn)) blocks) @ send_empty_block (ac_revision conn) \<and>
    ac_state (w_conn w'') = Idle"
proof -
  from assms(1) obtain i1 w1 where first: "write_map h r (tcp_insert client database tab schema) w = Some (Inr u, i1, w1)"
    and others: "write_all h rs i1 w1 = Some (xs, i, w')" by (auto split: option.splits)
  from first_write_opens [OF first] obtain conn native ses i0 w0 base where conn: "w_acquire w = Inr conn" "\<not> is_settled ses"
    "is_server_revision ses = ac_revision conn" "from_headers (map (\<lambda>c. (cd_name c, pt_raw (cd_ty c))) columns) = Inr native"
    and d0: "delivering columns native ses base [] [] i0 w0" and s: "write_sink h r None i0 w0 = Some (Inr u, i1, w1)"
    and base: "base = ac_wire conn @ statement_bytes conn []
      (insert_sql h (tcp_insert client database tab schema) columns ''Native'') (insert_settings client) []"
    unfolding assms(2) by blast
  have "Inr u = answer_to h columns r" using write_sink_encodes [OF d0 s] by (auto simp: answer_to_def)
  from write_sink_delivers [OF d0 s this] obtain b1 where
    "delivering columns native ses base ([] @ (case encode_row (h_platform h) (row_of columns r) of Inl _ \<Rightarrow> [] | Inr bs \<Rightarrow> [bs])) b1 i1 w1"
    by blast
  from write_all_delivers [OF this others assms(3)] obtain b2 where
    d2: "delivering columns native ses base (encoded_rows_of h columns (r # rs)) b2 i w'" by (auto simp: encoded_rows_of_def)
  from end_insert_ok [OF assms(4)] obtain v where e: "end_sink h i w' = Some (Inr v, w'')" and n: "n = di_rows_written i" by blast
  from end_sink_delivers [OF d2 e conn(2)] conn base show ?thesis
    using d2 n by (auto simp: delivering_def)
qed


section \<open>An insert that runs\<close>

definition plain_host :: host where
  "plain_host = \<lparr> h_escape = (\<lambda>s. ''`'' @ s @ ''`''), h_text = (\<lambda>_. []), h_body = (\<lambda>_. []), h_platform = no_platform \<rparr>"

definition ab_table :: DynamicSchema where
  "ab_table = from_columns ''db.t'' ab_defs"

definition ab_client :: "nat list TcpClient" where
  "ab_client = client_new ''db:9000''"

definition ab_world :: world where
  "ab_world = \<lparr> w_now = 0, w_cache = cache_new 0, w_query = (\<lambda>_. Inr []), w_http_end = (\<lambda>_ _ _. None),
    w_acquire = Inr idle_actor, w_conn = idle_actor,
    w_events = [from_server (PkData None 2 0 []), NothingQueued, from_server PkEndOfStream] \<rparr>"

abbreviation ab_sql :: string where
  "ab_sql \<equiv> insert_sql plain_host (tcp_insert ab_client ''db'' ''t'' ab_table) ab_defs ''Native''"

definition ab_opened :: actor where
  "ab_opened = idle_actor\<lparr> ac_wire := ac_wire idle_actor @ statement_bytes idle_actor [] ab_sql (insert_settings ab_client) [],
     ac_state := InsertActive \<rparr>"

definition ab_session :: TcpInsertSession where
  "ab_session = \<lparr> is_settled = False, is_server_columns = [], is_server_revision = 54473 \<rparr>"

lemma ab_columns: "select_columns r [] ab_table = ab_defs"
  by (simp add: select_columns_def ab_table_def from_columns_def ab_defs_def column_def_new_def)

lemma ab_headers: "from_headers (map (\<lambda>c. (cd_name c, pt_raw (cd_ty c))) ab_defs) = Inr ab_native"
proof -
  have "parse ''UInt8'' = Some UInt8" "parse ''Nullable(String)'' = Some (Nullable String)"
    using parse_printed_name [of UInt8] parse_printed_name [of "Nullable String"]
    by (simp_all add: MAX_TYPE_PARSE_DEPTH_def apply_name_def)
  then show ?thesis by (simp add: from_headers_def ab_defs_def column_def_new_def ab_types ab_native_def)
qed

lemma ab_open:
  "open_session ab_client ab_sql ab_world =
    Some (Inr ab_session, ab_world\<lparr> w_conn := ab_opened, w_events := [NothingQueued, from_server PkEndOfStream] \<rparr>)"
proof -
  have "accepted idle_actor (insert_settings ab_client) []"
    by (simp add: accepted_def idle_actor_def spawn_with_config_def DBMS_MIN_REVISION_WITH_SETTINGS_SERIALIZED_AS_STRINGS_def)
  from handle_begin [OF _ _ this, of "[]" "[]" ab_sql None 2 0 "[]" "[NothingQueued, from_server PkEndOfStream]"]
  have "handle (BeginInsert [] ab_sql (insert_settings ab_client) []) idle_actor (w_events ab_world) =
      Some (Columns (Inr []), ab_opened, [NothingQueued, from_server PkEndOfStream])"
    by (simp add: idle_actor_def spawn_with_config_def ab_world_def ab_opened_def)
  moreover have "ac_revision ab_opened = 54473" by (simp add: ab_opened_def idle_actor_def spawn_with_config_def)
  ultimately show ?thesis
    by (simp add: open_session_def on_connection_def insert_native_via_pool_def begin_insert_def abind_def aret_def ab_world_def ab_session_def)
qed

definition ab_holding :: "byte list list \<Rightarrow> nat list DynamicInsert" where
  "ab_holding rows = (tcp_insert ab_client ''db'' ''t'' ab_table)\<lparr>
    di_active := Some \<lparr> at_columns = ab_defs,
      at_sink = TcpSink ab_session ab_native \<lparr> rb_rows = rows, rb_spare = 0, rb_bytes = sum_list (map length rows) \<rparr> \<rparr>,
    di_rows_written := of_nat (length rows) \<rparr>"

definition ab_world' :: world where
  "ab_world' = ab_world\<lparr> w_conn := ab_opened, w_events := [NothingQueued, from_server PkEndOfStream] \<rparr>"

lemma ab_row_encodings:
  "encode_row no_platform (row_of ab_defs (ab_rows ! 0)) = Inr [1, 0, 1, 0x78]"
  "encode_row no_platform (row_of ab_defs (ab_rows ! 1)) = Inr [0, 1]"
  using ab_encoded unfolding ab_rows_def by (auto simp: tri_eq_Inr)

lemma ab_push:
  assumes "encode_row no_platform (row_of ab_defs r) = Inr bs" "sum_list (map length (rows @ [bs])) < 100" "length rows < 100"
  shows "write_sink plain_host r None (ab_holding rows) w = Some (Inr (), ab_holding (rows @ [bs]), w)"
proof -
  let ?b = "\<lparr> rb_rows = rows @ [bs], rb_spare = 0, rb_bytes = sum_list (map length (rows @ [bs])) \<rparr>"
  have "waiting ?b" using assms(2,3) by (simp add: waiting_def BLOCK_FLUSH_BYTES_def)
  then have "\<not> block_is_full DEFAULT_TCP_INSERT_BLOCK_ROWS ?b" using waiting_not_full [of ?b] assms(3) by simp
  then show ?thesis using assms(1)
    by (simp add: write_sink_def ab_holding_def block_push_def plain_host_def row_of_def Let_def)
qed

lemma ab_written:
  "write_all plain_host (ab_rows ! 0 # [ab_rows ! 1]) (tcp_insert ab_client ''db'' ''t'' ab_table) ab_world =
    Some ([Inr (), Inr ()], ab_holding [[1, 0, 1, 0x78], [0, 1]], ab_world')"
proof -
  let ?i = "tcp_insert ab_client ''db'' ''t'' ab_table"
  have "write_map plain_host (ab_rows ! 0) ?i ab_world = write_sink plain_host (ab_rows ! 0) None (ab_holding []) ab_world'"
    using ab_headers ab_open
    by (simp add: write_map_def write_row_def ensure_schema_def ensure_active_def tcp_insert_def [of _ _ _ ab_table] ab_columns
        ab_holding_def block_default_def ab_world'_def Let_def ab_defs_def)
  also have "\<dots> = Some (Inr (), ab_holding [[1, 0, 1, 0x78]], ab_world')" using ab_push [OF ab_row_encodings(1), of "[]"] by simp
  finally have first: "write_map plain_host (ab_rows ! 0) ?i ab_world = Some (Inr (), ab_holding [[1, 0, 1, 0x78]], ab_world')" .
  have "write_map plain_host (ab_rows ! 1) (ab_holding [[1, 0, 1, 0x78]]) ab_world' =
      write_sink plain_host (ab_rows ! 1) None (ab_holding [[1, 0, 1, 0x78]]) ab_world'"
    by (simp add: write_map_def write_row_def ensure_schema_def ensure_active_def ab_holding_def tcp_insert_def)
  also have "\<dots> = Some (Inr (), ab_holding [[1, 0, 1, 0x78], [0, 1]], ab_world')"
    using ab_push [OF ab_row_encodings(2), of "[[1, 0, 1, 0x78]]"] by simp
  finally show ?thesis by (simp add: first)
qed

lemma ab_ended:
  "\<exists>w''. end_insert plain_host (ab_holding [[1, 0, 1, 0x78], [0, 1]]) ab_world' = Some (Inr 2, w'')"
proof -
  define body where "body = projr (encode_columns [[1, 0, 1, 0x78], [0, 1]] ab_native 54473)"
  have body: "encode_columns [[1, 0, 1, 0x78], [0, 1]] ab_native 54473 = Inr body" "length body \<le> MAX_INSERT_BLOCK_BYTES"
    by (simp_all add: body_def ab_block MAX_INSERT_BLOCK_BYTES_def)
  have o: "ac_state ab_opened = InsertActive" by (simp add: ab_opened_def)
  define a where "a = ab_opened\<lparr> ac_wire := ac_wire ab_opened @ send_data_block (ac_revision ab_opened) [] body 2 2 \<rparr>"
  have "handle (SendInsertBlock body 2 2) ab_opened [NothingQueued, from_server PkEndOfStream] = Some (Answer (Inr ()), a, [from_server PkEndOfStream])"
    using handle_block [OF o body(2), of "[]" "[from_server PkEndOfStream]" 2 2] by (simp add: a_def quiet_head_def)
  then have send: "session_send_block body 2 2 ab_opened [NothingQueued, from_server PkEndOfStream] = Some (Inr (), a, [from_server PkEndOfStream])"
    by (simp add: session_send_block_def abind_def answer_of_def aret_def)
  have "ac_state a = InsertActive" by (simp add: a_def o)
  from handle_finish [OF this, of "[]" PkEndOfStream "[]"] obtain b where
    "handle FinishInsert a [from_server PkEndOfStream] = Some (Answer (Inr ()), b, [])" by (auto simp: inner_def verdict_def)
  then have "session_finish ab_session a [from_server PkEndOfStream] = Some ((Inr (), ab_session\<lparr> is_settled := True \<rparr>), b, [])"
    by (simp add: session_finish_def abind_def answer_of_def aret_def)
  then show ?thesis using body(1) send
    by (simp add: end_insert_def end_sink_def ab_holding_def tcp_insert_def on_connection_def ab_world'_def send_block_def
        ab_session_def abind_def aret_def session_drop_def ab_native_def)
qed


end
