(* ===== verification/InsertErrors.thy ===== *)
theory InsertErrors
  imports InsertDelivery
begin

text \<open>
  How a dynamic insert fails: how rejections are told apart, what a stale schema does to the cache, and what happens to
  the rows of a block that is too large to send.
\<close>

section \<open>Rejections\<close>

text \<open>
  C39: a rejection is classified by its code.  For an exception the server sends over TCP, a retriable code is a
  transport failure, a code of schema drift is a schema mismatch, and any other code rejects the rows; no code is both
  retriable and drift, and the wording of the message plays no part.  The same exception as the body of an HTTP
  response is read back to the same code and, where the code is not retriable, classified alike.
\<close>

theorem rejection_classified_by_code:
  assumes "- (2 ^ 31) \<le> code" "code < 2 ^ 31" "CHR ''E'' \<notin> set kind" "name \<noteq> []" "shouty name"
    and "msg \<noteq> []" "visible (hd msg)" "visible (last msg)" "last msg \<notin> set '':.,''" "\<forall>c\<in>set punct. c \<in> set '':.,''"
    and "\<not> contains ''Stack trace:'' msg" "\<not> contains ''(version '' (version @ '')'')"
    and "body = BadResponse (ResponseBody (exception_body code kind msg punct name version))"
  shows "classify_error h full (ServerException code n m st) =
      (if is_retriable_code code then Transport full (ServerException code n m st)
       else if code \<in> set SCHEMA_DRIFT_CODES then DynSchemaMismatch full (h_text h (ServerException code n m st))
       else EncodingError [] (h_text h (ServerException code n m st))) \<and>
    \<not> (is_retriable_code code \<and> code \<in> set SCHEMA_DRIFT_CODES) \<and>
    (\<not> is_retriable_code code \<longrightarrow> classify_error h full body =
      (if code \<in> set SCHEMA_DRIFT_CODES then DynSchemaMismatch full (h_text h body) else EncodingError [] (h_text h body)))"
proof (intro conjI impI)
  show "\<not> (is_retriable_code code \<and> code \<in> set SCHEMA_DRIFT_CODES)"
    by (auto simp: is_retriable_code_def SCHEMA_DRIFT_CODES_def)
  show "classify_error h full body =
      (if code \<in> set SCHEMA_DRIFT_CODES then DynSchemaMismatch full (h_text h body) else EncodingError [] (h_text h body))"
    by (simp add: assms(13) classify_error_def is_transport_failure_def is_retriable_transport_def is_retriable_def error_code_def
        parse_exception_body [OF assms(1-12)] Let_def)
qed (simp add: classify_error_def is_transport_failure_def is_retriable_transport_def is_retriable_def error_code_def Let_def)

lemma too_many_parts:
  "- (2 ^ 31) \<le> (252 :: int)" "(252 :: int) < 2 ^ 31" "CHR ''E'' \<notin> set []" "''TOO_MANY_PARTS'' \<noteq> []" "shouty ''TOO_MANY_PARTS''"
  "''Too many parts'' \<noteq> []" "visible (hd ''Too many parts'')" "visible (last ''Too many parts'')" "last ''Too many parts'' \<notin> set '':.,''"
  "\<forall>c\<in>set ''.''. c \<in> set '':.,''" "\<not> contains ''Stack trace:'' ''Too many parts''" "\<not> contains ''(version '' (''26.2'' @ '')'')"
  by (simp_all add: shouty_def visible_def contains_def find_sub_def upt_rec)

theorem rejection_classified_by_code_witness:
  "(\<exists>e. classify_error plain_host ''db.t'' (ServerException 252 None ''parts'' None) = Transport ''db.t'' e) \<and>
   (\<exists>t. classify_error plain_host ''db.t'' (BadResponse (ResponseBody
      (exception_body 47 [] ''Too many parts'' ''.'' ''TOO_MANY_PARTS'' ''26.2''))) = DynSchemaMismatch ''db.t'' t)"
proof -
  have "- (2 ^ 31) \<le> (47 :: int)" "(47 :: int) < 2 ^ 31" by simp_all
  from rejection_classified_by_code [OF this too_many_parts(3-12) refl, of plain_host "''db.t''" None "''parts''" None]
    rejection_classified_by_code [OF too_many_parts refl, of plain_host "''db.t''" None "''parts''" None]
  show ?thesis by (simp add: is_retriable_code_def SCHEMA_DRIFT_CODES_def)
qed

text \<open>Over HTTP a retriable code, here of a table with too many parts, counts as a rejection of the rows.\<close>

lemma http_retriable_rejects_rows:
  "is_retriable_code 252 \<and> (\<exists>t. classify_error plain_host ''db.t'' (BadResponse (ResponseBody
    (exception_body 252 [] ''Too many parts'' ''.'' ''TOO_MANY_PARTS'' ''26.2''))) = EncodingError [] t)"
  by (simp add: is_retriable_code_def SCHEMA_DRIFT_CODES_def classify_error_def is_transport_failure_def
      is_retriable_transport_def is_retriable_def error_code_def parse_exception_body [OF too_many_parts] Let_def)

section \<open>A stale schema\<close>

lemma end_insert_cache:
  assumes "end_insert h i w = Some (r, w')" "di_backend i = HttpBackend"
  shows "w_cache w' = (case r of Inl (DynSchemaMismatch _ _) \<Rightarrow> invalidate (full_table i) (w_cache w) | _ \<Rightarrow> w_cache w) \<and> w_now w' = w_now w"
proof -
  from map_option_SomeD [OF assms(1) [unfolded end_insert_def]] obtain x w1 where e: "end_sink h i w = Some (x, w1)"
    and k: "(case x of Inl err \<Rightarrow> (Inl err, case err of DynSchemaMismatch _ _ \<Rightarrow> snd (invalidate_schema i w1) | _ \<Rightarrow> w1)
      | Inr _ \<Rightarrow> (Inr (di_rows_written i), w1)) = (r, w')" by auto
  have "w_cache w1 = w_cache w \<and> w_now w1 = w_now w"
    using e by (auto simp: end_sink_def on_connection_def split: option.splits OpenSink.splits)
  then show ?thesis using k assms(2)
    by (cases x) (auto simp: invalidate_schema_def split: dynamic_error.splits)
qed

text \<open>
  C38: a stale schema is replaced.  When an insert over HTTP ends with a schema mismatch, the table's schema leaves the
  cache and no other table's does; the next insert into the table asks the server, works with the columns it reports
  then, and caches them.  An insert that ends in any other way leaves the cache alone.
\<close>

theorem stale_schema_replaced:
  assumes "di_backend i = HttpBackend" "end_insert h i w = Some (r, w')"
    and "next = http_insert (di_database i) (di_table i)"
    and "w_query w' (system_columns_sql (h_escape h) (di_database i) (di_table i)) = Inr rows"
    and "schema_from_system_columns (full_table i) rows = Inr fetched" "0 < sc_ttl (w_cache w)"
  shows "(case r of
      Inl (DynSchemaMismatch t m) \<Rightarrow>
        (\<forall>other. other \<noteq> full_table i \<longrightarrow> cache_get (w_now w) (w_cache w') other = cache_get (w_now w) (w_cache w) other) \<and>
        (\<exists>w2. ensure_schema h next w' = (Inr (), next\<lparr> di_schema := Some fetched \<rparr>, w2) \<and>
          cache_get (w_now w2) (w_cache w2) (full_table i) = Some fetched)
    | _ \<Rightarrow> w_cache w' = w_cache w)"
proof (cases "\<exists>t m. r = Inl (DynSchemaMismatch t m)")
  case True
  then have c: "w_cache w' = invalidate (full_table i) (w_cache w)" "w_now w' = w_now w"
    using end_insert_cache [OF assms(2,1)] by auto
  have f: "full_table next = full_table i" by (simp add: assms(3) full_table_def http_insert_def)
  have "cache_get (w_now w') (w_cache w') (full_table i) = None" by (simp add: c cache.lookup_forget)
  moreover have "fetch_dynamic_schema (h_escape h) (w_query w') (di_database i) (di_table i) = Inr fetched"
    using assms(4,5) by (simp add: fetch_dynamic_schema_def full_table_def)
  ultimately have "ensure_schema h next w' = (Inr (), next\<lparr> di_schema := Some fetched \<rparr>,
      w'\<lparr> w_cache := cache_insert (w_now w') (full_table i) fetched (w_cache w') \<rparr>)"
    using f by (simp add: ensure_schema_def assms(3) http_insert_def)
  moreover have "cache_get (w_now w) (w_cache w') other = cache_get (w_now w) (w_cache w) other" if "other \<noteq> full_table i" for other
    using that by (simp add: c cache.lookup_forget)
  ultimately show ?thesis using True assms(6) c by (auto simp: cache.replaced)
next
  case False
  then show ?thesis using end_insert_cache [OF assms(2,1)] by (auto split: sum.splits dynamic_error.splits)
qed

definition one_column :: "(string \<times> string \<times> string) list" where
  "one_column = [(''id'', ''UInt64'', [])]"

definition drifting :: world where
  "drifting = \<lparr> w_now = 50, w_cache = replay 100 [Inserted 40 ''db.t'' ab_table], w_query = (\<lambda>_. Inr one_column),
    w_http_end = (\<lambda>_ _ _. Some (BadResponse (ResponseBody ''47''))), w_acquire = Inl (PoolCondition []), w_conn = idle_actor, w_events = [] \<rparr>"

definition http_open :: "nat list DynamicInsert" where
  "http_open = (http_insert ''db'' ''t'')\<lparr> di_schema := Some ab_table,
    di_active := Some \<lparr> at_columns = ab_defs, at_sink = HttpSink [] False [1, 0, 1, 0x78] \<rparr>, di_rows_written := 1 \<rparr>"

theorem stale_schema_replaced_witness:
  "\<exists>w' w2 t m s. end_insert plain_host http_open drifting = Some (Inl (DynSchemaMismatch t m), w') \<and>
    ensure_schema plain_host (http_insert ''db'' ''t'' :: nat list DynamicInsert) w' =
      (Inr (), (http_insert ''db'' ''t'')\<lparr> di_schema := Some s \<rparr>, w2) \<and>
    cache_get (w_now w2) (w_cache w2) ''db.t'' = Some s"
proof -
  have "trim ''47'' = ''47''" by (rule trim_visible) (simp_all add: visible_def)
  then have "parse_exception ''47'' = Some \<lparr> px_code = 47, px_name = None, px_message = [], px_stack_trace = None \<rparr>"
    by (simp add: parse_exception_def parse_signed_def split_sign_def digit_val_def)
  then have "classify_error plain_host ''db.t'' (BadResponse (ResponseBody ''47'')) = DynSchemaMismatch ''db.t'' []"
    by (simp add: classify_error_def is_transport_failure_def is_retriable_transport_def is_retriable_def error_code_def
        SCHEMA_DRIFT_CODES_def plain_host_def)
  then obtain w' where e: "end_insert plain_host http_open drifting = Some (Inl (DynSchemaMismatch ''db.t'' []), w')"
    and q: "w_query w' = w_query drifting"
    by (simp add: end_insert_def end_sink_def http_open_def http_insert_def drifting_def full_table_def invalidate_schema_def)
  have i: "di_backend http_open = HttpBackend" "full_table http_open = ''db.t''" "di_database http_open = ''db''" "di_table http_open = ''t''"
    by (simp_all add: http_open_def http_insert_def full_table_def)
  obtain s where s: "schema_from_system_columns ''db.t'' one_column = Inr s"
    by (simp add: schema_from_system_columns_def one_column_def)
  have "w_query w' (system_columns_sql (h_escape plain_host) ''db'' ''t'') = Inr one_column" "0 < sc_ttl (w_cache drifting)"
    by (simp_all add: q) (simp_all add: drifting_def cache_insert_def cache_new_def)
  with stale_schema_replaced [OF i(1) e refl, of one_column s] s show ?thesis unfolding i by (auto intro!: exI [of _ s] e)
qed

section \<open>A block that is too large\<close>

text \<open>
  The rows that wait in front of a very large one are lost with it.  If a row fills the block and the block encodes to
  more than the connection takes, the write fails; but the rows that waited in the block, whose writes had succeeded,
  are gone too, and an end of the insert that the server accepts still counts them.
\<close>

theorem oversized_block_loses_rows:
  assumes "delivering columns native ses base (concat blocks @ held) blocks i w" "ac_state (w_conn w) = InsertActive"
    and "w_events w = [from_server PkEndOfStream]" "\<not> is_settled ses"
    and "encode_row (h_platform h) (row_of columns r) = Inr bs" "BLOCK_FLUSH_BYTES \<le> sum_list (map length held) + length bs"
    and "encode_columns (held @ [bs]) native (is_server_revision ses) = Inr body" "MAX_INSERT_BLOCK_BYTES < length body"
  shows "\<exists>e i' w' w''. write_map h r i w = Some (Inl e, i', w') \<and>
    end_insert h i' w' = Some (Inr (of_nat (length (concat blocks @ held))), w'') \<and>
    ac_wire (w_conn w'') = base @ block_packets (is_server_revision ses) (map (frame_of native (is_server_revision ses)) blocks) @
      send_empty_block (is_server_revision ses)"
proof -
  let ?rev = "is_server_revision ses"
  from assms(1) obtain block where b: "di_schema i \<noteq> None" "di_active i = Some \<lparr> at_columns = columns, at_sink = TcpSink ses native block \<rparr>"
    "di_rows_written i = of_nat (length (concat blocks @ held))" "held = rb_rows block" "waiting block" "?rev = ac_revision (w_conn w)"
    "ac_wire (w_conn w) = base @ block_packets ?rev (map (frame_of native ?rev) blocks)"
    unfolding delivering_def by auto
  define block' where "block' = \<lparr> rb_rows = held @ [bs], rb_spare = rb_spare block - 1, rb_bytes = rb_bytes block + length bs \<rparr>"
  have full: "block_is_full DEFAULT_TCP_INSERT_BLOCK_ROWS block'"
    using assms(6) b(4,5) by (simp add: block_is_full_def block'_def waiting_def)
  have push: "block_push (h_platform h) \<lparr> dr_row = r, dr_columns = columns, dr_raw = None \<rparr> block = (Inr (), block')"
    using assms(5) b(4) by (simp add: block_push_def row_of_def block'_def)
  let ?a = "(w_conn w)\<lparr> ac_poisoned := True \<rparr>"
  obtain e where e: "\<And>nc nr es. handle (SendInsertBlock body nc nr) (w_conn w) es = Some (Answer (Inl (Custom e)), w_conn w, es)"
    using assms(2,8) by (simp add: handle_def continues_insert_def do_send_insert_block_def abind_def aret_def)
  then have "session_send_block body nc nr (w_conn w) es = Some (Inl (Custom e), ?a, es)" for nc nr es
    by (simp add: session_send_block_def abind_def aret_def answer_of_def poison_unless_server_rejected_def poison_def)
  then have send: "send_block h ses native (full_table i) block' (w_conn w) (w_events w) =
      Some ((Inl (classify_error h (full_table i) (Custom e)), block_recycle block'), ?a, w_events w)"
    using assms(7) by (simp add: send_block_def block'_def abind_def aret_def)
  define i' where "i' = i\<lparr> di_active := Some \<lparr> at_columns = columns, at_sink = TcpSink ses native (block_recycle block') \<rparr> \<rparr>"
  define w' where "w' = w\<lparr> w_conn := ?a \<rparr>"
  have "write_sink h r None i w = Some (Inl (classify_error h (full_table i) (Custom e)), i', w')"
    using b(2) push full send by (simp add: write_sink_def Let_def on_connection_def i'_def w'_def)
  then have wrote: "write_map h r i w = Some (Inl (classify_error h (full_table i) (Custom e)), i', w')"
    unfolding write_map_open [OF assms(1)] .
  have "ac_state ?a = InsertActive" by (simp add: assms(2))
  from handle_finish [OF this, of "[]" PkEndOfStream "[]"] obtain c where
    "handle FinishInsert ?a (w_events w) = Some (Answer (Inr ()), c, [])" "ac_wire c = ac_wire (w_conn w) @ send_empty_block ?rev"
    by (auto simp: inner_def verdict_def assms(3) b(6))
  then have "session_finish ses ?a (w_events w) = Some ((Inr (), ses\<lparr> is_settled := True \<rparr>), c, [])"
    by (simp add: session_finish_def abind_def answer_of_def aret_def)
  then have "end_insert h i' w' = Some (Inr (of_nat (length (concat blocks @ held))), w'\<lparr> w_conn := c, w_events := [] \<rparr>)"
    using b(3) by (simp add: end_insert_def end_sink_def i'_def w'_def on_connection_def send_block_def block_recycle_def
        abind_def aret_def session_drop_def)
  with wrote \<open>ac_wire c = _\<close> b(7) show ?thesis by auto
qed

end
