(* ===== verification/ReaderProgress.thy ===== *)
theory ReaderProgress
  imports PacketReader DecodeAgreement
begin

text \<open>
  Readers only move forward: whatever the bytes, what a reader leaves is the end of what it was given.  From this
  follow the progress of the packet reader and the termination of the loop over a Native body.
\<close>

named_theorems forward \<open>readers that leave a suffix of their input\<close>

definition reads :: "'a rd \<Rightarrow> bool" where
  "reads m \<longleftrightarrow> (\<forall>s v r. m s = Inr (v, r) \<longrightarrow> suffix r s)"

lemma readsI: "(\<And>s v r. m s = Inr (v, r) \<Longrightarrow> suffix r s) \<Longrightarrow> reads m"
  by (simp add: reads_def)

lemma readsD: "reads m \<Longrightarrow> m s = Inr (v, r) \<Longrightarrow> suffix r s"
  by (simp add: reads_def)

section \<open>Combinators\<close>

lemma reads_pure [forward, simp]: "reads (rret x)" "reads (rfail e)" "reads (rlift z)"
  by (auto simp: reads_def)

lemma reads_plain [simp]: "reads (\<lambda>s. Inr (x, s))" "reads (\<lambda>s. Inl e)"
  by (auto simp: reads_def)

lemma reads_rbind [forward]: "reads m \<Longrightarrow> (\<And>x. reads (f x)) \<Longrightarrow> reads (rbind m f)"
  unfolding reads_def rbind_eq_Inr by (meson suffix_order.order_trans)

lemma reads_times [forward]: "reads m \<Longrightarrow> reads (read_times n m)"
  by (induction n) (auto intro!: forward)

lemma reads_each [forward]: "(\<And>y. reads (f y)) \<Longrightarrow> reads (read_each f ys)"
  by (induction ys) (auto intro!: forward)

lemma reads_case_prod [forward]: "(\<And>a b. reads (f a b)) \<Longrightarrow> reads (case p of (a, b) \<Rightarrow> f a b)"
  by (cases p) simp

lemma reads_wrap [forward]: "reads m \<Longrightarrow> reads (wrap f m)"
  by (auto simp: wrap_def intro!: forward)

section \<open>Primitives\<close>

lemma reads_exact [forward, simp]: "reads (read_exact n)" "reads (read_exact_grown n)"
  by (auto simp: reads_def read_exact_eq_Inr suffix_def)

lemma reads_le [forward, simp]: "reads (read_le w)"
  unfolding read_le_def by (auto intro!: forward)

lemma var_uint_loop_suffix: "read_var_uint_loop d s = Inr (v, r) \<Longrightarrow> suffix r s"
  by (induction d s rule: read_var_uint_loop.induct)
     (auto split: sum.splits prod.splits option.splits intro: suffix_ConsI)

lemma reads_var_uint [forward, simp]: "reads read_var_uint"
  by (auto simp: reads_def read_var_uint_def dest: var_uint_loop_suffix)

lemma reads_string [forward, simp]: "reads read_string" "reads read_utf8_string"
  unfolding read_utf8_string_def read_string_def by (auto intro!: forward)

lemma sparse_loop_suffix: "read_sparse_loop num_rows offsets cur st s = Inr (v, r) \<Longrightarrow> suffix r s"
proof (induction num_rows offsets cur st s rule: read_sparse_loop.induct)
  case (1 num_rows offsets cur st s)
  from 1(3) obtain g s' where g: "read_var_uint s = Inr (g, s')" by (subst (asm) read_sparse_loop.simps) (auto split: sum.splits)
  then have "suffix s' s" using readsD [OF reads_var_uint] by blast
  moreover have "suffix r s'"
    using 1(3) 1(1) [OF g refl refl refl refl] 1(2) [OF g refl refl refl refl]
    by (subst (asm) read_sparse_loop.simps) (auto simp: g Let_def split: if_splits)
  ultimately show ?case by (rule suffix_order.order_trans [rotated])
qed

lemma reads_sparse [forward, simp]: "reads (read_sparse_offsets num_rows st)"
  unfolding read_sparse_offsets_def by (auto simp: reads_def Let_def dest!: sparse_loop_suffix split: prod.splits if_splits)

section \<open>Columns\<close>

abbreviation forward_cols :: "col_reader \<Rightarrow> bool" where
  "forward_cols rd \<equiv> \<forall>t n. reads (rd t n)"

lemma reads_simple_columns [forward]:
  "reads (read_fixed_column n w)" "reads (read_string_column n)" "reads (read_point_column n)" "reads (read_index w)"
  "reads (read_offsets n)" "reads read_variant_mode" "reads (read_capped_count cap what)"
  "reads read_flat_wire_types" "reads (read_discriminators n slots w)"
  unfolding read_point_column_def read_fixed_column_def read_string_column_def read_index_def read_offsets_def
    read_variant_mode_def read_capped_count_def read_flat_wire_types_def read_discriminators_def
  by (auto intro!: forward)

lemma reads_prefixes [forward]:
  "reads (read_dynamic_v1v2_prefix b)" "reads (read_v2_path_types p)" "reads read_flat_path_types"
  unfolding read_dynamic_v1v2_prefix_def read_v2_path_types_def read_flat_path_types_def
  by (auto intro!: forward)

lemma reads_nested [forward]:
  assumes "forward_cols rd"
  shows "reads (read_nullable_column rd n t)" "reads (read_low_cardinality_column rd n t)" "reads (read_array_column rd n t)"
    "reads (read_tuple_column rd n ts)" "reads (read_map_column rd n t u)" "reads (read_sub_columns rd ts counts)"
  using assms
  unfolding read_nullable_column_def read_low_cardinality_column_def read_array_column_def read_tuple_column_def
    read_map_column_def read_sub_columns_def Let_def
  by (auto intro!: forward)

lemma reads_variant [forward]:
  assumes "forward_cols rd"
  shows "reads (read_variant_column rd n ts)" "reads (read_dynamic_v1v2_body rd n names)" "reads (read_dynamic_v1v2_column rd n b)"
    "reads (read_dynamic_flattened_column rd n)" "reads (read_v2_path_data rd n q)" "reads (read_flat_path_data rd n q')"
  using assms
  unfolding read_variant_column_def read_dynamic_v1v2_body_def read_dynamic_v1v2_column_def read_dynamic_flattened_column_def
    read_v2_path_data_def read_flat_path_data_def Let_def
  by (auto intro!: forward)

lemma reads_json [forward]:
  assumes "forward_cols rd"
  shows "reads (read_json_object_v2_column rd n)" "reads (read_json_object_flattened_column rd n)" "reads (read_dynamic_column rd n)"
  using assms
  unfolding read_json_object_v2_column_def read_json_object_flattened_column_def read_dynamic_column_def
  by (auto intro!: forward)

lemma reads_json_body [forward]:
  assumes "forward_cols rd"
  shows "reads (read_json_body_at rd n version)" "reads (read_json_column rd n)"
  using assms unfolding read_json_column_def read_json_body_at_def by (auto intro!: forward)

lemma reads_column_body: "forward_cols rd \<Longrightarrow> reads (read_column_body rd t n)"
  by (cases t) (auto simp: read_column_body_def intro!: forward split: option.split)

lemma reads_column_at [forward, simp]: "reads (read_column_at lv t n)"
  by (induction lv arbitrary: t n) (auto intro!: forward reads_column_body)

lemma reads_column_data [forward, simp]: "reads (read_column_data t n)" "reads (read_json_body n version)"
  unfolding read_column_data_def read_json_body_def
  by (rule reads_column_at, rule reads_json_body) (simp del: read_column_at.simps)

section \<open>Blocks\<close>

abbreviation forward_dec :: "dec \<Rightarrow> bool" where
  "forward_dec rd \<equiv> \<forall>t n hs. reads (rd t n hs)"

lemma reads_decode_prefixes [forward]: "reads (decode_prefixes lv t)"
proof (induction lv arbitrary: t)
  case (Suc lv)
  then show ?case by (cases t) (auto simp: decode_prefixes_body_def intro!: forward)
qed simp

lemma reads_monotonic [forward]: "reads (read_monotonic what prev n)"
  by (induction n arbitrary: prev) (auto intro!: forward)

lemma reads_wide [forward]: "reads (read_le_column w f n)" "reads (read_u256_column n)" "reads (lc_indices k n)"
  unfolding read_le_column_def read_u256_column_def lc_indices_def by (auto intro!: forward simp: read_le_column_def)

lemma reads_flat: "decode_flat t n = Some m \<Longrightarrow> reads m"
  by (cases t) (auto simp: decode_flat_def intro!: forward split: if_splits)

lemma reads_fields [forward]: "forward_dec rd \<Longrightarrow> reads (decode_fields rd ts n hs)"
  by (induction ts arbitrary: hs) (auto intro!: forward)

lemma reads_dict [forward]: "forward_dec rd \<Longrightarrow> reads (decode_low_cardinality rd t n hs)"
  unfolding decode_low_cardinality_def Let_def by (auto intro!: forward)

lemma reads_decode_body: "forward_dec rd \<Longrightarrow> reads (decode_body lv rd t n hs)"
  unfolding decode_body_def
  by (auto intro!: forward dest: reads_flat split: option.split ColumnType.split list.split)

lemma reads_decode_column [forward]: "reads (decode_column lv t n hs)"
  by (induction lv arbitrary: t n hs) (auto intro!: forward reads_decode_body)

lemma reads_serialization [forward]: "reads (read_serialization_kind name)" "reads read_block_info"
  unfolding read_serialization_kind_def read_block_info_def by (auto intro!: forward)

lemma reads_block [forward]: "reads (decode_block_column n b)" "reads (decode_block nc nr sr)"
  unfolding decode_block_def decode_block_column_def Let_def
  by (auto simp del: decode_prefixes.simps decode_column.simps intro!: forward split: option.split)

section \<open>Packets\<close>

lemma reads_gated [forward]: "reads m \<Longrightarrow> reads (read_gated c x m)"
  by (simp add: read_gated_def)

lemma reads_packet_bodies [forward]:
  "reads read_i32" "reads read_exception" "reads (read_progress sr)" "reads (read_profile_info sr)" "reads read_table_columns"
  "reads (read_data_block_header sr)" "reads (read_schema_column c)"
  unfolding read_i32_def read_exception_def read_progress_def read_profile_info_def read_table_columns_def
    read_data_block_header_def read_schema_column_def Let_def
  by (auto intro!: forward)

lemma reads_empty_schema [forward]: "reads (read_empty_data_block_schema nc sr)"
  unfolding read_empty_data_block_schema_def by (intro forward)

lemma reads_telemetry [forward]: "reads (consume_telemetry_block sr)"
  unfolding consume_telemetry_block_def by (auto intro!: forward)

lemma reads_packet_body:
  "reads (rbind (rlift (from_u64 packet_type)) (\<lambda>id.
      if id = SpData \<or> id = SpTotals \<or> id = SpExtremes then
        rbind (read_data_block_header sr) (\<lambda>(table_name, num_columns, num_rows).
          if num_rows = 0
          then rbind (read_empty_data_block_schema num_columns sr) (\<lambda>columns.
                 rret (PkData table_name num_columns num_rows columns))
          else rbind (decode_block num_columns num_rows sr) (\<lambda>block. rret (PkDataBlock block)))
      else case id of
        SpException \<Rightarrow> rbind read_exception (\<lambda>e. rret (PkException e))
      | SpProgress \<Rightarrow> rbind (read_progress sr) (\<lambda>p. rret (PkProgress p))
      | SpProfileInfo \<Rightarrow> rbind (read_profile_info sr) (\<lambda>p. rret (PkProfileInfo p))
      | SpPong \<Rightarrow> rret PkPong
      | SpEndOfStream \<Rightarrow> rret PkEndOfStream
      | SpLog \<Rightarrow> rbind (consume_telemetry_block sr) (\<lambda>_. rret PkLog)
      | SpTableColumns \<Rightarrow> rbind read_table_columns (\<lambda>t. rret (PkTableColumns t))
      | SpProfileEvents \<Rightarrow> rbind (consume_telemetry_block sr) (\<lambda>_. rret PkProfileEvents)
      | SpTimezoneUpdate \<Rightarrow> rbind read_utf8_string (\<lambda>s. rret (PkTimezoneUpdate s))
      | other \<Rightarrow> rfail (BadResponse (UnexpectedMidStream (packet_code other)))))"
  by (auto intro!: forward split: ServerPacketId.split)

section \<open>Progress\<close>

lemma var_uint_consumes: "read_var_uint s = Inr (v, r) \<Longrightarrow> \<exists>b used. s = b # used @ r"
proof -
  assume read: "read_var_uint s = Inr (v, r)"
  with readsD [OF reads_var_uint] have "suffix r s" by blast
  then obtain used where "s = used @ r" by (auto simp: suffix_def)
  moreover have "length r < length s" using read read_var_uint_loop_consumes by (simp add: read_var_uint_def)
  ultimately show ?thesis by (cases used) auto
qed

lemma consuming_bind:
  assumes "rbind read_var_uint f s = Inr (v, r)" "\<And>x. reads (f x)"
  shows "\<exists>b used. s = b # used @ r"
proof -
  from assms(1) obtain x r1 where x: "read_var_uint s = Inr (x, r1)" "f x r1 = Inr (v, r)" by (auto simp: rbind_eq_Inr)
  with readsD [OF assms(2) x(2)] var_uint_consumes [OF x(1)] show ?thesis by (auto simp: suffix_def)
qed

lemma packet_consumes: "read_packet sr s = Inr (p, r) \<Longrightarrow> \<exists>b used. s = b # used @ r"
  unfolding read_packet_def by (erule consuming_bind) (rule reads_packet_body)

end
