(* ===== verification/Queries.thy ===== *)
theory Queries
  imports Client Builder
begin

text \<open>
  Statements of the TCP client: the operations of src/src/tcp/client.rs that take a connection from the pool, and the
  query builder of src/src/tcp/query.rs over them.
\<close>

section \<open>Operations of the client\<close>

text \<open>
  What lies around a call: the connection the pool gives at each attempt, whether its task is gone, what happens on it,
  and the library's retry loop.
\<close>

record 't network =
  nw_acquire :: "'t pool_setup \<Rightarrow> nat \<Rightarrow> PoolError + actor"
  nw_gone :: "nat \<Rightarrow> bool"
  nw_events :: "nat \<Rightarrow> event list"
  nw_retry :: "unit option retry_loop"
  nw_retry_stream :: "(TcpRawCursor \<times> actor) option retry_loop"

text \<open>
  A call has no value where building the pool panics; its result carries none where the command does not return.  A
  statement is given with the number of attempts made.
\<close>

definition client_ping :: "('c, 'a, 't) tls_env \<Rightarrow> 't network \<Rightarrow> 't TcpClient \<Rightarrow> unit option result option" where
  "client_ping env net c =
    map_option (\<lambda>(p, c').
      case nw_acquire net p 0 of
        Inl e \<Rightarrow> Inl (map_pool_error e)
      | Inr conn \<Rightarrow>
          if nw_gone net 0 then Inl (Custom ''tcp: connection actor closed'')
          else case handle Ping conn (nw_events net 0) of
            Some (Answer r, _, _) \<Rightarrow> map_sum id Some r
          | _ \<Rightarrow> Inr None) (pool env c)"

definition client_execute_query ::
    "('c, 'a, 't) tls_env \<Rightarrow> 't network \<Rightarrow> 't TcpClient \<Rightarrow> string \<Rightarrow> string \<Rightarrow> kvs \<Rightarrow> bool \<Rightarrow> (unit option result \<times> nat) option" where
  "client_execute_query env net c query_id sql params idempotent =
    map_option (\<lambda>(p, c').
      execute_query_via_pool (nw_retry net) (nw_acquire net p) (nw_gone net) (nw_events net) query_id sql (tc_query_settings c) params
        (cc_retry (tc_config c)) idempotent) (pool env c)"

definition client_execute_stream ::
    "('c, 'a, 't) tls_env \<Rightarrow> 't network \<Rightarrow> 't TcpClient \<Rightarrow> string \<Rightarrow> string \<Rightarrow> kvs \<Rightarrow> ((TcpRawCursor \<times> actor) option result \<times> nat) option" where
  "client_execute_stream env net c query_id sql params =
    map_option (\<lambda>(p, c').
      execute_stream_via_pool (nw_retry_stream net) (nw_acquire net p) (nw_gone net) (nw_events net) query_id sql
        (tc_query_settings c) params (cc_retry (tc_config c))) (pool env c)"

section \<open>The query builder\<close>

record 't TcpQuery =
  tq_client :: "'t TcpClient"
  tq_sql :: string
  tq_query_id :: string
  tq_params :: kvs

definition query_new :: "'t TcpClient \<Rightarrow> string \<Rightarrow> 't TcpQuery" where
  "query_new c sql = \<lparr> tq_client = c, tq_sql = sql, tq_query_id = [], tq_params = [] \<rparr>"

definition with_query_id :: "string \<Rightarrow> 't TcpQuery \<Rightarrow> 't TcpQuery" where
  "with_query_id query_id q = q\<lparr> tq_query_id := query_id \<rparr>"

definition param :: "string \<times> string \<Rightarrow> 't TcpQuery \<Rightarrow> 't TcpQuery" where
  "param nv q = q\<lparr> tq_params := tq_params q @ [nv] \<rparr>"

definition query_execute :: "('c, 'a, 't) tls_env \<Rightarrow> 't network \<Rightarrow> 't TcpQuery \<Rightarrow> (unit option result \<times> nat) option" where
  "query_execute env net q = client_execute_query env net (tq_client q) (tq_query_id q) (tq_sql q) (tq_params q) False"

definition query_fetch_blocks ::
    "('c, 'a, 't) tls_env \<Rightarrow> 't network \<Rightarrow> 't TcpQuery \<Rightarrow> (DecodedBlock list option result \<times> nat) option" where
  "query_fetch_blocks env net q =
    map_option (\<lambda>(r, n).
      (case r of
         Inl e \<Rightarrow> Inl e
       | Inr None \<Rightarrow> Inr None
       | Inr (Some (cursor, conn)) \<Rightarrow> map_sum id Some (collect_blocks cursor), n))
      (client_execute_stream env net (tq_client q) (tq_query_id q) (tq_sql q) (tq_params q))"

section \<open>Replays\<close>

lemma fold_param: "fold param ps q = q\<lparr> tq_params := tq_params q @ ps \<rparr>"
  by (induction ps arbitrary: q) (simp_all add: param_def)

lemmas query_builder = fold_param with_query_id_def query_new_def

lemma issue_not_retried:
  "execute_stream_cursor gone events query_id query settings params conn = Inl e \<Longrightarrow> \<not> is_retriable_transport e"
  by (auto simp: execute_stream_cursor_def is_retriable_transport_def is_retriable_def
      split: if_splits option.splits reply.splits prod.splits)

lemma stream_attempts:
  assumes "retries_as_documented backon"
  shows "\<exists>k. execute_stream_via_pool backon acquire gone events query_id query settings params retry =
      (case acquire k of Inl e \<Rightarrow> Inl (map_pool_error e)
       | Inr conn \<Rightarrow> execute_stream_cursor (gone k) (events k) query_id query settings params conn, Suc k) \<and>
    Suc k \<le> (case retry of None \<Rightarrow> 1 | Some p \<Rightarrow> max 1 (rp_max_attempts p)) \<and>
    (\<forall>i<k. \<exists>e. acquire i = Inl e \<and> is_retriable_transport (map_pool_error e)) \<and>
    (Suc k < (case retry of None \<Rightarrow> 1 | Some p \<Rightarrow> max 1 (rp_max_attempts p)) \<longrightarrow>
      (\<forall>e. acquire k = Inl e \<longrightarrow> \<not> is_retriable_transport (map_pool_error e)))"
proof -
  let ?op = "\<lambda>i. execute_stream_cursor (gone i) (events i) query_id query settings params"
  let ?outcome = "\<lambda>i. case acquire i of Inl e \<Rightarrow> Inl (map_pool_error e) | Inr conn \<Rightarrow> ?op i conn"
  obtain k where k: "run_with_retry backon acquire retry ?op = (?outcome k, Suc k)"
    "Suc k \<le> (case retry of None \<Rightarrow> 1 | Some p \<Rightarrow> max 1 (rp_max_attempts p))"
    "\<forall>i<k. \<exists>e. ?outcome i = Inl e \<and> is_retriable_transport e"
    "Suc k < (case retry of None \<Rightarrow> 1 | Some p \<Rightarrow> max 1 (rp_max_attempts p)) \<longrightarrow>
      (\<exists>x. ?outcome k = Inr x) \<or> (\<exists>e. ?outcome k = Inl e \<and> \<not> is_retriable_transport e)"
    using retries_outcome [OF assms refl, where acquire = acquire and op = ?op and retry = retry] by blast
  have "\<exists>e. acquire i = Inl e \<and> is_retriable_transport (map_pool_error e)" if "i < k" for i
    using k(3) that issue_not_retried by (cases "acquire i") fastforce+
  moreover have "\<not> is_retriable_transport (map_pool_error e)"
    if "Suc k < (case retry of None \<Rightarrow> 1 | Some p \<Rightarrow> max 1 (rp_max_attempts p))" "acquire k = Inl e" for e
    using k(4) that by simp
  ultimately show ?thesis using k(1,2) unfolding execute_stream_via_pool_def by blast
qed

lemma execute_unfolded:
  "query_execute env net (fold param ps (with_query_id query_id (query_new c sql))) =
    map_option (\<lambda>(p, c'). (case nw_acquire net p 0 of
        Inl e \<Rightarrow> Inl (map_pool_error e)
      | Inr conn \<Rightarrow> query_attempt (nw_gone net) (nw_events net) query_id sql (insert_settings c) ps 0 conn, 1)) (pool env c)"
  unfolding insert_settings_def
  by (simp add: query_execute_def client_execute_query_def execute_query_via_pool_def run_with_retry_def retry_with_def
      query_builder)

text \<open>What a caller gets from the attempt that used connection number \<open>k\<close> of the pool.\<close>

definition fetched_by :: "'t network \<Rightarrow> 't pool_setup \<Rightarrow> ConnectionCmd \<Rightarrow> nat \<Rightarrow> DecodedBlock list option result \<Rightarrow> bool" where
  "fetched_by net p cmd k r \<longleftrightarrow>
    (case nw_acquire net p k of
       Inl e \<Rightarrow> r = Inl (map_pool_error e)
     | Inr conn \<Rightarrow>
         if nw_gone net k then r = Inl (Custom ''tcp: connection actor closed'')
         else \<forall>frames conn' rest. handle cmd conn (nw_events net k) = Some (Frames frames, conn', rest) \<longrightarrow>
           r = map_sum id Some (blocks_of frames))"

text \<open>
  What is repeated.  Executing a staged statement makes one attempt under any policy.  Fetching its blocks makes at most
  as many as the policy allows, and every attempt but the last got no connection from the pool; the caller gets
  the blocks or the error of the last one, unretried, also where the task of its connection turned out to be gone.
\<close>

lemma replayed_only_unissued:
  assumes "retries_as_documented (nw_retry_stream net)" "pool env c = Some (p, c')"
    and "q = fold param ps (with_query_id query_id (query_new c sql))"
  shows "\<exists>k r s. query_execute env net q = Some (s, 1) \<and> query_fetch_blocks env net q = Some (r, Suc k) \<and>
      Suc k \<le> (case cc_retry (tc_config c) of None \<Rightarrow> 1 | Some p \<Rightarrow> max 1 (rp_max_attempts p)) \<and>
      (\<forall>i<k. \<exists>e. nw_acquire net p i = Inl e \<and> is_retriable_transport (map_pool_error e)) \<and>
      (Suc k < (case cc_retry (tc_config c) of None \<Rightarrow> 1 | Some p \<Rightarrow> max 1 (rp_max_attempts p)) \<longrightarrow>
        (\<forall>e. nw_acquire net p k = Inl e \<longrightarrow> \<not> is_retriable_transport (map_pool_error e))) \<and>
      fetched_by net p (ExecuteStream query_id sql (insert_settings c) ps) k r"
proof -
  let ?limit = "case cc_retry (tc_config c) of None \<Rightarrow> 1 | Some p \<Rightarrow> max 1 (rp_max_attempts p)"
  from stream_attempts [OF assms(1)] obtain k where
    k: "execute_stream_via_pool (nw_retry_stream net) (nw_acquire net p) (nw_gone net) (nw_events net) query_id sql
        (tc_query_settings c) ps (cc_retry (tc_config c)) =
      (case nw_acquire net p k of Inl e \<Rightarrow> Inl (map_pool_error e)
       | Inr conn \<Rightarrow> execute_stream_cursor (nw_gone net k) (nw_events net k) query_id sql (tc_query_settings c) ps conn, Suc k)"
    "Suc k \<le> ?limit" "\<forall>i<k. \<exists>e. nw_acquire net p i = Inl e \<and> is_retriable_transport (map_pool_error e)"
    "Suc k < ?limit \<longrightarrow> (\<forall>e. nw_acquire net p k = Inl e \<longrightarrow> \<not> is_retriable_transport (map_pool_error e))" by blast
  obtain r where "query_fetch_blocks env net q = Some (r, Suc k)"
    "fetched_by net p (ExecuteStream query_id sql (insert_settings c) ps) k r"
    using k(1) by (cases "nw_acquire net p k")
      (auto simp: fetched_by_def query_fetch_blocks_def client_execute_stream_def query_builder assms(2,3) insert_settings_def
        execute_stream_cursor_def fetch_blocks_eq [symmetric] fetch_blocks_def)
  moreover obtain s where "query_execute env net q = Some (s, 1)" unfolding assms(3) execute_unfolded by (simp add: assms(2))
  ultimately show ?thesis using k(2-4) by blast
qed

text \<open>A stream that has started: the connection was there, took the statement, and its first frame is a packet.\<close>

definition starts_stream :: "'t network \<Rightarrow> 't pool_setup \<Rightarrow> ConnectionCmd \<Rightarrow> nat \<Rightarrow> ServerPacket result list \<Rightarrow> bool" where
  "starts_stream net p cmd k frames \<longleftrightarrow> (\<exists>conn conn' rest pkt fs. nw_acquire net p k = Inr conn \<and> \<not> nw_gone net k \<and>
    handle cmd conn (nw_events net k) = Some (Frames frames, conn', rest) \<and> frames = Inr pkt # fs)"

text \<open>
  C16: a statement whose answer has begun is not issued again.  Whatever retry policy the client has, executing a staged
  statement makes one attempt.  Fetching its blocks makes at most as many attempts as the policy allows; a pool that
  gives no connection for a reason that may pass is asked again until the policy is used up; and no attempt but the last
  has started a stream.  If the last one did, with the query id set last, the parameters in the order they were bound
  and the settings of the client, the caller gets the blocks of that one stream, or the error it ends in, unretried.
\<close>

theorem started_stream_not_replayed:
  assumes "retries_as_documented (nw_retry_stream net)" "pool env c = Some (p, c')"
    and "q = fold param ps (with_query_id query_id (query_new c sql))"
    and "cmd = ExecuteStream query_id sql (insert_settings c) ps"
    and "limit = (case cc_retry (tc_config c) of None \<Rightarrow> 1 | Some p \<Rightarrow> max 1 (rp_max_attempts p))"
  shows "\<exists>k r s. query_execute env net q = Some (s, 1) \<and> query_fetch_blocks env net q = Some (r, Suc k) \<and> Suc k \<le> limit \<and>
      (\<forall>i<k. \<forall>frames. \<not> starts_stream net p cmd i frames) \<and>
      (\<forall>e. Suc k < limit \<and> nw_acquire net p k = Inl e \<longrightarrow> \<not> is_retriable_transport (map_pool_error e)) \<and>
      (\<forall>frames. starts_stream net p cmd k frames \<longrightarrow> r = map_sum id Some (blocks_of frames))"
proof -
  from replayed_only_unissued [OF assms(1-3)] obtain k r s where
    "query_execute env net q = Some (s, 1)" "query_fetch_blocks env net q = Some (r, Suc k)" "Suc k \<le> limit"
    "\<forall>i<k. \<exists>e. nw_acquire net p i = Inl e" "fetched_by net p cmd k r"
    "\<forall>e. Suc k < limit \<and> nw_acquire net p k = Inl e \<longrightarrow> \<not> is_retriable_transport (map_pool_error e)"
    unfolding assms(4,5) by blast
  then show ?thesis by (intro exI [of _ k] exI [of _ r] exI [of _ s]) (fastforce simp: starts_stream_def fetched_by_def)
qed

text \<open>
  A client with three attempts whose pool gives no connection at the first and then one that answers a stream with a
  log packet and its end.
\<close>

definition patient_client :: "nat list TcpClient" where
  "patient_client = set_config (\<lambda>cfg. cfg\<lparr> cc_retry := Some retry_default \<rparr>) (client_new ''db:9000'')"

definition late_network :: "nat list network" where
  "late_network = \<lparr> nw_acquire = (\<lambda>p i. if i = 0 then Inl (PoolCondition ''timeout'')
      else Inr (spawn_with_config \<lparr> CLIENT_VERSION_MAJOR_STR = ''0'', CLIENT_VERSION_MINOR_STR = ''1'' \<rparr> 54473 None [])),
    nw_gone = (\<lambda>i. False), nw_events = (\<lambda>i. [Message (Some (Packet PkEndOfStream))]),
    nw_retry = documented_backon, nw_retry_stream = documented_backon \<rparr>"

lemma late_stream:
  "0 < k \<Longrightarrow> starts_stream late_network p (ExecuteStream [] ''SELECT 1'' settings []) k [Inr PkEndOfStream]"
  by (simp add: starts_stream_def late_network_def spawn_with_config_def handle_def do_execute_stream_def issue_query_def
      send_query_def Let_def abind_def aret_def bounded_io_def DBMS_MIN_REVISION_WITH_SETTINGS_SERIALIZED_AS_STRINGS_def)

theorem started_stream_not_replayed_witness:
  "\<exists>k s. query_execute example_env late_network (query_new patient_client ''SELECT 1'') = Some (s, 1) \<and>
    query_fetch_blocks example_env late_network (query_new patient_client ''SELECT 1'') = Some (Inr (Some []), Suc k) \<and>
    0 < k \<and> Suc k \<le> 3"
proof -
  have "pool example_env patient_client \<noteq> None"
    by (simp add: pool_def patient_client_def client_new_def builder_simps build_pool_def)
  then obtain p c' where p: "pool example_env patient_client = Some (p, c')" by auto
  let ?q = "query_new patient_client ''SELECT 1''" and ?cmd = "ExecuteStream [] ''SELECT 1'' (insert_settings patient_client) []"
  have q: "?q = fold param [] (with_query_id [] ?q)" by (simp add: query_builder)
  have retry: "retries_as_documented (nw_retry_stream late_network)" by (simp add: late_network_def documented_backon_ok)
  have limit: "3 = (case cc_retry (tc_config patient_client) of None \<Rightarrow> 1 | Some p \<Rightarrow> max 1 (rp_max_attempts p))"
    by (simp add: patient_client_def client_new_def builder_simps retry_default_def)
  from started_stream_not_replayed [OF retry p q refl limit] obtain k r s where
    k: "query_execute example_env late_network ?q = Some (s, 1)" "query_fetch_blocks example_env late_network ?q = Some (r, Suc k)"
      "Suc k \<le> 3" "\<And>e. Suc k < 3 \<and> nw_acquire late_network p k = Inl e \<Longrightarrow> \<not> is_retriable_transport (map_pool_error e)"
      "\<And>frames. starts_stream late_network p ?cmd k frames \<Longrightarrow> r = map_sum id Some (blocks_of frames)" by blast
  have "is_retriable_transport (map_pool_error (PoolCondition ''timeout''))"
    by (simp add: map_pool_error_def is_retriable_transport_def is_retriable_def)
  then have "0 < k" using k(4) [of "PoolCondition ''timeout''"] by (cases k) (auto simp: late_network_def)
  moreover from this have "r = Inr (Some [])" using k(5) [OF late_stream] by simp
  ultimately show ?thesis using k(1-3) by auto
qed

end
