(* ===== verification/Unified.thy ===== *)
theory Unified
  imports InsertDelivery Queries PacketRoundtrip
begin

text \<open>
  One client over both transports, src/src/unified.rs: result sets as columns, the decoder of a Native body received over
  HTTP, and the opening of a dynamic insert with its schema.
\<close>

section \<open>Native bodies over HTTP\<close>

definition finish_block_info :: "unit rd" where
  "finish_block_info =
    rbind (read_le 1) (\<lambda>is_overflows.
    rbind read_var_uint (\<lambda>field2.
      if field2 \<noteq> 2 then bad (HttpBlockInfoFieldTwo (unat field2)) else
    rbind (read_le 4) (\<lambda>bucket_num.
    rbind read_var_uint (\<lambda>terminator.
      if terminator \<noteq> 0 then bad (HttpBlockInfoTerminator (unat terminator)) else rret ()))))"

text \<open>The rest of a block behind the first field id.\<close>

definition finish_block :: "DecodedBlock rd" where
  "finish_block =
    rbind finish_block_info (\<lambda>_.
    rbind read_var_uint (\<lambda>num_columns.
    rbind read_var_uint (\<lambda>num_rows. decode_block num_columns num_rows DBMS_TCP_PROTOCOL_VERSION)))"

text \<open>The loop over the blocks of a body, with the blocks read so far; a loop that does not end has no value.\<close>

partial_function (option) decode_native_loop :: "DecodedBlock list \<Rightarrow> byte list \<Rightarrow> DecodedBlock list result option" where
  "decode_native_loop blocks r =
    (case read_var_uint_or_eof r of
       Inl e \<Rightarrow> Some (Inl e)
     | Inr p \<Rightarrow>
         (case fst p of
            None \<Rightarrow> Some (Inr blocks)
          | Some field1 \<Rightarrow>
              if field1 \<noteq> 1 then Some (Inl (BadResponse (HttpBlockInfoFieldOne (unat field1))))
              else (case finish_block (snd p) of
                 Inl e \<Rightarrow> Some (Inl e)
               | Inr q \<Rightarrow> decode_native_loop (blocks @ [fst q]) (snd q))))"

definition decode_native_stream :: "byte list \<Rightarrow> DecodedBlock list result option" where
  "decode_native_stream r = decode_native_loop [] r"

section \<open>Columns\<close>

record Columns =
  co_blocks :: "DecodedBlock list"

definition columns_get :: "'a from_column \<Rightarrow> Columns \<Rightarrow> string \<Rightarrow> 'a list result" where
  "columns_get from_col c name = tri (each_result (\<lambda>b. column_as from_col b name) (co_blocks c)) (\<lambda>vss. Inr (concat vss))"

definition columns_rows :: "Columns \<Rightarrow> nat" where
  "columns_rows c = sum_list (map (\<lambda>b. min (db_num_rows b) (2 ^ 64 - 1)) (co_blocks c))"

definition columns_is_empty :: "Columns \<Rightarrow> bool" where
  "columns_is_empty c \<longleftrightarrow> columns_rows c = 0"

section \<open>The client\<close>

datatype transport = Http | Tcp

datatype 't UnifiedClient = HttpClient | TcpTransport "'t TcpClient"

definition transport_of :: "'t UnifiedClient \<Rightarrow> transport" where
  "transport_of c = (case c of HttpClient \<Rightarrow> Http | TcpTransport _ \<Rightarrow> Tcp)"

definition as_tcp :: "'t UnifiedClient \<Rightarrow> 't TcpClient option" where
  "as_tcp c = (case c of HttpClient \<Rightarrow> None | TcpTransport client \<Rightarrow> Some client)"

text \<open>
  The HTTP client's answers: to a statement without rows, and to one with settings whose answer is read as Native bytes.
  A call over TCP has no value where building the pool panics, and its result carries none where the command does not
  return.
\<close>

record http =
  ht_execute :: "string \<Rightarrow> unit result"
  ht_fetch_bytes :: "string \<Rightarrow> kvs \<Rightarrow> byte list result"

definition unified_execute ::
    "('c, 'a, 't) tls_env \<Rightarrow> 't network \<Rightarrow> http \<Rightarrow> 't UnifiedClient \<Rightarrow> string \<Rightarrow> unit option result option" where
  "unified_execute env net http c sql =
    (case c of
       HttpClient \<Rightarrow> Some (map_sum id Some (ht_execute http sql))
     | TcpTransport client \<Rightarrow> map_option fst (query_execute env net (query_new client sql)))"

definition unified_ping :: "('c, 'a, 't) tls_env \<Rightarrow> 't network \<Rightarrow> http \<Rightarrow> 't UnifiedClient \<Rightarrow> unit option result option" where
  "unified_ping env net http c =
    (case c of
       HttpClient \<Rightarrow> Some (map_sum id Some (ht_execute http ''SELECT 1''))
     | TcpTransport client \<Rightarrow> client_ping env net client)"

definition CLIENT_PROTOCOL_VERSION :: string where "CLIENT_PROTOCOL_VERSION = ''client_protocol_version''"

definition fetch_columns ::
    "('c, 'a, 't) tls_env \<Rightarrow> 't network \<Rightarrow> http \<Rightarrow> 't UnifiedClient \<Rightarrow> string \<Rightarrow> Columns option result option" where
  "fetch_columns env net http c sql =
    (case c of
       HttpClient \<Rightarrow>
         (case ht_fetch_bytes http sql [(JSON_AS_STRING, ''1''), (CLIENT_PROTOCOL_VERSION, show_nat (unat DBMS_TCP_PROTOCOL_VERSION))] of
            Inl e \<Rightarrow> Some (Inl e)
          | Inr body \<Rightarrow> map_option (map_sum id (\<lambda>blocks. Some \<lparr> co_blocks = blocks \<rparr>)) (decode_native_stream body))
     | TcpTransport client \<Rightarrow>
         map_option (\<lambda>(r, n). map_sum id (map_option (\<lambda>blocks. \<lparr> co_blocks = blocks \<rparr>)) r)
           (query_fetch_blocks env net (query_new client sql)))"

text \<open>The schema rows of a table: three columns of text, zipped.\<close>

definition system_rows :: "Columns \<Rightarrow> (string \<times> string \<times> string) list result" where
  "system_rows c =
    tri (columns_get from_column_string c ''name'') (\<lambda>names.
    tri (columns_get from_column_string c ''col_type'') (\<lambda>types.
    tri (columns_get from_column_string c ''default_kind'') (\<lambda>kinds.
      Inr (map (\<lambda>((n, t), k). (n, t, k)) (zip (zip names types) kinds)))))"

definition dynamic_insert ::
    "('c, 'a, 't) tls_env \<Rightarrow> 't network \<Rightarrow> http \<Rightarrow> (string \<Rightarrow> string) \<Rightarrow> nat \<Rightarrow> 't UnifiedClient \<Rightarrow> string \<Rightarrow> string \<Rightarrow> DynamicSchemaCache \<Rightarrow>
     ('t DynamicInsert option result \<times> DynamicSchemaCache) option" where
  "dynamic_insert env net http escape now c database tab cache =
    (case c of
       HttpClient \<Rightarrow> Some (Inr (Some (http_insert database tab)), cache)
     | TcpTransport client \<Rightarrow>
         (let full = database @ ''.'' @ tab in
          case cache_get now cache full of
            Some cached \<Rightarrow> Some (Inr (Some (tcp_insert client database tab cached)), cache)
          | None \<Rightarrow>
              map_option (\<lambda>fetch.
                (case fetch of
                   Inl e \<Rightarrow> (Inl e, cache)
                 | Inr None \<Rightarrow> (Inr None, cache)
                 | Inr (Some columns) \<Rightarrow>
                     (case system_rows columns of
                        Inl e \<Rightarrow> (Inl e, cache)
                      | Inr rows \<Rightarrow>
                          (case schema_from_system_columns full rows of
                             Inl e \<Rightarrow> (Inl (Dynamic e), cache)
                           | Inr fetched \<Rightarrow>
                               (Inr (Some (tcp_insert client database tab fetched)), cache_insert now full fetched cache)))))
                (fetch_columns env net http c (system_columns_sql escape database tab))))"

section \<open>One schema query for a table\<close>

lemma opened_schema:
  assumes "dynamic_insert env net http escape now (TcpTransport client) database tab cache = Some (Inr (Some i), cache')"
  shows "\<exists>s. i = tcp_insert client database tab s \<and>
    (cache_get now cache (database @ ''.'' @ tab) = Some s \<and> cache' = cache \<or>
     cache_get now cache (database @ ''.'' @ tab) = None \<and> cache' = cache_insert now (database @ ''.'' @ tab) s cache)"
proof (cases "cache_get now cache (database @ ''.'' @ tab)")
  case (Some s)
  then show ?thesis using assms by (simp add: dynamic_insert_def)
next
  case None
  then have "fetch_columns env net http (TcpTransport client) (system_columns_sql escape database tab) \<noteq> None"
    using assms by (auto simp: dynamic_insert_def Let_def)
  then obtain f where "fetch_columns env net http (TcpTransport client) (system_columns_sql escape database tab) = Some f" by auto
  with assms None show ?thesis
    by (cases f) (auto simp: dynamic_insert_def Let_def split: sum.splits option.splits)
qed

text \<open>
  A table's schema is asked for once.  When a dynamic insert over TCP was opened, with the schema from the cache or
  from the server, and the time to live of the cache has not passed since, then opening another for the same table needs
  no server: whatever the network does, it gives an insert with the same schema and leaves the cache as it is.
\<close>

theorem schema_fetched_once:
  assumes "dynamic_insert env net http escape now (TcpTransport client) database tab cache = Some (Inr (Some i), cache')"
    and "now \<le> later" "case cache_get now cache (database @ ''.'' @ tab) of
      None \<Rightarrow> later - now < sc_ttl cache
    | Some s \<Rightarrow> cache_get later cache (database @ ''.'' @ tab) = Some s"
  shows "dynamic_insert env' net' http' escape' later (TcpTransport client') database tab cache' =
    Some (Inr (Some (i\<lparr> di_backend := TcpBackend client' \<rparr>)), cache')"
proof -
  from opened_schema [OF assms(1)] obtain s where s: "i = tcp_insert client database tab s"
    "cache_get later cache' (database @ ''.'' @ tab) = Some s"
    using assms(3) by (auto simp: cache.lookup_store)
  then show ?thesis by (simp add: dynamic_insert_def tcp_insert_def)
qed

definition quiet_http :: http where
  "quiet_http = \<lparr> ht_execute = (\<lambda>sql. Inr ()), ht_fetch_bytes = (\<lambda>sql settings. Inr []) \<rparr>"

theorem schema_fetched_once_witness:
  "\<exists>i. dynamic_insert example_env late_network quiet_http id 5 (TcpTransport patient_client) ''db'' ''t'' (cache_insert 0 ''db.t'' id_schema (cache_new 60)) =
      Some (Inr (Some i), cache_insert 0 ''db.t'' id_schema (cache_new 60)) \<and>
    dynamic_insert example_env late_network quiet_http id 30 (TcpTransport patient_client) ''db'' ''t'' (cache_insert 0 ''db.t'' id_schema (cache_new 60)) =
      Some (Inr (Some (i\<lparr> di_backend := TcpBackend patient_client \<rparr>)), cache_insert 0 ''db.t'' id_schema (cache_new 60))"
proof -
  let ?cache = "cache_insert 0 ''db.t'' id_schema (cache_new 60)"
  have warm: "cache_get 5 ?cache (''db'' @ ''.'' @ ''t'') = Some id_schema" "cache_get 30 ?cache (''db'' @ ''.'' @ ''t'') = Some id_schema"
    by (simp_all add: cache.lookup_store cache_new_def)
  then have "dynamic_insert example_env late_network quiet_http id 5 (TcpTransport patient_client) ''db'' ''t'' ?cache =
      Some (Inr (Some (tcp_insert patient_client ''db'' ''t'' id_schema)), ?cache)"
    by (simp add: dynamic_insert_def)
  from schema_fetched_once [OF this, of 30] warm this show ?thesis by auto
qed

text \<open>
  The key of the cache joins the two names with a dot and does not quote them: two tables whose names hold dots can share
  a key, and the second is then opened with the schema of the first.
\<close>

theorem schema_of_another_table:
  assumes "dynamic_insert env net http escape now (TcpTransport client) ''a'' ''b.c'' (cache_new ttl) = Some (Inr (Some i), cache)" "0 < ttl"
  shows "\<exists>j. dynamic_insert env' net' http' escape' now (TcpTransport client) ''a.b'' ''c'' cache = Some (Inr (Some j), cache) \<and>
    di_schema j = di_schema i \<and> di_schema j \<noteq> None"
proof -
  have cold: "cache_get now (cache_new ttl) t = None" for t by (simp add: cache_get_def cache_new_def)
  from opened_schema [OF assms(1)] cold obtain s where s: "i = tcp_insert client ''a'' ''b.c'' s"
    "cache = cache_insert now ''a.b.c'' s (cache_new ttl)" by auto
  have "cache_get now cache (''a.b'' @ ''.'' @ ''c'') = Some s"
    using assms(2) by (simp add: s(2) cache_get_def cache_insert_def cache_new_def)
  then have "dynamic_insert env' net' http' escape' now (TcpTransport client) ''a.b'' ''c'' cache =
      Some (Inr (Some (tcp_insert client ''a.b'' ''c'' s)), cache)"
    by (simp add: dynamic_insert_def)
  then show ?thesis by (intro exI [of _ "tcp_insert client ''a.b'' ''c'' s"]) (simp add: s(1) tcp_insert_def)
qed

text \<open>
  A schema mismatch over TCP leaves the cache alone: the next insert into the table, opened through the same client and
  cache within the time to live, starts from the schema that was just found to be stale.
\<close>

lemma end_insert_tcp_cache:
  assumes "end_insert h i w = Some (r, w')" "di_backend i = TcpBackend client"
  shows "w_cache w' = w_cache w"
proof -
  from map_option_SomeD [OF assms(1) [unfolded end_insert_def]] obtain x w1 where e: "end_sink h i w = Some (x, w1)"
    and k: "(case x of Inl err \<Rightarrow> (Inl err, case err of DynSchemaMismatch _ _ \<Rightarrow> snd (invalidate_schema i w1) | _ \<Rightarrow> w1)
      | Inr _ \<Rightarrow> (Inr (di_rows_written i), w1)) = (r, w')" by auto
  have "w_cache w1 = w_cache w"
    using e by (auto simp: end_sink_def on_connection_def split: option.splits OpenSink.splits)
  then show ?thesis using k assms(2) by (cases x) (auto simp: invalidate_schema_def split: dynamic_error.splits)
qed

theorem tcp_mismatch_keeps_schema:
  assumes "end_insert h j w = Some (Inl (DynSchemaMismatch t m), w')" "di_backend j = TcpBackend client"
    and "cache_get later (w_cache w) (full_table j) = Some stale"
  shows "dynamic_insert env net http escape later (TcpTransport client) (di_database j) (di_table j) (w_cache w') =
    Some (Inr (Some (tcp_insert client (di_database j) (di_table j) stale)), w_cache w')"
  using end_insert_tcp_cache [OF assms(1,2)] assms(3) by (simp add: dynamic_insert_def full_table_def)

section \<open>Both transports read alike\<close>

text \<open>The body of one block as a server writes it at the client's revision.\<close>

inductive http_frame :: "(string \<times> string) list \<times> byte list list list \<times> nat \<Rightarrow> byte list \<Rightarrow> bool" where
  "bucket < 2 ^ 32 \<Longrightarrow> server_block DBMS_TCP_PROTOCOL_VERSION columns cols n bytes \<Longrightarrow>
    http_frame (map (\<lambda>col. (cs_name col, sent_name col)) columns, cols, n)
      (put_var_uint 1 @ [overflow] @ put_var_uint 2 @ le_bytes 4 bucket @ put_var_uint 0 @
       put_var_uint (of_nat (length columns)) @ put_var_uint (of_nat n) @ bytes)"

definition http_view :: "DecodedBlock \<Rightarrow> (string \<times> string) list \<times> byte list list list \<times> nat" where
  "http_view b = (db_schema b, map to_cells (db_columns b), db_num_rows b)"

lemma http_frame_read:
  assumes "http_frame m f" "length (f @ rest) < 2 ^ 64"
  shows "\<exists>r1 b. read_var_uint_or_eof (f @ rest) = Inr (Some 1, r1) \<and> finish_block r1 = Inr (b, rest) \<and> http_view b = m"
  using assms(1)
proof cases
  case (1 bucket columns cols n bytes overflow)
  have len: "length (bytes @ rest) < 2 ^ 64" using assms(2) 1(2) by simp
  obtain b where b: "decode_block (of_nat (length columns)) (of_nat n) DBMS_TCP_PROTOCOL_VERSION (bytes @ rest) = Inr (b, rest)" "http_view b = m"
    using server_block_decoded [OF 1(4) len] 1(1) by (auto simp: http_view_def)
  have "finish_block ([overflow] @ put_var_uint 2 @ le_bytes 4 bucket @ put_var_uint 0 @
      put_var_uint (of_nat (length columns)) @ put_var_uint (of_nat n) @ bytes @ rest) = Inr (b, rest)"
    using b(1) 1(3) by (simp add: finish_block_def finish_block_info_def rbind_assoc varint_bind byte_binds le_bind)
  moreover have "read_var_uint_or_eof (put_var_uint 1 @ r) = Inr (Some 1, r)" for r
    by (subst read_var_uint_or_eof_Cons) (simp_all add: varint_bind)
  ultimately show ?thesis using b(2) 1(2) by auto
qed

lemma decode_native_loop_frames:
  assumes "list_all2 http_frame ms fs" "length (concat fs) < 2 ^ 64"
  shows "\<exists>bs. decode_native_loop blocks (concat fs) = Some (Inr (blocks @ bs)) \<and> map http_view bs = ms"
  using assms
proof (induction arbitrary: blocks rule: list_all2_induct)
  case Nil
  show ?case by (subst decode_native_loop.simps) (simp add: read_var_uint_or_eof_def)
next
  case (Cons m ms f fs)
  then have "length (f @ concat fs) < 2 ^ 64" by simp
  from http_frame_read [OF Cons(1) this] obtain r1 b where
    r: "read_var_uint_or_eof (f @ concat fs) = Inr (Some 1, r1)" "finish_block r1 = Inr (b, concat fs)" "http_view b = m" by blast
  moreover obtain bs where "decode_native_loop (blocks @ [b]) (concat fs) = Some (Inr ((blocks @ [b]) @ bs))" "map http_view bs = ms"
    using Cons.IH [of "blocks @ [b]"] Cons.prems by auto
  ultimately show ?case
    by (intro exI [of _ "b # bs"]) (subst decode_native_loop.simps, simp)
qed

text \<open>
  C15: the two transports read the same answer alike.  A result set that a server sends as a Native body over HTTP, at
  the revision this client asks for, decodes to its blocks in order and the loop ends with the body; and the same
  bytes sent as data packets over TCP, each behind its packet type and an empty table name, are read to blocks with
  the same schemas, the same cells and the same row counts.
\<close>

theorem transports_read_alike:
  assumes "list_all2 http_frame ms fs" "length (concat fs) < 2 ^ 64"
    and "length (concat (map (\<lambda>f. put_var_uint 1 @ put_text [] @ f) fs)) < 2 ^ 64"
  shows "\<exists>blocks packets. decode_native_stream (concat fs) = Some (Inr blocks) \<and> map http_view blocks = ms \<and>
    read_times (length ms) (read_packet DBMS_TCP_PROTOCOL_VERSION) (concat (map (\<lambda>f. put_var_uint 1 @ put_text [] @ f) fs)) = Inr (packets, []) \<and>
    map packet_view packets = map Inr ms"
proof -
  have "list_all2 (frame DBMS_TCP_PROTOCOL_VERSION) (map Inr ms) (map (\<lambda>f. put_var_uint 1 @ put_text [] @ f) fs)"
    using assms(1)
  proof (induction rule: list_all2_induct)
    case (Cons m ms f fs)
    from Cons(1) have "frame DBMS_TCP_PROTOCOL_VERSION (Inr m) (put_var_uint 1 @ put_text [] @ f)"
    proof cases
      case (1 bucket columns cols n bytes overflow)
      have "wf_header [] bucket (of_nat (length columns))"
        using 1(3,4) by (auto simp: wf_header_def empty_announced server_block_def unat_u64_of_nat READER_MAX_BLOCK_COLUMNS_def)
      from fr_block [OF _ this 1(4), of 1 overflow] show ?thesis
        by (simp add: 1(1,2) header_bytes_def DBMS_TCP_PROTOCOL_VERSION_def DBMS_MIN_REVISION_WITH_TEMPORARY_TABLES_def
            DBMS_MIN_REVISION_WITH_BLOCK_INFO_def DBMS_MIN_REVISION_WITH_V2_DYNAMIC_AND_JSON_SERIALIZATION_def)
    qed
    then show ?case using Cons(3) by simp
  qed simp
  from pk.read_stream [OF this, of "[]"] assms(3) obtain packets where
    "read_times (length ms) (read_packet DBMS_TCP_PROTOCOL_VERSION) (concat (map (\<lambda>f. put_var_uint 1 @ put_text [] @ f) fs)) = Inr (packets, [])"
    "map packet_view packets = map Inr ms" by auto
  moreover obtain blocks where "decode_native_stream (concat fs) = Some (Inr blocks)" "map http_view blocks = ms"
    using decode_native_loop_frames [OF assms(1,2), of "[]"] by (auto simp: decode_native_stream_def)
  ultimately show ?thesis by blast
qed

definition ab_body :: "byte list" where
  "ab_body = put_var_uint 1 @ [0] @ put_var_uint 2 @ le_bytes 4 0 @ put_var_uint 0 @
    put_var_uint (of_nat (length ab_schema)) @ put_var_uint (of_nat 2) @ ab_bytes"

lemma ab_http_frame: "http_frame (map (\<lambda>col. (cs_name col, sent_name col)) ab_schema, ab_cols, 2) ab_body"
  unfolding ab_body_def using ab_server_block
  by (intro http_frame.intros) (simp_all add: DBMS_TCP_PROTOCOL_VERSION_def DBMS_MIN_REVISION_WITH_V2_DYNAMIC_AND_JSON_SERIALIZATION_def)

theorem transports_read_alike_witness:
  "\<exists>blocks packets. decode_native_stream (concat [ab_body, ab_body]) = Some (Inr blocks) \<and> map db_num_rows blocks = [2, 2] \<and>
    read_times (length [ab_body, ab_body]) (read_packet DBMS_TCP_PROTOCOL_VERSION)
      (concat (map (\<lambda>f. put_var_uint 1 @ put_text [] @ f) [ab_body, ab_body])) = Inr (packets, []) \<and>
    map packet_view packets = map (Inr \<circ> http_view) blocks"
proof -
  have "length ab_body \<le> 100"
    using varint_short [of 1] varint_short [of 2] varint_short [of 0] varint_short [of "of_nat (length ab_schema)"]
    by (simp add: ab_body_def ab_bytes_def)
  then have len: "length (concat [ab_body, ab_body]) < 2 ^ 64"
    "length (concat (map (\<lambda>f. put_var_uint 1 @ put_text [] @ f) [ab_body, ab_body])) < 2 ^ 64"
    using varint_short [of 1] text_short [of "[]"] by simp_all
  let ?m = "(map (\<lambda>col. (cs_name col, sent_name col)) ab_schema, ab_cols, 2 :: nat)"
  have "list_all2 http_frame [?m, ?m] [ab_body, ab_body]" using ab_http_frame by simp
  from transports_read_alike [OF this len] obtain blocks packets where
    r: "decode_native_stream (concat [ab_body, ab_body]) = Some (Inr blocks)" "map http_view blocks = [?m, ?m]"
      "read_times (length [?m, ?m]) (read_packet DBMS_TCP_PROTOCOL_VERSION)
        (concat (map (\<lambda>f. put_var_uint 1 @ put_text [] @ f) [ab_body, ab_body])) = Inr (packets, [])"
      "map packet_view packets = map Inr [?m, ?m]" by (elim exE conjE)
  have "map db_num_rows blocks = map (\<lambda>(s, c, n). n) (map http_view blocks)" by (simp add: http_view_def comp_def)
  then have "map db_num_rows blocks = [2, 2]" by (simp add: r(2))
  moreover have "map packet_view packets = map (Inr \<circ> http_view) blocks" unfolding r(4) r(2) [symmetric] by simp
  ultimately show ?thesis using r(1,3) by (intro exI conjI) simp_all
qed

end
