(* ===== verification/Termination.thy ===== *)
theory Termination
  imports ReaderProgress Unified
begin

text \<open>
  The two loops that read until the input ends, for whatever bytes a server sends: the reader sub-task of a connection
  (src/src/tcp/connection_actor.rs) and the loop over a Native body (src/src/unified.rs).
\<close>

section \<open>The reader sub-task\<close>

lemma reader_loop_fuel:
  "length bytes < n \<Longrightarrow> length bytes < k \<Longrightarrow> reader_loop n sr bytes = reader_loop k sr bytes"
proof (induction n arbitrary: bytes k)
  case (Suc n)
  then obtain k' where k: "k = Suc k'" by (cases k) auto
  show ?case
  proof (cases "read_packet sr bytes")
    case (Inr pr)
    then obtain p r where p: "read_packet sr bytes = Inr (p, r)" by (cases pr) auto
    from packet_consumes [OF this] Suc.prems have "length r < n" "length r < k'" by (auto simp: k)
    from Suc.IH [OF this] show ?thesis by (simp add: k p)
  qed (simp add: k)
qed simp

lemma reader_loop_stops:
  "\<exists>ps e. reader_loop (Suc (length bytes)) sr bytes = (map Packet ps @ [ReaderError e], True) \<and> length ps \<le> length bytes"
proof (induction bytes rule: length_induct)
  case (1 bytes)
  show ?case
  proof (cases "read_packet sr bytes")
    case (Inl e)
    then show ?thesis by (intro exI [of _ "[]"] exI [of _ e]) simp
  next
    case (Inr pr)
    then obtain p r where p: "read_packet sr bytes = Inr (p, r)" by (cases pr) auto
    from packet_consumes [OF this] have shorter: "length r < length bytes" by auto
    with 1 obtain ps e where ps: "reader_loop (Suc (length r)) sr r = (map Packet ps @ [ReaderError e], True)" "length ps \<le> length r"
      by blast
    moreover have "reader_loop (length bytes) sr r = reader_loop (Suc (length r)) sr r"
      using shorter by (intro reader_loop_fuel) auto
    ultimately show ?thesis using shorter
      by (intro exI [of _ "p # ps"] exI [of _ e]) (simp add: p del: reader_loop.simps(2), simp add: p)
  qed
qed

text \<open>
  C19: the reader sub-task of a connection comes to an end on every input.  Whatever bytes the server sends before it
  closes the connection, and at any revision, every packet takes at least one byte, so that the task hands over at most
  as many packets as there are bytes, then one error, and leaves the connection poisoned; more turns of the loop than
  bytes change nothing.
\<close>

theorem reader_task_ends:
  assumes "length bytes < turns"
  shows "\<exists>packets e. reader_loop turns sr bytes = (map Packet packets @ [ReaderError e], True) \<and> length packets \<le> length bytes"
proof -
  have "reader_loop turns sr bytes = reader_loop (Suc (length bytes)) sr bytes" using assms by (intro reader_loop_fuel) auto
  with reader_loop_stops [of bytes sr] show ?thesis by presburger
qed

theorem reader_task_ends_witness:
  "\<exists>packets e. reader_loop 10 54473 [4, 5, 255] = (map Packet packets @ [ReaderError e], True) \<and> length packets \<le> 3"
  using reader_task_ends [of "[4, 5, 255]" 10 54473] by (simp add: numeral_3_eq_3 del: reader_loop.simps)

section \<open>The loop over a Native body\<close>

lemma reads_finish_block: "reads finish_block"
  unfolding finish_block_def finish_block_info_def by (auto intro!: forward)

lemma or_eof_consumes: "read_var_uint_or_eof s = Inr (Some v, r) \<Longrightarrow> length r < length s"
  by (cases "s = []")
     (auto simp: read_var_uint_or_eof_def [of "[]"] read_var_uint_or_eof_Cons rbind_eq_Inr dest!: var_uint_consumes)

lemma decode_native_loop_returns:
  "\<exists>res. decode_native_loop blocks body = Some res \<and>
    (\<forall>bs. res = Inr bs \<longrightarrow> length bs \<le> length blocks + length body)"
proof (induction body arbitrary: blocks rule: length_induct)
  case (1 body)
  show ?case
  proof (cases "read_var_uint_or_eof body")
    case (Inl e)
    then show ?thesis by (subst decode_native_loop.simps) simp
  next
    case (Inr pr)
    then obtain f r where p: "read_var_uint_or_eof body = Inr (f, r)" by (cases pr) auto
    show ?thesis
    proof (cases f)
      case None
      with p show ?thesis by (subst decode_native_loop.simps) simp
    next
      case (Some v)
      then have r: "length r < length body" using or_eof_consumes p by blast
      show ?thesis
      proof (cases "finish_block r")
        case (Inl e)
        with p Some show ?thesis by (subst decode_native_loop.simps) simp
      next
        case (Inr q)
        then obtain b r' where q: "finish_block r = Inr (b, r')" by (cases q) auto
        with readsD [OF reads_finish_block] have "suffix r' r" by blast
        then have shorter: "length r' < length body" using r by (auto dest: suffix_length_le)
        then obtain res where "decode_native_loop (blocks @ [b]) r' = Some res"
          "\<forall>bs. res = Inr bs \<longrightarrow> length bs \<le> length (blocks @ [b]) + length r'"
          using 1 by blast
        with p Some q shorter show ?thesis
          by (subst decode_native_loop.simps) (fastforce intro: order_trans)
      qed
    qed
  qed
qed

text \<open>
  C18: a Native body received over HTTP is always decoded to an end.  For every sequence of bytes, valid or not, the loop
  over the body returns blocks or an error, and never more blocks than the body has bytes.
\<close>

theorem native_body_terminates:
  "\<exists>res. decode_native_stream body = Some res \<and> (case res of Inl e \<Rightarrow> True | Inr blocks \<Rightarrow> length blocks \<le> length body)"
proof -
  obtain res where res: "decode_native_loop [] body = Some res" "\<forall>bs. res = Inr bs \<longrightarrow> length bs \<le> length body"
    using decode_native_loop_returns [of "[]" body] by auto
  then show ?thesis by (cases res) (auto simp: decode_native_stream_def)
qed

end
