(* ===== verification/DecodedTypes.thy ===== *)
theory DecodedTypes
  imports BlockRoundtrip
begin

text \<open>
  Types of decoded columns: a column the block decoder returns has the shape its declared type calls for, one entry per
  row and every value within the width of the type, whatever bytes the server sent; and a typed read of a column
  (src/src/native/decode.rs, \<open>FromColumn\<close>) succeeds exactly on the types it is meant for.
\<close>

section \<open>Conformance\<close>

definition unsigned_in :: "nat \<Rightarrow> nat list \<Rightarrow> bool" where
  "unsigned_in w vs \<longleftrightarrow> (\<forall>v\<in>set vs. v < 256 ^ w)"

definition signed_in :: "nat \<Rightarrow> int list \<Rightarrow> bool" where
  "signed_in w vs \<longleftrightarrow> (\<forall>v\<in>set vs. - (2 ^ (8 * w - 1)) \<le> v \<and> v < 2 ^ (8 * w - 1))"

definition blobs_of :: "nat \<Rightarrow> byte list list \<Rightarrow> bool" where
  "blobs_of w vs \<longleftrightarrow> (\<forall>v\<in>set vs. length v = w)"

lemmas ranges = unsigned_in_def signed_in_def blobs_of_def

text \<open>
  \<open>conforms t n c\<close>: \<open>c\<close> is what a column of \<open>n\<close> rows of the type \<open>t\<close> is decoded to.  The indices of a dictionary column are
  not resolved by the decoder and may point outside the dictionary.  Of the four types without a decoded form the
  decoder skips the bytes and surfaces a column that holds no rows, only its type.
\<close>

inductive conforms :: "ColumnType \<Rightarrow> nat \<Rightarrow> DecodedColumn \<Rightarrow> bool" where
  "length v = n \<Longrightarrow> conforms UInt8 n (DUInt8 v)"
| "length v = n \<Longrightarrow> unsigned_in 2 v \<Longrightarrow> conforms UInt16 n (DUInt16 v)"
| "length v = n \<Longrightarrow> unsigned_in 4 v \<Longrightarrow> conforms UInt32 n (DUInt32 v)"
| "length v = n \<Longrightarrow> unsigned_in 8 v \<Longrightarrow> conforms UInt64 n (DUInt64 v)"
| "length v = n \<Longrightarrow> unsigned_in 16 v \<Longrightarrow> conforms UInt128 n (DUInt128 v)"
| "length v = n \<Longrightarrow> signed_in 1 v \<Longrightarrow> t = Int8 \<or> t = Enum8 \<Longrightarrow> conforms t n (DInt8 v)"
| "length v = n \<Longrightarrow> signed_in 2 v \<Longrightarrow> t = Int16 \<or> t = Enum16 \<Longrightarrow> conforms t n (DInt16 v)"
| "length v = n \<Longrightarrow> signed_in 4 v \<Longrightarrow> conforms Int32 n (DInt32 v)"
| "length v = n \<Longrightarrow> signed_in 8 v \<Longrightarrow> conforms Int64 n (DInt64 v)"
| "length v = n \<Longrightarrow> signed_in 16 v \<Longrightarrow> conforms Int128 n (DInt128 v)"
| "length b = n \<Longrightarrow> blobs_of 32 b \<Longrightarrow> conforms Int256 n (DInt256 b)"
| "length b = n \<Longrightarrow> blobs_of 32 b \<Longrightarrow> conforms UInt256 n (DUInt256 b)"
| "length v = n \<Longrightarrow> unsigned_in 4 v \<Longrightarrow> conforms Float32 n (DFloat32 v)"
| "length v = n \<Longrightarrow> unsigned_in 8 v \<Longrightarrow> conforms Float64 n (DFloat64 v)"
| "length v = n \<Longrightarrow> signed_in 4 v \<Longrightarrow> conforms (Decimal32 p s) n (DDecimal32 p s v)"
| "length v = n \<Longrightarrow> signed_in 8 v \<Longrightarrow> conforms (Decimal64 p s) n (DDecimal64 p s v)"
| "length v = n \<Longrightarrow> signed_in 16 v \<Longrightarrow> conforms (Decimal128 p s) n (DDecimal128 p s v)"
| "length b = n \<Longrightarrow> blobs_of 32 b \<Longrightarrow> conforms (Decimal256 p s) n (DDecimal256 p s b)"
| "length b = n \<Longrightarrow> conforms String n (DString b)"
| "length b = n \<Longrightarrow> t \<in> {Json, NewJson, DynamicType} \<or> (\<exists>ts. t = Variant ts) \<Longrightarrow> conforms t n (DJson b)"
| fixed: "length bs = width * n \<Longrightarrow> conforms (FixedString width) n (DFixedString width bs)"
| "length v = n \<Longrightarrow> unsigned_in 2 v \<Longrightarrow> conforms Date n (DDate v)"
| "length v = n \<Longrightarrow> signed_in 4 v \<Longrightarrow> conforms Date32 n (DDate32 v)"
| "length v = n \<Longrightarrow> unsigned_in 4 v \<Longrightarrow> conforms DateTime n (DDateTime v)"
| "length v = n \<Longrightarrow> signed_in 8 v \<Longrightarrow> conforms (DateTime64 p z) n (DDateTime64 p z v)"
| "length b = n \<Longrightarrow> blobs_of 16 b \<Longrightarrow> conforms Uuid n (DUuid b)"
| "length v = n \<Longrightarrow> unsigned_in 4 v \<Longrightarrow> conforms IPv4 n (DIpv4 v)"
| "length b = n \<Longrightarrow> blobs_of 16 b \<Longrightarrow> conforms IPv6 n (DIpv6 b)"
| nullable: "length msk = n \<Longrightarrow> conforms t n c \<Longrightarrow> conforms (Nullable t) n (DNullable msk c)"
| array: "length os = n \<Longrightarrow> sorted os \<Longrightarrow> conforms t (last_or_0 os) c \<Longrightarrow> conforms (Array t) n (DArray os c)"
| tuple: "list_all2 (\<lambda>t c. conforms t n c) ts cs \<Longrightarrow> conforms (Tuple ts) n (DTuple cs)"
| map: "length os = n \<Longrightarrow> sorted os \<Longrightarrow> conforms t (last_or_0 os) ks \<Longrightarrow> conforms u (last_or_0 os) vs \<Longrightarrow>
    conforms (Map t u) n (DMap os ks vs)"
| low_cardinality: "conforms (lc_dict_type t) k dict \<Longrightarrow> it \<in> {UInt8, UInt16, UInt32, UInt64} \<Longrightarrow> conforms it n ixs \<Longrightarrow>
    conforms (LowCardinality t) n (DLowCardinality dict ixs (lc_nullable t))"
| simple: "conforms t n c \<Longrightarrow> conforms (SimpleAggregateFunction t) n c"
| skipped: "t \<in> {BFloat16, Time, Time64, Point} \<Longrightarrow> conforms t n (DUnsupported t)"

text \<open>
  The types whose columns show their rows.  The others count no row whatever the block announces: the four skipped types,
  a fixed string of width zero, the tuple of no fields, and what counts its rows by one of these.
\<close>

fun surfaces :: "ColumnType \<Rightarrow> bool" where
  "surfaces BFloat16 = False" | "surfaces Time = False" | "surfaces Time64 = False" | "surfaces Point = False"
| "surfaces (FixedString width) = (width \<noteq> 0)"
| "surfaces (SimpleAggregateFunction t) = surfaces t"
| "surfaces (Tuple ts) = (case ts of [] \<Rightarrow> False | t # _ \<Rightarrow> surfaces t)"
| "surfaces t = True"

lemma conforms_rows: "conforms t n c \<Longrightarrow> row_count c = (if surfaces t then n else 0)"
proof (induction rule: conforms.induct)
  case (tuple n ts cs)
  then show ?case by (cases ts) (auto simp: list_all2_Cons1)
qed auto

section \<open>What the readers return\<close>

lemma le_signed_bound: "bs \<noteq> [] \<Longrightarrow> - (2 ^ (8 * length bs - 1)) \<le> le_signed bs \<and> le_signed bs < 2 ^ (8 * length bs - 1)"
proof -
  assume "bs \<noteq> []"
  then obtain k where k: "8 * length bs = Suc k" by (cases bs) auto
  have "le_val bs < 2 ^ Suc k" using le_val_bound [of bs] by (simp add: power_mult k [symmetric])
  then have "int (le_val bs) < 2 ^ Suc k" by (metis of_nat_less_iff of_nat_numeral of_nat_power)
  moreover have "2 ^ Suc k \<le> 2 * le_val bs \<longleftrightarrow> 2 ^ k \<le> int (le_val bs)"
    by (metis mult_le_cancel1 of_nat_le_iff of_nat_numeral of_nat_power power_Suc zero_less_numeral)
  ultimately show ?thesis unfolding le_signed_def Let_def k by auto
qed

lemma chunks_exact_widths: "length (chunks_exact w bs) = length bs div w" "\<forall>c\<in>set (chunks_exact w bs). length c = w"
proof -
  show "length (chunks_exact w bs) = length bs div w" by (simp add: chunks_exact_def)
  have "w \<le> length bs - i * w" if "i < length bs div w" for i
  proof -
    have "Suc i * w \<le> length bs div w * w" using that by (intro mult_le_mono1) simp
    also have "\<dots> \<le> length bs" by simp
    finally show ?thesis by simp
  qed
  then show "\<forall>c\<in>set (chunks_exact w bs). length c = w" by (auto simp: chunks_exact_def)
qed

lemma le_column_typed:
  assumes "read_le_column w f n s = Inr (vs, r)" "0 < w"
  shows "length vs = n \<and> (\<exists>cells. vs = map f cells \<and> (\<forall>c\<in>set cells. length c = w))"
  using assms chunks_exact_widths [of w]
  by (auto simp: read_le_column_def rbind_eq_Inr read_exact_eq_Inr split: if_splits)

lemma unsigned_typed: "read_unsigned w n s = Inr (vs, r) \<Longrightarrow> 0 < w \<Longrightarrow> length vs = n \<and> unsigned_in w vs"
proof -
  assume "read_unsigned w n s = Inr (vs, r)" "0 < w"
  from le_column_typed [OF this] obtain cells where "length vs = n" "vs = map le_val cells" "\<forall>c\<in>set cells. length c = w" by blast
  then show ?thesis using le_val_bound by (auto simp: ranges)
qed

lemma signed_typed: "read_signed w n s = Inr (vs, r) \<Longrightarrow> 0 < w \<Longrightarrow> length vs = n \<and> signed_in w vs"
proof -
  assume a: "read_signed w n s = Inr (vs, r)" "0 < w"
  from le_column_typed [OF this] obtain cells where "length vs = n" "vs = map le_signed cells" "\<forall>c\<in>set cells. length c = w" by blast
  moreover have "- (2 ^ (8 * w - 1)) \<le> le_signed c \<and> le_signed c < 2 ^ (8 * w - 1)" if "length c = w" for c
    using le_signed_bound [of c] that a(2) by auto
  ultimately show ?thesis by (auto simp: signed_in_def)
qed

lemma blobs_typed: "read_u256_column n s = Inr (vs, r) \<Longrightarrow> length vs = n \<and> blobs_of 32 vs"
  using chunks_exact_widths [of 32] by (auto simp: read_u256_column_def rbind_eq_Inr read_exact_eq_Inr ranges split: if_splits)

lemma fixed_blobs_typed: "read_times n (read_exact w) s = Inr (vs, r) \<Longrightarrow> length vs = n \<and> blobs_of w vs"
  by (induction n arbitrary: s vs) (auto simp: rbind_eq_Inr read_exact_eq_Inr ranges)

lemma monotonic_typed:
  "read_monotonic what prev n s = Inr (os, r) \<Longrightarrow> length os = n \<and> sorted os \<and> (\<forall>e\<in>set os. prev \<le> e)"
proof (induction n arbitrary: prev s os)
  case (Suc n)
  then obtain e es u where "e \<ge> prev" "read_monotonic what e n u = Inr (es, r)" "os = e # es"
    by (auto simp: rbind_eq_Inr split: if_splits)
  with Suc.IH [of e u es] show ?case by auto
qed simp

lemma json_cells_typed: "unwrap_json_cells cells = Inr docs \<Longrightarrow> length docs = length cells"
  unfolding unwrap_json_cells_def by (induction cells arbitrary: docs) (auto simp: tri_eq_Inr)

lemmas numeral_typed = unsigned_typed [of "numeral k" for k, simplified] signed_typed [of "numeral k" for k, simplified]

lemma int8_typed: "signed_in (Suc 0) (map (\<lambda>b. le_signed [b]) raw)"
  using le_signed_bound [of "[b]" for b] by (auto simp: signed_in_def)

lemma flat_conforms: "decode_flat t n = Some m \<Longrightarrow> m s = Inr (c, r) \<Longrightarrow> conforms t n c"
  by (cases t)
     (auto simp: decode_flat_def wrap_def rbind_eq_Inr read_exact_eq_Inr int8_typed split: if_splits intro!: conforms.intros
       dest: numeral_typed blobs_typed fixed_blobs_typed read_times_length)

lemma empty_conforms: "conforms t 0 (empty_column t)"
proof (induction t rule: empty_column.induct)
  case (1 t)
  show ?case
  proof (cases t)
    case (Array u)
    then show ?thesis using 1 by (subst empty_column.simps) (auto simp: last_or_0_def intro!: conforms.array)
  next
    case (Map u v)
    then show ?thesis using 1 by (subst empty_column.simps) (auto simp: last_or_0_def intro!: conforms.map)
  next
    case (LowCardinality u)
    then show ?thesis using 1
      by (subst empty_column.simps) (auto intro!: conforms.low_cardinality [where it = UInt8] conforms.intros(1))
  next
    case (Tuple ts)
    then show ?thesis using 1
      by (subst empty_column.simps) (auto simp: list_all2_conv_all_nth intro!: conforms.tuple)
  next
    case (Nullable u)
    then show ?thesis using 1 by (subst empty_column.simps) (auto intro!: conforms.nullable)
  next
    case (SimpleAggregateFunction u)
    then show ?thesis using 1 by (subst empty_column.simps) (auto intro!: conforms.simple)
  qed (subst empty_column.simps; auto simp: ranges intro!: conforms.intros)+
qed

lemma indices_conform:
  "lc_indices k n s = Inr (ixs, r) \<Longrightarrow> \<exists>it\<in>{UInt8, UInt16, UInt32, UInt64}. conforms it n ixs"
  by (auto simp: lc_indices_def wrap_def rbind_eq_Inr read_exact_eq_Inr split: if_splits intro!: conforms.intros
      dest: numeral_typed)

lemma fields_conform:
  assumes "\<And>t n hs s c hs' r. rd t n hs s = Inr ((c, hs'), r) \<Longrightarrow> conforms t n c"
  shows "decode_fields rd ts n hs s = Inr ((cs, hs'), r) \<Longrightarrow> list_all2 (\<lambda>t c. conforms t n c) ts cs"
  by (induction ts arbitrary: cs hs s) (auto simp: rbind_eq_Inr dest: assms)

lemma dictionary_conforms:
  assumes "\<And>t n hs s c hs' r. rd t n hs s = Inr ((c, hs'), r) \<Longrightarrow> conforms t n c"
    and "decode_low_cardinality rd t n hs s = Inr ((c, hs'), r)"
  shows "conforms (LowCardinality t) n c"
proof -
  obtain k dict hs1 s1 s2 ki ixs s3 where d: "rd (lc_dict_type t) k hs s1 = Inr ((dict, hs1), s2)"
    "lc_indices ki n s3 = Inr (ixs, r)" "c = DLowCardinality dict ixs (lc_nullable t)"
    using assms(2) unfolding decode_low_cardinality_def dict_type_of_parts Let_def
    by (auto simp: rbind_eq_Inr split: if_splits)
  obtain it where it: "it \<in> {UInt8, UInt16, UInt32, UInt64}" "conforms it n ixs" using indices_conform [OF d(2)] by blast
  show ?thesis unfolding d(3) by (rule conforms.low_cardinality [OF assms(1) [OF d(1)] it])
qed

lemma column_data_length: "read_column_data t n s = Inr (rows, r) \<Longrightarrow> length rows = n"
  unfolding read_column_data_def by (rule read_column_at_length)

lemma json_body_length: "read_json_body n version s = Inr (rows, r) \<Longrightarrow> length rows = n"
  unfolding read_json_body_def by (rule read_json_body_at_length)

lemma body_conforms:
  assumes "\<And>t n hs s c hs' r. rd t n hs s = Inr ((c, hs'), r) \<Longrightarrow> conforms t n c"
    and "decode_body lv rd t n hs s = Inr ((c, hs'), r)"
  shows "conforms t n c"
proof (cases "decode_flat t n")
  case (Some m)
  then show ?thesis using assms(2) flat_conforms by (auto simp: decode_body_def wrap_def rbind_eq_Inr)
next
  case None
  note lengths = column_data_length json_body_length read_dynamic_v1v2_body_length read_times_length json_cells_typed
  show ?thesis
  proof (cases t)
    case (LowCardinality u)
    then show ?thesis using assms(2) dictionary_conforms [OF assms(1)] by (simp add: decode_body_def decode_flat_def)
  next
    case (Tuple ts)
    then show ?thesis using assms(2) fields_conform [OF assms(1)]
      by (fastforce simp: decode_body_def decode_flat_def rbind_eq_Inr intro: conforms.tuple)
  qed (use None assms(2) in \<open>auto simp: decode_body_def wrap_def rbind_eq_Inr decode_flat_def read_exact_eq_Inr
         split: if_splits list.splits intro!: conforms.intros dest!: assms(1) monotonic_typed lengths\<close>)
qed

lemma column_conforms: "decode_column lv t n hs s = Inr ((c, hs'), r) \<Longrightarrow> conforms t n c"
proof (induction lv arbitrary: t n hs s c hs' r)
  case (Suc lv)
  from body_conforms [OF Suc.IH] Suc.prems empty_conforms show ?case by (auto split: if_splits)
qed simp

section \<open>Sparse columns\<close>

lemma scatter_loop_set: "set (scatter_loop buf vs rows) \<subseteq> set buf \<union> set vs"
proof (induction buf vs rows rule: scatter_loop.induct)
  case (1 buf v vs row rows)
  then show ?case using set_update_subset_insert [of buf row v] by auto
qed auto

lemma scatter_values_set: "v \<in> set (scatter_values vs rows n d) \<Longrightarrow> v \<in> set vs \<or> v = d"
  using scatter_loop_set [of "replicate n d" vs rows] by (auto simp: scatter_values_def)

lemma scattered:
  "unsigned_in w v \<Longrightarrow> unsigned_in w (scatter_values v rows n 0)"
  "signed_in w i \<Longrightarrow> signed_in w (scatter_values i rows n 0)"
  "blobs_of w b \<Longrightarrow> blobs_of w (scatter_values b rows n (replicate w 0))"
  by (auto simp: ranges dest!: scatter_values_set)

lemma copy_slot_length:
  "row * width + width \<le> length buf \<Longrightarrow> i * width + width \<le> length bs \<Longrightarrow> length (copy_slot width bs i row buf) = length buf"
  by (simp add: copy_slot_def)

lemma scatter_fixed_length:
  "(\<forall>p\<in>set rows. p * width + width \<le> length buf) \<Longrightarrow> (i + length rows) * width \<le> length bs \<Longrightarrow>
    length (scatter_fixed width bs i rows buf) = length buf"
  by (induction width bs i rows buf rule: scatter_fixed.induct) (auto simp: copy_slot_length algebra_simps)

lemma expand_conforms:
  assumes "conforms t k c" "expand_sparse c positions n = Inr d" "k = length positions"
  shows "conforms t n d"
  using assms
proof (induction arbitrary: d rule: conforms.induct)
  case (fixed bs width k)
  have "\<forall>p\<in>set positions. p < n" using fixed by (auto simp: expand_sparse_def find_None_iff split: if_splits option.splits)
  then have "\<forall>p\<in>set positions. p * width + width \<le> n * width" by (metis Suc_leI add.commute mult_Suc mult_le_mono1)
  then show ?case using fixed scatter_fixed_length [of positions width "replicate (n * width) 0" 0 bs]
    by (auto simp: expand_sparse_def algebra_simps split: if_splits option.splits intro!: conforms.fixed)
qed (auto simp: expand_sparse_def scattered split: if_splits option.splits intro!: conforms.intros)

section \<open>Blocks\<close>

lemma column_read_conforms:
  assumes "(if sparse \<and> 0 < n then
      rbind (read_sparse_offsets n sparse_default) (\<lambda>(positions, _).
      rbind (decode_column (MAX_DECODE_DEPTH + 1) t (length positions) hs) (\<lambda>(dense, _).
        rlift (expand_sparse dense positions n)))
    else wrap fst (decode_column (MAX_DECODE_DEPTH + 1) t n hs)) s = Inr (c, r)"
  shows "conforms t n c"
  using assms
  by (auto simp: rbind_eq_Inr wrap_def simp del: decode_column.simps split: if_splits dest!: column_conforms
      intro: expand_conforms)

lemma block_column_conforms:
  assumes "decode_block_column n ser s = Inr (((name, ty), c), r)"
  shows "\<exists>t. parse ty = Some t \<and> conforms t n c"
  using assms unfolding decode_block_column_def
  by (auto simp: rbind_eq_Inr simp del: decode_prefixes.simps decode_column.simps
      split del: if_split split: option.splits dest!: column_read_conforms)

lemma read_times_all:
  assumes "\<And>s v r. m s = Inr (v, r) \<Longrightarrow> P v"
  shows "read_times k m s = Inr (vs, r) \<Longrightarrow> \<forall>v\<in>set vs. P v"
  by (induction k arbitrary: s vs) (auto simp: rbind_eq_Inr dest: assms)

lemma decoded_block_conforms:
  assumes "decode_block num_columns num_rows revision s = Inr (b, r)"
  shows "length (db_schema b) = unat num_columns \<and> db_num_rows b = unat num_rows \<and>
    list_all2 (\<lambda>(name, ty) c. \<exists>t. parse ty = Some t \<and> conforms t (unat num_rows) c) (db_schema b) (db_columns b)"
proof -
  obtain cols where cols: "read_times (unat num_columns)
      (decode_block_column (unat num_rows) (revision \<ge> DBMS_MIN_PROTOCOL_VERSION_WITH_CUSTOM_SERIALIZATION)) s = Inr (cols, r)"
    and b: "b = \<lparr> db_columns = map snd cols, db_schema = map fst cols, db_num_rows = unat num_rows \<rparr>"
    using assms by (auto simp: decode_block_def Let_def rbind_eq_Inr split: if_splits)
  have "\<forall>x\<in>set cols. \<exists>t. parse (snd (fst x)) = Some t \<and> conforms t (unat num_rows) (snd x)"
    by (rule read_times_all [OF _ cols]) (auto dest: block_column_conforms)
  then have "\<forall>i<length cols. \<exists>t. parse (snd (fst (cols ! i))) = Some t \<and> conforms t (unat num_rows) (snd (cols ! i))" by simp
  then show ?thesis using read_times_length [OF cols] by (simp add: b list_all2_conv_all_nth case_prod_beta)
qed

text \<open>
  C3: a decoded block has the types it declares.  Whatever bytes a server sends, if the decoder accepts a block then it
  has one column for every declared one and the announced number of rows; each declared type name is one the parser
  knows, and the column has the shape of that type down to its nested columns: one entry per row, offsets that never
  decrease and elements up to the last of them, every integer within its width, every fixed-size value of its size;
  sparse columns, expanded, and columns of a block without rows included.  A column counts exactly the announced rows,
  or none at all, and it depends on its type alone which: none for the types the decoder skips (BFloat16, Time, Time64,
  Point), for FixedString(0) and the empty tuple, and for a simple aggregate of such a type or a tuple that begins with one.
\<close>

theorem decoded_block_typed:
  assumes "decode_block num_columns num_rows revision s = Inr (b, r)"
  shows "length (db_schema b) = unat num_columns \<and> db_num_rows b = unat num_rows \<and>
    list_all2 (\<lambda>(name, ty) c. \<exists>t. parse ty = Some t \<and> conforms t (unat num_rows) c \<and>
      row_count c = (if surfaces t then unat num_rows else 0)) (db_schema b) (db_columns b)"
  using decoded_block_conforms [OF assms] conforms_rows by (auto elim!: list_all2_mono)

definition ab_data :: "byte list" where
  "ab_data = ([1, 0x61, 5, 0x55, 0x49, 0x6E, 0x74, 0x38, 0] @ [1, 3] @
    [1, 0x62, 6, 0x55, 0x49, 0x6E, 0x74, 0x31, 0x36, 0] @ [2, 0, 4, 0]) @ [7]"

lemma ab_decoded:
  "\<exists>b. decode_block (of_nat (length ab_schema)) (of_nat 2) 54473 ab_data = Inr (b, [7]) \<and>
    db_schema b = map (\<lambda>col. (cs_name col, sent_name col)) ab_schema \<and>
    map to_cells (db_columns b) = ab_cols \<and> db_num_rows b = 2"
  unfolding ab_data_def
  by (rule block_decoded [OF ab_well_formed(1) ab_schema_declared ab_well_formed(2) _ _ _ _ _ ab_block_encoded])
    (auto simp: ab_well_formed(3,4) ab_schema_def MAX_BLOCK_ROWS_def MAX_BLOCK_COLUMNS_def)

theorem decoded_block_typed_witness:
  "\<exists>b. decode_block (of_nat (length ab_schema)) (of_nat 2) 54473 ab_data = Inr (b, [7]) \<and> length (db_schema b) = 2 \<and>
    list_all2 (\<lambda>(name, ty) c. \<exists>t. parse ty = Some t \<and> conforms t 2 c \<and> row_count c = (if surfaces t then 2 else 0))
      (db_schema b) (db_columns b)"
proof -
  obtain b where "decode_block (of_nat (length ab_schema)) (of_nat 2) 54473 ab_data = Inr (b, [7])" using ab_decoded by blast
  moreover have "unat (of_nat 2 :: u64) = 2" by simp
  ultimately show ?thesis using decoded_block_typed [of "of_nat (length ab_schema)" "of_nat 2" 54473 ab_data b "[7]"]
    by (intro exI [of _ b]) (simp add: ab_schema_def cong: if_cong split del: if_split)
qed

section \<open>Typed reads\<close>

text \<open>The type of the values of a column: a simple aggregate holds plain values.\<close>

fun value_type :: "ColumnType \<Rightarrow> ColumnType" where
  "value_type (SimpleAggregateFunction t) = value_type t"
| "value_type t = t"

lemma position_bound: "position P xs = Some i \<Longrightarrow> i < length xs"
  by (induction xs arbitrary: i) (auto split: if_splits)

locale typed_read =
  fixes from_col :: "'a from_column" and readable :: "ColumnType \<Rightarrow> bool"
  assumes accepts: "conforms t n c \<Longrightarrow> readable (value_type t) \<Longrightarrow> \<exists>vs. from_col c name ty = Inr vs \<and> length vs = n"
    and refuses: "conforms t n c \<Longrightarrow> \<not> readable (value_type t) \<Longrightarrow> \<exists>e. from_col c name ty = Inl e"

text \<open>One inspection of the outcome decides both laws.\<close>

definition read_exactly :: "bool \<Rightarrow> nat \<Rightarrow> 'a list result \<Rightarrow> bool" where
  "read_exactly allowed n res \<longleftrightarrow> (case res of Inr vs \<Rightarrow> allowed \<and> length vs = n | Inl e \<Rightarrow> \<not> allowed)"

lemma typed_readI:
  assumes "\<And>t n c name ty. conforms t n c \<Longrightarrow> read_exactly (readable (value_type t)) n (from_col c name ty)"
  shows "typed_read from_col readable"
proof
  fix t n c name ty
  assume "conforms t n c"
  from assms [OF this, of name ty]
  show "readable (value_type t) \<Longrightarrow> \<exists>vs. from_col c name ty = Inr vs \<and> length vs = n"
    "\<not> readable (value_type t) \<Longrightarrow> \<exists>e. from_col c name ty = Inl e"
    by (auto simp: read_exactly_def split: sum.splits)
qed

context typed_read
begin

lemma exactly: "conforms t n c \<Longrightarrow> read_exactly (readable (value_type t)) n (from_col c name ty)"
  using accepts [of t n c name ty] refuses [of t n c name ty]
  by (cases "readable (value_type t)") (auto simp: read_exactly_def)

lemma column_as_exact:
  assumes "decode_block num_columns num_rows revision s = Inr (b, r)"
    and "position (\<lambda>(n, _). n = name) (db_schema b) = Some i" "parse (snd (db_schema b ! i)) = Some t"
  shows "read_exactly (readable (value_type t)) (unat num_rows) (column_as from_col b name)"
proof -
  have i: "i < length (db_schema b)" using assms(2) position_bound by blast
  have l: "length (db_columns b) = length (db_schema b)" and "conforms t (unat num_rows) (db_columns b ! i)"
    using decoded_block_conforms [OF assms(1)] i assms(3) by (auto simp: list_all2_conv_all_nth case_prod_beta)
  from exactly [OF this(2)] show ?thesis using i l assms(2) by (auto simp: column_as_def get_def)
qed

lemma optional: "typed_read (from_column_option from_col) (\<lambda>t. \<exists>u. t = Nullable u \<and> readable (value_type u))"
proof (rule typed_readI)
  fix t n c name ty
  assume "conforms t n c"
  then show "read_exactly (\<exists>u. value_type t = Nullable u \<and> readable (value_type u)) n (from_column_option from_col c name ty)"
  proof (induction rule: conforms.induct)
    case (nullable msk n t c)
    from exactly [OF nullable(2), of name ty] nullable(1) show ?case
      by (auto simp: read_exactly_def from_column_option_def split: sum.splits)
  qed (auto simp: read_exactly_def from_column_option_def)
qed

end

text \<open>A typed read, plain and as optional values.\<close>

definition reads_as :: "DecodedBlock \<Rightarrow> string \<Rightarrow> ColumnType \<Rightarrow> nat \<Rightarrow> 'a from_column \<Rightarrow> (ColumnType \<Rightarrow> bool) \<Rightarrow> bool" where
  "reads_as b name t n from_col readable \<longleftrightarrow>
    read_exactly (readable t) n (column_as from_col b name) \<and>
    read_exactly (\<exists>u. t = Nullable u \<and> readable (value_type u)) n (column_as (from_column_option from_col) b name)"

context typed_read
begin

lemma reads:
  assumes "decode_block num_columns num_rows revision s = Inr (b, r)"
    and "position (\<lambda>(n, _). n = name) (db_schema b) = Some i" "parse (snd (db_schema b ! i)) = Some t"
  shows "reads_as b name (value_type t) (unat num_rows) from_col readable"
  unfolding reads_as_def using column_as_exact [OF assms] typed_read.column_as_exact [OF optional assms] by blast

end

interpretation read_u8: typed_read from_column_u8 "\<lambda>t. t = UInt8"
  by (rule typed_readI, erule conforms.induct) (auto simp: read_exactly_def from_column_u8_def)

interpretation read_u16: typed_read from_column_u16 "\<lambda>t. t = UInt16 \<or> t = Date"
  by (rule typed_readI, erule conforms.induct) (auto simp: read_exactly_def from_column_u16_def)

interpretation read_u32: typed_read from_column_u32 "\<lambda>t. t = UInt32 \<or> t = DateTime \<or> t = IPv4"
  by (rule typed_readI, erule conforms.induct) (auto simp: read_exactly_def from_column_u32_def)

interpretation read_u64: typed_read from_column_u64 "\<lambda>t. t = UInt64"
  by (rule typed_readI, erule conforms.induct) (auto simp: read_exactly_def from_column_u64_def)

interpretation read_u128: typed_read from_column_u128 "\<lambda>t. t = UInt128"
  by (rule typed_readI, erule conforms.induct) (auto simp: read_exactly_def from_column_u128_def)

interpretation read_i8: typed_read from_column_i8 "\<lambda>t. t = Int8 \<or> t = Enum8"
  by (rule typed_readI, erule conforms.induct) (auto simp: read_exactly_def from_column_i8_def)

interpretation read_i16: typed_read from_column_i16 "\<lambda>t. t = Int16 \<or> t = Enum16"
  by (rule typed_readI, erule conforms.induct) (auto simp: read_exactly_def from_column_i16_def)

interpretation read_i32: typed_read from_column_i32 "\<lambda>t. t = Int32 \<or> t = Date32 \<or> (\<exists>p s. t = Decimal32 p s)"
  by (rule typed_readI, erule conforms.induct) (auto simp: read_exactly_def from_column_i32_def)

interpretation read_i64: typed_read from_column_i64 "\<lambda>t. t = Int64 \<or> (\<exists>p z. t = DateTime64 p z) \<or> (\<exists>p s. t = Decimal64 p s)"
  by (rule typed_readI, erule conforms.induct) (auto simp: read_exactly_def from_column_i64_def)

interpretation read_i128: typed_read from_column_i128 "\<lambda>t. t = Int128 \<or> (\<exists>p s. t = Decimal128 p s)"
  by (rule typed_readI, erule conforms.induct) (auto simp: read_exactly_def from_column_i128_def)

interpretation read_f32: typed_read from_column_f32 "\<lambda>t. t = Float32"
  by (rule typed_readI, erule conforms.induct) (auto simp: read_exactly_def from_column_f32_def)

interpretation read_f64: typed_read from_column_f64 "\<lambda>t. t = Float64"
  by (rule typed_readI, erule conforms.induct) (auto simp: read_exactly_def from_column_f64_def)

interpretation read_b32: typed_read from_column_b32 "\<lambda>t. t = Int256 \<or> t = UInt256 \<or> (\<exists>p s. t = Decimal256 p s)"
  by (rule typed_readI, erule conforms.induct) (auto simp: read_exactly_def from_column_b32_def)

interpretation read_b16: typed_read from_column_b16 "\<lambda>t. t = Uuid \<or> t = IPv6"
  by (rule typed_readI, erule conforms.induct) (auto simp: read_exactly_def from_column_b16_def)

interpretation read_bool: typed_read from_column_bool "\<lambda>t. t = UInt8"
  by (rule typed_readI, erule conforms.induct) (auto simp: read_exactly_def from_column_bool_def)

subsection \<open>Text\<close>

text \<open>Texts are the bytes read as UTF-8.\<close>

definition textual :: "ColumnType \<Rightarrow> bool" where
  "textual t \<longleftrightarrow> t \<in> {String, Json, NewJson, DynamicType} \<or> (\<exists>ts. t = Variant ts)"

definition utf8_texts :: "byte list list \<Rightarrow> string list result" where
  "utf8_texts vs = (if \<forall>v\<in>set vs. utf8_valid v then Inr (map as_string vs) else Inl InvalidUtf8Encoding)"

interpretation read_bytes: typed_read from_column_bytes textual
  by (rule typed_readI, erule conforms.induct) (auto simp: read_exactly_def from_column_bytes_def textual_def)

lemma utf8_texts_each: "each_result (\<lambda>v. if utf8_valid v then Inr (as_string v) else Inl InvalidUtf8Encoding) vs = utf8_texts vs"
  by (induction vs) (auto simp: utf8_texts_def)

lemma string_is_bytes: "from_column_string c name ty = tri (from_column_bytes c name ty) utf8_texts"
  by (cases c) (simp_all add: from_column_string_def from_column_bytes_def utf8_texts_each)

lemma column_as_string: "column_as from_column_string b name = tri (column_as from_column_bytes b name) utf8_texts"
  by (auto simp: column_as_def string_is_bytes utf8_texts_def split: option.split)

lemma as_bytes_as_string: "as_bytes (as_string v) = v"
proof -
  have "of_nat (of_char (char_of (unat b))) = b" for b :: byte
    using unsigned_less [of b, where 'a = nat] by (simp add: of_char_of)
  then show ?thesis by (simp add: as_bytes_def as_string_def comp_def)
qed

lemma column_as_both:
  "(\<And>c ty. Q (f c name ty) (g c name ty)) \<Longrightarrow> Q (Inr []) (Inr []) \<Longrightarrow> (\<And>e. Q (Inl e) (Inl e)) \<Longrightarrow>
    Q (column_as f b name) (column_as g b name)"
  by (simp add: column_as_def split: option.split)

lemma optional_string:
  assumes "column_as (from_column_option from_column_string) b name = res"
  shows "case res of
      Inr ts \<Rightarrow> column_as (from_column_option from_column_bytes) b name = Inr (map (map_option as_bytes) ts)
    | Inl e \<Rightarrow> e = InvalidUtf8Encoding \<or> column_as (from_column_option from_column_bytes) b name = Inl e"
proof -
  have cell: "case from_column_option from_column_string c name ty of
      Inr ts \<Rightarrow> from_column_option from_column_bytes c name ty = Inr (map (map_option as_bytes) ts)
    | Inl e \<Rightarrow> e = InvalidUtf8Encoding \<or> from_column_option from_column_bytes c name ty = Inl e" for c ty
  proof (cases "\<exists>msk child. c = DNullable msk child")
    case True
    then obtain msk child where c: "c = DNullable msk child" by blast
    show ?thesis unfolding c
      by (cases "from_column_bytes child name ty")
        (auto simp: from_column_option_def string_is_bytes utf8_texts_def zip_map2 as_bytes_as_string)
  next
    case False
    then show ?thesis by (cases c) (simp_all add: from_column_option_def)
  qed
  show ?thesis unfolding assms [symmetric]
    by (rule column_as_both [where Q = "\<lambda>x y. case x of Inr ts \<Rightarrow> y = Inr (map (map_option as_bytes) ts)
      | Inl e \<Rightarrow> e = InvalidUtf8Encoding \<or> y = Inl e"]) (use cell in simp_all)
qed

text \<open>
  C21: a typed read of a column succeeds exactly where it should.  For every block the decoder accepts and every column it
  declares, each typed read of numbers, booleans or bytes returns one value per row when the declared type is one of those
  the Rust type stands for, a simple aggregate counting as the type it holds, and an error for every other type; the read
  of optional values does so exactly for a nullable column of such a type.  No value is ever read through a type of another
  width or sign, and a nullable column only as optional values.  A read of texts is the read of their bytes, refused as
  invalid UTF-8 exactly when some value is not UTF-8; a read of optional texts either gives the texts of what the read of
  optional bytes gives, or it is refused as invalid UTF-8 or with the error of that read.
\<close>

theorem typed_reads_exact:
  assumes "decode_block num_columns num_rows revision s = Inr (b, r)"
    and "position (\<lambda>(n, _). n = name) (db_schema b) = Some i" "parse (snd (db_schema b ! i)) = Some declared"
    and "t = value_type declared" "n = unat num_rows"
  shows "reads_as b name t n from_column_u8 (\<lambda>t. t = UInt8) \<and>
    reads_as b name t n from_column_u16 (\<lambda>t. t = UInt16 \<or> t = Date) \<and>
    reads_as b name t n from_column_u32 (\<lambda>t. t = UInt32 \<or> t = DateTime \<or> t = IPv4) \<and>
    reads_as b name t n from_column_u64 (\<lambda>t. t = UInt64) \<and>
    reads_as b name t n from_column_u128 (\<lambda>t. t = UInt128) \<and>
    reads_as b name t n from_column_i8 (\<lambda>t. t = Int8 \<or> t = Enum8) \<and>
    reads_as b name t n from_column_i16 (\<lambda>t. t = Int16 \<or> t = Enum16) \<and>
    reads_as b name t n from_column_i32 (\<lambda>t. t = Int32 \<or> t = Date32 \<or> (\<exists>p s. t = Decimal32 p s)) \<and>
    reads_as b name t n from_column_i64 (\<lambda>t. t = Int64 \<or> (\<exists>p z. t = DateTime64 p z) \<or> (\<exists>p s. t = Decimal64 p s)) \<and>
    reads_as b name t n from_column_i128 (\<lambda>t. t = Int128 \<or> (\<exists>p s. t = Decimal128 p s)) \<and>
    reads_as b name t n from_column_f32 (\<lambda>t. t = Float32) \<and>
    reads_as b name t n from_column_f64 (\<lambda>t. t = Float64) \<and>
    reads_as b name t n from_column_b32 (\<lambda>t. t = Int256 \<or> t = UInt256 \<or> (\<exists>p s. t = Decimal256 p s)) \<and>
    reads_as b name t n from_column_b16 (\<lambda>t. t = Uuid \<or> t = IPv6) \<and>
    reads_as b name t n from_column_bool (\<lambda>t. t = UInt8) \<and>
    reads_as b name t n from_column_bytes textual \<and>
    column_as from_column_string b name = tri (column_as from_column_bytes b name) utf8_texts \<and>
    (case column_as (from_column_option from_column_string) b name of
       Inr ts \<Rightarrow> column_as (from_column_option from_column_bytes) b name = Inr (map (map_option as_bytes) ts)
     | Inl e \<Rightarrow> e = InvalidUtf8Encoding \<or> column_as (from_column_option from_column_bytes) b name = Inl e)"
  unfolding assms(4,5)
  by (intro conjI column_as_string optional_string [OF refl]; rule typed_read.reads [OF _ assms(1-3)]; unfold_locales)

theorem typed_reads_exact_witness:
  "\<exists>b vs e. decode_block (of_nat (length ab_schema)) (of_nat 2) 54473 ab_data = Inr (b, [7]) \<and>
    column_as from_column_u8 b ''a'' = Inr vs \<and> length vs = 2 \<and> column_as from_column_i8 b ''a'' = Inl e"
proof -
  obtain b where b: "decode_block (of_nat (length ab_schema)) (of_nat 2) 54473 ab_data = Inr (b, [7])"
    "db_schema b = map (\<lambda>col. (cs_name col, sent_name col)) ab_schema" using ab_decoded by blast
  have "parse ''UInt8'' = Some UInt8" using parse_printed_name [of UInt8] by (simp add: MAX_TYPE_PARSE_DEPTH_def)
  then have "position (\<lambda>(n, _). n = ''a'') (db_schema b) = Some 0" "parse (snd (db_schema b ! 0)) = Some UInt8"
    by (simp_all add: b(2) ab_schema_def sent_name_def)
  from typed_reads_exact [OF b(1) this refl refl] b(1) show ?thesis
    by (auto simp: reads_as_def read_exactly_def split: sum.splits)
qed

end
