(* ===== verification/ReferenceReader.thy ===== *)
theory ReferenceReader
  imports BlockRoundtrip ReaderProgress
begin

text \<open>
  The column reader of src/src/native/columns.rs with a prefix walk of its own, kept beside the production path as its
  reference: \<open>read_prefixes\<close> takes the serialisation prefixes of a whole column, \<open>read_column\<close> the prefixes and then the
  data.  The block decoder accepts what the reference accepts.
\<close>

section \<open>The reference\<close>

definition read_prefixes_body :: "(ColumnType \<Rightarrow> unit rd) \<Rightarrow> ColumnType \<Rightarrow> unit rd" where
  "read_prefixes_body rd col_type =
    (let each = (\<lambda>ts. wrap (\<lambda>_. ()) (read_each rd ts))
     in case col_type of
       LowCardinality _ \<Rightarrow> wrap (\<lambda>_. ()) (read_le 8)
     | Variant variant_types \<Rightarrow> rbind read_variant_mode (\<lambda>_. each variant_types)
     | Nullable inner \<Rightarrow> rd inner
     | Array inner \<Rightarrow> rd inner
     | SimpleAggregateFunction inner \<Rightarrow> rd inner
     | Tuple flds \<Rightarrow> each flds
     | Map key v \<Rightarrow> rbind (rd key) (\<lambda>_. rd v)
     | _ \<Rightarrow> rret ())"

primrec read_prefixes :: "nat \<Rightarrow> ColumnType \<Rightarrow> unit rd" where
  "read_prefixes 0 col_type = bad NestingTooDeep"
| "read_prefixes (Suc left) col_type = read_prefixes_body (read_prefixes left) col_type"

definition read_column :: "ColumnType \<Rightarrow> nat \<Rightarrow> ColumnData rd" where
  "read_column col_type num_rows =
    rbind (if num_rows > 0 then read_prefixes (MAX_READ_DEPTH + 1) col_type else rret ()) (\<lambda>_.
      read_column_at (MAX_READ_DEPTH + 1) col_type num_rows)"

section \<open>The two walks\<close>

text \<open>The production walk also carries the type lists of \<open>Dynamic\<close> columns; where there is none, the two take the same bytes.\<close>

fun static :: "ColumnType \<Rightarrow> bool" where
  "static DynamicType \<longleftrightarrow> False"
| "static (Nullable t) \<longleftrightarrow> static t"
| "static (Array t) \<longleftrightarrow> static t"
| "static (SimpleAggregateFunction t) \<longleftrightarrow> static t"
| "static (Map k v) \<longleftrightarrow> static k \<and> static v"
| "static (Tuple ts) \<longleftrightarrow> (\<forall>t\<in>set ts. static t)"
| "static (Variant ts) \<longleftrightarrow> (\<forall>t\<in>set ts. static t)"
| "static _ \<longleftrightarrow> True"

definition same_walk :: "unit rd \<Rightarrow> headers rd \<Rightarrow> bool" where
  "same_walk m d \<longleftrightarrow> (\<forall>s hs r. d s = Inr (hs, r) \<longleftrightarrow> hs = [] \<and> m s = Inr ((), r))"

lemma same_walk_then:
  assumes "same_walk m d" "same_walk m' d'"
  shows "same_walk (rbind m (\<lambda>_. m')) (rbind d (\<lambda>h. rbind d' (\<lambda>h'. rret (h @ h'))))"
  unfolding same_walk_def
proof (intro allI)
  fix s hs r
  have "(\<exists>h q. d s = Inr (h, q) \<and> (\<exists>h'. d' q = Inr (h', r) \<and> hs = h @ h')) \<longleftrightarrow>
      hs = [] \<and> (\<exists>q. m s = Inr ((), q) \<and> m' q = Inr ((), r))"
    using assms unfolding same_walk_def by auto
  then show "rbind d (\<lambda>h. rbind d' (\<lambda>h'. rret (h @ h'))) s = Inr (hs, r) \<longleftrightarrow> hs = [] \<and> rbind m (\<lambda>_. m') s = Inr ((), r)"
    by (auto simp: rbind_eq_Inr)
qed

lemma same_walk_leaf:
  "same_walk (\<lambda>s. Inr ((), s)) (\<lambda>s. Inr ([], s))"
  "same_walk (wrap (\<lambda>_. ()) m) (rbind m (\<lambda>_. rret []))"
  "same_walk m' d \<Longrightarrow> same_walk (rbind m (\<lambda>_. m')) (rbind m (\<lambda>_. d))"
  by (auto simp: same_walk_def wrap_def rbind_eq_Inr)

lemma same_walk_each:
  "(\<And>t. t \<in> set ts \<Longrightarrow> same_walk (m t) (d t)) \<Longrightarrow> same_walk (wrap (\<lambda>_. ()) (read_each m ts)) (wrap concat (read_each d ts))"
proof (induction ts)
  case (Cons t ts)
  have "wrap concat (read_each d (t # ts)) = rbind (d t) (\<lambda>h. rbind (wrap concat (read_each d ts)) (\<lambda>h'. rret (h @ h')))"
    "wrap (\<lambda>_. ()) (read_each m (t # ts)) = rbind (m t) (\<lambda>_. wrap (\<lambda>_. ()) (read_each m ts))"
    by (auto simp: wrap_def rbind_def fun_eq_iff split: sum.splits)
  then show ?case using Cons by (simp add: same_walk_then)
qed (auto simp: same_walk_def wrap_def rbind_def)

lemma walks_agree: "static t \<Longrightarrow> same_walk (read_prefixes l t) (decode_prefixes l t)"
proof (induction l arbitrary: t)
  case (Suc l)
  then have each: "same_walk (wrap (\<lambda>_. ()) (read_each (read_prefixes l) ts)) (wrap concat (read_each (decode_prefixes l) ts))"
    if "\<forall>t\<in>set ts. static t" for ts using that by (intro same_walk_each) blast
  show ?case using Suc.prems
    by (cases t) (simp_all add: read_prefixes_body_def decode_prefixes_body_def same_walk_leaf same_walk_then each Suc.IH)
qed (simp add: same_walk_def)

lemma typed_static: "typed t \<Longrightarrow> static t"
  by (induction t) (auto simp: typed.simps list_all_iff)

text \<open>
  On a \<open>Dynamic\<close> column they part: the reference walk takes nothing, the production walk the version and the list of
  types, so it refuses a stream without them.
\<close>

lemma dynamic_walks_differ:
  "read_prefixes (Suc l) DynamicType [] = Inr ((), []) \<and> isl (decode_prefixes (Suc l) DynamicType [])"
  by (simp add: read_prefixes_body_def decode_prefixes_body_def read_le_def read_exact_def rbind_def)

section \<open>The two readers\<close>

text \<open>
  C22: the block decoder agrees with the reference reader.  For every column type with a typed form throughout, so that
  nothing in it is rendered as JSON or only skipped, declared by its name, and every stream of bytes, written by a server or not: if the reference reads the prefixes and the data of the
  column as some cells, then the production path over header, prefixes and data accepts the same bytes, stops at the same
  byte and holds the same cells; and the two prefix walks accept exactly the same bytes of every type without
  \<open>Dynamic\<close> inside.
\<close>

theorem block_decoder_agrees_with_reference:
  assumes "typed t" "parse ty = Some t" "announced name" "announced ty"
    and "read_column t n s = Inr (cells, rest)" "length s < 2 ^ 64"
  shows "(\<exists>c. decode_block_column n ser (put_string (as_bytes name) @ put_string (as_bytes ty) @ (if ser then [0] else []) @ s) =
      Inr (((name, ty), c), rest) \<and> to_cells c = cells \<and> row_count c = n) \<and>
    (\<forall>u l s hs r. static u \<longrightarrow> (decode_prefixes l u s = Inr (hs, r) \<longleftrightarrow> hs = [] \<and> read_prefixes l u s = Inr ((), r)))"
proof -
  obtain q where pre: "(if n > 0 then read_prefixes (MAX_READ_DEPTH + 1) t else rret ()) s = Inr ((), q)"
    and data: "read_column_at (MAX_READ_DEPTH + 1) t n q = Inr (cells, rest)"
    using assms(5) by (auto simp: read_column_def rbind_eq_Inr simp del: read_column_at.simps read_prefixes.simps)
  have walk: "(if n > 0 then decode_prefixes (MAX_DECODE_DEPTH + 1) t else rret []) s = Inr ([], q)"
    using pre walks_agree [OF typed_static [OF assms(1)]] unfolding same_walk_def depth_bounds_agree
    by (auto simp del: decode_prefixes.simps read_prefixes.simps split: if_splits)
  have "reads (if n > 0 then decode_prefixes (MAX_DECODE_DEPTH + 1) t else rret [])"
    by (auto simp del: decode_prefixes.simps intro!: forward)
  from readsD [of _ s, OF this walk] have "suffix q s" .
  then have "length q \<le> length s" by (rule suffix_length_le)
  then obtain c where c: "decode_column (MAX_DECODE_DEPTH + 1) t n [] q = Inr ((c, []), rest)" "to_cells c = cells" "row_count c = n"
    using same_columnE [OF at.agree [OF assms(1)], of "MAX_DECODE_DEPTH + 1" n q cells rest] data assms(6)
    by (metis depth_bounds_agree order.strict_trans1)
  have ser: "(if ser then read_serialization_kind name else rret False) ((if ser then [0] else []) @ s) = Inr (False, s)"
    by (simp add: read_serialization_kind_def read_le_def rbind_def read_exact_def)
  show ?thesis
    using c walk ser assms(2-4) walks_agree unfolding same_walk_def
    by (auto simp: decode_block_column_def rbind_def wrap_def read_utf8_string_put
        simp del: decode_column.simps decode_prefixes.simps read_prefixes.simps)
qed

theorem block_decoder_agrees_with_reference_witness:
  "\<exists>c. decode_block_column 2 True ([1, 0x61, 5, 0x55, 0x49, 0x6E, 0x74, 0x38] @ [0] @ [3, 4, 9]) =
    Inr (((''a'', ''UInt8''), c), [9]) \<and> to_cells c = [[3], [4]] \<and> row_count c = 2"
proof -
  have "parse ''UInt8'' = Some UInt8" using parse_printed_name [of UInt8] by (simp add: MAX_TYPE_PARSE_DEPTH_def)
  moreover have "read_column UInt8 2 [3, 4, 9] = Inr ([[3], [4]], [9])"
    by (simp add: read_column_def read_prefixes_body_def MAX_READ_DEPTH_def read_column_body_def read_fixed_column_def
        fixed_size_def rbind_def read_exact_def eval_nat_numeral)
  ultimately show ?thesis
    using block_decoder_agrees_with_reference [of UInt8 "''UInt8''" "''a''" 2 "[3, 4, 9]" "[[3], [4]]" "[9]" True]
    by (simp add: typed.simps announced_def as_bytes_def MAX_STRING_SIZE_def put_string_def put_var_uint_leb128 leb128.simps)
qed

end
