(* ===== verification/ServerView.thy ===== *)
theory ServerView
  imports InsertDelivery
begin

text \<open>
  A dynamic insert as its server sees it: the bytes a connection sent for it, read packet by packet with the field order
  of the server (the reading side of \<open>PacketExchange\<close> and \<open>BlockDecode\<close>).  Joins the encoder, the block transposition, the
  packet writer, the connection actor and the insert session.
\<close>

section \<open>Rows in groups\<close>

definition accepted_rows :: "host \<Rightarrow> ColumnDef list \<Rightarrow> row list \<Rightarrow> row list" where
  "accepted_rows h columns rs = filter (\<lambda>r. \<not> isl (encode_row (h_platform h) (row_of columns r))) rs"

lemma accepted_rows_encoded:
  "encoded_rows_of h columns rs = map (\<lambda>r. projr (encode_row (h_platform h) (row_of columns r))) (accepted_rows h columns rs)"
  by (induction rs) (auto simp: encoded_rows_of_def accepted_rows_def isl_def split: sum.splits)

lemma grouped: "concat bss = map f xs \<Longrightarrow> \<exists>gs. concat gs = xs \<and> bss = map (map f) gs"
proof (induction bss arbitrary: xs)
  case (Cons bs bss)
  let ?k = "length bs"
  have "bs = map f (take ?k xs)" "concat bss = map f (drop ?k xs)"
    using Cons.prems by (metis append_eq_conv_conj concat.simps(2) take_map, metis append_eq_conv_conj concat.simps(2) drop_map)
  moreover from Cons.IH [OF this(2)] obtain gs where "concat gs = drop ?k xs" "bss = map (map f) gs" by blast
  ultimately show ?case by (intro exI [of _ "take ?k xs # gs"]) simp
qed simp

lemma size_group:
  assumes "g \<in> set gs" "concat gs = filter P xs"
  shows "size_list f (map k g) \<le> size_list f (map k xs)"
proof -
  have "size_list f (map k (filter P xs)) \<le> size_list f (map k xs)" by (induction xs) (auto simp: comp_def)
  moreover have "size_list f (map k g) \<le> size_list f (map k (concat gs))"
    using assms(1) by (induction gs) (auto simp: size_list_append)
  ultimately show ?thesis using assms(2) by simp
qed

section \<open>One packet\<close>

text \<open>
  What the server holds of a group of rows: the columns announced, the cells row by row as they arrive, and their number.
  The cells are those that were encoded wherever no column type has a nullable dictionary.
\<close>

definition holds_group :: "platform \<Rightarrow> ColumnDef list \<Rightarrow> ColumnSchema list \<Rightarrow> row list \<Rightarrow> DecodedBlock \<Rightarrow> bool" where
  "holds_group env columns native g b \<longleftrightarrow>
    db_schema b = map (\<lambda>s. (cs_name s, sent_name s)) native \<and>
    map to_cells (db_columns b) = arrived_columns (map stored native) (map (cells_of env g) columns) \<and>
    ((\<forall>s\<in>set native. \<not> nullable_dictionary (cs_col_type s)) \<longrightarrow> map to_cells (db_columns b) = map (cells_of env g) columns) \<and>
    db_num_rows b = length g"

definition empty_tag :: "u64 \<Rightarrow> string option" where
  "empty_tag sr = (if DBMS_MIN_REVISION_WITH_TEMPORARY_TABLES \<le> sr then Some [] else None)"

lemma group_packet_read:
  assumes "list_all2 (\<lambda>d s. fits (cd_ty d) (cs_col_type (stored s))) columns native"
    and "\<forall>s\<in>set native. well_declared (stored s)" "native \<noteq> []" "length native \<le> READER_MAX_BLOCK_COLUMNS"
    and "\<forall>r\<in>set g. \<not> isl (encode_row env (row_of columns r))"
    and "rows = map (\<lambda>r. projr (encode_row env (row_of columns r))) g" "flushed native sr rows"
    and "\<forall>bytes\<in>set rows. length bytes \<le> MAX_STRING_SIZE"
    and "\<forall>d\<in>set columns. size_list size (map (field (cd_name d)) g) < 2 ^ 32 - 1"
    and "length (block_packets sr [frame_of native sr rows] @ rest) < 2 ^ 64"
  shows "\<exists>b. server_reads_data sr (block_packets sr [frame_of native sr rows] @ rest) = Inr ((2, empty_tag sr, b), rest) \<and>
    holds_group env columns native g b"
proof -
  have each: "each_result (\<lambda>r. encode_row env (row_of columns r)) g = Inr rows"
    unfolding assms(6) using assms(5) by (intro each_result_Inr) (auto simp: isl_def split: sum.splits)
  obtain body where body: "encode_columns rows native sr = Inr body" and g: "g \<noteq> []" "length g \<le> MAX_BLOCK_ROWS"
    using assms(6,7) by (auto simp: flushed_def DEFAULT_TCP_INSERT_BLOCK_ROWS_def MAX_BLOCK_ROWS_def)
  have len: "length rows = length g" by (simp add: assms(6))
  have enc: "rows = tuple_cells (length g) (map (cells_of env g) columns)" by (rule encoded_rows [OF each])
  let ?cells = "map (cells_of env g) columns"
  let ?there = "arrived_columns (map stored native) ?cells"
  have cols: "list_all2 (\<lambda>s cells. insertable (cs_col_type s) cells) (map stored native) ?cells"
    using dynamic_columns [OF assms(1) each] assms(8,9) by blast
  have same: "?there = ?cells" if "\<forall>s\<in>set native. \<not> nullable_dictionary (cs_col_type s)"
    by (rule arrived_columns_sent [OF cols]) (use that in \<open>auto simp: stored_def\<close>)
  have width: "\<And>c. c \<in> set ?cells \<Longrightarrow> length c = length g" by (auto simp: cells_of_def)
  have short: "\<And>v. v \<in> set (tuple_cells (length g) ?cells) \<Longrightarrow> length v < 2 ^ 64"
    using assms(8) unfolding enc [symmetric] by (auto simp: MAX_STRING_SIZE_def)
  have names: "map (\<lambda>s. (cs_name s, sent_name s)) (map stored native) = map (\<lambda>s. (cs_name s, sent_name s)) native"
    by (auto simp: stored_def sent_name_def)
  have "encode_columns (tuple_cells (length g) ?there) (map stored native) sr = Inr body"
    using body same_block [OF cols width short, of sr] by (simp add: enc encode_columns_stored)
  moreover have "\<forall>c\<in>set ?there. length c = length g" by (intro ballI arrived_columns_lengths [OF width])
  ultimately have block: "server_block sr (map stored native) ?there (length g) body"
    unfolding server_block_def using columns_arrive(1) [OF cols] arrived_rows_short [OF cols width short] assms(2-4) g by auto
  have packet: "block_packets sr [frame_of native sr rows] =
      send_data_block sr [] body (of_nat (length (map stored native))) (of_nat (length g))"
    using body len by (simp add: block_packets_def frame_of_def)
  from data_packet_read [OF block empty_announced assms(10) [unfolded packet]] obtain b where
    "server_reads_data sr (block_packets sr [frame_of native sr rows] @ rest) = Inr ((2, empty_tag sr, b), rest)"
    "db_schema b = map (\<lambda>s. (cs_name s, sent_name s)) (map stored native)"
    "map to_cells (db_columns b) = ?there" "db_num_rows b = length g"
    unfolding packet empty_tag_def by blast
  then show ?thesis using same unfolding names by (auto simp: holds_group_def)
qed

section \<open>The whole insert\<close>

text \<open>The rows of a group, as they were encoded.\<close>

definition group_bytes :: "platform \<Rightarrow> ColumnDef list \<Rightarrow> row list \<Rightarrow> byte list list" where
  "group_bytes env columns g = map (\<lambda>r. projr (encode_row env (row_of columns r))) g"

lemma group_packets_read:
  assumes "list_all2 (\<lambda>d s. fits (cd_ty d) (cs_col_type (stored s))) columns native"
    and "\<forall>s\<in>set native. well_declared (stored s)" "native \<noteq> []" "length native \<le> READER_MAX_BLOCK_COLUMNS"
    and "\<forall>g\<in>set gs. \<forall>r\<in>set g. \<not> isl (encode_row env (row_of columns r)) \<and>
      length (projr (encode_row env (row_of columns r))) \<le> MAX_STRING_SIZE"
    and "\<forall>g\<in>set gs. flushed native sr (group_bytes env columns g)"
    and "\<forall>g\<in>set gs. \<forall>d\<in>set columns. size_list size (map (field (cd_name d)) g) < 2 ^ 32 - 1"
    and "length (block_packets sr (map (frame_of native sr \<circ> group_bytes env columns) gs) @ rest) < 2 ^ 64"
  shows "\<exists>bs. read_times (length gs) (server_reads_data sr)
      (block_packets sr (map (frame_of native sr \<circ> group_bytes env columns) gs) @ rest) =
        Inr (map (\<lambda>b. (2, empty_tag sr, b)) bs, rest) \<and>
    list_all2 (holds_group env columns native) gs bs"
  using assms(5-)
proof (induction gs)
  case Nil
  show ?case by (simp add: block_packets_def rret_def)
next
  case (Cons g gs)
  let ?first = "block_packets sr [frame_of native sr (group_bytes env columns g)]"
  let ?others = "block_packets sr (map (frame_of native sr \<circ> group_bytes env columns) gs)"
  have split: "block_packets sr (map (frame_of native sr \<circ> group_bytes env columns) (g # gs)) = ?first @ ?others"
    by (simp add: block_packets_def)
  have short: "length (?first @ ?others @ rest) < 2 ^ 64" "length (?others @ rest) < 2 ^ 64"
    using Cons.prems(4) unfolding split by simp_all
  have "\<exists>bs. read_times (length gs) (server_reads_data sr) (?others @ rest) = Inr (map (\<lambda>b. (2, empty_tag sr, b)) bs, rest) \<and>
      list_all2 (holds_group env columns native) gs bs"
    by (rule Cons.IH [OF _ _ _ short(2)]) (use Cons.prems(1-3) in simp_all)
  then obtain bs where bs: "read_times (length gs) (server_reads_data sr) (?others @ rest) = Inr (map (\<lambda>b. (2, empty_tag sr, b)) bs, rest)"
    "list_all2 (holds_group env columns native) gs bs" by blast
  have "\<exists>b. server_reads_data sr (?first @ ?others @ rest) = Inr ((2, empty_tag sr, b), ?others @ rest) \<and>
      holds_group env columns native g b"
    by (rule group_packet_read [OF assms(1-4) _ group_bytes_def _ _ _ short(1)])
      (use Cons.prems(1-3) in \<open>auto simp: group_bytes_def\<close>)
  then obtain b where "server_reads_data sr (?first @ ?others @ rest) = Inr ((2, empty_tag sr, b), ?others @ rest)"
    "holds_group env columns native g b" by blast
  then show ?case using bs unfolding split
    by (intro exI [of _ "b # bs"]) (simp add: rbind_def rret_def)
qed

lemma accepted_bytes:
  "encoded_rows_of h columns rs = group_bytes (h_platform h) columns (accepted_rows h columns rs)"
  by (simp add: accepted_rows_encoded group_bytes_def)

lemma accepted_groups:
  assumes "concat bss = encoded_rows_of h columns rs"
    and "\<forall>bytes\<in>set (encoded_rows_of h columns rs). length bytes \<le> m"
    and "\<forall>d\<in>set columns. size_list size (map (field (cd_name d)) rs) < 2 ^ 32 - 1"
  shows "\<exists>gs. concat gs = accepted_rows h columns rs \<and> bss = map (group_bytes (h_platform h) columns) gs \<and>
    (\<forall>g\<in>set gs. \<forall>q\<in>set g. \<not> isl (encode_row (h_platform h) (row_of columns q)) \<and>
      length (projr (encode_row (h_platform h) (row_of columns q))) \<le> m) \<and>
    (\<forall>g\<in>set gs. \<forall>d\<in>set columns. size_list size (map (field (cd_name d)) g) < 2 ^ 32 - 1)"
proof -
  let ?env = "h_platform h" and ?rows = "accepted_rows h columns rs"
  from assms(1) obtain gs where gs: "concat gs = ?rows" "bss = map (group_bytes ?env columns) gs"
    using grouped [of bss _ ?rows] unfolding accepted_bytes group_bytes_def by blast
  have "\<not> isl (encode_row ?env (row_of columns q)) \<and> length (projr (encode_row ?env (row_of columns q))) \<le> m"
    if "g \<in> set gs" "q \<in> set g" for g q
  proof -
    from that gs(1) have "q \<in> set ?rows" by (metis UN_I set_concat)
    then show ?thesis using assms(2) unfolding accepted_bytes group_bytes_def by (auto simp: accepted_rows_def)
  qed
  moreover have "size_list size (map (field (cd_name d)) g) < 2 ^ 32 - 1" if "g \<in> set gs" "d \<in> set columns" for g d
    using size_group [OF that(1) gs(1) [unfolded accepted_rows_def], of size "field (cd_name d)"] assms(3) that(2) by fastforce
  ultimately show ?thesis using gs by blast
qed

lemma packet_short: "flushed native sr rows \<Longrightarrow> length (block_packets sr [frame_of native sr rows]) \<le> 2 ^ 30"
proof -
  assume "flushed native sr rows"
  then obtain body where "encode_columns rows native sr = Inr body" "length body \<le> MAX_INSERT_BLOCK_BYTES"
    by (auto simp: flushed_def)
  then show ?thesis
    using varint_short [of "client_id ClientData"] header_short [of sr "[]" 0 "2 ^ 32 - 1" "of_nat (length native)" "of_nat (length rows)"]
    by (simp add: block_packets_def frame_of_def send_data_block_header MAX_INSERT_BLOCK_BYTES_def)
qed

lemma packets_short:
  assumes "\<forall>rows\<in>set bss. flushed native sr rows" "length (concat bss) \<le> 2 ^ 32"
  shows "length (block_packets sr (map (frame_of native sr) bss) @ send_empty_block sr) < 2 ^ 64"
proof -
  have "length (block_packets sr (map (frame_of native sr) bss)) \<le> length (concat bss) * 2 ^ 30"
    using assms(1)
  proof (induction bss)
    case (Cons rows bss)
    have "length (block_packets sr (map (frame_of native sr) (rows # bss))) =
        length (block_packets sr [frame_of native sr rows]) + length (block_packets sr (map (frame_of native sr) bss))"
      by (simp add: block_packets_def)
    moreover have "2 ^ 30 \<le> length rows * 2 ^ 30" using Cons.prems by (cases rows) (auto simp: flushed_def)
    ultimately show ?case using Cons packet_short [of native sr rows] by (simp add: add_mult_distrib)
  qed (simp add: block_packets_def)
  moreover have "length (send_empty_block sr) \<le> 75"
    using varint_short [of "client_id ClientData"] header_short [of sr "[]" 0 "2 ^ 32 - 1" 0 0]
    by (simp add: send_empty_block_def send_data_block_header)
  ultimately show ?thesis using assms(2) by simp
qed

text \<open>
  C1: what a dynamic insert over TCP accepted is what the server reads.  Take an insert in which the first write succeeds,
  every other write is answered by whether its row encodes, so that no block is refused for its size or by the server,
  and the end succeeds.  After the INSERT statement the connection has sent data packets that a server of that
  revision reads one by one, down to the closing empty block: each with the announced columns, and together with the
  cells of every accepted row, in order, none lost and none twice; and the number the insert returns is the number of
  rows the server then holds.  A cell arrives as it was encoded, except that a value of a nullable dictionary column
  that equals the default of its type arrives as NULL.  The columns are those both type parsers understand alike, the
  rows and their number within the size limits of the wire format.
\<close>

theorem inserted_rows_read_by_server:
  assumes "write_all h (r # rs) (tcp_insert client database tab schema) w = Some (Inr u # xs, i, w')"
    and "columns = select_columns r [] schema" "xs = map (answer_to h columns) rs"
    and "end_insert h i w' = Some (Inr n, w'')"
    and "from_headers (map (\<lambda>c. (cd_name c, pt_raw (cd_ty c))) columns) = Inr native"
    and "list_all2 (\<lambda>d s. fits (cd_ty d) (cs_col_type (stored s))) columns native" "\<forall>s\<in>set native. well_declared (stored s)"
    and "native \<noteq> []" "length native \<le> READER_MAX_BLOCK_COLUMNS"
    and "\<forall>bytes\<in>set (encoded_rows_of h columns (r # rs)). length bytes \<le> MAX_STRING_SIZE"
    and "\<forall>d\<in>set columns. size_list size (map (field (cd_name d)) (r # rs)) < 2 ^ 32 - 1"
    and "length (r # rs) \<le> 2 ^ 32"
  shows "\<exists>conn groups blocks packets. w_acquire w = Inr conn \<and>
    ac_wire (w_conn w'') = ac_wire conn @
      statement_bytes conn [] (insert_sql h (tcp_insert client database tab schema) columns ''Native'') (insert_settings client) [] @ packets \<and>
    read_times (length groups) (server_reads_data (ac_revision conn)) packets =
      Inr (map (\<lambda>b. (2, empty_tag (ac_revision conn), b)) blocks, send_empty_block (ac_revision conn)) \<and>
    concat groups = accepted_rows h columns (r # rs) \<and>
    list_all2 (holds_group (h_platform h) columns native) groups blocks \<and>
    n = of_nat (sum_list (map db_num_rows blocks))"
proof -
  let ?env = "h_platform h" and ?rows = "accepted_rows h columns (r # rs)"
  from insert_delivered [OF assms(1-4)] assms(5) obtain conn bss where conn: "w_acquire w = Inr conn"
    "concat bss = encoded_rows_of h columns (r # rs)" "n = of_nat (length (concat bss))"
    "\<forall>b\<in>set bss. flushed native (ac_revision conn) b"
    and wire: "ac_wire (w_conn w'') = ac_wire conn @
      statement_bytes conn [] (insert_sql h (tcp_insert client database tab schema) columns ''Native'') (insert_settings client) [] @
      block_packets (ac_revision conn) (map (frame_of native (ac_revision conn)) bss) @ send_empty_block (ac_revision conn)"
    by auto
  have count: "length (concat bss) \<le> 2 ^ 32"
    using assms(12) unfolding conn(2) accepted_bytes group_bytes_def accepted_rows_def
    by (metis length_filter_le length_map order.trans)
  from accepted_groups [OF conn(2) assms(10,11)] obtain gs where gs: "concat gs = ?rows" "bss = map (group_bytes ?env columns) gs"
    "\<forall>g\<in>set gs. \<forall>q\<in>set g. \<not> isl (encode_row ?env (row_of columns q)) \<and> length (projr (encode_row ?env (row_of columns q))) \<le> MAX_STRING_SIZE"
    "\<forall>g\<in>set gs. \<forall>d\<in>set columns. size_list size (map (field (cd_name d)) g) < 2 ^ 32 - 1" by blast
  let ?sent = "block_packets (ac_revision conn) (map (frame_of native (ac_revision conn) \<circ> group_bytes ?env columns) gs)"
  have short: "length (?sent @ send_empty_block (ac_revision conn)) < 2 ^ 64"
    using packets_short [OF conn(4) count] unfolding gs(2) by simp
  have "\<exists>bs. read_times (length gs) (server_reads_data (ac_revision conn)) (?sent @ send_empty_block (ac_revision conn)) =
      Inr (map (\<lambda>b. (2, empty_tag (ac_revision conn), b)) bs, send_empty_block (ac_revision conn)) \<and>
    list_all2 (holds_group ?env columns native) gs bs"
    by (rule group_packets_read [OF assms(6-9) gs(3) _ gs(4) short]) (use conn(4) gs(2) in simp)
  then obtain bs where bs: "read_times (length gs) (server_reads_data (ac_revision conn)) (?sent @ send_empty_block (ac_revision conn)) =
      Inr (map (\<lambda>b. (2, empty_tag (ac_revision conn), b)) bs, send_empty_block (ac_revision conn))"
    and held: "list_all2 (holds_group ?env columns native) gs bs" by blast
  have "length (concat bss) = sum_list (map db_num_rows bs)"
    using held unfolding gs(2) by (induction rule: list_all2_induct) (auto simp: holds_group_def group_bytes_def)
  then show ?thesis using conn wire gs bs held by (intro exI conjI) (auto simp: comp_def)
qed

theorem inserted_rows_read_by_server_witness:
  "\<exists>w'' groups blocks packets. end_insert plain_host (ab_holding [[1, 0, 1, 0x78], [0, 1]]) ab_world' = Some (Inr 2, w'') \<and>
    ac_wire (w_conn w'') = ac_wire idle_actor @ statement_bytes idle_actor [] ab_sql (insert_settings ab_client) [] @ packets \<and>
    read_times (length groups) (server_reads_data 54473) packets =
      Inr (map (\<lambda>b. (2, empty_tag 54473, b)) blocks, send_empty_block 54473) \<and>
    concat groups = [ab_rows ! 0, ab_rows ! 1] \<and>
    list_all2 (holds_group no_platform ab_defs ab_native) groups blocks"
proof -
  obtain w'' where e: "end_insert plain_host (ab_holding [[1, 0, 1, 0x78], [0, 1]]) ab_world' = Some (Inr 2, w'')" using ab_ended by blast
  have x: "[Inr ()] = map (answer_to plain_host ab_defs) [ab_rows ! 1]"
    using ab_row_encodings(2) by (simp add: answer_to_def plain_host_def)
  have host: "h_platform plain_host = no_platform" by (simp add: plain_host_def)
  have accepted: "accepted_rows plain_host ab_defs (ab_rows ! 0 # [ab_rows ! 1]) = [ab_rows ! 0, ab_rows ! 1]"
    using ab_row_encodings by (simp add: accepted_rows_def host)
  have enc: "encoded_rows_of plain_host ab_defs (ab_rows ! 0 # [ab_rows ! 1]) = [[1, 0, 1, 0x78], [0, 1]]"
    using ab_row_encodings by (simp add: encoded_rows_of_def host)
  have two: "ab_rows ! 0 # [ab_rows ! 1] = ab_rows" by (simp add: ab_rows_def)
  have native: "ab_native \<noteq> []" "length ab_native \<le> READER_MAX_BLOCK_COLUMNS"
    by (simp_all add: ab_native_def READER_MAX_BLOCK_COLUMNS_def)
  have conn: "ac_revision idle_actor = 54473" "w_acquire ab_world = Inr idle_actor"
    by (simp_all add: idle_actor_def spawn_with_config_def ab_world_def)
  have "\<exists>conn groups blocks packets. w_acquire ab_world = Inr conn \<and>
    ac_wire (w_conn w'') = ac_wire conn @ statement_bytes conn [] ab_sql (insert_settings ab_client) [] @ packets \<and>
    read_times (length groups) (server_reads_data (ac_revision conn)) packets =
      Inr (map (\<lambda>b. (2, empty_tag (ac_revision conn), b)) blocks, send_empty_block (ac_revision conn)) \<and>
    concat groups = accepted_rows plain_host ab_defs (ab_rows ! 0 # [ab_rows ! 1]) \<and>
    list_all2 (holds_group (h_platform plain_host) ab_defs ab_native) groups blocks \<and>
    (2 :: u64) = of_nat (sum_list (map db_num_rows blocks))"
    by (rule inserted_rows_read_by_server [OF ab_written ab_columns [symmetric] x e ab_headers ab_fits _ native])
      (use ab_declared ab_caps in \<open>auto simp only: two enc [unfolded two]\<close>, simp add: ab_rows_def)
  then show ?thesis using e conn accepted by (auto simp: host)
qed

end
