(* ===== verification/Worker.thy ===== *)
theory Worker
  imports Actor
begin

text \<open>
  The command worker of src/src/worker.rs as a system: the senders' handles, the control that owns the task, the bounded
  channel between them, and the task that takes commands one at a time.
\<close>

section \<open>The system\<close>

text \<open>The task runs with the state of its worker, or has exited and left it.\<close>

datatype 's task = Running 's | Exited 's

record ('c, 's) system =
  sy_capacity :: nat
  sy_queue :: "'c list"
  sy_handles :: nat
  sy_control :: bool
  sy_signalled :: bool
  sy_idle_interval :: bool
  sy_task :: "'s task"

definition worker_spawn :: "'s \<Rightarrow> bool \<Rightarrow> nat \<Rightarrow> ('c, 's) system" where
  "worker_spawn worker idle capacity =
    \<lparr> sy_capacity = capacity, sy_queue = [], sy_handles = 0, sy_control = True, sy_signalled = False,
      sy_idle_interval = idle, sy_task = Running worker \<rparr>"

text \<open>Sending waits while the channel is full, and gives the command back once the task is gone.\<close>

datatype ('c, 's) send_result = Waits | SendError 'c | Sent "('c, 's) system"

definition worker_send :: "'c \<Rightarrow> ('c, 's) system \<Rightarrow> ('c, 's) send_result" where
  "worker_send cmd sys =
    (case sy_task sys of
       Exited _ \<Rightarrow> SendError cmd
     | Running _ \<Rightarrow>
         if length (sy_queue sys) < sy_capacity sys then Sent (sys\<lparr> sy_queue := sy_queue sys @ [cmd] \<rparr>) else Waits)"

definition control_handle :: "('c, 's) system \<Rightarrow> ('c, 's) system" where
  "control_handle sys = sys\<lparr> sy_handles := Suc (sy_handles sys) \<rparr>"

text \<open>\<open>shutdown\<close> and the drop of the control both signal first and release the control's own sender.\<close>

definition control_shutdown :: "('c, 's) system \<Rightarrow> ('c, 's) system" where
  "control_shutdown sys = sys\<lparr> sy_signalled := True, sy_control := False \<rparr>"

text \<open>
  What the biased \<open>select\<close> of the task yields: the signal before a command, a command before a tick, and the end of the
  channel when it is empty and no sender is left.  None is a task that goes on waiting.
\<close>

definition next_event :: "bool \<Rightarrow> ('c, 's) system \<Rightarrow> 'c NextEvent option" where
  "next_event tick sys =
    (if sy_signalled sys then Some Shutdown
     else case sy_queue sys of
       cmd # _ \<Rightarrow> Some (Command cmd)
     | [] \<Rightarrow>
         if sy_handles sys = 0 \<and> \<not> sy_control sys then Some Shutdown
         else if sy_idle_interval sys \<and> tick then Some IdleTick else None)"

text \<open>One turn of the loop; a handler that does not return has no value.\<close>

definition turn ::
    "('c \<Rightarrow> 's \<Rightarrow> 's option) \<Rightarrow> ('s \<Rightarrow> 's option) \<Rightarrow> ('s \<Rightarrow> 's option) \<Rightarrow> 'c NextEvent \<Rightarrow> 's \<Rightarrow> ('c, 's) system \<Rightarrow> ('c, 's) system option" where
  "turn handler on_idle on_shutdown ev worker sys =
    (case ev of
       Command cmd \<Rightarrow> map_option (\<lambda>w. sys\<lparr> sy_queue := tl (sy_queue sys), sy_task := Running w \<rparr>) (handler cmd worker)
     | IdleTick \<Rightarrow> map_option (\<lambda>w. sys\<lparr> sy_task := Running w \<rparr>) (on_idle worker)
     | Shutdown \<Rightarrow> map_option (\<lambda>w. sys\<lparr> sy_queue := [], sy_task := Exited w \<rparr>) (on_shutdown worker))"

section \<open>Executions\<close>

datatype 'c action = Accepted 'c | Returned 'c | HandleMade | HandleDropped | ControlGone | Took "'c NextEvent"

inductive worker_step :: "('c \<Rightarrow> 's \<Rightarrow> 's option) \<Rightarrow> ('s \<Rightarrow> 's option) \<Rightarrow> ('s \<Rightarrow> 's option) \<Rightarrow>
    ('c, 's) system \<Rightarrow> 'c action \<Rightarrow> ('c, 's) system \<Rightarrow> bool"
  for handler on_idle on_shutdown where
  accepted: "0 < sy_handles t \<Longrightarrow> worker_send c t = Sent u \<Longrightarrow> worker_step handler on_idle on_shutdown t (Accepted c) u"
| returned: "0 < sy_handles t \<Longrightarrow> worker_send c t = SendError d \<Longrightarrow> worker_step handler on_idle on_shutdown t (Returned d) t"
| made: "sy_control t \<or> 0 < sy_handles t \<Longrightarrow> worker_step handler on_idle on_shutdown t HandleMade (control_handle t)"
| dropped: "0 < sy_handles t \<Longrightarrow>
    worker_step handler on_idle on_shutdown t HandleDropped (t\<lparr> sy_handles := sy_handles t - 1 \<rparr>)"
| gone: "sy_control t \<Longrightarrow> worker_step handler on_idle on_shutdown t ControlGone (control_shutdown t)"
| took: "sy_task t = Running w \<Longrightarrow> next_event tick t = Some ev \<Longrightarrow> turn handler on_idle on_shutdown ev w t = Some u \<Longrightarrow>
    worker_step handler on_idle on_shutdown t (Took ev) u"

inductive exec :: "('c \<Rightarrow> 's \<Rightarrow> 's option) \<Rightarrow> ('s \<Rightarrow> 's option) \<Rightarrow> ('s \<Rightarrow> 's option) \<Rightarrow>
    ('c, 's) system \<Rightarrow> 'c action list \<Rightarrow> ('c, 's) system \<Rightarrow> bool"
  for handler on_idle on_shutdown where
  start: "exec handler on_idle on_shutdown s [] s"
| step: "exec handler on_idle on_shutdown s tr t \<Longrightarrow> worker_step handler on_idle on_shutdown t act u \<Longrightarrow>
    exec handler on_idle on_shutdown s (tr @ [act]) u"

definition accepted_of :: "'c action list \<Rightarrow> 'c list" where
  "accepted_of tr = concat (map (\<lambda>a. case a of Accepted c \<Rightarrow> [c] | _ \<Rightarrow> []) tr)"

definition handled_of :: "'c action list \<Rightarrow> 'c list" where
  "handled_of tr = concat (map (\<lambda>a. case a of Took (Command c) \<Rightarrow> [c] | _ \<Rightarrow> []) tr)"

definition inputs_of :: "'c action list \<Rightarrow> 'c NextEvent list" where
  "inputs_of tr = concat (map (\<lambda>a. case a of Took ev \<Rightarrow> [ev] | _ \<Rightarrow> []) tr)"

lemma trace_simps [simp]:
  "accepted_of [] = []" "handled_of [] = []" "inputs_of [] = []"
  "accepted_of (tr @ [a]) = accepted_of tr @ (case a of Accepted c \<Rightarrow> [c] | _ \<Rightarrow> [])"
  "handled_of (tr @ [a]) = handled_of tr @ (case a of Took (Command c) \<Rightarrow> [c] | _ \<Rightarrow> [])"
  "inputs_of (tr @ [a]) = inputs_of tr @ (case a of Took ev \<Rightarrow> [ev] | _ \<Rightarrow> [])"
  by (simp_all add: accepted_of_def handled_of_def inputs_of_def)

lemma run_snoc:
  assumes "Shutdown \<notin> set evs"
  shows "run handler on_idle on_shutdown (evs @ es) w =
    Option.bind (run handler on_idle Some evs w) (run handler on_idle on_shutdown es)"
  using assms
proof (induction evs arbitrary: w)
  case (Cons ev evs)
  then show ?case by (cases ev) (auto split: bind_splits)
qed simp

section \<open>What a worker promises\<close>

text \<open>
  The invariant: the queue is bounded and holds what was accepted and not yet handled; the state is the one the loop
  reaches on the events taken; what is lost is lost to the signal.
\<close>

definition worker_ok :: "('c \<Rightarrow> 's \<Rightarrow> 's option) \<Rightarrow> ('s \<Rightarrow> 's option) \<Rightarrow> ('s \<Rightarrow> 's option) \<Rightarrow> 's \<Rightarrow> nat \<Rightarrow> 'c action list \<Rightarrow> ('c, 's) system \<Rightarrow> bool" where
  "worker_ok handler on_idle on_shutdown w capacity tr sys \<longleftrightarrow>
    length (sy_queue sys) \<le> capacity \<and> sy_capacity sys = capacity \<and>
    (sy_signalled sys \<longleftrightarrow> \<not> sy_control sys) \<and> (sy_signalled sys \<longleftrightarrow> ControlGone \<in> set tr) \<and>
    (case sy_task sys of
       Running w' \<Rightarrow> accepted_of tr = handled_of tr @ sy_queue sys \<and> Shutdown \<notin> set (inputs_of tr) \<and>
         run handler on_idle Some (inputs_of tr) w = Some w' \<and> (\<forall>c. Returned c \<notin> set tr)
     | Exited w' \<Rightarrow> sy_signalled sys \<and> (\<exists>lost. accepted_of tr = handled_of tr @ lost) \<and>
         run handler on_idle on_shutdown (inputs_of tr) w = Some w')"

lemma worker_step_ok:
  assumes "worker_step handler on_idle on_shutdown t act u" "worker_ok handler on_idle on_shutdown w capacity tr t"
  shows "worker_ok handler on_idle on_shutdown w capacity (tr @ [act]) u"
  using assms
proof cases
  case (took w' tick ev)
  with assms(2) show ?thesis
    by (cases ev) (auto simp: worker_ok_def turn_def next_event_def run_snoc split: if_splits list.splits)
qed (use assms(2) in \<open>auto simp: worker_ok_def worker_send_def control_handle_def control_shutdown_def
    split: task.splits if_splits\<close>)

lemma exec_ok:
  assumes "exec handler on_idle on_shutdown (worker_spawn w idle capacity) tr sys"
  shows "worker_ok handler on_idle on_shutdown w capacity tr sys"
  using assms
proof (induction "worker_spawn w idle capacity :: ('a, 'b) system" tr sys rule: exec.induct)
  case start
  show ?case by (simp add: worker_ok_def worker_spawn_def)
next
  case (step tr t act u)
  from step.hyps(3,2) show ?case by (rule worker_step_ok)
qed

lemma drains:
  assumes "exec handler on_idle on_shutdown s tr sys" "sy_task sys = Running w" "\<not> sy_signalled sys" "\<forall>c s. handler c s \<noteq> None"
  shows "\<exists>u. exec handler on_idle on_shutdown s (tr @ map (Took \<circ> Command) (sy_queue sys)) u \<and> sy_queue u = []"
  using assms
proof (induction "sy_queue sys" arbitrary: tr sys w)
  case (Cons c q)
  obtain w' where w': "handler c w = Some w'" using Cons.prems(4) by fastforce
  let ?u = "sys\<lparr> sy_queue := q, sy_task := Running w' \<rparr>"
  have "exec handler on_idle on_shutdown s (tr @ [Took (Command c)]) ?u"
    using Cons.prems Cons.hyps(2) [symmetric] w' by (intro exec.step [OF _ took [of sys w False]]) (simp_all add: next_event_def turn_def)
  from Cons.hyps(1) [OF _ this] Cons.prems(3,4) Cons.hyps(2) show ?case
    by (metis (no_types, lifting) append.assoc append_Cons append_Nil comp_apply list.simps(9) system.select_convs(2)
        system.select_convs(5) system.select_convs(7) system.surjective system.update_convs(2) system.update_convs(7))
qed auto

text \<open>
  C17: commands are handled once and in the order they were accepted.  In every execution, with any number of handles made
  and dropped, sends that wait or fail, idle ticks and a shutdown at any time, the commands handled are the first of
  those accepted, the channel never holds more than its capacity, and the worker is in the state its loop reaches on
  the events taken.  While the task runs, what was accepted and not handled is in the channel, no command is
  returned to its sender, and, if nobody signals and the handler returns, turns of the loop alone handle all of it;
  the task exits only after the signal.
\<close>

theorem commands_in_order:
  assumes "exec handler on_idle on_shutdown (worker_spawn w idle capacity) tr sys"
  shows "\<exists>rest. accepted_of tr = handled_of tr @ rest \<and> length (sy_queue sys) \<le> capacity \<and>
    (case sy_task sys of
       Running w' \<Rightarrow> rest = sy_queue sys \<and> (\<forall>c. Returned c \<notin> set tr) \<and> run handler on_idle Some (inputs_of tr) w = Some w' \<and>
         (ControlGone \<notin> set tr \<and> (\<forall>c s. handler c s \<noteq> None) \<longrightarrow>
           (\<exists>u. exec handler on_idle on_shutdown (worker_spawn w idle capacity) (tr @ map (Took \<circ> Command) rest) u \<and> sy_queue u = []))
     | Exited w' \<Rightarrow> ControlGone \<in> set tr \<and> run handler on_idle on_shutdown (inputs_of tr) w = Some w')"
proof -
  note ok = exec_ok [OF assms, unfolded worker_ok_def]
  show ?thesis
  proof (cases "sy_task sys")
    case (Running w')
    with ok drains [OF assms Running] show ?thesis by (intro exI [of _ "sy_queue sys"]) auto
  next
    case (Exited w')
    with ok show ?thesis by auto
  qed
qed

definition tally :: "nat \<Rightarrow> nat \<Rightarrow> nat option" where
  "tally c s = Some (s + c)"

definition worker_at :: "nat list \<Rightarrow> bool \<Rightarrow> nat task \<Rightarrow> (nat, nat) system" where
  "worker_at queue control task = \<lparr> sy_capacity = 2, sy_queue = queue, sy_handles = 1, sy_control = control,
    sy_signalled = (\<not> control), sy_idle_interval = False, sy_task = task \<rparr>"

lemmas worker_example = worker_at_def worker_spawn_def control_handle_def control_shutdown_def worker_send_def next_event_def
  turn_def tally_def

lemma example_execution:
  "exec tally Some Some (worker_spawn 0 False 2) ([] @ [HandleMade] @ [Accepted 3] @ [Accepted 4] @ [Took (Command 3)]) (worker_at [4] True (Running 3))"
proof -
  have "exec tally Some Some (worker_spawn 0 False 2) ([] @ [HandleMade]) (worker_at [] True (Running 0))"
    using step [OF start made, of "worker_spawn 0 False 2" tally Some Some] by (simp add: worker_example)
  from step [OF this accepted, of 3 "worker_at [3] True (Running 0)"]
  have "exec tally Some Some (worker_spawn 0 False 2) ([] @ [HandleMade] @ [Accepted 3]) (worker_at [3] True (Running 0))"
    by (simp add: worker_example)
  from step [OF this accepted, of 4 "worker_at [3, 4] True (Running 0)"]
  have "exec tally Some Some (worker_spawn 0 False 2) ([] @ [HandleMade] @ [Accepted 3] @ [Accepted 4]) (worker_at [3, 4] True (Running 0))"
    by (simp add: worker_example)
  from step [OF this took, of 0 False "Command 3" "worker_at [4] True (Running 3)"] show ?thesis by (simp add: worker_example)
qed

theorem commands_in_order_witness:
  "\<exists>u. accepted_of [HandleMade, Accepted 3, Accepted (4 :: nat), Took (Command 3)] = [3] @ [4] \<and>
    exec tally Some Some (worker_spawn 0 False 2) [HandleMade, Accepted 3, Accepted 4, Took (Command 3), Took (Command 4)] u \<and> sy_queue u = []"
proof -
  obtain rest u where "accepted_of [HandleMade, Accepted 3, Accepted (4 :: nat), Took (Command 3)] =
      handled_of [HandleMade, Accepted 3, Accepted 4, Took (Command 3)] @ rest"
    "rest = [4]" "exec tally Some Some (worker_spawn 0 False 2) ([HandleMade, Accepted 3, Accepted 4, Took (Command 3)] @ map (Took \<circ> Command) rest) u"
    "sy_queue u = []"
    using commands_in_order [OF example_execution] by (auto simp: worker_at_def tally_def)
  then show ?thesis by (auto simp: handled_of_def)
qed

text \<open>
  The signal wins over queued commands: after the same beginning and a shutdown, the task exits without the command that
  was accepted and still queued, and its sender is never told.
\<close>

theorem shutdown_loses_command:
  "\<exists>tr sys. exec tally Some Some (worker_spawn 0 False 2) tr sys \<and> sy_task sys = Exited 3 \<and> sy_queue sys = [] \<and>
    accepted_of tr = [3, 4] \<and> handled_of tr = [3] \<and> Returned 4 \<notin> set tr"
proof -
  let ?tr = "([] @ [HandleMade] @ [Accepted 3] @ [Accepted 4] @ [Took (Command 3)]) @ [ControlGone]"
  have "exec tally Some Some (worker_spawn 0 False 2) ?tr (worker_at [4] False (Running 3))"
    using step [OF example_execution gone] by (simp add: worker_example)
  from step [OF this took, of 3 False Shutdown "worker_at [] False (Exited 3)"]
  have "exec tally Some Some (worker_spawn 0 False 2) (?tr @ [Took Shutdown]) (worker_at [] False (Exited 3))"
    by (simp add: worker_example)
  then show ?thesis by (intro exI conjI) (assumption | simp add: worker_at_def accepted_of_def handled_of_def)+
qed

end
