(* ===== verification/Connection.thy ===== *)
theory Connection
  imports Worker Client
begin

text \<open>
  A connection as its callers hold it (src/src/tcp/connection_actor.rs): the actor run as a command worker, the handle with
  its clones, the poison flag they share with the reader task, and the shutdown.  The concurrent system refines one
  machine that answers commands one after another.
\<close>

section \<open>The actor as a worker\<close>

definition DEFAULT_CMD_CHANNEL :: nat where "DEFAULT_CMD_CHANNEL = 16"

text \<open>The task's state: the actor, what its environment does next, the replies sent so far, and its end of the socket.\<close>

record connection =
  cn_actor :: actor
  cn_events :: "event list"
  cn_log :: "(ConnectionCmd \<times> reply) list"
  cn_writer_open :: bool

definition connection_handle :: "ConnectionCmd \<Rightarrow> connection \<Rightarrow> connection option" where
  "connection_handle cmd c =
    map_option (\<lambda>(r, a, es). c\<lparr> cn_actor := a, cn_events := es, cn_log := cn_log c @ [(cmd, r)] \<rparr>)
      (handle cmd (cn_actor c) (cn_events c))"

text \<open>
  The shutdown hook closes the write half, which may flush what an earlier write left in the buffer, or gives up after
  a while; either way the half is dropped with the actor.
\<close>

definition connection_on_shutdown :: "connection \<Rightarrow> connection option" where
  "connection_on_shutdown c = Some (c\<lparr> cn_writer_open := False \<rparr>)"

type_synonym connection_system = "(ConnectionCmd, connection) system"

definition connection_spawn :: "actor \<Rightarrow> event list \<Rightarrow> connection_system" where
  "connection_spawn a es =
    control_handle (worker_spawn \<lparr> cn_actor = a, cn_events = es, cn_log = [], cn_writer_open = True \<rparr> False DEFAULT_CMD_CHANNEL)"

definition connection_of :: "connection_system \<Rightarrow> connection" where
  "connection_of sys = (case sy_task sys of Running c \<Rightarrow> c | Exited c \<Rightarrow> c)"

section \<open>The handle\<close>

definition is_alive :: "connection_system \<Rightarrow> bool" where
  "is_alive sys \<longleftrightarrow> \<not> ac_poisoned (cn_actor (connection_of sys))"

text \<open>The flag is shared: handles, insert sessions and the reader task set it while the actor is anywhere.\<close>

definition connection_poison :: "connection_system \<Rightarrow> connection_system" where
  "connection_poison sys =
    (let mark = (\<lambda>c. c\<lparr> cn_actor := (cn_actor c)\<lparr> ac_poisoned := True \<rparr> \<rparr>)
     in sys\<lparr> sy_task := map_task mark (sy_task sys) \<rparr>)"

text \<open>
  Closing takes the control out of its slot, signals and waits for the task; a call that finds the slot empty has nothing
  to do.  The signal goes before any queued command, so the task's next event is the shutdown.  The call returns when
  the task has ended: one that finds a handler at work waits until that handler returns, so \<open>connection_close\<close> gives the
  state after a call made, or resumed, between two commands.
\<close>

definition connection_close :: "connection_system \<Rightarrow> connection_system" where
  "connection_close sys =
    (if sy_control sys then
       (let signalled = control_shutdown sys
        in case sy_task signalled of
          Running c \<Rightarrow> (case turn connection_handle Some connection_on_shutdown Shutdown c signalled of
            Some sys' \<Rightarrow> sys' | None \<Rightarrow> signalled)
        | Exited _ \<Rightarrow> signalled)
     else sys)"

text \<open>The last clone takes the control with it.\<close>

definition connection_drop :: "connection_system \<Rightarrow> connection_system" where
  "connection_drop sys =
    (let sys' = sys\<lparr> sy_handles := sy_handles sys - 1 \<rparr>
     in if sy_handles sys' = 0 \<and> sy_control sys' then control_shutdown sys' else sys')"

text \<open>
  A call hands its command over and waits for the reply: it fails where the task is gone before, and where the task goes
  away with the reply outstanding.
\<close>

datatype fate = Served | GoneBefore | GoneAfter

definition actor_closed :: error where "actor_closed = Custom ''tcp: connection actor closed''"

definition call :: "fate \<Rightarrow> string \<Rightarrow> ConnectionCmd \<Rightarrow> unit result act" where
  "call f what cmd = (case f of
     Served \<Rightarrow> abind (handle cmd) (\<lambda>r. aret (answer_of what r))
   | GoneBefore \<Rightarrow> aret (Inl actor_closed)
   | GoneAfter \<Rightarrow> aret (answer_of what NoAnswer))"

definition handle_ping :: "fate \<Rightarrow> unit result act" where
  "handle_ping f = call f ''ping'' Ping"

definition handle_execute_query :: "fate \<Rightarrow> string \<Rightarrow> string \<Rightarrow> kvs \<Rightarrow> kvs \<Rightarrow> unit result act" where
  "handle_execute_query f query_id query extra_settings params =
    call f ''execute_query'' (ExecuteQuery query_id query extra_settings params)"

definition handle_finish_insert :: "fate \<Rightarrow> unit result act" where
  "handle_finish_insert f = call f ''finish_insert'' FinishInsert"

text \<open>
  \<open>PoisonOnDrop\<close> is armed or not.  Opening an INSERT holds an armed one until the reply is in, so both failures leave the
  connection poisoned.
\<close>

datatype PoisonOnDrop = PoisonOnDrop bool

definition arm :: PoisonOnDrop where "arm = PoisonOnDrop True"

definition disarm :: "PoisonOnDrop \<Rightarrow> PoisonOnDrop" where "disarm g = PoisonOnDrop False"

definition drop_guard :: "PoisonOnDrop \<Rightarrow> unit act" where
  "drop_guard g = (case g of PoisonOnDrop armed \<Rightarrow> if armed then poison else aret ())"

definition handle_begin_insert :: "fate \<Rightarrow> string \<Rightarrow> string \<Rightarrow> kvs \<Rightarrow> kvs \<Rightarrow> kvs result act" where
  "handle_begin_insert f query_id query extra_settings params =
    (let abandoned = arm;
         dropped = Custom ''tcp: connection actor dropped begin_insert reply''
     in case f of
       GoneBefore \<Rightarrow> abind (drop_guard abandoned) (\<lambda>_. aret (Inl actor_closed))
     | GoneAfter \<Rightarrow> abind (drop_guard abandoned) (\<lambda>_. aret (Inl dropped))
     | Served \<Rightarrow> abind (handle (BeginInsert query_id query extra_settings params)) (\<lambda>reply.
         case reply of
           Columns outcome \<Rightarrow> abind (drop_guard (disarm abandoned)) (\<lambda>_. aret outcome)
         | _ \<Rightarrow> abind (drop_guard abandoned) (\<lambda>_. aret (Inl dropped))))"

lemma begin_replies_columns:
  assumes "handle (BeginInsert query_id query settings params) a es = Some (reply, b, es')"
  shows "\<exists>r. reply = Columns r"
proof (cases "ac_poisoned a \<or> ac_state a = InsertActive")
  case True
  with assms show ?thesis by (auto simp: handle_def act_eqs reject_poisoned_def continues_insert_def split: if_splits ActorState.splits)
next
  case False
  with assms obtain x c fs where "(case x of Inl _ \<Rightarrow> aret (Columns x) | Inr _ \<Rightarrow> abind (set_state InsertActive) (\<lambda>_. aret (Columns x))) c fs =
      Some (reply, b, es')"
    by (cases "ac_state a") (auto simp: handle_def abind_eq_Some)
  then show ?thesis by (cases x) (auto simp: act_eqs)
qed

lemma begin_insert_guarded:
  assumes "handle_begin_insert f query_id query settings params a es = Some (r, b, es')"
  shows "if f = Served then handle (BeginInsert query_id query settings params) a es = Some (Columns r, b, es')
    else isl r \<and> b = a\<lparr> ac_poisoned := True \<rparr> \<and> es' = es"
proof (cases f)
  case Served
  with assms obtain reply c fs where h: "handle (BeginInsert query_id query settings params) a es = Some (reply, c, fs)"
    and k: "(case reply of Columns outcome \<Rightarrow> abind (drop_guard (disarm arm)) (\<lambda>_. aret outcome)
      | _ \<Rightarrow> abind (drop_guard arm) (\<lambda>_. aret (Inl (Custom ''tcp: connection actor dropped begin_insert reply'')))) c fs = Some (r, b, es')"
    by (auto simp: handle_begin_insert_def abind_eq_Some Let_def)
  from begin_replies_columns [OF h] k show ?thesis using h Served by (auto simp: act_eqs drop_guard_def disarm_def)
qed (use assms in \<open>auto simp: handle_begin_insert_def act_eqs drop_guard_def arm_def Let_def\<close>)

section \<open>Many callers, one machine\<close>

text \<open>The specification is \<open>answered\<close>: one actor that takes commands one at a time and logs its replies.\<close>

text \<open>The system: callers, handles and the task of the worker, and anybody who sets the flag, in any order.\<close>

inductive conn_exec :: "connection_system \<Rightarrow> ConnectionCmd action list \<Rightarrow> connection_system \<Rightarrow> bool" for s where
  born: "conn_exec s [] s"
| worked: "conn_exec s tr t \<Longrightarrow> worker_step connection_handle Some connection_on_shutdown t act u \<Longrightarrow> conn_exec s (tr @ [act]) u"
| poisoned: "conn_exec s tr t \<Longrightarrow> conn_exec s tr (connection_poison t)"

definition conn_ok :: "actor \<Rightarrow> ConnectionCmd action list \<Rightarrow> connection_system \<Rightarrow> bool" where
  "conn_ok a tr sys \<longleftrightarrow>
    answered a (cn_log (connection_of sys)) (cn_actor (connection_of sys)) \<and>
    map fst (cn_log (connection_of sys)) = handled_of tr \<and>
    sy_capacity sys = DEFAULT_CMD_CHANNEL \<and> length (sy_queue sys) \<le> DEFAULT_CMD_CHANNEL \<and>
    \<not> sy_idle_interval sys \<and> (sy_signalled sys \<longleftrightarrow> \<not> sy_control sys) \<and>
    (case sy_task sys of
       Running c \<Rightarrow> accepted_of tr = handled_of tr @ sy_queue sys
     | Exited c \<Rightarrow> sy_queue sys = [] \<and> \<not> sy_control sys \<and> \<not> cn_writer_open c \<and> (\<exists>lost. accepted_of tr = handled_of tr @ lost))"

lemma conn_ok_step:
  assumes "worker_step connection_handle Some connection_on_shutdown t act u" "conn_ok a tr t"
  shows "conn_ok a (tr @ [act]) u"
  using assms(1)
proof cases
  case (took c tick ev)
  show ?thesis
  proof (cases ev)
    case (Command cmd)
    with took assms(2) show ?thesis
      by (auto simp: conn_ok_def connection_of_def turn_def next_event_def connection_handle_def intro: an_command
          split: if_splits list.splits)
  qed (use took assms(2) in \<open>auto simp: conn_ok_def connection_of_def turn_def next_event_def connection_on_shutdown_def
      split: if_splits list.splits\<close>)
qed (use assms(2) in \<open>auto simp: conn_ok_def connection_of_def worker_send_def control_handle_def control_shutdown_def
    split: task.splits if_splits\<close>)

lemma conn_ok_poison: "conn_ok a tr t \<Longrightarrow> conn_ok a tr (connection_poison t)"
  by (cases "sy_task t") (auto simp: conn_ok_def connection_of_def connection_poison_def intro: an_poison)

lemma conn_exec_ok: "conn_exec (connection_spawn a es) tr sys \<Longrightarrow> conn_ok a tr sys"
proof (induction rule: conn_exec.induct)
  case born
  show ?case by (simp add: conn_ok_def connection_spawn_def control_handle_def worker_spawn_def connection_of_def an_start)
next
  case (worked tr t act u)
  then show ?case by (intro conn_ok_step)
next
  case (poisoned tr t)
  then show ?case by (intro conn_ok_poison)
qed

text \<open>
  C6: callers share a connection as if they took turns.  However many clones of the handle send commands, wait at the
  full channel, go away or close the connection, and whoever sets the poison flag in between, the replies sent are
  those of one actor that takes the commands one at a time, in the order in which the channel accepted them, from
  its spawn on; what was accepted and not answered is still queued while the task runs; and what the writer was handed
  is the transcript of the commands answered, each one's packets whole and in that order; or the packets of one of them
  were cut off, the connection is poisoned, and nothing was handed over after them.
\<close>

theorem callers_take_turns:
  assumes "conn_exec (connection_spawn (spawn_with_config build revision deadline quota) es) tr sys"
  shows "\<exists>rest. answered (spawn_with_config build revision deadline quota) (cn_log (connection_of sys)) (cn_actor (connection_of sys)) \<and>
    accepted_of tr = map fst (cn_log (connection_of sys)) @ rest \<and>
    (case sy_task sys of Running _ \<Rightarrow> rest = sy_queue sys \<and> length rest \<le> DEFAULT_CMD_CHANNEL | Exited _ \<Rightarrow> sy_queue sys = []) \<and>
    (transcript revision (map fst (cn_log (connection_of sys))) (ac_state (cn_actor (connection_of sys))) (ac_wire (cn_actor (connection_of sys))) \<or>
     broke_off revision (map fst (cn_log (connection_of sys))) (cn_actor (connection_of sys)))"
proof -
  let ?c = "connection_of sys"
  note ok = conn_exec_ok [OF assms, unfolded conn_ok_def]
  then have "wired revision (map fst (cn_log ?c)) (cn_actor ?c)" using answered_wired by blast
  with ok show ?thesis unfolding wired_def by (cases "sy_task sys") auto
qed

text \<open>A connection that was asked for one ping.\<close>

definition pinged_system :: connection_system where
  "pinged_system = (connection_spawn fresh [Message (Some (Packet PkPong))])\<lparr> sy_task :=
    Running \<lparr> cn_actor = pinged, cn_events = [], cn_log = [(Ping, Answer (Inr ()))], cn_writer_open = True \<rparr> \<rparr>"

lemma pinged_exec:
  "conn_exec (connection_spawn fresh [Message (Some (Packet PkPong))]) (([] @ [Accepted Ping]) @ [Took (Command Ping)]) pinged_system"
proof -
  have served: "connection_handle Ping \<lparr> cn_actor = fresh, cn_events = [Message (Some (Packet PkPong))], cn_log = [], cn_writer_open = True \<rparr> =
      Some \<lparr> cn_actor = pinged, cn_events = [], cn_log = [(Ping, Answer (Inr ()))], cn_writer_open = True \<rparr>"
    by (simp add: connection_handle_def ping_handled)
  let ?queued = "(connection_spawn fresh [Message (Some (Packet PkPong))])\<lparr> sy_queue := [Ping] \<rparr>"
  note defs = connection_spawn_def control_handle_def worker_spawn_def DEFAULT_CMD_CHANNEL_def
  have "worker_step connection_handle Some connection_on_shutdown (connection_spawn fresh [Message (Some (Packet PkPong))]) (Accepted Ping) ?queued"
    by (rule accepted) (simp_all add: defs worker_send_def)
  moreover have "worker_step connection_handle Some connection_on_shutdown ?queued (Took (Command Ping)) pinged_system"
    by (rule took [of _ "\<lparr> cn_actor = fresh, cn_events = [Message (Some (Packet PkPong))], cn_log = [], cn_writer_open = True \<rparr>" False])
      (simp_all add: defs next_event_def turn_def served pinged_system_def)
  ultimately show ?thesis by (intro worked) (rule born)
qed

theorem callers_take_turns_witness:
  "answered fresh [(Ping, Answer (Inr ()))] pinged \<and> accepted_of [Accepted Ping, Took (Command Ping)] = [Ping] \<and>
    transcript 54473 [Ping] Idle (ac_wire pinged)"
  using callers_take_turns [OF pinged_exec [unfolded fresh_def]]
  by (simp add: pinged_system_def connection_of_def fresh_def accepted_of_def broke_off_def) (simp add: pinged_def spawn_with_config_def)

section \<open>Closing\<close>

definition is_closed :: "connection_system \<Rightarrow> bool" where
  "is_closed sys \<longleftrightarrow> (\<exists>c. sy_task sys = Exited c \<and> \<not> cn_writer_open c) \<and> sy_queue sys = [] \<and> \<not> sy_control sys"

lemma closed_step:
  assumes "worker_step connection_handle Some connection_on_shutdown t act u" "is_closed t"
  shows "is_closed u \<and> connection_of u = connection_of t \<and> (\<forall>c. act \<noteq> Accepted c)"
  using assms(1) by cases (use assms(2) in \<open>auto simp: is_closed_def connection_of_def worker_send_def control_handle_def\<close>)

lemma closed_kept:
  assumes "conn_exec t tr u" "is_closed t"
  shows "is_closed u \<and> cn_log (connection_of u) = cn_log (connection_of t) \<and>
    ac_wire (cn_actor (connection_of u)) = ac_wire (cn_actor (connection_of t)) \<and> accepted_of tr = []"
  using assms
proof (induction rule: conn_exec.induct)
  case (worked tr v act u)
  with closed_step [OF worked.hyps(2)] show ?case by (auto split: action.splits)
qed (auto simp: is_closed_def connection_poison_def connection_of_def)

text \<open>
  C23: closing a connection is final.  In every reachable state of a connection whose control is still there, closing ends
  the task with its end of the socket closed; from then on no command is accepted, none is answered and no byte is
  handed to the writer, whatever the clones that are left do; a send gives the command back, and closing again does
  nothing.
\<close>

theorem close_is_final:
  assumes "conn_exec (connection_spawn a es) tr sys" "sy_control sys"
    and "conn_exec (connection_close sys) tr' u"
  shows "conn_exec (connection_spawn a es) (tr @ [ControlGone, Took Shutdown]) (connection_close sys) \<and>
    (\<exists>c. sy_task u = Exited c \<and> \<not> cn_writer_open c) \<and> accepted_of tr' = [] \<and>
    cn_log (connection_of u) = cn_log (connection_of sys) \<and>
    ac_wire (cn_actor (connection_of u)) = ac_wire (cn_actor (connection_of sys)) \<and>
    worker_send cmd u = SendError cmd \<and> connection_close u = u"
proof -
  obtain c where c: "sy_task sys = Running c"
    using conn_exec_ok [OF assms(1)] assms(2) by (cases "sy_task sys") (auto simp: conn_ok_def)
  let ?close = "connection_close sys"
  have close: "?close = sys\<lparr> sy_signalled := True, sy_control := False, sy_queue := [], sy_task := Exited (c\<lparr> cn_writer_open := False \<rparr>) \<rparr>"
    using assms(2) c by (simp add: connection_close_def control_shutdown_def turn_def connection_on_shutdown_def)
  then have ends: "is_closed ?close" "cn_log (connection_of ?close) = cn_log (connection_of sys)"
    "ac_wire (cn_actor (connection_of ?close)) = ac_wire (cn_actor (connection_of sys))"
    using c by (simp_all add: is_closed_def connection_of_def)
  note u = closed_kept [OF assms(3) ends(1)]
  have "worker_step connection_handle Some connection_on_shutdown (control_shutdown sys) (Took Shutdown) ?close"
    by (rule took [of _ c False]) (simp_all add: c close control_shutdown_def next_event_def turn_def connection_on_shutdown_def)
  from worked [OF worked [OF assms(1) gone [OF assms(2)]] this]
  have "conn_exec (connection_spawn a es) (tr @ [ControlGone, Took Shutdown]) ?close" by simp
  then show ?thesis using u ends unfolding is_closed_def by (auto simp: worker_send_def connection_close_def)
qed

theorem close_is_final_witness:
  "(\<exists>c. sy_task (connection_close pinged_system) = Exited c \<and> \<not> cn_writer_open c) \<and>
    worker_send Ping (connection_close pinged_system) = SendError Ping \<and>
    connection_close (connection_close pinged_system) = connection_close pinged_system"
proof -
  have "sy_control pinged_system" by (simp add: pinged_system_def connection_spawn_def control_handle_def worker_spawn_def)
  from close_is_final [OF pinged_exec this born, of Ping] show ?thesis by blast
qed

section \<open>Recycling\<close>

text \<open>
  The pool looks at a returned connection before it hands it out again (tcp/pool.rs): one it refuses is shut down through
  a clone of its handle first.
\<close>

definition close_refused :: "connection_system \<Rightarrow> connection_system" where
  "close_refused obj = connection_close obj"

definition recycle ::
    "'t TcpConnectionManager \<Rightarrow> nat \<Rightarrow> connection_system \<Rightarrow> (string + unit) \<times> connection_system" where
  "recycle m created_elapsed obj =
    (case recycle_refusal (tm_max_lifetime m) created_elapsed (is_alive obj) of
       Some reason \<Rightarrow> (Inl reason, close_refused obj)
     | None \<Rightarrow> (Inr (), obj))"

text \<open>What the pool keeps is unpoisoned and young enough; what it refuses is gone before the slot refills.\<close>

lemma recycle_keeps_or_closes:
  assumes "conn_exec (connection_spawn a es) tr sys" "sy_control sys"
  shows "case recycle m age sys of
      (Inr _, sys') \<Rightarrow> sys' = sys \<and> is_alive sys \<and> (\<forall>mx. tm_max_lifetime m = Some mx \<longrightarrow> age < mx)
    | (Inl _, sys') \<Rightarrow> is_closed sys'"
proof -
  obtain c where "sy_task sys = Running c"
    using conn_exec_ok [OF assms(1)] assms(2) by (cases "sy_task sys") (auto simp: conn_ok_def)
  then have "is_closed (connection_close sys)"
    using assms(2) by (simp add: is_closed_def connection_close_def control_shutdown_def turn_def connection_on_shutdown_def)
  then show ?thesis
    by (auto simp: recycle_def close_refused_def recycle_refusal_def split: option.splits if_splits)
qed

end
