(* ===== verification/Sockets.thy ===== *)
theory Sockets
  imports Pool
begin

text \<open>
  Opening a socket: src/src/tcp/connect.rs up to the handshake, the plain or encrypted stream of tcp/transport.rs, and the
  passage of errors through the operating system's error type in src/src/error.rs.  The sockets themselves, the
  server-name syntax and the TLS exchange belong to other libraries and are arguments.
\<close>

section \<open>Errors of the operating system\<close>

text \<open>An error of the system with its kind, one that carries an error of this crate, or one that carries another.\<close>

datatype io_error = IoSystem io_kind | IoCarries error | IoForeign string

definition error_into_io :: "error \<Rightarrow> io_error" where
  "error_into_io e = IoCarries e"

definition error_from_io :: "io_error \<Rightarrow> error" where
  "error_from_io e = (case e of IoCarries inner \<Rightarrow> inner | IoSystem k \<Rightarrow> OtherIo k | IoForeign text \<Rightarrow> OtherText text)"

lemma error_through_io: "error_from_io (error_into_io e) = e"
  by (simp add: error_from_io_def error_into_io_def)

section \<open>Streams\<close>

datatype ('s, 't) MaybeTlsStream = PlainStream 's | TlsStream 't

text \<open>Reads, writes, flushes and the shutdown are those of the stream inside.\<close>

definition poll_inner :: "('s \<Rightarrow> 'r \<times> 's) \<Rightarrow> ('t \<Rightarrow> 'r \<times> 't) \<Rightarrow> ('s, 't) MaybeTlsStream \<Rightarrow> 'r \<times> ('s, 't) MaybeTlsStream" where
  "poll_inner plain tls stream =
    (case stream of PlainStream s \<Rightarrow> map_prod id PlainStream (plain s) | TlsStream s \<Rightarrow> map_prod id TlsStream (tls s))"

record ('a, 's, 'n, 'c, 't) socket_api =
  nw_connect :: "'a \<Rightarrow> io_error + 's"
  nw_set_nodelay :: "bool \<Rightarrow> 's \<Rightarrow> io_error + 's"
  nw_set_keepalive :: "nat \<times> nat \<times> nat \<Rightarrow> 's \<Rightarrow> io_error + 's"
  nw_server_name :: "string \<Rightarrow> string + 'n"
  nw_tls :: "'c \<Rightarrow> 'n \<Rightarrow> 's \<Rightarrow> io_error + 't"
  nw_quoted :: "string \<Rightarrow> string"

section \<open>Connecting\<close>

definition TCP_KEEPALIVE_IDLE :: nat where "TCP_KEEPALIVE_IDLE = 60 * 10 ^ 9"
definition TCP_KEEPALIVE_INTERVAL :: nat where "TCP_KEEPALIVE_INTERVAL = 20 * 10 ^ 9"
definition TCP_KEEPALIVE_RETRIES :: nat where "TCP_KEEPALIVE_RETRIES = 3"

definition io_tri :: "io_error + 'a \<Rightarrow> ('a \<Rightarrow> 'b result) \<Rightarrow> 'b result" where
  "io_tri m f = tri (map_sum error_from_io id m) f"

definition connect_socket :: "('a, 's, 'n, 'c, 't) socket_api \<Rightarrow> 'a \<Rightarrow> 's result" where
  "connect_socket net addr =
    io_tri (nw_connect net addr) (\<lambda>socket.
    io_tri (nw_set_nodelay net True socket) (\<lambda>socket.
    io_tri (nw_set_keepalive net (TCP_KEEPALIVE_IDLE, TCP_KEEPALIVE_INTERVAL, TCP_KEEPALIVE_RETRIES) socket) (\<lambda>socket.
      Inr socket)))"

definition connect_plain :: "('a, 's, 'n, 'c, 't) socket_api \<Rightarrow> 'a \<Rightarrow> ('s, 't) MaybeTlsStream result" where
  "connect_plain net addr = tri (connect_socket net addr) (\<lambda>socket. Inr (PlainStream socket))"

definition connect_tls :: "('a, 's, 'n, 'c, 't) socket_api \<Rightarrow> 'a \<Rightarrow> string \<Rightarrow> 'c \<Rightarrow> ('s, 't) MaybeTlsStream result" where
  "connect_tls net addr server_name config =
    tri (connect_socket net addr) (\<lambda>socket.
    tri (map_sum (\<lambda>e. Custom (''tcp: invalid SNI '' @ nw_quoted net server_name @ '': '' @ e)) id (nw_server_name net server_name)) (\<lambda>sni.
    io_tri (nw_tls net config sni socket) (\<lambda>tls. Inr (TlsStream tls))))"

section \<open>The transport a pool asked for\<close>

lemma io_tri_eq_Inr: "io_tri m f = Inr y \<longleftrightarrow> (\<exists>x. m = Inr x \<and> f x = Inr y)"
  by (cases m) (simp_all add: io_tri_def)

lemma map_sum_eq_Inr: "map_sum f id m = Inr y \<longleftrightarrow> m = Inr y"
  by (cases m) simp_all

lemma custom_final: "\<not> is_retriable_transport (Custom text)"
  by (simp add: is_retriable_transport_def is_retriable_def)

lemmas connect_defs = connect_socket_def connect_plain_def connect_tls_def open_handshaken_def

text \<open>
  C40: the stream of a connection is the one its pool asked for.  When a connection opens, its stream was handshaken, over
  a socket to that address with \<open>TCP_NODELAY\<close> and the keepalive probes on; a plain pool has the bare socket, a TLS pool a
  stream encrypted for the configured name and trust, never the bare socket; a pool whose trust could not be
  resolved opens none.  When the system refuses the connect, both kinds of pool report that refusal, and a retry
  policy takes it up exactly if its kind is transient; a malformed server name is never retried.
\<close>

theorem transport_as_configured:
  assumes "open_handshaken (connect_plain net) (connect_tls net) exchange addr kind cfg = outcome"
  shows "(\<forall>stream hello. outcome = Inr (stream, hello) \<longrightarrow> exchange stream cfg = Inr hello \<and>
      (\<exists>s0 s1 socket. nw_connect net addr = Inr s0 \<and> nw_set_nodelay net True s0 = Inr s1 \<and>
        nw_set_keepalive net (60 * 10 ^ 9, 20 * 10 ^ 9, 3) s1 = Inr socket \<and>
        (kind = Plain \<and> stream = PlainStream socket \<or>
         (\<exists>name trust sni tls. kind = Tls name trust \<and> nw_server_name net name = Inr sni \<and>
           nw_tls net trust sni socket = Inr tls \<and> stream = TlsStream tls)))) \<and>
    (\<forall>k. kind \<noteq> TlsFailClosed \<and> nw_connect net addr = Inl (IoSystem k) \<longrightarrow>
      outcome = Inl (OtherIo k) \<and> (is_retriable_transport (OtherIo k) \<longleftrightarrow> is_transient_io_kind k)) \<and>
    (\<forall>name trust socket e. kind = Tls name trust \<and> connect_socket net addr = Inr socket \<and> nw_server_name net name = Inl e \<longrightarrow>
      (\<exists>err. outcome = Inl err \<and> \<not> is_retriable_transport err))"
proof -
  have opened: "exchange stream cfg = Inr hello \<and>
      (\<exists>s0 s1 socket. nw_connect net addr = Inr s0 \<and> nw_set_nodelay net True s0 = Inr s1 \<and>
        nw_set_keepalive net (60 * 10 ^ 9, 20 * 10 ^ 9, 3) s1 = Inr socket \<and>
        (kind = Plain \<and> stream = PlainStream socket \<or>
         (\<exists>name trust sni tls. kind = Tls name trust \<and> nw_server_name net name = Inr sni \<and>
           nw_tls net trust sni socket = Inr tls \<and> stream = TlsStream tls)))"
    if "outcome = Inr (stream, hello)" for stream hello
    using that assms
    by (cases kind) (auto simp: connect_defs tri_eq_Inr io_tri_eq_Inr map_sum_eq_Inr
        TCP_KEEPALIVE_IDLE_def TCP_KEEPALIVE_INTERVAL_def TCP_KEEPALIVE_RETRIES_def)
  have refused: "outcome = Inl (OtherIo k) \<and> (is_retriable_transport (OtherIo k) \<longleftrightarrow> is_transient_io_kind k)"
    if "kind \<noteq> TlsFailClosed" "nw_connect net addr = Inl (IoSystem k)" for k
    using that assms
    by (cases kind) (auto simp: connect_defs io_tri_def error_from_io_def is_retriable_transport_def is_retriable_def)
  have "\<exists>err. outcome = Inl err \<and> \<not> is_retriable_transport err"
    if "kind = Tls name trust" "connect_socket net addr = Inr socket" "nw_server_name net name = Inl e" for name trust socket e
    using that assms by (auto simp: connect_tls_def open_handshaken_def custom_final)
  with opened refused show ?thesis by blast
qed

definition loopback :: "(nat, nat, string, nat, string) socket_api" where
  "loopback = \<lparr> nw_connect = (\<lambda>a. if a = 0 then Inl (IoSystem ConnectionRefused) else Inr a), nw_set_nodelay = (\<lambda>_. Inr),
    nw_set_keepalive = (\<lambda>_. Inr), nw_server_name = (\<lambda>n. if n = [] then Inl ''empty'' else Inr n),
    nw_tls = (\<lambda>c n s. Inr (''tls:'' @ n)), nw_quoted = (\<lambda>s. s) \<rparr>"

theorem transport_as_configured_witness:
  "open_handshaken (connect_plain loopback) (connect_tls loopback) (\<lambda>_ _. Inl TimedOut) 0 (Tls ''db'' 1) handshake_default =
      Inl (OtherIo ConnectionRefused) \<and> is_retriable_transport (OtherIo ConnectionRefused)"
proof -
  have "nw_connect loopback 0 = Inl (IoSystem ConnectionRefused)" by (simp add: loopback_def)
  with transport_as_configured [of loopback "\<lambda>_ _. Inl TimedOut" 0 "Tls ''db'' 1" handshake_default _, OF refl]
  show ?thesis by (simp add: is_transient_io_kind_def)
qed

end
