(* ===== verification/HttpClient.thy ===== *)
theory HttpClient
  imports Exceptions
begin

text \<open>
  What the crate adds to the HTTP client of another crate: the statement controls of src/src/ext.rs and the conversion of
  that client's errors in src/src/error.rs.  The client and its queries are arguments; of its error type the model has
  the variants the conversion names.
\<close>

section \<open>Errors\<close>

datatype upstream_error =
    UpInvalidParams string | UpNetwork string | UpCompression string | UpDecompression string
  | UpRowNotFound | UpSequenceMustHaveLength | UpDeserializeAnyNotSupported | UpNotEnoughData | UpInvalidUtf8Encoding
  | UpInvalidTagEncoding nat | UpVariantDiscriminatorIsOutOfBound nat | UpCustom string | UpBadResponse string | UpTimedOut
  | UpInvalidColumnsHeader string | UpSchemaMismatch string | UpUnsupported string | UpUnnamed string

definition error_from_upstream :: "upstream_error \<Rightarrow> error" where
  "error_from_upstream e = (case e of
     UpInvalidParams s \<Rightarrow> InvalidParams s | UpNetwork s \<Rightarrow> Network s | UpCompression s \<Rightarrow> Compression s
   | UpDecompression s \<Rightarrow> Decompression s | UpRowNotFound \<Rightarrow> RowNotFound | UpSequenceMustHaveLength \<Rightarrow> SequenceMustHaveLength
   | UpDeserializeAnyNotSupported \<Rightarrow> DeserializeAnyNotSupported | UpNotEnoughData \<Rightarrow> NotEnoughData
   | UpInvalidUtf8Encoding \<Rightarrow> InvalidUtf8Encoding | UpInvalidTagEncoding n \<Rightarrow> InvalidTagEncoding n
   | UpVariantDiscriminatorIsOutOfBound n \<Rightarrow> VariantDiscriminatorIsOutOfBound n | UpCustom s \<Rightarrow> Custom s
   | UpBadResponse s \<Rightarrow> BadResponse (ResponseBody s) | UpTimedOut \<Rightarrow> TimedOut | UpInvalidColumnsHeader s \<Rightarrow> InvalidColumnsHeader s
   | UpSchemaMismatch s \<Rightarrow> SchemaMismatch s | UpUnsupported s \<Rightarrow> Unsupported s | UpUnnamed s \<Rightarrow> OtherText s)"

definition exception_parse :: "upstream_error \<Rightarrow> parsed_exception option" where
  "exception_parse e = (case e of UpBadResponse body \<Rightarrow> parse_exception body | _ \<Rightarrow> None)"

section \<open>Statement controls\<close>

record ('c, 'q) http_api =
  api_query :: "'c \<Rightarrow> string \<Rightarrow> 'q"
  api_bind :: "'q \<Rightarrow> string \<Rightarrow> 'q"
  api_execute :: "'q \<Rightarrow> upstream_error + unit"
  api_with_setting :: "'c \<Rightarrow> string \<Rightarrow> string \<Rightarrow> 'c"

definition ext_ping :: "('c, 'q) http_api \<Rightarrow> 'c \<Rightarrow> upstream_error + unit" where
  "ext_ping api client = api_execute api (api_query api client ''SELECT 1'')"

definition ext_kill_query :: "('c, 'q) http_api \<Rightarrow> 'c \<Rightarrow> string \<Rightarrow> upstream_error + unit" where
  "ext_kill_query api client query_id =
    api_execute api (api_bind api (api_query api client ''KILL QUERY WHERE query_id = ? SYNC'') query_id)"

definition ext_with_query_id :: "('c, 'q) http_api \<Rightarrow> 'c \<Rightarrow> string \<Rightarrow> 'c" where
  "ext_with_query_id api client query_id = api_with_setting api client ''query_id'' query_id"

definition ext_with_session_id :: "('c, 'q) http_api \<Rightarrow> 'c \<Rightarrow> string \<Rightarrow> 'c" where
  "ext_with_session_id api client session_id = api_with_setting api client ''session_id'' session_id"

definition ext_with_role :: "('c, 'q) http_api \<Rightarrow> 'c \<Rightarrow> string \<Rightarrow> 'c" where
  "ext_with_role api client role = api_with_setting api client ''role'' role"

section \<open>What is kept of a rejection\<close>

text \<open>The conversion keeps the variants apart, except that an unnamed one is only its text.\<close>

lemma error_from_upstream_inj: "error_from_upstream d = error_from_upstream e \<Longrightarrow> d = e"
  by (cases d; cases e) (auto simp: error_from_upstream_def)

text \<open>
  A rejection over HTTP reaches this crate's error type as text: whatever its code, the converted error is not retriable,
  and only the parser of the body recovers the code and with it the classification of the server.
\<close>

lemma http_rejection_needs_parser:
  assumes "- (2 ^ 31) \<le> code" "code < 2 ^ 31" "CHR ''E'' \<notin> set kind" "name \<noteq> []" "shouty name"
    and "msg \<noteq> []" "visible (hd msg)" "visible (last msg)" "last msg \<notin> set '':.,''" "\<forall>c\<in>set punct. c \<in> set '':.,''"
    and "\<not> contains ''Stack trace:'' msg" "\<not> contains ''(version '' (version @ '')'')"
  shows "\<not> is_retriable_transport (error_from_upstream (UpBadResponse (exception_body code kind msg punct name version))) \<and>
    (\<exists>x. exception_parse (UpBadResponse (exception_body code kind msg punct name version)) = Some x \<and>
      exception_is_retriable x = is_retriable_code code)"
  using parse_exception_body [OF assms]
  by (simp add: error_from_upstream_def is_retriable_transport_def is_retriable_def exception_parse_def exception_is_retriable_def)

end
