(* ===== verification/TestDouble.thy ===== *)
theory TestDouble
  imports PacketExchange
begin

text \<open>
  The scripted server the TCP unit tests run against, src/src/tcp/mock.rs: its half of the handshake and the data packets
  it writes.  What the tests exercise is the protocol: the client's handshake completes against it, and its packets are
  packets of a server at the revision it announces.
\<close>

section \<open>Handshake\<close>

text \<open>A failed assertion or read ends the test.\<close>

definition asserted :: "bool \<Rightarrow> unit rd" where
  "asserted b = (if b then rret () else rfail (Custom ''assertion failed''))"

definition mock_reads_hello :: "unit rd" where
  "mock_reads_hello =
    rbind read_var_uint (\<lambda>pid. rbind (asserted (pid = client_id ClientHello)) (\<lambda>_.
    rbind read_utf8_string (\<lambda>name. rbind (asserted (name = CLIENT_NAME)) (\<lambda>_.
    rbind read_var_uint (\<lambda>major. rbind read_var_uint (\<lambda>minor.
    rbind read_var_uint (\<lambda>revision. rbind (asserted (revision = DBMS_TCP_PROTOCOL_VERSION)) (\<lambda>_.
    rbind read_utf8_string (\<lambda>database. rbind read_utf8_string (\<lambda>user. rbind read_utf8_string (\<lambda>password.
      rret ())))))))))))"

definition mock_hello :: "byte list" where
  "mock_hello =
    put_var_uint 0 @ put_text ''mock-ch'' @ put_var_uint 25 @ put_var_uint 4 @ put_var_uint DBMS_TCP_PROTOCOL_VERSION @
    put_var_uint 0 @ put_text ''Etc/UTC'' @ put_text ''mock'' @ put_var_uint 7 @
    put_text ''notchunked'' @ put_text ''notchunked'' @ put_var_uint 0 @ replicate 8 0"

definition mock_reads_addendum :: "unit rd" where
  "mock_reads_addendum =
    rbind read_utf8_string (\<lambda>quota. rbind read_utf8_string (\<lambda>sending. rbind read_utf8_string (\<lambda>receiving.
    rbind read_var_uint (\<lambda>replicas. rret ()))))"

text \<open>
  The greeting is read and checked, the answer sent, and the addendum read without a look at it; when that read fails
  the failure is ignored, and what is left in the socket is unknown.
\<close>

definition serve_one_handshake :: "byte list \<Rightarrow> byte list \<Rightarrow> (byte list \<times> byte list option) result" where
  "serve_one_handshake greeting addendum =
    (case mock_reads_hello greeting of
       Inl e \<Rightarrow> Inl e
     | Inr (_, rest) \<Rightarrow> Inr (mock_hello, case mock_reads_addendum (rest @ addendum) of Inl _ \<Rightarrow> None | Inr (_, left) \<Rightarrow> Some left))"

section \<open>Data packets\<close>

definition write_data_header :: "u64 \<Rightarrow> u64 \<Rightarrow> byte list" where
  "write_data_header num_columns num_rows =
    put_var_uint 1 @ put_string [] @ put_var_uint 1 @ [0] @ put_var_uint 2 @ le_bytes 4 (2 ^ 32 - 1) @ put_var_uint 0 @
    put_var_uint num_columns @ put_var_uint num_rows"

definition write_schema_block :: "(string \<times> string) list \<Rightarrow> byte list" where
  "write_schema_block columns =
    write_data_header (of_nat (length columns)) 0 @ concat (map (\<lambda>(name, ty). put_text name @ put_text ty @ [0]) columns)"

definition write_uint64_payload_block :: "u64 list \<Rightarrow> byte list" where
  "write_uint64_payload_block vs =
    write_data_header 1 (of_nat (length vs)) @ put_text ''n'' @ put_text ''UInt64'' @ [0] @ concat (map (\<lambda>v. le_bytes 8 (unat v)) vs)"

definition write_string_payload_block :: "(string \<times> string list) list \<Rightarrow> byte list" where
  "write_string_payload_block columns =
    (let rows = (case columns of [] \<Rightarrow> 0 | (_, vs) # _ \<Rightarrow> length vs)
     in write_data_header (of_nat (length columns)) (of_nat rows) @
       concat (map (\<lambda>(name, vs). put_text name @ put_text ''String'' @ [0] @ concat (map put_text vs)) columns))"

section \<open>A server of its revision\<close>

abbreviation mock_revision :: u64 where "mock_revision \<equiv> DBMS_TCP_PROTOCOL_VERSION"

definition mock_server :: ServerHello where
  "mock_server = \<lparr> sh_server_name = ''mock-ch'', sh_version = (25, 4, 7), sh_revision = mock_revision,
    sh_timezone = Some ''Etc/UTC'', sh_display_name = Some ''mock'' \<rparr>"

lemma mock_hello_bytes:
  "mock_hello = put_var_uint 0 @ hello_bytes mock_server 0 (''notchunked'', ''notchunked'') [] (replicate 8 0)"
  by (simp add: mock_hello_def hello_bytes_def mock_server_def revision_defs)

lemma mock_wf: "wf_hello mock_server (''notchunked'', ''notchunked'') [] (replicate 8 0)"
  by (simp add: wf_hello_def mock_server_def revision_defs Let_def announced_def as_bytes_def MAX_STRING_SIZE_def)

lemma data_header: "write_data_header nc nr = put_var_uint 1 @ header_bytes mock_revision [] 0 (2 ^ 32 - 1) nc nr"
  by (simp add: write_data_header_def header_bytes_def revision_defs as_bytes_def)

lemma mock_handshake:
  assumes "announced (hc_database cfg)" "announced (hc_user cfg)" "announced (hc_password cfg)" "announced (hc_quota_key cfg)"
  shows "\<exists>greeting addendum. handshake b cfg (mock_hello @ rest) = (greeting, Inr (mock_server, addendum, rest)) \<and>
    serve_one_handshake greeting addendum = Inr (mock_hello, Some [])"
proof -
  let ?greeting = "send_hello b (hc_database cfg) (hc_user cfg) (hc_password cfg)"
  let ?addendum = "send_addendum mock_revision (hc_quota_key cfg)"
  have hello: "mock_reads_hello (?greeting @ u) = Inr ((), u)" for u
    using assms by (simp add: mock_reads_hello_def asserted_def send_hello_def varint_bind text_bind fixed_texts client_id_def rbind_assoc)
  have addendum: "mock_reads_addendum (?addendum @ u) = Inr ((), u)" for u
    using assms by (simp add: mock_reads_addendum_def send_addendum_def Let_def revision_defs varint_bind text_bind fixed_texts)
  have "read_hello (mock_hello @ rest) = Inr (mock_server, rest)"
    by (simp add: mock_hello_bytes read_hello_def varint_bind from_u64_def read_hello_bytes [OF mock_wf])
  then show ?thesis using hello [of "[]"] addendum [of "[]"] by (simp add: handshake_def serve_one_handshake_def mock_server_def)
qed

lemma scalar_written: "scalar t \<Longrightarrow> write_col_prefixes t = [] \<and> column_bytes t cells = concat cells"
  by (cases t) (auto simp: scalar_def fixed_size_def write_col_prefixes.simps column_bytes_def write_col_values.simps)

lemma scalar_payload:
  assumes "list_all2 (\<lambda>col cells. scalar (cs_col_type col) \<and> (\<forall>v\<in>set cells. scalar_cell (cs_col_type col) v)) columns cols"
    and "\<forall>col\<in>set columns. cs_col_type col \<notin> {NewJson, Json} \<and> well_declared col" "columns \<noteq> []" "length columns \<le> READER_MAX_BLOCK_COLUMNS"
    and "\<forall>c\<in>set cols. length c = n" "0 < n" "n \<le> MAX_BLOCK_ROWS" "\<forall>v\<in>set (tuple_cells n cols). length v < 2 ^ 64"
  shows "frame mock_revision (Inr (map (\<lambda>col. (cs_name col, cs_type_name col)) columns, cols, n))
    (write_data_header (of_nat (length columns)) (of_nat n) @
      concat (map2 (\<lambda>col cells. put_text (cs_name col) @ put_text (cs_type_name col) @ [0] @ concat cells) columns cols))"
proof -
  have col: "list_all2 (\<lambda>col cells. column (cs_col_type col) cells) columns cols"
    using assms(1) by (rule list_all2_mono) (auto intro: col_scalar)
  have sections: "map2 (column_section True) columns cols =
      map2 (\<lambda>col cells. put_text (cs_name col) @ put_text (cs_type_name col) @ [0] @ concat cells) columns cols"
    using assms(1,2)
  proof (induction rule: list_all2_induct)
    case (Cons col columns cells cols)
    have "write_col_prefixes (cs_col_type col) = []" "column_bytes (cs_col_type col) cells = concat cells"
      using Cons.hyps(1) by (auto simp: scalar_written)
    then show ?case using Cons by (simp add: column_section_def)
  qed simp
  have "server_block mock_revision columns cols n
      (concat (map2 (\<lambda>col cells. put_text (cs_name col) @ put_text (cs_type_name col) @ [0] @ concat cells) columns cols))"
    unfolding sections [symmetric] using encoded_block [OF col, of n mock_revision] col assms(2-) by (auto simp: server_block_def revision_defs)
  from fr_block [OF _ _ this, of 1 "[]" "2 ^ 32 - 1" 0] assms(2,4)
  show ?thesis unfolding data_header
    by (auto simp: wf_header_def empty_announced sent_name_def READER_MAX_BLOCK_COLUMNS_def unat_u64_of_nat cong: map_cong)
qed

definition mock_column :: "string \<Rightarrow> ColumnType \<Rightarrow> string \<Rightarrow> ColumnSchema" where
  "mock_column name t ty = \<lparr> cs_name = name, cs_type_name = ty, cs_col_type = t \<rparr>"

lemma scalar_declared: "announced name \<Longrightarrow> well_declared (mock_column name UInt64 ''UInt64'') \<and> well_declared (mock_column name String ''String'')"
  using parse_printed_name [of UInt64] parse_printed_name [of String]
  by (simp add: mock_column_def well_declared_def sent_name_def sent_type_def announced_def as_bytes_def MAX_STRING_SIZE_def
      MAX_TYPE_PARSE_DEPTH_def typed.simps levels.simps)

lemma row_short:
  "\<forall>c\<in>set cols. length c = n \<Longrightarrow> v \<in> set (tuple_cells n cols) \<Longrightarrow> length v \<le> length (concat (map concat cols))"
proof -
  assume len: "\<forall>c\<in>set cols. length c = n" and "v \<in> set (tuple_cells n cols)"
  then obtain i where i: "i < n" "v = concat (map (\<lambda>c. c ! i) cols)" by (auto simp: tuple_cells_def)
  have "length (c ! i) \<le> length (concat c)" if "c \<in> set cols" for c
    using nth_mem [of i c] len that i(1) member_le_sum_list [of "length (c ! i)" "map length c"] by (auto simp: length_concat)
  then show ?thesis unfolding i(2) by (induction cols) (auto intro: add_mono)
qed

lemma uint64_frame:
  assumes "vs \<noteq> []" "length vs \<le> MAX_BLOCK_ROWS"
  shows "frame mock_revision (Inr ([(''n'', ''UInt64'')], [map (\<lambda>v. le_bytes 8 (unat v)) vs], length vs)) (write_uint64_payload_block vs)"
proof -
  have "announced ''n''" by (simp add: announced_def as_bytes_def MAX_STRING_SIZE_def)
  from scalar_payload [of "[mock_column ''n'' UInt64 ''UInt64'']" "[map (\<lambda>v. le_bytes 8 (unat v)) vs]" "length vs"] scalar_declared [OF this] assms
  show ?thesis
    by (auto simp: mock_column_def write_uint64_payload_block_def scalar_def scalar_cell_def fixed_size_def READER_MAX_BLOCK_COLUMNS_def tuple_cells_def)
qed

lemma string_scalar: "scalar String" "length w \<le> MAX_STRING_SIZE \<Longrightarrow> scalar_cell String (put_text w)"
  by (simp_all add: scalar_def scalar_cell_def fixed_size_def) (metis as_bytes_def length_map)

lemma string_frame:
  assumes "cs \<noteq> []" "length cs \<le> READER_MAX_BLOCK_COLUMNS" "0 < k" "k \<le> MAX_BLOCK_ROWS"
    and "\<forall>(name, ws)\<in>set cs. announced name \<and> length ws = k \<and> (\<forall>w\<in>set ws. length w \<le> MAX_STRING_SIZE)"
    and "length (write_string_payload_block cs) < 2 ^ 64"
  shows "frame mock_revision (Inr (map (\<lambda>(name, _). (name, ''String'')) cs, map (\<lambda>(_, ws). map put_text ws) cs, k)) (write_string_payload_block cs)"
proof -
  let ?columns = "map (\<lambda>(name, ws). mock_column name String ''String'') cs" and ?cols = "map (\<lambda>(name, ws). map put_text ws) cs"
  have rows: "(case cs of [] \<Rightarrow> 0 | (_, vs) # _ \<Rightarrow> length vs) = k" using assms(1,5) by (cases cs) auto
  have body: "map2 (\<lambda>col cells. put_text (cs_name col) @ put_text (cs_type_name col) @ [0] @ concat cells) ?columns ?cols =
      map (\<lambda>(name, vs). put_text name @ put_text ''String'' @ [0] @ concat (map put_text vs)) cs"
    by (induction cs) (auto simp: mock_column_def)
  have bytes: "write_string_payload_block cs = write_data_header (of_nat (length ?columns)) (of_nat k) @
      concat (map2 (\<lambda>col cells. put_text (cs_name col) @ put_text (cs_type_name col) @ [0] @ concat cells) ?columns ?cols)"
    unfolding body by (simp add: write_string_payload_block_def rows)
  have len: "\<forall>c\<in>set ?cols. length c = k" using assms(5) by auto
  have "length (concat (map concat ?cols)) \<le>
      length (concat (map (\<lambda>(name, vs). put_text name @ put_text ''String'' @ [0] @ concat (map put_text vs)) cs))"
    by (induction cs) auto
  then have "length (concat (map concat ?cols)) \<le> length (write_string_payload_block cs)" unfolding bytes body by simp
  then have short: "\<forall>v\<in>set (tuple_cells k ?cols). length v < 2 ^ 64" using row_short [OF len] assms(6) by fastforce
  have cells: "list_all2 (\<lambda>col cells. scalar (cs_col_type col) \<and> (\<forall>v\<in>set cells. scalar_cell (cs_col_type col) v)) ?columns ?cols"
    using assms(5) by (induction cs) (auto simp: mock_column_def string_scalar)
  have declared: "\<forall>col\<in>set ?columns. cs_col_type col \<notin> {NewJson, Json} \<and> well_declared col"
    using assms(5) scalar_declared by (auto simp: mock_column_def)
  from scalar_payload [OF cells declared _ _ len assms(3,4) short] assms(1,2)
  show ?thesis unfolding bytes by (auto simp: mock_column_def comp_def case_prod_unfold)
qed

lemma schema_frame:
  assumes "\<forall>(n, t)\<in>set cols. announced n \<and> announced t" "length cols \<le> READER_MAX_BLOCK_COLUMNS"
  shows "frame mock_revision (Inl (PkData (Some []) (of_nat (length cols)) 0 cols)) (write_schema_block cols)"
proof -
  have gates: "DBMS_MIN_REVISION_WITH_TEMPORARY_TABLES \<le> mock_revision" "DBMS_MIN_PROTOCOL_VERSION_WITH_CUSTOM_SERIALIZATION \<le> mock_revision"
    by (simp_all add: revision_defs)
  have "wf_header [] (2 ^ 32 - 1) (of_nat (length cols))"
    using assms(2) by (simp add: wf_header_def empty_announced READER_MAX_BLOCK_COLUMNS_def unat_u64_of_nat)
  from fr_schema [OF _ this assms(2,1), of 1 mock_revision 0] gates show ?thesis
    by (simp add: write_schema_block_def data_header schema_bytes_def)
qed

text \<open>
  The server double of the unit tests is a server.  The client's handshake completes against it, for every
  configuration, with each side taking exactly what the other wrote; and the schema, number and string packets it
  writes are read by the packet reader, at the revision it announced, as the columns, rows and cells they were made from.
\<close>

theorem test_double_is_a_server:
  assumes "announced (hc_database cfg)" "announced (hc_user cfg)" "announced (hc_password cfg)" "announced (hc_quota_key cfg)"
    and "\<forall>(n, t)\<in>set cols. announced n \<and> announced t" "length cols \<le> READER_MAX_BLOCK_COLUMNS"
    and "vs \<noteq> []" "length vs \<le> MAX_BLOCK_ROWS"
    and "cs \<noteq> []" "length cs \<le> READER_MAX_BLOCK_COLUMNS" "0 < k" "k \<le> MAX_BLOCK_ROWS"
    and "\<forall>(name, ws)\<in>set cs. announced name \<and> length ws = k \<and> (\<forall>w\<in>set ws. length w \<le> MAX_STRING_SIZE)"
    and "length (write_schema_block cols @ write_uint64_payload_block vs @ write_string_payload_block cs @ rest) < 2 ^ 64"
  shows "(\<exists>greeting addendum. handshake b cfg (mock_hello @ rest) = (greeting, Inr (mock_server, addendum, rest)) \<and>
      serve_one_handshake greeting addendum = Inr (mock_hello, Some [])) \<and>
    (\<exists>packets. read_times 3 (read_packet (sh_revision mock_server))
        (write_schema_block cols @ write_uint64_payload_block vs @ write_string_payload_block cs @ rest) = Inr (packets, rest) \<and>
      map packet_view packets =
        [Inl (PkData (Some []) (of_nat (length cols)) 0 cols),
         Inr ([(''n'', ''UInt64'')], [map (\<lambda>v. le_bytes 8 (unat v)) vs], length vs),
         Inr (map (\<lambda>(name, _). (name, ''String'')) cs, map (\<lambda>(_, ws). map put_text ws) cs, k)])"
proof -
  have "length (write_string_payload_block cs) < 2 ^ 64" using assms(14) by simp
  note frames = schema_frame [OF assms(5,6)] uint64_frame [OF assms(7,8)] string_frame [OF assms(9-13) this]
  have "list_all2 (frame mock_revision)
      [Inl (PkData (Some []) (of_nat (length cols)) 0 cols),
       Inr ([(''n'', ''UInt64'')], [map (\<lambda>v. le_bytes 8 (unat v)) vs], length vs),
       Inr (map (\<lambda>(name, _). (name, ''String'')) cs, map (\<lambda>(_, ws). map put_text ws) cs, k)]
      [write_schema_block cols, write_uint64_payload_block vs, write_string_payload_block cs]"
    using frames by simp
  from pk.read_stream [OF this, of rest] assms(14) mock_handshake [OF assms(1-4)] show ?thesis
    by (simp add: mock_server_def numeral_3_eq_3)
qed

theorem test_double_is_a_server_witness:
  "(\<exists>greeting addendum. handshake example_version handshake_default (mock_hello @ []) = (greeting, Inr (mock_server, addendum, [])) \<and>
      serve_one_handshake greeting addendum = Inr (mock_hello, Some [])) \<and>
   (\<exists>packets. read_times 3 (read_packet (sh_revision mock_server))
        (write_schema_block [(''n'', ''UInt64'')] @ write_uint64_payload_block [7, 9] @
          write_string_payload_block [(''s'', [''a'', ''b''])] @ []) = Inr (packets, []) \<and>
      map packet_view packets =
        [Inl (PkData (Some []) (of_nat (length [(''n'', ''UInt64'')])) 0 [(''n'', ''UInt64'')]),
         Inr ([(''n'', ''UInt64'')], [map (\<lambda>v. le_bytes 8 (unat v)) [7, 9 :: u64]], length [7, 9 :: u64]),
         Inr (map (\<lambda>(name, _). (name, ''String'')) [(''s'', [''a'', ''b''])], map (\<lambda>(_, ws). map put_text ws) [(''s'', [''a'', ''b''])], 2)])"
proof (rule test_double_is_a_server)
  show "length (write_schema_block [(''n'', ''UInt64'')] @ write_uint64_payload_block [7, 9] @
      write_string_payload_block [(''s'', [''a'', ''b''])] @ []) < 2 ^ 64"
    using header_short [of mock_revision "[]" 0 "2 ^ 32 - 1" 1 0] header_short [of mock_revision "[]" 0 "2 ^ 32 - 1" 1 2]
      varint_short [of 1] text_short [of "''n''"] text_short [of "''UInt64''"] text_short [of "''s''"] text_short [of "''a''"]
      text_short [of "''b''"] text_short [of "''String''"]
    by (simp add: write_schema_block_def write_uint64_payload_block_def write_string_payload_block_def data_header)
qed (simp_all add: handshake_default_def announced_def as_bytes_def MAX_STRING_SIZE_def READER_MAX_BLOCK_COLUMNS_def MAX_BLOCK_ROWS_def)

end
