(* ===== verification/Spec2Isabelle.thy ===== *)
theory Spec2Isabelle
  imports DynScalars Truncation InsertErrors Termination DecodedTypes ReferenceReader ServerView Connection Sockets HttpClient TestDouble
begin

text \<open>
  A verification of the ClickHouse client clickhouse-dfe (src/src): the native wire codec, the TCP protocol and its
  connections, and the clients and inserts on top of them.

  \<^bold>\<open>The program.\<close>  The crate speaks ClickHouse's native protocol.  Rows to insert arrive as RowBinary
  bytes and leave as native column blocks (native/encode.rs); result blocks arrive as native columns
  and become either RowBinary cells (native/columns.rs) or typed columns (native/decode.rs).  Both
  directions rest on the wire primitives of native/io.rs, the type names of native/columns.rs and the
  sparse offsets of native/sparse.rs.  Over TCP, blocks travel in packets (tcp/reader.rs, writer.rs) on connections that
  one task each owns (tcp/connection_actor.rs); a pool opens, fails over and recycles them (tcp/pool.rs), and the client
  (tcp/client.rs, client_ext.rs, query.rs) borrows them for statements, streams and INSERT sessions.  The dynamic insert
  (dynamic/) encodes JSON rows against a schema read from the server and writes them through either transport, and
  unified.rs offers both transports as one client.

  \<^bold>\<open>Theories.\<close>
  \<^item> \<open>ColumnEnum\<close>: the enum of column types.  \<open>Prelude\<close>: the error enum of error.rs, results, readers and
    their combinators, little-endian integers, and the locale \<open>wire_codec\<close> of an encoder and a reader
    that are inverse, with its client lemmas (prefix freedom, injectivity, sequences).
  \<^item> \<open>WireIO\<close> (native/io.rs): varints and length-prefixed strings, the stream, slice and end-of-file
    tolerant decoders, the chunked exact read.
  \<^item> \<open>Sparse\<close> (native/sparse.rs): the sparse offset reader on 64-bit words with the state it carries.
  \<^item> \<open>ColumnTypes\<close>, \<open>TypeNames\<close> (native/columns.rs): fixed widths, the parser of type names, and a printer
    it inverts.
  \<^item> \<open>BlockEncode\<close> (native/encode.rs): rows cut into cells, columns written with their prefixes,
    dictionaries and offsets.
  \<^item> \<open>RowBinaryJson\<close>, \<open>ColumnReader\<close> (native/columns.rs): cells rendered as JSON, and every column type
    read from the stream, Variant, Dynamic and JSON included.
  \<^item> \<open>ColumnRoundtrip\<close>: the encoder and the column reader are inverse; blocks are transposed exactly.  \<open>Arrival\<close>: what
    each cell of an inserted column comes back as: itself, or NULL where a nullable dictionary column holds the
    default value of its type, which the encoder gives the index of NULL.
  \<^item> \<open>BlockDecode\<close> (native/decode.rs): typed columns, sparse expansion, serialisation kinds, prefixes,
    whole blocks, and the typed access to columns.
  \<^item> \<open>DecodeAgreement\<close>: the typed decoder and the cell reader agree on every column both read, through
    the locale \<open>column_agreement\<close> interpreted at every nesting depth.
  \<^item> \<open>BlockRoundtrip\<close>: what the encoder writes, the decoder reads back; sparse columns expand to the
    cells they were written from.  \<open>DecodedTypes\<close>: every block that decodes conforms to its schema, and the locale
    \<open>typed_read\<close> of a typed access to a column, interpreted for each of them, says when a read succeeds and with what.
  \<^item> \<open>ReferenceReader\<close> (native/columns.rs): the reader with a prefix walk of its own, kept as a reference for the block
    decoder, which agrees with it on every stream of bytes.
  \<^item> \<open>DynType\<close> (dynamic/parsed_type.rs), \<open>Floats\<close> (the binary64 operations of the language that the encoder
    uses) and \<open>DynEncode\<close> (dynamic/encode.rs): JSON values written as RowBinary under a type parsed at
    run time.
  \<^item> \<open>DynDates\<close>, \<open>DynScalars\<close>: the calendar, exact decimals, date-time text, integers written exactly or
    refused, enum members.
  \<^item> \<open>DynBlock\<close>, \<open>DynRoundtrip\<close>: dynamic values are cells of the declared type, the two type parsers agree,
    and a dynamic insert is read back from the block it becomes.
  \<^item> \<open>Protocol\<close> (tcp/protocol.rs, client_info.rs, writer.rs), \<open>PacketReader\<close> (tcp/reader.rs, handshake.rs),
    \<open>PacketRoundtrip\<close>, \<open>PacketExchange\<close>, \<open>Truncation\<close>: the packets of the TCP protocol at every revision, through the
    locale \<open>framed\<close> of a wire format with several byte forms per value; the handshake; the client's packets as
    the server takes them; text cut at a cap.
  \<^item> \<open>Actor\<close> (tcp/connection_actor.rs, worker.rs), \<open>Cursor\<close> (tcp/cursor.rs, query.rs), \<open>ActorInvariant\<close>,
    \<open>ActorExchange\<close>: the task that owns a connection, with the locale \<open>kept_by\<close> of a property that every step
    keeps; what it has handed to its writer, command by command (\<open>transcript\<close>, and \<open>cut_off\<close> for a command that broke off),
    which packets a command takes, and when commands return.  \<open>Worker\<close> (worker.rs): the
    channel and the task as a system of senders, control and loop.  \<open>Connection\<close>: the actor run by that system, with the
    clones of its handle, the shared poison flag and closing; it refines one machine that answers commands in turn.
  \<^item> \<open>Sockets\<close> (tcp/connect.rs, transport.rs, error.rs): opening a plain or encrypted stream, and errors that pass through
    the system's error type.  \<open>TestDouble\<close> (tcp/mock.rs): the scripted server of the unit tests is a server of its revision.
  \<^item> \<open>Pool\<close> (tcp/pool.rs, connect.rs, retry.rs, error.rs): opening with failover within a budget, recycling, which errors
    are worth a fresh connection, retries.  \<open>Client\<close> (tcp/client_ext.rs): what a borrower does with a connection and
    leaves behind, with the locale \<open>composable\<close> of a relation that sequences of actions keep.  \<open>Builder\<close> (tls.rs,
    tcp/client.rs): trust, builders and the pool they imply.  \<open>Queries\<close> (tcp/client.rs, query.rs): staged statements,
    when they are repeated, and that a stream that has started never is.
  \<^item> \<open>SchemaCache\<close> (dynamic/schema.rs) with the locale \<open>schema_store\<close> of what an insert relies on, \<open>Exceptions\<close> and
    \<open>HttpClient\<close> (ext.rs, error.rs), \<open>DynInsert\<close> (dynamic/insert.rs), \<open>InsertDelivery\<close>,
    \<open>InsertErrors\<close>: schemas and their cache, exception bodies, and dynamic inserts: every accepted row is delivered once and
    in order, errors are classified by their code, a stale schema is replaced.  \<open>ServerView\<close> joins encoder, transposition,
    packets, connection and insert: what was accepted is what the server reads.
  \<^item> \<open>Unified\<close> (unified.rs): both transports behind one client, which read the same blocks alike.  \<open>ReaderProgress\<close>,
    \<open>Termination\<close>: every reader moves forward only, so that the reader task and the loop over a Native body end on
    every input.

  \<^bold>\<open>How the code is read.\<close>  An async reader is a function from the bytes the peer still delivers to an
  error or a value and the bytes left.  The host has 64-bit words.  \<open>Error::BadResponse\<close> messages are
  the constructors of \<open>reason\<close>, with the interpolated values as arguments.  Recursion of the code that
  is bounded by a depth counter is recursion on the levels that are left: 33 of them at depth 0, since
  depth 32 is still allowed.  The reader task runs for a number of turns, and more turns
  than the bytes it is given change nothing; the loop over a Native body is a partial function that is shown to be total;
  every other loop is structural or has a termination proof.  Unsigned arithmetic that the code leaves unchecked wraps.

  \<^bold>\<open>The surroundings.\<close>  What other crates do is an argument of the definitions that use it: the HTTP client, the
  resolver and the sockets, the retry loop (with what its documentation promises as a hypothesis, which the documented
  loop spelled out satisfies), the queue of the pool, certificates and TLS configurations, the escaping of SQL, the texts
  of errors.  Time is a number of nanoseconds; what happens while a handler waits is a list of events.  The wire of a
  connection is what its buffered writer was handed; the socket has been given a prefix of it, all of it after every
  write that succeeded.

  \<^bold>\<open>Not modelled.\<close>  Failing allocations (\<open>with_cap\<close>, \<open>alloc_refused\<close>): the allocator is taken to back every
  request.  The capacities of the packet channels, which delay: a stream whose cursor stops reading for good is a handler
  that does not return, and the send of its last frame is taken to end.  The instant at which a call to close waits for a
  handler at work: the state after it is modelled.  The panics of a worker task; tracing; the texts of \<open>Display\<close> and
  \<open>Debug\<close>; the module lists.
\<close>

end
